(* ===== verification/Go_Prelude.thy ===== *)
theory Go_Prelude
  imports Main "HOL-Library.Word" "HOL-Library.Signed_Division"
begin

text \<open>
  The part of Go's language and standard library that the payment API relies on:
  byte strings with UTF-8 decoding (\<open>range\<close> over a string, \<open>utf8.RuneCountInString\<close>),
  \<open>strings.TrimSpace\<close>, \<open>strings.ToUpper\<close> and \<open>ToLower\<close>, \<open>strconv.Itoa\<close>,
  \<open>hex.DecodeString\<close>, \<open>time.Time\<close>, \<open>time.Duration\<close>, and error values with the
  wrapping that \<open>errors.Is\<close> and \<open>errors.As\<close> look through.  The lemmas at the end
  of each section are the ones that several components share.

  A Go string is a sequence of bytes; a HOL \<open>char\<close> is one byte, so \<open>string\<close> is the
  Go type, \<open>length\<close> is Go's \<open>len\<close> and indexing reads a byte.
\<close>

section \<open>Collections of facts\<close>

named_theorems go_string \<open>facts about the string functions of the standard library\<close>
named_theorems go_error_simps \<open>how errors.Is and errors.As see through wrapping\<close>

section \<open>Bytes and runes\<close>

type_synonym rune = nat

definition byte :: "char \<Rightarrow> nat" where
  "byte c = of_char c"

definition rune_error :: rune where
  "rune_error = 0xFFFD"

definition cont_byte :: "nat \<Rightarrow> bool" where
  "cont_byte b \<longleftrightarrow> 0x80 \<le> b \<and> b \<le> 0xBF"

text \<open>The accepted range of the second byte, by first byte (\<open>utf8.acceptRanges\<close>).\<close>

definition second_ok :: "nat \<Rightarrow> nat \<Rightarrow> bool" where
  "second_ok b0 b1 \<longleftrightarrow>
     (if b0 = 0xE0 then 0xA0 \<le> b1 \<and> b1 \<le> 0xBF
      else if b0 = 0xED then 0x80 \<le> b1 \<and> b1 \<le> 0x9F
      else if b0 = 0xF0 then 0x90 \<le> b1 \<and> b1 \<le> 0xBF
      else if b0 = 0xF4 then 0x80 \<le> b1 \<and> b1 \<le> 0x8F
      else cont_byte b1)"

text \<open>
  \<open>utf8.DecodeRuneInString\<close>: the first rune and its width in bytes.  Invalid or
  truncated input is \<open>RuneError\<close> of width 1, and the empty string has width 0.
\<close>

fun decode_rune :: "string \<Rightarrow> rune \<times> nat" where
  "decode_rune [] = (rune_error, 0)"
| "decode_rune (c0 # cs) =
     (let b0 = byte c0 in
      if b0 < 0x80 then (b0, 1)
      else if b0 < 0xC2 \<or> 0xF4 < b0 then (rune_error, 1)
      else (case cs of
        [] \<Rightarrow> (rune_error, 1)
      | c1 # cs1 \<Rightarrow>
          (let b1 = byte c1 in
           if \<not> second_ok b0 b1 then (rune_error, 1)
           else if b0 < 0xE0 then ((b0 - 0xC0) * 64 + (b1 - 0x80), 2)
           else (case cs1 of
             [] \<Rightarrow> (rune_error, 1)
           | c2 # cs2 \<Rightarrow>
               (let b2 = byte c2 in
                if \<not> cont_byte b2 then (rune_error, 1)
                else if b0 < 0xF0
                  then ((b0 - 0xE0) * 4096 + (b1 - 0x80) * 64 + (b2 - 0x80), 3)
                else (case cs2 of
                  [] \<Rightarrow> (rune_error, 1)
                | c3 # cs3 \<Rightarrow>
                    (let b3 = byte c3 in
                     if \<not> cont_byte b3 then (rune_error, 1)
                     else ((b0 - 0xF0) * 262144 + (b1 - 0x80) * 4096
                           + (b2 - 0x80) * 64 + (b3 - 0x80), 4))))))))"

text \<open>The runes that \<open>range\<close> over a string delivers, in order.\<close>

function runes :: "string \<Rightarrow> rune list" where
  "runes [] = []"
| "runes (c # cs) =
     (let (r, w) = decode_rune (c # cs) in r # runes (drop (w - 1) cs))"
  by pat_completeness auto
termination
  by (relation "measure length") auto

text \<open>\<open>utf8.RuneCountInString\<close>\<close>

definition rune_count :: "string \<Rightarrow> nat" where
  "rune_count s = length (runes s)"

text \<open>\<open>utf8.ValidString\<close>: no position decodes as an error of width 1.\<close>

function valid_utf8 :: "string \<Rightarrow> bool" where
  "valid_utf8 [] = True"
| "valid_utf8 (c # cs) =
     (let (r, w) = decode_rune (c # cs) in
      \<not> (r = rune_error \<and> w = 1) \<and> valid_utf8 (drop (w - 1) cs))"
  by pat_completeness auto
termination
  by (relation "measure length") auto

text \<open>\<open>unicode.IsSpace\<close> and \<open>unicode.IsControl\<close> (category Cc).\<close>

definition is_space :: "rune \<Rightarrow> bool" where
  "is_space r \<longleftrightarrow>
     (9 \<le> r \<and> r \<le> 13) \<or> r = 0x20 \<or> r = 0x85 \<or> r = 0xA0 \<or> r = 0x1680
     \<or> (0x2000 \<le> r \<and> r \<le> 0x200A) \<or> r = 0x2028 \<or> r = 0x2029 \<or> r = 0x202F
     \<or> r = 0x205F \<or> r = 0x3000"

definition is_control :: "rune \<Rightarrow> bool" where
  "is_control r \<longleftrightarrow> r < 0x20 \<or> (0x7F \<le> r \<and> r < 0xA0)"

definition ascii :: "char \<Rightarrow> bool" where
  "ascii c \<longleftrightarrow> byte c < 0x80"

lemma decode_rune_ascii [go_string]:
  "ascii c \<Longrightarrow> decode_rune (c # cs) = (byte c, 1)"
  by (simp add: ascii_def)

declare decode_rune.simps(2) [simp del]

lemma runes_ascii_Cons [go_string]:
  "ascii c \<Longrightarrow> runes (c # cs) = byte c # runes cs"
  by (simp add: decode_rune_ascii)

lemma runes_ascii: "list_all ascii s \<Longrightarrow> runes s = map byte s"
  by (induction s) (simp_all add: runes_ascii_Cons del: runes.simps(2))

lemma decode_rune_width_pos: "1 \<le> snd (decode_rune (c # cs))"
  by (simp add: decode_rune.simps(2) Let_def split: list.splits)

lemma second_ok_ge: "second_ok b0 b1 \<Longrightarrow> 128 \<le> b1"
  by (auto simp: second_ok_def cont_byte_def split: if_splits)

lemma second_ok_three:
  "second_ok b0 b1 \<Longrightarrow> 224 \<le> b0 \<Longrightarrow> 128 \<le> (b0 - 224) * 4096 + (b1 - 128) * 64"
  by (cases "b0 = 224") (auto simp: second_ok_def)

lemma second_ok_four:
  "second_ok b0 b1 \<Longrightarrow> 240 \<le> b0 \<Longrightarrow> 128 \<le> (b0 - 240) * 262144 + (b1 - 128) * 4096"
  by (cases "b0 = 240") (auto simp: second_ok_def)

lemma decode_rune_non_ascii:
  "\<not> ascii c \<Longrightarrow> 128 \<le> fst (decode_rune (c # cs))"
  using second_ok_three [of "byte c"] second_ok_four [of "byte c"]
  by (auto simp: decode_rune.simps(2) Let_def rune_error_def ascii_def not_less
      intro: trans_le_add1 split: list.splits)

lemma ascii_decode_rune: "fst (decode_rune (c # cs)) < 128 \<longleftrightarrow> ascii c"
  using decode_rune_non_ascii [of c cs] by (cases "ascii c") (auto simp: go_string ascii_def)

text \<open>A test on runes that only ASCII runes pass is a test on the bytes.\<close>

lemma list_all_runes:
  assumes P: "\<And>r. P r \<Longrightarrow> r < 128"
  shows "list_all P (runes s) \<longleftrightarrow> list_all (\<lambda>c. P (byte c)) s"
proof (induction s rule: runes.induct)
  case (2 c cs)
  show ?case
  proof (cases "ascii c")
    case True
    with 2 [of "(byte c, 1)"] show ?thesis by (simp add: go_string)
  next
    case False
    then have "\<not> P (fst (decode_rune (c # cs)))" "\<not> P (byte c)"
      using P decode_rune_non_ascii [of c cs] by (fastforce simp: ascii_def)+
    then show ?thesis by (simp add: split_beta)
  qed
qed simp

end
