(* ===== verification/Go_Strings.thy ===== *)
theory Go_Strings
  imports Go_Prelude
begin

text \<open>
  The functions of Go's \<open>strings\<close>, \<open>strconv\<close> and \<open>encoding/hex\<close> packages that the
  payment API calls.  Case mapping of runes beyond ASCII reads the Unicode tables of the
  Go distribution; they are data that the repository does not hold, so they are a
  parameter (\<open>unicode_tables\<close>), and no theorem assumes anything about them.
\<close>

section \<open>Trimming white space\<close>

text \<open>\<open>utf8.DecodeLastRuneInString\<close>: look back for a start byte, at most four bytes.\<close>

definition decode_last_rune :: "string \<Rightarrow> rune \<times> nat" where
  "decode_last_rune s =
     (if s = [] then (rune_error, 0)
      else if ascii (last s) then (byte (last s), 1)
      else case List.find
             (\<lambda>k. k \<le> length s \<and> \<not> cont_byte (byte (s ! (length s - k)))) [2, 3, 4] of
             None \<Rightarrow> (rune_error, 1)
           | Some k \<Rightarrow>
               (let (r, w) = decode_rune (drop (length s - k) s)
                in if w = k then (r, k) else (rune_error, 1)))"

lemma decode_last_rune_pos: "s \<noteq> [] \<Longrightarrow> 1 \<le> snd (decode_last_rune s)"
  by (auto simp: decode_last_rune_def split: option.splits prod.splits)

function trim_left :: "string \<Rightarrow> string" where
  "trim_left [] = []"
| "trim_left (c # cs) =
     (let (r, w) = decode_rune (c # cs) in
      if is_space r then trim_left (drop (w - 1) cs) else c # cs)"
  by pat_completeness auto
termination
  by (relation "measure length") auto

function trim_right :: "string \<Rightarrow> string" where
  "trim_right s =
     (if s = [] then []
      else let (r, w) = decode_last_rune s in
           if is_space r then trim_right (take (length s - w) s) else s)"
  by pat_completeness auto
termination
proof (relation "measure length", goal_cases)
  case (2 s x r w)
  then have "w = snd (decode_last_rune s)" by (metis snd_conv)
  with 2 show ?case using decode_last_rune_pos [of s] by (cases s) auto
qed simp

declare trim_right.simps [simp del]

text \<open>\<open>strings.TrimSpace\<close>\<close>

definition trim_space :: "string \<Rightarrow> string" where
  "trim_space s = trim_right (trim_left s)"

lemma length_trim_left: "length (trim_left s) \<le> length s"
proof (induction s rule: trim_left.induct)
  case (2 c cs)
  obtain r w where "decode_rune (c # cs) = (r, w)" by fastforce
  with 2 show ?case by (fastforce intro: le_trans)
qed simp

lemma length_trim_right: "length (trim_right s) \<le> length s"
proof (induction s rule: trim_right.induct)
  case (1 s)
  obtain r w where "decode_last_rune s = (r, w)" by fastforce
  with 1 show ?case by (subst trim_right.simps) (fastforce intro: le_trans)
qed

lemma length_trim_space [go_string]: "length (trim_space s) \<le> length s"
  unfolding trim_space_def using length_trim_left length_trim_right by (rule le_trans [rotated])

lemma trim_space_Nil [simp]: "trim_space [] = []"
  by (simp add: trim_space_def trim_right.simps)

lemma trim_right_step:
  "s \<noteq> [] \<Longrightarrow> decode_last_rune s = (r, w) \<Longrightarrow>
   trim_right s = (if is_space r then trim_right (take (length s - w) s) else s)"
  by (subst trim_right.simps) simp

lemma last_trim_right: "trim_right s \<noteq> [] \<Longrightarrow> last (trim_right s) \<noteq> CHR '' ''"
proof (induction s rule: trim_right.induct)
  case (1 s)
  show ?case
  proof (cases "s = []")
    case True
    with 1(2) show ?thesis by (simp add: trim_right.simps)
  next
    case False
    obtain r w where e: "decode_last_rune s = (r, w)" by (cases "decode_last_rune s")
    show ?thesis
    proof (cases "is_space r")
      case True
      with 1(1) [OF False e [symmetric] refl True] 1(2) show ?thesis
        by (simp add: trim_right_step [OF False e])
    next
      case sp: False
      have "last s \<noteq> CHR '' ''"
      proof
        assume "last s = CHR '' ''"
        with False have "decode_last_rune s = (32, 1)"
          unfolding decode_last_rune_def by (simp add: ascii_def byte_def)
        with e sp show False by (simp add: is_space_def)
      qed
      with sp show ?thesis by (simp add: trim_right_step [OF False e])
    qed
  qed
qed

lemma trim_space_not_blank:
  assumes "trim_space s \<noteq> []" shows "list_ex (\<lambda>c. c \<noteq> CHR '' '') (trim_space s)"
proof -
  have "last (trim_space s) \<noteq> CHR '' ''"
    using assms unfolding trim_space_def by (rule last_trim_right)
  with last_in_set [OF assms] show ?thesis unfolding list_ex_iff by blast
qed

lemma length_runes: "length (runes s) \<le> length s"
proof (induction s rule: runes.induct)
  case (2 c cs)
  obtain r w where e: "decode_rune (c # cs) = (r, w)" by (cases "decode_rune (c # cs)")
  from 2 [OF e [symmetric] refl] have "length (runes (drop (w - 1) cs)) \<le> length cs" by simp
  then show ?case by (simp add: e)
qed simp

text \<open>A string that neither begins nor ends with a space byte or a non-ASCII byte is untouched.\<close>

definition plain_byte :: "char \<Rightarrow> bool" where
  "plain_byte c \<longleftrightarrow> ascii c \<and> \<not> is_space (byte c)"

lemma trim_space_plain [go_string]:
  assumes "plain_byte (hd s)" and "plain_byte (last s)"
  shows "trim_space s = s"
proof (cases s)
  case (Cons c cs)
  with assms have "trim_left s = s" by (simp add: plain_byte_def go_string)
  with assms Cons show ?thesis
    by (simp add: trim_space_def trim_right.simps decode_last_rune_def plain_byte_def)
qed simp

section \<open>Case mapping\<close>

record unicode_tables =
  uni_upper :: "rune \<Rightarrow> rune"
  uni_lower :: "rune \<Rightarrow> rune"

definition encode_rune :: "rune \<Rightarrow> string" where
  "encode_rune r0 =
     (let r = (if (0xD800 \<le> r0 \<and> r0 \<le> 0xDFFF) \<or> 0x10FFFF < r0 then rune_error else r0) in
      if r < 0x80 then [char_of r]
      else if r < 0x800 then [char_of (0xC0 + r div 64), char_of (0x80 + r mod 64)]
      else if r < 0x10000
        then [char_of (0xE0 + r div 4096), char_of (0x80 + r div 64 mod 64), char_of (0x80 + r mod 64)]
      else [char_of (0xF0 + r div 262144), char_of (0x80 + r div 4096 mod 64),
            char_of (0x80 + r div 64 mod 64), char_of (0x80 + r mod 64)])"

definition upper_rune :: "'a unicode_tables_scheme \<Rightarrow> rune \<Rightarrow> rune" where
  "upper_rune ut r = (if r < 0x80 then (if 97 \<le> r \<and> r \<le> 122 then r - 32 else r) else uni_upper ut r)"

definition lower_rune :: "'a unicode_tables_scheme \<Rightarrow> rune \<Rightarrow> rune" where
  "lower_rune ut r = (if r < 0x80 then (if 65 \<le> r \<and> r \<le> 90 then r + 32 else r) else uni_lower ut r)"

text \<open>\<open>strings.ToUpper\<close>, \<open>strings.ToLower\<close> (\<open>strings.Map\<close> with the case mapping)\<close>

definition to_upper :: "'a unicode_tables_scheme \<Rightarrow> string \<Rightarrow> string" where
  "to_upper ut s = concat (map (\<lambda>r. encode_rune (upper_rune ut r)) (runes s))"

definition to_lower :: "'a unicode_tables_scheme \<Rightarrow> string \<Rightarrow> string" where
  "to_lower ut s = concat (map (\<lambda>r. encode_rune (lower_rune ut r)) (runes s))"

definition ascii_lower :: "char \<Rightarrow> char" where
  "ascii_lower c = (if 65 \<le> byte c \<and> byte c \<le> 90 then char_of (byte c + 32) else c)"

definition ascii_upper :: "char \<Rightarrow> char" where
  "ascii_upper c = (if 97 \<le> byte c \<and> byte c \<le> 122 then char_of (byte c - 32) else c)"

lemma char_of_byte [simp]: "char_of (byte c) = c"
  by (simp add: byte_def)

lemma byte_char_of [simp]: "n < 256 \<Longrightarrow> byte (char_of n) = n"
  by (simp add: byte_def)

lemma byte_less [simp]: "byte c < 256"
  by (simp add: byte_def)

lemma byte_inject [simp]: "byte c = byte d \<longleftrightarrow> c = d"
  by (simp add: byte_def)

lemma encode_lower_ascii:
  "ascii c \<Longrightarrow> encode_rune (lower_rune ut (byte c)) = [ascii_lower c]"
  by (auto simp: encode_rune_def lower_rune_def ascii_def ascii_lower_def Let_def)

lemma encode_upper_ascii:
  "ascii c \<Longrightarrow> encode_rune (upper_rune ut (byte c)) = [ascii_upper c]"
  by (auto simp: encode_rune_def upper_rune_def ascii_def ascii_upper_def Let_def)

lemma to_lower_ascii [go_string]: "list_all ascii s \<Longrightarrow> to_lower ut s = map ascii_lower s"
  by (induction s) (simp_all add: to_lower_def runes_ascii encode_lower_ascii del: runes.simps(2))

lemma to_upper_ascii [go_string]: "list_all ascii s \<Longrightarrow> to_upper ut s = map ascii_upper s"
  by (induction s) (simp_all add: to_upper_def runes_ascii encode_upper_ascii del: runes.simps(2))

section \<open>Decimal integers\<close>

definition digit_char :: "nat \<Rightarrow> char" where
  "digit_char d = char_of (48 + d)"

definition is_digit :: "char \<Rightarrow> bool" where
  "is_digit c \<longleftrightarrow> 48 \<le> byte c \<and> byte c \<le> 57"

fun show_nat :: "nat \<Rightarrow> string" where
  "show_nat n = (if n < 10 then [digit_char n] else show_nat (n div 10) @ [digit_char (n mod 10)])"

declare show_nat.simps [simp del]

text \<open>\<open>strconv.Itoa\<close> and \<open>strconv.FormatInt(_, 10)\<close>\<close>

definition show_int :: "int \<Rightarrow> string" where
  "show_int i = (if i < 0 then ''-'' @ show_nat (nat (- i)) else show_nat (nat i))"

definition read_nat :: "string \<Rightarrow> nat" where
  "read_nat s = foldl (\<lambda>n c. 10 * n + (byte c - 48)) 0 s"

text \<open>\<open>strconv.Atoi\<close> and \<open>strconv.ParseInt(_, 10, 64)\<close>: an optional sign, digits, in range.\<close>

definition in_int64 :: "int \<Rightarrow> bool" where
  "in_int64 i \<longleftrightarrow> - (2 ^ 63) \<le> i \<and> i < 2 ^ 63"

definition parse_int64 :: "string \<Rightarrow> int option" where
  "parse_int64 s =
     (let neg = (s \<noteq> [] \<and> hd s = CHR ''-'');
          ds = (if s \<noteq> [] \<and> (hd s = CHR ''-'' \<or> hd s = CHR ''+'') then tl s else s);
          v = int (read_nat ds);
          i = (if neg then - v else v)
      in if ds \<noteq> [] \<and> list_all is_digit ds \<and> in_int64 i then Some i else None)"

lemma byte_digit_char [simp]: "d < 10 \<Longrightarrow> byte (digit_char d) = 48 + d"
  by (simp add: digit_char_def)

lemma show_nat_nonempty [simp]: "show_nat n \<noteq> []"
  by (subst show_nat.simps) simp

lemma show_nat_digits: "list_all is_digit (show_nat n)"
proof (induction n rule: show_nat.induct)
  case (1 n)
  have "is_digit (digit_char d)" if "d < 10" for d using that by (simp add: is_digit_def)
  with 1 show ?case by (subst show_nat.simps) simp
qed

lemma read_show_nat [simp]: "read_nat (show_nat n) = n"
proof (induction n rule: show_nat.induct)
  case (1 n)
  then show ?case by (subst show_nat.simps) (simp add: read_nat_def)
qed

lemma show_nat_inject [simp]: "show_nat m = show_nat n \<longleftrightarrow> m = n"
  by (metis read_show_nat)

lemma not_digit_minus: "\<not> is_digit CHR ''-''" "\<not> is_digit CHR ''+''" "\<not> is_digit CHR '':''"
  by (simp_all add: is_digit_def byte_def)

lemma hd_show_nat: "is_digit (hd (show_nat n))"
  using show_nat_digits [of n] by (cases "show_nat n") auto

lemma show_nat_hd_ne [simp]:
  "hd (show_nat n) \<noteq> CHR ''-''" "hd (show_nat n) \<noteq> CHR ''+''" "show_nat n \<noteq> CHR ''-'' # s"
  using hd_show_nat [of n] not_digit_minus by (metis list.sel(1))+

lemma parse_show_int [simp]: "in_int64 i \<Longrightarrow> parse_int64 (show_int i) = Some i"
  by (auto simp: parse_int64_def show_int_def show_nat_digits)

lemma show_int_inject [simp]: "show_int i = show_int j \<longleftrightarrow> i = j"
  by (auto simp: show_int_def split: if_splits dest: sym)
  
section \<open>Hexadecimal\<close>

definition is_hex :: "char \<Rightarrow> bool" where
  "is_hex c \<longleftrightarrow> (48 \<le> byte c \<and> byte c \<le> 57) \<or> (65 \<le> byte c \<and> byte c \<le> 70)
              \<or> (97 \<le> byte c \<and> byte c \<le> 102)"

text \<open>\<open>hex.DecodeString\<close> succeeds exactly on an even number of hexadecimal digits.\<close>

definition hex_decodes :: "string \<Rightarrow> bool" where
  "hex_decodes s \<longleftrightarrow> even (length s) \<and> list_all is_hex s"

definition hex_digit :: "nat \<Rightarrow> char" where
  "hex_digit d = (if d < 10 then char_of (48 + d) else char_of (87 + d))"

text \<open>\<open>%x\<close> of a byte slice and \<open>hex.EncodeToString\<close>: two lowercase digits per byte.\<close>

definition hex_byte :: "nat \<Rightarrow> string" where
  "hex_byte b = [hex_digit (b div 16), hex_digit (b mod 16)]"

definition hex_encode :: "nat list \<Rightarrow> string" where
  "hex_encode bs = concat (map hex_byte bs)"

definition lower_hex :: "char \<Rightarrow> bool" where
  "lower_hex c \<longleftrightarrow> (48 \<le> byte c \<and> byte c \<le> 57) \<or> (97 \<le> byte c \<and> byte c \<le> 102)"

lemma lower_hex_digit [simp]: "d < 16 \<Longrightarrow> lower_hex (hex_digit d)"
  by (auto simp: lower_hex_def hex_digit_def)

lemma lower_hex_is_hex: "lower_hex c \<Longrightarrow> is_hex c"
  by (auto simp: lower_hex_def is_hex_def)

lemma is_hex_ascii: "is_hex c \<Longrightarrow> ascii c"
  by (auto simp: is_hex_def ascii_def)

lemma lower_hex_ascii_lower [simp]: "is_hex c \<Longrightarrow> lower_hex (ascii_lower c)"
  by (auto simp: is_hex_def lower_hex_def ascii_lower_def)

lemma ascii_lower_id [simp]: "lower_hex c \<Longrightarrow> ascii_lower c = c"
  by (auto simp: lower_hex_def ascii_lower_def)

section \<open>The shape of a UUID\<close>

text \<open>
  36 bytes with hyphens at the four canonical places, and the bytes between them.
\<close>

definition hyphens_at :: "string \<Rightarrow> bool" where
  "hyphens_at s \<longleftrightarrow> length s = 36 \<and> s ! 8 = CHR ''-'' \<and> s ! 13 = CHR ''-''
                  \<and> s ! 18 = CHR ''-'' \<and> s ! 23 = CHR ''-''"

definition uuid_hex :: "string \<Rightarrow> string" where
  "uuid_hex s = take 8 s @ take 4 (drop 9 s) @ take 4 (drop 14 s) @ take 4 (drop 19 s) @ drop 24 s"

lemma hyphens_at_split:
  assumes "hyphens_at s"
  shows "s = take 8 s @ [CHR ''-''] @ take 4 (drop 9 s) @ [CHR ''-''] @ take 4 (drop 14 s)
             @ [CHR ''-''] @ take 4 (drop 19 s) @ [CHR ''-''] @ drop 24 s"
proof -
  have cut: "drop k s = take m (drop k s) @ (s ! (k + m)) # drop (Suc (k + m)) s"
    if "k + m < 36" for k m
  proof -
    have "drop (k + m) s = (s ! (k + m)) # drop (Suc (k + m)) s"
      using assms that by (intro Cons_nth_drop_Suc [symmetric]) (simp add: hyphens_at_def)
    then show ?thesis by (metis append_take_drop_id drop_drop add.commute)
  qed
  show ?thesis
    using cut [of 0 8] cut [of 9 4] cut [of 14 4] cut [of 19 4] assms
    by (simp add: hyphens_at_def)
qed

lemma hyphens_at_append:
  "length a = 8 \<Longrightarrow> length b = 4 \<Longrightarrow> length c = 4 \<Longrightarrow> length d = 4 \<Longrightarrow> length e = 12 \<Longrightarrow>
   hyphens_at (a @ [CHR ''-''] @ b @ [CHR ''-''] @ c @ [CHR ''-''] @ d @ [CHR ''-''] @ e)"
  by (simp add: hyphens_at_def nth_append)

lemma uuid_hex_append:
  "length a = 8 \<Longrightarrow> length b = 4 \<Longrightarrow> length c = 4 \<Longrightarrow> length d = 4 \<Longrightarrow>
   uuid_hex (a @ [CHR ''-''] @ b @ [CHR ''-''] @ c @ [CHR ''-''] @ d @ [CHR ''-''] @ e)
     = a @ b @ c @ d @ e"
  by (simp add: uuid_hex_def)

lemma hex_not_hyphen: "is_hex c \<Longrightarrow> c \<noteq> CHR ''-''"
  by (auto simp: is_hex_def byte_def)

text \<open>Dropping the hyphens leaves 32 bytes exactly when no other byte is a hyphen.\<close>

lemma compact_hex_iff:
  assumes "hyphens_at s"
  shows "length (filter (\<lambda>c. c \<noteq> CHR ''-'') s) = 32 \<and> list_all is_hex (filter (\<lambda>c. c \<noteq> CHR ''-'') s)
     \<longleftrightarrow> list_all is_hex (uuid_hex s)"
proof -
  let ?f = "filter (\<lambda>c. c \<noteq> CHR ''-'')"
  have f: "?f s = ?f (uuid_hex s)"
    by (subst hyphens_at_split [OF assms]) (simp add: uuid_hex_def)
  have l: "length (uuid_hex s) = 32"
    using assms by (simp add: uuid_hex_def hyphens_at_def)
  show ?thesis
  proof
    assume "length (?f s) = 32 \<and> list_all is_hex (?f s)"
    then have "?f (uuid_hex s) = uuid_hex s" using f l
      by (metis filter_id_conv length_filter_less less_irrefl)
    with \<open>length (?f s) = 32 \<and> list_all is_hex (?f s)\<close> f show "list_all is_hex (uuid_hex s)" by simp
  next
    assume h: "list_all is_hex (uuid_hex s)"
    then have "?f (uuid_hex s) = uuid_hex s"
      by (auto simp: list_all_iff filter_id_conv dest: hex_not_hyphen)
    with h f l show "length (?f s) = 32 \<and> list_all is_hex (?f s)" by simp
  qed
qed

end
