(* ===== verification/Go_Errors.thy ===== *)
theory Go_Errors
  imports Go_Strings
begin

text \<open>
  Go error values.  A package-level \<open>errors.New\<close> variable is a \<open>sentinel\<close>; an error
  with a message only is a \<open>Msg\<close>; \<open>fmt.Errorf\<close> with a \<open>%w\<close> verb is \<open>Wrapf\<close> with the
  text before and after the verb; \<open>errors.Join\<close> is \<open>Joined\<close>; the remaining constructors
  are the error structs the repository declares.  \<open>errors_is\<close> and the \<open>as_\<close> functions
  follow the chain as \<open>errors.Is\<close> and \<open>errors.As\<close> do.
\<close>

datatype sentinel =
    \<comment> \<open>payment/errors.go\<close>
    ErrIdempotencyKeyRequired | ErrIdempotencyKeyInvalid | ErrIdempotencyConflict
  | ErrPaymentIDInvalid | ErrPaymentNotFound
    \<comment> \<open>decision/store.go, decision/event.go\<close>
  | ErrDecisionPaymentNotFound | ErrDecisionConflict | ErrSourceRecordConflict
  | ErrPaymentStateConflict | ErrInvalidEvent
    \<comment> \<open>review/auth.go, review/model.go\<close>
  | ErrUnauthorized | ErrReviewIDInvalid | ErrReviewNotFound | ErrReviewAlreadyResolved
  | ErrReviewVersionConflict | ErrReviewStateConflict
    \<comment> \<open>context and net/http\<close>
  | DeadlineExceeded | Canceled | ErrServerClosed

type_synonym fields = "(string \<times> string) list"

datatype go_error =
    Sentinel sentinel
  | Msg string
  | Wrapf string go_error string
  | Joined "go_error list"
  | PaymentValidationError fields
  | ReviewValidationError fields
  | ConflictError go_error string int
  | PermanentDeliveryError go_error

type_synonym 'a result = "go_error + 'a"

fun sentinel_text :: "sentinel \<Rightarrow> string" where
  "sentinel_text ErrIdempotencyKeyRequired = ''idempotency key is required''"
| "sentinel_text ErrIdempotencyKeyInvalid = ''idempotency key is invalid''"
| "sentinel_text ErrIdempotencyConflict =
     ''idempotency key was already used with a different request''"
| "sentinel_text ErrPaymentIDInvalid = ''payment ID is invalid''"
| "sentinel_text ErrPaymentNotFound = ''payment not found''"
| "sentinel_text ErrDecisionPaymentNotFound = ''decision payment not found''"
| "sentinel_text ErrDecisionConflict = ''decision identity conflict''"
| "sentinel_text ErrSourceRecordConflict = ''Kafka source record conflict''"
| "sentinel_text ErrPaymentStateConflict = ''payment state conflicts with risk decision''"
| "sentinel_text ErrInvalidEvent = ''invalid risk decision event''"
| "sentinel_text ErrUnauthorized = ''review authorization failed''"
| "sentinel_text ErrReviewIDInvalid = ''review payment ID is invalid''"
| "sentinel_text ErrReviewNotFound = ''manual review not found''"
| "sentinel_text ErrReviewAlreadyResolved = ''manual review is already resolved''"
| "sentinel_text ErrReviewVersionConflict = ''manual review version conflict''"
| "sentinel_text ErrReviewStateConflict = ''manual review payment state conflict''"
| "sentinel_text DeadlineExceeded = ''context deadline exceeded''"
| "sentinel_text Canceled = ''context canceled''"
| "sentinel_text ErrServerClosed = ''http: Server closed''"

fun join_lines :: "string list \<Rightarrow> string" where
  "join_lines [] = []"
| "join_lines [x] = x"
| "join_lines (x # xs) = x @ [char_of (10::nat)] @ join_lines xs"

text \<open>The \<open>Error()\<close> method.\<close>

fun error_text :: "go_error \<Rightarrow> string" where
  "error_text (Sentinel s) = sentinel_text s"
| "error_text (Msg m) = m"
| "error_text (Wrapf pre e post) = pre @ error_text e @ post"
| "error_text (Joined es) = join_lines (map error_text es)"
| "error_text (PaymentValidationError fs) =
     ''payment validation failed for '' @ show_nat (length fs) @ '' field(s)''"
| "error_text (ReviewValidationError fs) =
     ''review action validation failed for '' @ show_nat (length fs) @ '' field(s)''"
| "error_text (ConflictError c st v) =
     error_text c @ '': current status='' @ st @ '' version='' @ show_int v"
| "error_text (PermanentDeliveryError c) = error_text c"

text \<open>\<open>errors.Is(err, target)\<close> for a sentinel target\<close>

fun errors_is :: "go_error \<Rightarrow> sentinel \<Rightarrow> bool" where
  "errors_is (Sentinel s) t \<longleftrightarrow> s = t"
| "errors_is (Msg m) t \<longleftrightarrow> False"
| "errors_is (Wrapf pre e post) t \<longleftrightarrow> errors_is e t"
| "errors_is (Joined es) t \<longleftrightarrow> list_ex (\<lambda>e. errors_is e t) es"
| "errors_is (PaymentValidationError fs) t \<longleftrightarrow> False"
| "errors_is (ReviewValidationError fs) t \<longleftrightarrow> False"
| "errors_is (ConflictError c st v) t \<longleftrightarrow> errors_is c t"
| "errors_is (PermanentDeliveryError c) t \<longleftrightarrow> errors_is c t"

text \<open>The first result of a list of optional results: \<open>errors.As\<close> on a joined error.\<close>

fun first_some :: "'a option list \<Rightarrow> 'a option" where
  "first_some [] = None"
| "first_some (Some x # xs) = Some x"
| "first_some (None # xs) = first_some xs"

text \<open>\<open>errors.As(err, &target)\<close> for the error structs of the repository\<close>

fun as_payment_validation :: "go_error \<Rightarrow> fields option" where
  "as_payment_validation (PaymentValidationError fs) = Some fs"
| "as_payment_validation (Wrapf pre e post) = as_payment_validation e"
| "as_payment_validation (Joined es) = first_some (map as_payment_validation es)"
| "as_payment_validation (ConflictError c st v) = as_payment_validation c"
| "as_payment_validation (PermanentDeliveryError c) = as_payment_validation c"
| "as_payment_validation _ = None"

fun as_review_validation :: "go_error \<Rightarrow> fields option" where
  "as_review_validation (ReviewValidationError fs) = Some fs"
| "as_review_validation (Wrapf pre e post) = as_review_validation e"
| "as_review_validation (Joined es) = first_some (map as_review_validation es)"
| "as_review_validation (ConflictError c st v) = as_review_validation c"
| "as_review_validation (PermanentDeliveryError c) = as_review_validation c"
| "as_review_validation _ = None"

fun as_conflict :: "go_error \<Rightarrow> (string \<times> int) option" where
  "as_conflict (ConflictError c st v) = Some (st, v)"
| "as_conflict (Wrapf pre e post) = as_conflict e"
| "as_conflict (Joined es) = first_some (map as_conflict es)"
| "as_conflict (PermanentDeliveryError c) = as_conflict c"
| "as_conflict _ = None"

fun is_permanent :: "go_error \<Rightarrow> bool" where
  "is_permanent (PermanentDeliveryError c) \<longleftrightarrow> True"
| "is_permanent (Wrapf pre e post) \<longleftrightarrow> is_permanent e"
| "is_permanent (Joined es) \<longleftrightarrow> list_ex is_permanent es"
| "is_permanent (ConflictError c st v) \<longleftrightarrow> is_permanent c"
| "is_permanent _ \<longleftrightarrow> False"

text \<open>
  What the drivers report: a database or broker error carries none of the sentinels and
  none of the error structs of the repository (it may be a context error).
\<close>

definition foreign :: "go_error \<Rightarrow> bool" where
  "foreign e \<longleftrightarrow>
     (\<forall>s. errors_is e s \<longrightarrow> s = DeadlineExceeded \<or> s = Canceled) \<and> \<not> is_permanent e
     \<and> as_payment_validation e = None \<and> as_review_validation e = None \<and> as_conflict e = None"

lemma foreign_Msg [simp, intro]: "foreign (Msg m)"
  by (simp add: foreign_def)

lemma foreign_Wrapf [simp]: "foreign (Wrapf pre e post) \<longleftrightarrow> foreign e"
  by (simp add: foreign_def)

lemma foreign_context [simp]:
  "foreign (Sentinel s) \<longleftrightarrow> s = DeadlineExceeded \<or> s = Canceled"
  by (simp add: foreign_def)

lemma foreign_not_is [go_error_simps]:
  "foreign e \<Longrightarrow> s \<noteq> DeadlineExceeded \<Longrightarrow> s \<noteq> Canceled \<Longrightarrow> \<not> errors_is e s"
  by (auto simp: foreign_def)

lemma foreign_not_permanent [go_error_simps]: "foreign e \<Longrightarrow> \<not> is_permanent e"
  by (simp add: foreign_def)

section \<open>Dependencies of a constructor\<close>

text \<open>A nil interface or pointer is \<open>None\<close>, and a constructor refuses it first.\<close>

definition required :: "string \<Rightarrow> 'a option \<Rightarrow> ('a \<Rightarrow> 'b result) \<Rightarrow> 'b result" where
  "required what dependency f = (case dependency of None \<Rightarrow> Inl (Msg what) | Some x \<Rightarrow> f x)"

lemma required_simps [simp]:
  "required what None f = Inl (Msg what)"
  "required what (Some x) f = f x"
  by (simp_all add: required_def)

lemma required_Inr: "required what dependency f = Inr y \<longleftrightarrow> (\<exists>x. dependency = Some x \<and> f x = Inr y)"
  by (simp add: required_def split: option.splits)

text \<open>The metrics of a worker are optional; \<open>None\<close> stands for those that count nothing.\<close>

definition first_metrics :: "'m option list \<Rightarrow> 'm option" where
  "first_metrics metricSets = (case metricSets of Some m # _ \<Rightarrow> Some m | _ \<Rightarrow> None)"

end
