(* ===== verification/Go_Time.thy ===== *)
theory Go_Time
  imports Go_Prelude
begin

text \<open>
  \<open>time.Time\<close> is an instant (nanoseconds since the zero time, January 1 of year 1, 00:00
  UTC) and the offset of its location in seconds, which \<open>Equal\<close> ignores and \<open>UTC()\<close> resets.
  \<open>time.Duration\<close> is a signed 64-bit number of nanoseconds, kept at its width because the
  retry code doubles it.
\<close>

record gtime =
  wall :: int
  zone :: int

definition utc :: "gtime \<Rightarrow> gtime" where
  "utc t = t\<lparr>zone := 0\<rparr>"

definition is_zero_time :: "gtime \<Rightarrow> bool" where
  "is_zero_time t \<longleftrightarrow> wall t = 0"

definition time_equal :: "gtime \<Rightarrow> gtime \<Rightarrow> bool" where
  "time_equal t u \<longleftrightarrow> wall t = wall u"

definition zero_time :: gtime where
  "zero_time = \<lparr>wall = 0, zone = 0\<rparr>"

lemma utc_simps [simp]: "wall (utc t) = wall t" "zone (utc t) = 0" "utc (utc t) = utc t"
  by (simp_all add: utc_def)

lemma utc_eq_iff: "utc t = utc u \<longleftrightarrow> time_equal t u"
  by (cases t; cases u) (simp add: utc_def time_equal_def)

type_synonym duration = "64 word"

text \<open>\<open>t.Add(d)\<close>\<close>

definition time_add :: "gtime \<Rightarrow> duration \<Rightarrow> gtime" where
  "time_add t d = t\<lparr>wall := wall t + sint d\<rparr>"

text \<open>
  \<open>Time.MarshalJSON\<close> refuses a time whose year, in the location of the time, is not one of 0 to 9999
  (year 0 has 366 days and year 10000 begins 3652059 days after year 1), and an offset of a day or
  more.
\<close>

definition json_year :: "int \<Rightarrow> bool" where
  "json_year ns \<longleftrightarrow> - (366 * 86400 * 1000000000) \<le> ns \<and> ns < 3652059 * 86400 * 1000000000"

definition time_marshals :: "gtime \<Rightarrow> bool" where
  "time_marshals t \<longleftrightarrow> json_year (wall t + zone t * 1000000000) \<and> \<bar>zone t\<bar> < 86400"

lemma time_marshals_utc: "time_marshals (utc t) \<longleftrightarrow> json_year (wall t)"
  by (simp add: time_marshals_def utc_def)

lemma time_marshals_zone: "zone t = 0 \<Longrightarrow> time_marshals t \<longleftrightarrow> json_year (wall t)"
  by (simp add: time_marshals_def)

text \<open>
  A \<open>timestamptz\<close> column keeps microseconds: the driver divides the nanoseconds by 1000,
  rounding down, and returns an instant.
\<close>

definition timestamptz :: "gtime \<Rightarrow> gtime" where
  "timestamptz t = \<lparr>wall = wall t div 1000 * 1000, zone = 0\<rparr>"

lemma timestamptz_idem [simp]: "timestamptz (timestamptz t) = timestamptz t"
  by (simp add: timestamptz_def)

lemma utc_timestamptz [simp]: "utc (timestamptz t) = timestamptz t"
  by (simp add: timestamptz_def utc_def)

lemma wall_timestamptz_le: "wall (timestamptz t) \<le> wall t"
  by (simp add: timestamptz_def)

lemma json_year_timestamptz: "json_year (wall t) \<Longrightarrow> json_year (wall (timestamptz t))"
  by (auto simp: json_year_def timestamptz_def)

section \<open>Constants of package time\<close>

definition millisecond :: duration where "millisecond = 1000000"
definition second :: duration where "second = 1000000000"

end
