(* ===== verification/Go_Json.thy ===== *)
theory Go_Json
  imports Complex_Main Go_Errors Go_Time
begin

text \<open>
  \<open>encoding/json\<close> as the payment API uses it: a parser from bytes to values, the decoding
  of a value into the fields of a struct, and the encoder.  Numbers keep their literal,
  since Go converts them only when it knows the field's type; an object keeps its members
  in order with duplicates, since the last one wins in a struct and in a map.  A string literal
  stands for its decoded text; \<open>JEsc\<close> is one whose text differs from the literal (an escape sequence
  or invalid UTF-8), which matters to the fields of type \<open>time.Time\<close>.

  Some functions of the standard library are parameters, in the record \<open>golib\<close>: the
  RFC 3339 text of a time and its inverse, the rounding of a decimal literal to a
  float64 and its shortest decimal text, SHA-256, \<open>strconv.Quote\<close> and the text of the error
  with which \<open>encoding/json\<close> refuses an input.
\<close>

datatype json =
    JNull
  | JBool bool
  | JNum string
  | JStr string
  | JEsc string
  | JArr "json list"
  | JObj "(string \<times> json) list"

text \<open>A float64: the finite ones are rational numbers.\<close>

datatype float64 = NaN | Infinite bool | Finite rat

record golib = unicode_tables +
  sha256 :: "string \<Rightarrow> string"           \<comment> \<open>the 32 bytes of the digest\<close>
  time_text :: "gtime \<Rightarrow> string"
  parse_time :: "string \<Rightarrow> gtime option"
  parse_float :: "string \<Rightarrow> float64 option"
  float_text :: "float64 \<Rightarrow> string"
  go_quote :: "string \<Rightarrow> string"          \<comment> \<open>the verb \<open>%q\<close>\<close>
  json_error :: "string \<Rightarrow> string"

section \<open>The parser\<close>

definition json_space :: "char \<Rightarrow> bool" where
  "json_space c \<longleftrightarrow> byte c = 32 \<or> byte c = 9 \<or> byte c = 10 \<or> byte c = 13"

definition skip_space :: "string \<Rightarrow> string" where
  "skip_space s = dropWhile json_space s"

definition hex_value :: "char \<Rightarrow> nat" where
  "hex_value c =
     (if byte c \<le> 57 then byte c - 48 else if byte c \<le> 70 then byte c - 55 else byte c - 87)"

lemma hex_value_digit [simp]: "d < 16 \<Longrightarrow> hex_value (hex_digit d) = d"
  by (auto simp: hex_value_def hex_digit_def)

fun take_hex4 :: "string \<Rightarrow> (nat \<times> string) option" where
  "take_hex4 (a # b # c # d # s) =
     (if is_hex a \<and> is_hex b \<and> is_hex c \<and> is_hex d
      then Some (((hex_value a * 16 + hex_value b) * 16 + hex_value c) * 16 + hex_value d, s)
      else None)"
| "take_hex4 _ = None"

definition high_surrogate :: "nat \<Rightarrow> bool" where
  "high_surrogate r \<longleftrightarrow> 0xD800 \<le> r \<and> r < 0xDC00"

definition low_surrogate :: "nat \<Rightarrow> bool" where
  "low_surrogate r \<longleftrightarrow> 0xDC00 \<le> r \<and> r < 0xE000"

text \<open>
  One escape sequence after the backslash.  A high surrogate joined by an escaped low one
  is one rune; any other surrogate becomes \<open>U+FFFD\<close>.
\<close>

fun json_escape :: "string \<Rightarrow> (string \<times> string) option" where
  "json_escape [] = None"
| "json_escape (c # s) =
     (if c = CHR 0x22 \<or> c = CHR 0x5C \<or> c = CHR ''/'' then Some ([c], s)
      else if c = CHR ''b'' then Some ([char_of (8::nat)], s)
      else if c = CHR ''f'' then Some ([char_of (12::nat)], s)
      else if c = CHR ''n'' then Some ([char_of (10::nat)], s)
      else if c = CHR ''r'' then Some ([char_of (13::nat)], s)
      else if c = CHR ''t'' then Some ([char_of (9::nat)], s)
      else if c = CHR ''u'' then
        (case take_hex4 s of
           None \<Rightarrow> None
         | Some (r, s1) \<Rightarrow>
             if high_surrogate r then
               (case s1 of
                  b # u # s2 \<Rightarrow>
                    if b = CHR 0x5C \<and> u = CHR ''u'' then
                      (case take_hex4 s2 of
                         Some (r2, s3) \<Rightarrow>
                           if low_surrogate r2
                           then Some (encode_rune (0x10000 + (r - 0xD800) * 1024 + (r2 - 0xDC00)), s3)
                           else Some (encode_rune rune_error, s1)
                       | None \<Rightarrow> Some (encode_rune rune_error, s1))
                    else Some (encode_rune rune_error, s1)
                | _ \<Rightarrow> Some (encode_rune rune_error, s1))
             else if low_surrogate r then Some (encode_rune rune_error, s1)
             else Some (encode_rune r, s1))
      else None)"

text \<open>The body of a string literal, up to its closing quote; invalid UTF-8 becomes \<open>U+FFFD\<close>.\<close>

fun json_chars :: "nat \<Rightarrow> string \<Rightarrow> (string \<times> string) option" where
  "json_chars 0 s = None"
| "json_chars (Suc n) [] = None"
| "json_chars (Suc n) (c # s) =
     (if c = CHR 0x22 then Some ([], s)
      else if c = CHR 0x5C then
        (case json_escape s of
           None \<Rightarrow> None
         | Some (x, s1) \<Rightarrow> map_option (\<lambda>(y, s2). (x @ y, s2)) (json_chars n s1))
      else if byte c < 32 then None
      else
        (let (r, w) = decode_rune (c # s) in
         map_option (\<lambda>(y, s2). (encode_rune r @ y, s2)) (json_chars n (drop (w - 1) s))))"

definition digits_prefix :: "string \<Rightarrow> string \<times> string" where
  "digits_prefix s = (takeWhile is_digit s, dropWhile is_digit s)"

text \<open>A number literal: sign, integer part without leading zeros, fraction, exponent.\<close>

definition json_number :: "string \<Rightarrow> (string \<times> string) option" where
  "json_number s =
     (let (sign, s1) = (if s \<noteq> [] \<and> hd s = CHR ''-'' then ([CHR ''-''], tl s) else ([], s));
          (i, s2) = (if s1 \<noteq> [] \<and> hd s1 = CHR ''0'' then ([CHR ''0''], tl s1) else digits_prefix s1);
          (fr, s3) = (if s2 \<noteq> [] \<and> hd s2 = CHR ''.''
                      then (CHR ''.'' # fst (digits_prefix (tl s2)), snd (digits_prefix (tl s2)))
                      else ([], s2));
          (ex, s4) =
            (if s3 \<noteq> [] \<and> (hd s3 = CHR ''e'' \<or> hd s3 = CHR ''E'')
             then (let (sg, t) = (if tl s3 \<noteq> [] \<and> (hd (tl s3) = CHR ''+'' \<or> hd (tl s3) = CHR ''-'')
                                  then ([hd (tl s3)], tl (tl s3)) else ([], tl s3))
                   in (hd s3 # sg @ fst (digits_prefix t), snd (digits_prefix t)))
             else ([], s3))
      in if i = [] \<or> (fr \<noteq> [] \<and> length fr < 2) \<or> (ex \<noteq> [] \<and> \<not> is_digit (last ex)) then None
         else Some (sign @ i @ fr @ ex, s4))"

text \<open>The value of a string literal \<open>"raw"\<close> with the decoded text \<open>x\<close>.\<close>

definition string_value :: "string \<Rightarrow> string \<Rightarrow> json" where
  "string_value raw x = (if raw = x then JStr x else JEsc x)"

definition strip_prefix :: "string \<Rightarrow> string \<Rightarrow> string option" where
  "strip_prefix p s = (if take (length p) s = p then Some (drop (length p) s) else None)"

text \<open>
  One value.  The first argument is fuel (every call consumes input or closes a bracket, so
  \<open>2 * length s + 2\<close> is enough), the second the nesting depth, which Go bounds by 10000.
\<close>

fun json_value :: "nat \<Rightarrow> nat \<Rightarrow> string \<Rightarrow> (json \<times> string) option"
and json_items :: "nat \<Rightarrow> nat \<Rightarrow> string \<Rightarrow> (json list \<times> string) option"
and json_members :: "nat \<Rightarrow> nat \<Rightarrow> string \<Rightarrow> ((string \<times> json) list \<times> string) option" where
  "json_value 0 d s = None"
| "json_value (Suc n) d s =
     (case skip_space s of
        [] \<Rightarrow> None
      | c # t \<Rightarrow>
          if c = CHR 0x7B then
            (if 10000 \<le> d then None
             else if skip_space t \<noteq> [] \<and> hd (skip_space t) = CHR 0x7D
               then Some (JObj [], tl (skip_space t))
             else map_option (\<lambda>(ms, r). (JObj ms, r)) (json_members n (Suc d) t))
          else if c = CHR ''['' then
            (if 10000 \<le> d then None
             else if skip_space t \<noteq> [] \<and> hd (skip_space t) = CHR '']''
               then Some (JArr [], tl (skip_space t))
             else map_option (\<lambda>(xs, r). (JArr xs, r)) (json_items n (Suc d) t))
          else if c = CHR 0x22 then
            map_option (\<lambda>(x, r). (string_value (take (length t - Suc (length r)) t) x, r))
              (json_chars (Suc (length t)) t)
          else (case strip_prefix ''null'' (c # t) of
              Some r \<Rightarrow> Some (JNull, r)
            | None \<Rightarrow>
            (case strip_prefix ''true'' (c # t) of
              Some r \<Rightarrow> Some (JBool True, r)
            | None \<Rightarrow>
            (case strip_prefix ''false'' (c # t) of
              Some r \<Rightarrow> Some (JBool False, r)
            | None \<Rightarrow> map_option (\<lambda>(x, r). (JNum x, r)) (json_number (c # t))))))"
| "json_items 0 d s = None"
| "json_items (Suc n) d s =
     (case json_value n d s of
        None \<Rightarrow> None
      | Some (x, r) \<Rightarrow>
          (case skip_space r of
             [] \<Rightarrow> None
           | c # t \<Rightarrow>
               if c = CHR '','' then map_option (\<lambda>(xs, r2). (x # xs, r2)) (json_items n d t)
               else if c = CHR '']'' then Some ([x], t) else None))"
| "json_members 0 d s = None"
| "json_members (Suc n) d s =
     (case skip_space s of
        [] \<Rightarrow> None
      | c # t \<Rightarrow>
          if c \<noteq> CHR 0x22 then None
          else (case json_chars (Suc (length t)) t of
              None \<Rightarrow> None
            | Some (k, r) \<Rightarrow>
                (case skip_space r of
                   [] \<Rightarrow> None
                 | c2 # t2 \<Rightarrow>
                     if c2 \<noteq> CHR '':'' then None
                     else (case json_value n d t2 of
                         None \<Rightarrow> None
                       | Some (v, r2) \<Rightarrow>
                           (case skip_space r2 of
                              [] \<Rightarrow> None
                            | c3 # t3 \<Rightarrow>
                                if c3 = CHR '','' then
                                  map_option (\<lambda>(ms, r3). ((k, v) # ms, r3)) (json_members n d t3)
                                else if c3 = CHR 0x7D then Some ([(k, v)], t3)
                                else None)))))"

text \<open>
  \<open>json.Unmarshal\<close>, and \<open>Decoder.Decode\<close> followed by a second \<open>Decode\<close> that must meet
  \<open>io.EOF\<close>, both accept exactly one value with white space around it.
\<close>

definition json_parse :: "string \<Rightarrow> json option" where
  "json_parse s =
     (case json_value (2 * length s + 2) 0 s of
        Some (v, r) \<Rightarrow> if skip_space r = [] then Some v else None
      | None \<Rightarrow> None)"

section \<open>Decoding into fields\<close>

text \<open>A \<open>map[string]json.RawMessage\<close> keeps the last member of each name.\<close>

definition json_get :: "(string \<times> json) list \<Rightarrow> string \<Rightarrow> json option" where
  "json_get ms k = map_of (rev ms) k"

text \<open>
  A struct field takes every member whose name equals the field's up to case folding, in
  order, so that the last one that is not \<open>null\<close> wins.  Field names are ASCII; the long s and
  the Kelvin sign are the only other runes that fold to an ASCII letter.
\<close>

definition fold_rune :: "rune \<Rightarrow> rune" where
  "fold_rune r =
     (if 65 \<le> r \<and> r \<le> 90 then r + 32 else if r = 0x17F then 115 else if r = 0x212A then 107 else r)"

definition fold_name :: "string \<Rightarrow> rune list" where
  "fold_name s = map fold_rune (runes s)"

definition members_for :: "(string \<times> json) list \<Rightarrow> string \<Rightarrow> json list" where
  "members_for ms k = map snd (filter (\<lambda>m. fold_name (fst m) = fold_name k) ms)"

text \<open>\<open>DisallowUnknownFields\<close>\<close>

definition known_members :: "(string \<times> json) list \<Rightarrow> string list \<Rightarrow> bool" where
  "known_members ms ks = list_all (\<lambda>m. fold_name (fst m) \<in> set (map fold_name ks)) ms"

fun decode_field :: "(json \<Rightarrow> 'a option) \<Rightarrow> 'a \<Rightarrow> json list \<Rightarrow> 'a option" where
  "decode_field f cur [] = Some cur"
| "decode_field f cur (JNull # vs) = decode_field f cur vs"
| "decode_field f cur (v # vs) = (case f v of None \<Rightarrow> None | Some x \<Rightarrow> decode_field f x vs)"

fun as_string :: "json \<Rightarrow> string option" where
  "as_string (JStr s) = Some s"
| "as_string (JEsc s) = Some s"
| "as_string _ = None"

fun as_bool :: "json \<Rightarrow> bool option" where
  "as_bool (JBool b) = Some b"
| "as_bool _ = None"

fun as_int :: "json \<Rightarrow> int option" where
  "as_int (JNum n) = parse_int64 n"
| "as_int _ = None"

fun as_float :: "'a golib_scheme \<Rightarrow> json \<Rightarrow> float64 option" where
  "as_float L (JNum n) = parse_float L n"
| "as_float L _ = None"

text \<open>
  \<open>Time.UnmarshalJSON\<close> reads the literal between the quotes without decoding it, so that a timestamp
  written with an escape sequence is refused.
\<close>

fun as_time :: "'a golib_scheme \<Rightarrow> json \<Rightarrow> gtime option" where
  "as_time L (JStr s) = parse_time L s"
| "as_time L _ = None"

text \<open>
  A \<open>[]string\<close> field: \<open>null\<close> makes it nil, an array refills the slice from the front, and a
  \<open>null\<close> element keeps what the backing array holds there.
\<close>

fun fill_strings :: "string list \<Rightarrow> json list \<Rightarrow> string list option" where
  "fill_strings old [] = Some []"
| "fill_strings old (JStr s # vs) = map_option (\<lambda>xs. s # xs) (fill_strings (tl old) vs)"
| "fill_strings old (JEsc s # vs) = map_option (\<lambda>xs. s # xs) (fill_strings (tl old) vs)"
| "fill_strings old (JNull # vs) =
     map_option (\<lambda>xs. (case old of [] \<Rightarrow> [] | o1 # _ \<Rightarrow> o1) # xs) (fill_strings (tl old) vs)"
| "fill_strings old (_ # vs) = None"

fun decode_strings :: "string list \<Rightarrow> string list \<Rightarrow> json list \<Rightarrow> string list option" where
  "decode_strings cur old [] = Some cur"
| "decode_strings cur old (JNull # vs) = decode_strings [] [] vs"
| "decode_strings cur old (JArr [] # vs) = decode_strings [] [] vs"
| "decode_strings cur old (JArr (x # xs) # vs) =
     (case fill_strings old (x # xs) of
        None \<Rightarrow> None
      | Some ys \<Rightarrow> decode_strings ys (ys @ drop (length ys) old) vs)"
| "decode_strings cur old (_ # vs) = None"

section \<open>The encoder\<close>

text \<open>The error with which \<open>json.Marshal\<close> reports a time that it cannot write.\<close>

definition marshal_time_error :: go_error where
  "marshal_time_error =
     Msg ''json: error calling MarshalJSON for type time.Time: Time.MarshalJSON: year outside of range [0,9999]''"

lemma foreign_marshal [simp]: "foreign marshal_time_error"
  by (simp add: marshal_time_error_def)

definition quote_rune :: "rune \<Rightarrow> string" where
  "quote_rune r =
     (if r = 34 then [CHR 0x5C, CHR 0x22]
      else if r = 92 then [CHR 0x5C, CHR 0x5C]
      else if r = 8 then [CHR 0x5C, CHR ''b'']
      else if r = 12 then [CHR 0x5C, CHR ''f'']
      else if r = 10 then [CHR 0x5C, CHR ''n'']
      else if r = 13 then [CHR 0x5C, CHR ''r'']
      else if r = 9 then [CHR 0x5C, CHR ''t'']
      else if r < 32 \<or> r = 60 \<or> r = 62 \<or> r = 38
        then [CHR 0x5C, CHR ''u'', CHR ''0'', CHR ''0''] @ hex_byte r
      else if r = 0x2028 \<or> r = 0x2029
        then [CHR 0x5C, CHR ''u'', CHR ''2'', CHR ''0''] @ hex_byte (r - 0x2000)
      else encode_rune r)"

text \<open>An invalid byte is written as an escaped \<open>U+FFFD\<close>.\<close>

function quote_body :: "string \<Rightarrow> string" where
  "quote_body [] = []"
| "quote_body (c # cs) =
     (let (r, w) = decode_rune (c # cs) in
      (if r = rune_error \<and> w = 1 then [CHR 0x5C] @ ''ufffd'' else quote_rune r)
      @ quote_body (drop (w - 1) cs))"
  by pat_completeness auto
termination
  by (relation "measure length") auto

definition json_quote :: "string \<Rightarrow> string" where
  "json_quote s = [CHR 0x22] @ quote_body s @ [CHR 0x22]"

fun json_text :: "json \<Rightarrow> string"
and json_text_items :: "json list \<Rightarrow> string"
and json_text_members :: "(string \<times> json) list \<Rightarrow> string" where
  "json_text JNull = ''null''"
| "json_text (JBool b) = (if b then ''true'' else ''false'')"
| "json_text (JNum n) = n"
| "json_text (JStr s) = json_quote s"
| "json_text (JEsc s) = json_quote s"
| "json_text (JArr xs) = [CHR ''['' ] @ json_text_items xs @ [CHR '']'']"
| "json_text (JObj ms) = [CHR 0x7B] @ json_text_members ms @ [CHR 0x7D]"
| "json_text_items [] = []"
| "json_text_items [x] = json_text x"
| "json_text_items (x # xs) = json_text x @ [CHR '',''] @ json_text_items xs"
| "json_text_members [] = []"
| "json_text_members [(k, v)] = json_quote k @ [CHR '':''] @ json_text v"
| "json_text_members ((k, v) # ms) =
     json_quote k @ [CHR '':''] @ json_text v @ [CHR '',''] @ json_text_members ms"

end
