(* ===== verification/Json_Fuel.thy ===== *)
theory Json_Fuel
  imports Go_Json
begin

text \<open>
  The fuel of the JSON parser is no restriction: every branch that succeeds has consumed input, so
  any fuel above twice the length of the text gives the same answer, and a text is refused for its
  form (or its depth, as in Go) and never for lack of fuel.
\<close>

section \<open>What succeeds has consumed input\<close>

lemma skip_space_le: "length (skip_space s) \<le> length s"
  by (simp add: skip_space_def length_dropWhile_le)

lemma skip_space_Cons: "skip_space s = c # t \<Longrightarrow> length t < length s"
  using skip_space_le [of s] by simp

lemma take_hex4_shorter: "take_hex4 s = Some (r, t) \<Longrightarrow> length t < length s"
  by (induction s rule: take_hex4.induct) (auto split: if_splits)

lemma json_escape_shorter: "json_escape s = Some (x, t) \<Longrightarrow> length t < length s"
proof (cases s)
  case (Cons c cs)
  assume e: "json_escape s = Some (x, t)"
  show ?thesis
  proof (cases "c = CHR ''u''")
    case True
    with e Cons obtain r s1 where h: "take_hex4 cs = Some (r, s1)" by (auto split: option.splits)
    have "length t \<le> length s1"
      using e Cons True h
      by (auto simp: Let_def split: if_splits list.splits option.splits dest!: take_hex4_shorter)
    with take_hex4_shorter [OF h] Cons show ?thesis by simp
  qed (use e Cons in \<open>auto split: if_splits\<close>)
qed simp

lemma json_chars_shorter: "json_chars n s = Some (x, t) \<Longrightarrow> length t < length s"
proof (induction n s arbitrary: x t rule: json_chars.induct)
  case (3 n c s)
  show ?case
  proof (cases "c = CHR 0x22")
    case quote: False
    show ?thesis
    proof (cases "c = CHR 0x5C")
      case True
      with 3(3) obtain y s1 z where e: "json_escape s = Some (y, s1)" "json_chars n s1 = Some (z, t)"
        by (auto split: option.splits)
      have "length t < length s1" using 3(1) [OF quote True e(1)] e(2) by blast
      with json_escape_shorter [OF e(1)] show ?thesis by simp
    next
      case False
      obtain r w where d: "decode_rune (c # s) = (r, w)" by (metis prod.exhaust)
      from 3(3) quote False d obtain z where "json_chars n (drop (w - 1) s) = Some (z, t)" "\<not> byte c < 32"
        by (auto split: if_splits)
      then have "length t < length (drop (w - 1) s)" using 3(2) [OF quote False] d by auto
      then show ?thesis by simp
    qed
  qed (use 3(3) in simp)
qed simp_all

text \<open>A number literal is the text that it consumes.\<close>

definition number_sign :: "string \<Rightarrow> string \<times> string" where
  "number_sign s = (if s \<noteq> [] \<and> hd s = CHR ''-'' then ([CHR ''-''], tl s) else ([], s))"

definition number_int :: "string \<Rightarrow> string \<times> string" where
  "number_int s = (if s \<noteq> [] \<and> hd s = CHR ''0'' then ([CHR ''0''], tl s) else digits_prefix s)"

definition number_fraction :: "string \<Rightarrow> string \<times> string" where
  "number_fraction s =
     (if s \<noteq> [] \<and> hd s = CHR ''.''
      then (CHR ''.'' # fst (digits_prefix (tl s)), snd (digits_prefix (tl s))) else ([], s))"

definition number_exponent :: "string \<Rightarrow> string \<times> string" where
  "number_exponent s =
     (if s \<noteq> [] \<and> (hd s = CHR ''e'' \<or> hd s = CHR ''E'')
      then (let (sg, t) = (if tl s \<noteq> [] \<and> (hd (tl s) = CHR ''+'' \<or> hd (tl s) = CHR ''-'')
                           then ([hd (tl s)], tl (tl s)) else ([], tl s))
            in (hd s # sg @ fst (digits_prefix t), snd (digits_prefix t)))
      else ([], s))"

lemma json_number_parts:
  "json_number s =
     (let (sign, s1) = number_sign s; (i, s2) = number_int s1; (fr, s3) = number_fraction s2;
          (ex, s4) = number_exponent s3
      in if i = [] \<or> (fr \<noteq> [] \<and> length fr < 2) \<or> (ex \<noteq> [] \<and> \<not> is_digit (last ex)) then None
         else Some (sign @ i @ fr @ ex, s4))"
  unfolding json_number_def number_sign_def number_int_def number_fraction_def number_exponent_def by (rule refl)

lemma digits_prefix_split: "fst (digits_prefix s) @ snd (digits_prefix s) = s"
  by (simp add: digits_prefix_def)

lemma number_parts_split:
  "number_sign s = (x, t) \<Longrightarrow> x @ t = s"
  "number_int s = (x, t) \<Longrightarrow> x @ t = s"
  "number_fraction s = (x, t) \<Longrightarrow> x @ t = s"
proof -
  show "number_sign s = (x, t) \<Longrightarrow> x @ t = s" by (cases s) (auto simp: number_sign_def split: if_splits)
  show "number_int s = (x, t) \<Longrightarrow> x @ t = s"
    using digits_prefix_split [of s] by (cases s) (auto simp: number_int_def split: if_splits)
  show "number_fraction s = (x, t) \<Longrightarrow> x @ t = s"
    using digits_prefix_split [of "tl s"] by (cases s) (auto simp: number_fraction_def split: if_splits)
qed

lemma number_exponent_split: "number_exponent s = (x, t) \<Longrightarrow> x @ t = s"
proof (cases s)
  case (Cons c u)
  assume e: "number_exponent s = (x, t)"
  show ?thesis
  proof (cases "c = CHR ''e'' \<or> c = CHR ''E''")
    case True
    then show ?thesis
      using e Cons digits_prefix_split [of u] digits_prefix_split [of "tl u"]
      by (cases u) (auto simp: number_exponent_def split: if_splits)
  qed (use e Cons in \<open>auto simp: number_exponent_def\<close>)
qed (simp add: number_exponent_def)

lemma json_number_consumes:
  assumes "json_number s = Some (x, t)"
  shows "s = x @ t" and "x \<noteq> []"
proof -
  obtain sign s1 where p1: "number_sign s = (sign, s1)" by (metis prod.exhaust)
  obtain i s2 where p2: "number_int s1 = (i, s2)" by (metis prod.exhaust)
  obtain fr s3 where p3: "number_fraction s2 = (fr, s3)" by (metis prod.exhaust)
  obtain ex s4 where p4: "number_exponent s3 = (ex, s4)" by (metis prod.exhaust)
  have "i \<noteq> []" "x = sign @ i @ fr @ ex" "t = s4"
    using assms by (auto simp: json_number_parts p1 p2 p3 p4 split: if_splits)
  moreover have "s = sign @ i @ fr @ ex @ s4"
    using number_parts_split(1) [OF p1] number_parts_split(2) [OF p2] number_parts_split(3) [OF p3]
      number_exponent_split [OF p4] by simp
  ultimately show "s = x @ t" "x \<noteq> []" by simp_all
qed

lemma json_number_shorter: "json_number s = Some (x, t) \<Longrightarrow> length t < length s"
  using json_number_consumes by fastforce

lemma strip_prefix_shorter: "strip_prefix p s = Some t \<Longrightarrow> p \<noteq> [] \<Longrightarrow> length t < length s"
  by (cases s) (auto simp: strip_prefix_def split: if_splits)

text \<open>The three parsers have consumed input when they succeed.\<close>

lemma json_value_step:
  assumes "\<And>d s xs t. json_items n d s = Some (xs, t) \<Longrightarrow> length t < length s"
    and "\<And>d s ms t. json_members n d s = Some (ms, t) \<Longrightarrow> length t < length s"
    and "json_value (Suc n) d s = Some (v, t)"
  shows "length t < length s"
proof (cases "skip_space s")
  case (Cons c u)
  note u = skip_space_Cons [OF Cons]
  have cu: "length (c # u) \<le> length s" using skip_space_le [of s] Cons by simp
  have inner: "length (tl (skip_space u)) \<le> length u" using skip_space_le [of u] by simp
  consider "c = CHR 0x7B" | "c = CHR ''[''" | "c = CHR 0x22" | "c \<notin> {CHR 0x7B, CHR ''['', CHR 0x22}" by blast
  then show ?thesis
  proof cases
    case 1
    with assms(3) Cons u inner show ?thesis by (auto split: if_splits dest!: assms(2))
  next
    case 2
    with assms(3) Cons u inner show ?thesis by (auto split: if_splits dest!: assms(1))
  next
    case 3
    with assms(3) Cons u show ?thesis by (auto dest!: json_chars_shorter)
  next
    case 4
    with assms(3) Cons
    have "strip_prefix ''null'' (c # u) = Some t \<or> strip_prefix ''true'' (c # u) = Some t
        \<or> strip_prefix ''false'' (c # u) = Some t \<or> (\<exists>x. json_number (c # u) = Some (x, t))"
      by (auto split: option.splits)
    then have "length t < length (c # u)" using strip_prefix_shorter json_number_shorter by blast
    with cu show ?thesis by simp
  qed
qed (use assms(3) in simp)

lemma json_items_shorter_step:
  assumes "\<And>d s v t. json_value n d s = Some (v, t) \<Longrightarrow> length t < length s"
    and "\<And>d s xs t. json_items n d s = Some (xs, t) \<Longrightarrow> length t < length s"
    and "json_items (Suc n) d s = Some (xs, t)"
  shows "length t < length s"
proof -
  from assms(3) obtain x r where v: "json_value n d s = Some (x, r)" by (auto split: option.splits)
  from assms(3) v obtain c u where u: "skip_space r = c # u" by (auto split: list.splits)
  have "length t \<le> length u"
    using assms(3) v u by (auto split: if_splits dest!: assms(2))
  with assms(1) [OF v] skip_space_Cons [OF u] show ?thesis by simp
qed

lemma json_members_shorter_step:
  assumes "\<And>d s v t. json_value n d s = Some (v, t) \<Longrightarrow> length t < length s"
    and "\<And>d s ms t. json_members n d s = Some (ms, t) \<Longrightarrow> length t < length s"
    and "json_members (Suc n) d s = Some (ms, t)"
  shows "length t < length s"
proof -
  from assms(3) obtain c u where u: "skip_space s = c # u" "c = CHR 0x22" by (auto split: list.splits if_splits)
  from assms(3) u obtain k r where k: "json_chars (Suc (length u)) u = Some (k, r)" by (auto split: option.splits)
  from assms(3) u k obtain c2 u2 where u2: "skip_space r = c2 # u2" "c2 = CHR '':''" by (auto split: list.splits if_splits)
  from assms(3) u k u2 obtain v r2 where v: "json_value n d u2 = Some (v, r2)" by (auto split: option.splits)
  from assms(3) u k u2 v obtain c3 u3 where u3: "skip_space r2 = c3 # u3" by (auto split: list.splits)
  have "length t \<le> length u3"
    using assms(3) u k u2 v u3 by (auto split: if_splits dest!: assms(2))
  with skip_space_Cons [OF u(1)] json_chars_shorter [OF k] skip_space_Cons [OF u2(1)] assms(1) [OF v]
    skip_space_Cons [OF u3] show ?thesis by simp
qed

lemma json_consumes:
  "(json_value n d s = Some (v, t) \<longrightarrow> length t < length s)
   \<and> (json_items n d s = Some (xs, t) \<longrightarrow> length t < length s)
   \<and> (json_members n d s = Some (ms, t) \<longrightarrow> length t < length s)"
proof (induction n arbitrary: d s v xs ms t)
  case (Suc n)
  have IH: "json_value n d s = Some (v, t) \<Longrightarrow> length t < length s"
    "json_items n d s = Some (xs, t) \<Longrightarrow> length t < length s"
    "json_members n d s = Some (ms, t) \<Longrightarrow> length t < length s" for d s v xs ms t
    using Suc.IH by blast+
  show ?case
  proof (intro conjI impI)
    show "length t < length s" if "json_value (Suc n) d s = Some (v, t)"
      by (rule json_value_step [OF IH(2,3) that])
    show "length t < length s" if "json_items (Suc n) d s = Some (xs, t)"
      by (rule json_items_shorter_step [OF IH(1,2) that])
    show "length t < length s" if "json_members (Suc n) d s = Some (ms, t)"
      by (rule json_members_shorter_step [OF IH(1,3) that])
  qed
qed simp

lemmas json_shorter = json_consumes [THEN conjunct1, rule_format]
  json_consumes [THEN conjunct2, THEN conjunct1, rule_format]
  json_consumes [THEN conjunct2, THEN conjunct2, rule_format]

section \<open>Fuel\<close>

text \<open>A string literal is given one unit for each byte that is left.\<close>

lemma json_chars_fuel:
  "length s < n \<Longrightarrow> length s < m \<Longrightarrow> json_chars n s = json_chars m s"
proof (induction n arbitrary: m s)
  case (Suc n)
  obtain k where m: "m = Suc k" using Suc.prems(2) by (cases m) simp_all
  show ?case
  proof (cases s)
    case (Cons c u)
    have d: "json_chars n (drop i u) = json_chars k (drop i u)" for i
      using Suc.prems m Cons by (intro Suc.IH) simp_all
    have e: "json_chars n s1 = json_chars k s1" if "json_escape u = Some (x, s1)" for x s1
      using Suc.prems m Cons json_escape_shorter [OF that] by (intro Suc.IH) simp_all
    show ?thesis using m Cons d e by (auto split: option.splits prod.splits)
  qed (simp add: m)
qed simp

lemma json_fuel:
  "(2 * length s + 1 \<le> n \<longrightarrow> 2 * length s + 1 \<le> m \<longrightarrow> json_value n d s = json_value m d s)
   \<and> (2 * length s + 2 \<le> n \<longrightarrow> 2 * length s + 2 \<le> m \<longrightarrow> json_items n d s = json_items m d s)
   \<and> (2 * length s + 2 \<le> n \<longrightarrow> 2 * length s + 2 \<le> m \<longrightarrow> json_members n d s = json_members m d s)"
proof (induction n arbitrary: m d s)
  case (Suc n)
  have IH: "2 * length u + 1 \<le> n \<Longrightarrow> 2 * length u + 1 \<le> k \<Longrightarrow> json_value n d u = json_value k d u"
    "2 * length u + 2 \<le> n \<Longrightarrow> 2 * length u + 2 \<le> k \<Longrightarrow> json_items n d u = json_items k d u"
    "2 * length u + 2 \<le> n \<Longrightarrow> 2 * length u + 2 \<le> k \<Longrightarrow> json_members n d u = json_members k d u" for u k d
    using Suc.IH by blast+
  show ?case
  proof (cases m)
    case (Suc k)
    have "json_value (Suc n) d s = json_value (Suc k) d s"
      if "2 * length s + 1 \<le> Suc n" "2 * length s + 1 \<le> Suc k"
    proof (cases "skip_space s")
      case (Cons c u)
      have "json_members n (Suc d) u = json_members k (Suc d) u" "json_items n (Suc d) u = json_items k (Suc d) u"
        using skip_space_Cons [OF Cons] that by (intro IH; simp)+
      with Cons show ?thesis by simp
    qed simp
    moreover have "json_items (Suc n) d s = json_items (Suc k) d s"
      if "2 * length s + 2 \<le> Suc n" "2 * length s + 2 \<le> Suc k"
    proof -
      have v: "json_value n d s = json_value k d s" using that by (intro IH) simp_all
      have "json_items n d u = json_items k d u"
        if "json_value k d s = Some (x, r)" "skip_space r = c # u" for x r c u
        using json_shorter(1) [OF that(1)] skip_space_Cons [OF that(2)] \<open>2 * length s + 2 \<le> Suc n\<close>
          \<open>2 * length s + 2 \<le> Suc k\<close> by (intro IH) simp_all
      with v show ?thesis by (auto split: option.splits list.splits)
    qed
    moreover have "json_members (Suc n) d s = json_members (Suc k) d s"
      if "2 * length s + 2 \<le> Suc n" "2 * length s + 2 \<le> Suc k"
    proof (cases "skip_space s")
      case (Cons c u)
      have u: "2 * length u + 4 \<le> Suc n" "2 * length u + 4 \<le> Suc k" using skip_space_Cons [OF Cons] that by simp_all
      have "json_value n d u2 = json_value k d u2
          \<and> (\<forall>v r2 c3 u3. json_value k d u2 = Some (v, r2) \<longrightarrow> skip_space r2 = c3 # u3
               \<longrightarrow> json_members n d u3 = json_members k d u3)"
        if "json_chars (Suc (length u)) u = Some (x, r)" "skip_space r = c2 # u2" for x r c2 u2
      proof -
        have u2: "length u2 + 2 \<le> length u" using json_chars_shorter [OF that(1)] skip_space_Cons [OF that(2)] by simp
        then have "json_value n d u2 = json_value k d u2" using u by (intro IH) simp_all
        moreover have "json_members n d u3 = json_members k d u3"
          if "json_value k d u2 = Some (v, r2)" "skip_space r2 = c3 # u3" for v r2 c3 u3
          using json_shorter(1) [OF that(1)] skip_space_Cons [OF that(2)] u u2 by (intro IH) simp_all
        ultimately show ?thesis by blast
      qed
      with Cons show ?thesis by (auto split: option.splits list.splits)
    qed simp
    ultimately show ?thesis using Suc by blast
  qed simp
qed simp

text \<open>So \<open>json_parse\<close> is the parser with any fuel above the bound.\<close>

lemma json_parse_fuel:
  assumes "2 * length s + 1 \<le> n"
  shows "json_parse s = (case json_value n 0 s of
     Some (v, r) \<Rightarrow> if skip_space r = [] then Some v else None | None \<Rightarrow> None)"
proof -
  have "json_value (2 * length s + 2) 0 s = json_value n 0 s"
    using json_fuel [of s "2 * length s + 2" n 0] assms by simp
  then show ?thesis by (simp add: json_parse_def)
qed

end
