(* ===== verification/Tables.thy ===== *)
theory Tables
  imports Go_Json
begin

text \<open>
  What the repositories rely on from PostgreSQL and its driver.  A table is the list of its
  rows; \<open>fetch\<close> is a lookup by key, \<open>update_rows\<close> an \<open>UPDATE ... WHERE\<close>.  A transaction works
  on a copy of the database: a return without \<open>Commit\<close> runs the deferred rollback and leaves
  the database as it was.  The environment of one transaction says which step the driver
  fails, what the commit does and what the clock shows; a commit whose answer is lost
  (\<open>CommitUnknown\<close>) has taken effect although the caller sees an error.
\<close>

named_theorems table_simps \<open>facts about lookups, inserts and updates of tables\<close>

section \<open>Tables\<close>

definition fetch :: "('r \<Rightarrow> 'k) \<Rightarrow> 'k \<Rightarrow> 'r list \<Rightarrow> 'r option" where
  "fetch key k rows = List.find (\<lambda>r. key r = k) rows"

definition update_rows :: "('r \<Rightarrow> bool) \<Rightarrow> ('r \<Rightarrow> 'r) \<Rightarrow> 'r list \<Rightarrow> 'r list" where
  "update_rows p f rows = map (\<lambda>r. if p r then f r else r) rows"

definition affected :: "('r \<Rightarrow> bool) \<Rightarrow> 'r list \<Rightarrow> nat" where
  "affected p rows = length (filter p rows)"

definition unique_by :: "('r \<Rightarrow> 'k) \<Rightarrow> 'r list \<Rightarrow> bool" where
  "unique_by key rows \<longleftrightarrow> distinct (map key rows)"

lemma fetch_Nil [table_simps, simp]: "fetch key k [] = None"
  by (simp add: fetch_def)

lemma fetch_Cons: "fetch key k (r # rows) = (if key r = k then Some r else fetch key k rows)"
  by (simp add: fetch_def)

lemma fetch_append:
  "fetch key k (xs @ ys) = (case fetch key k xs of None \<Rightarrow> fetch key k ys | Some r \<Rightarrow> Some r)"
  by (induction xs) (simp_all add: fetch_def)

lemma fetch_SomeD: "fetch key k rows = Some r \<Longrightarrow> r \<in> set rows \<and> key r = k"
  by (induction rows) (auto simp: fetch_def split: if_splits)

lemma fetch_None_iff: "fetch key k rows = None \<longleftrightarrow> k \<notin> key ` set rows"
  by (induction rows) (auto simp: fetch_def)

lemma fetch_unique:
  "unique_by key rows \<Longrightarrow> r \<in> set rows \<Longrightarrow> fetch key (key r) rows = Some r"
  by (induction rows) (auto simp: fetch_def unique_by_def)

lemma fetch_unique_iff:
  "unique_by key rows \<Longrightarrow> fetch key k rows = Some r \<longleftrightarrow> r \<in> set rows \<and> key r = k"
  using fetch_unique [of key rows r] fetch_SomeD [of key k rows r] by auto

lemma unique_by_Nil [simp]: "unique_by key []"
  by (simp add: unique_by_def)

lemma unique_by_append1 [table_simps]:
  "unique_by key (rows @ [r]) \<longleftrightarrow> unique_by key rows \<and> fetch key (key r) rows = None"
  by (auto simp: unique_by_def fetch_None_iff)

lemma unique_byD:
  "unique_by key rows \<Longrightarrow> r \<in> set rows \<Longrightarrow> r' \<in> set rows \<Longrightarrow> key r = key r' \<Longrightarrow> r = r'"
  by (metis fetch_unique option.inject)

lemma map_update_rows:
  "(\<And>r. key (f r) = key r) \<Longrightarrow> map key (update_rows p f rows) = map key rows"
  by (simp add: update_rows_def)

lemma unique_by_update_rows [table_simps]:
  "(\<And>r. key (f r) = key r) \<Longrightarrow> unique_by key (update_rows p f rows) \<longleftrightarrow> unique_by key rows"
  by (simp add: unique_by_def map_update_rows)

lemma fetch_update_rows:
  "(\<And>r. key (f r) = key r) \<Longrightarrow>
   fetch key k (update_rows p f rows) =
     map_option (\<lambda>r. if p r then f r else r) (fetch key k rows)"
  by (induction rows) (auto simp: fetch_def update_rows_def)

lemma set_update_rows: "set (update_rows p f rows) = (\<lambda>r. if p r then f r else r) ` set rows"
  by (auto simp: update_rows_def)

lemma length_update_rows [simp]: "length (update_rows p f rows) = length rows"
  by (simp add: update_rows_def)

lemma update_rows_none: "(\<And>r. r \<in> set rows \<Longrightarrow> \<not> p r) \<Longrightarrow> update_rows p f rows = rows"
  by (simp add: update_rows_def map_idI)

lemma affected_key:
  "unique_by key rows \<Longrightarrow>
   affected (\<lambda>r. key r = k \<and> q r) rows = (case fetch key k rows of Some r \<Rightarrow> of_bool (q r) | None \<Rightarrow> 0)"
proof (induction rows)
  case (Cons r rows)
  then show ?case
    by (auto simp: affected_def fetch_Cons unique_by_def filter_empty_conv dest!: fetch_SomeD split: option.splits)
qed (simp add: affected_def)

section \<open>Transactions\<close>

datatype commit_outcome =
    Committed
  | CommitRefused go_error
  | CommitUnknown go_error

record pg_env =
  pg_begin :: "go_error option"
  pg_fault :: "nat \<Rightarrow> go_error option"
  pg_commit :: commit_outcome
  pg_clock :: "nat \<Rightarrow> gtime"

text \<open>An environment in which nothing fails.\<close>

definition healthy :: "gtime \<Rightarrow> pg_env" where
  "healthy t = \<lparr>pg_begin = None, pg_fault = (\<lambda>_. None), pg_commit = Committed, pg_clock = (\<lambda>_. t)\<rparr>"

definition no_fault :: "pg_env \<Rightarrow> bool" where
  "no_fault env \<longleftrightarrow>
     pg_begin env = None \<and> (\<forall>k. pg_fault env k = None) \<and> pg_commit env = Committed"

text \<open>The driver's errors are its own: none is an error value of the repository.\<close>

definition foreign_env :: "pg_env \<Rightarrow> bool" where
  "foreign_env env \<longleftrightarrow>
     (\<forall>e. pg_begin env = Some e \<longrightarrow> foreign e)
     \<and> (\<forall>k e. pg_fault env k = Some e \<longrightarrow> foreign e)
     \<and> (\<forall>e. pg_commit env = CommitRefused e \<or> pg_commit env = CommitUnknown e \<longrightarrow> foreign e)"

lemma no_fault_healthy [simp]: "no_fault (healthy t)"
  by (simp add: no_fault_def healthy_def)

lemma foreign_no_fault: "no_fault env \<Longrightarrow> foreign_env env"
  by (simp add: foreign_env_def no_fault_def)

lemma no_faultD:
  "no_fault env \<Longrightarrow> pg_begin env = None"
  "no_fault env \<Longrightarrow> pg_fault env k = None"
  "no_fault env \<Longrightarrow> pg_commit env = Committed"
  by (simp_all add: no_fault_def)

text \<open>\<open>fmt.Errorf("msg: %w", err)\<close>\<close>

definition errorf :: "string \<Rightarrow> go_error \<Rightarrow> go_error" where
  "errorf msg e = Wrapf (msg @ '': '') e []"

lemma errorf_simps [go_error_simps, simp]:
  "errors_is (errorf msg e) s \<longleftrightarrow> errors_is e s"
  "is_permanent (errorf msg e) \<longleftrightarrow> is_permanent e"
  "foreign (errorf msg e) \<longleftrightarrow> foreign e"
  "as_payment_validation (errorf msg e) = as_payment_validation e"
  "as_review_validation (errorf msg e) = as_review_validation e"
  "as_conflict (errorf msg e) = as_conflict e"
  by (simp_all add: errorf_def)

text \<open>
  \<open>tx.Commit\<close>: with \<open>d\<close> the database when the transaction began and \<open>w\<close> its working copy.
\<close>

definition commit_tx :: "pg_env \<Rightarrow> string \<Rightarrow> 'd \<Rightarrow> 'd \<Rightarrow> 'a \<Rightarrow> 'a result \<times> 'd" where
  "commit_tx env msg d w x =
     (case pg_commit env of
        Committed \<Rightarrow> (Inr x, w)
      | CommitRefused e \<Rightarrow> (Inl (errorf msg e), d)
      | CommitUnknown e \<Rightarrow> (Inl (errorf msg e), w))"

text \<open>The \<open>k\<close>-th statement of a transaction: the driver may fail it, or the server may.\<close>

definition statement :: "pg_env \<Rightarrow> nat \<Rightarrow> 'a result \<Rightarrow> 'a result" where
  "statement env k r = (case pg_fault env k of Some e \<Rightarrow> Inl e | None \<Rightarrow> r)"

lemma statement_no_fault [table_simps]: "no_fault env \<Longrightarrow> statement env k r = r"
  by (simp add: statement_def no_fault_def)

lemma statement_Inr [table_simps]:
  "statement env k r = Inr x \<longleftrightarrow> pg_fault env k = None \<and> r = Inr x"
  by (auto simp: statement_def split: option.splits)

lemma commit_no_fault [table_simps]: "no_fault env \<Longrightarrow> commit_tx env msg d w x = (Inr x, w)"
  by (simp add: commit_tx_def no_fault_def)

lemma commit_tx_state: "snd (commit_tx env msg d w x) = d \<or> snd (commit_tx env msg d w x) = w"
  by (simp add: commit_tx_def split: commit_outcome.splits)

lemma commit_tx_Inr:
  "commit_tx env msg d w x = (Inr y, d') \<longleftrightarrow> pg_commit env = Committed \<and> y = x \<and> d' = w"
  by (auto simp: commit_tx_def split: commit_outcome.splits)

section \<open>Values the server accepts\<close>

text \<open>A text parameter must be valid UTF-8 without the NUL character.\<close>

definition pg_text :: "string \<Rightarrow> bool" where
  "pg_text s \<longleftrightarrow> valid_utf8 s \<and> CHR 0x00 \<notin> set s"

definition varchar :: "nat \<Rightarrow> string \<Rightarrow> bool" where
  "varchar n s \<longleftrightarrow> pg_text s \<and> rune_count s \<le> n"

definition int4 :: "int \<Rightarrow> bool" where
  "int4 i \<longleftrightarrow> - (2 ^ 31) \<le> i \<and> i < 2 ^ 31"

text \<open>
  A uuid parameter.  All callers pass 36 bytes with hyphens at the four canonical places;
  the server accepts such a text exactly when the other bytes are hexadecimal digits.
\<close>

definition uuid_in :: "string \<Rightarrow> string option" where
  "uuid_in s = (if hyphens_at s \<and> list_all is_hex (uuid_hex s) then Some (map ascii_lower s) else None)"

definition upper_letters :: "nat \<Rightarrow> string \<Rightarrow> bool" where
  "upper_letters n s \<longleftrightarrow> length s = n \<and> list_all (\<lambda>c. 65 \<le> byte c \<and> byte c \<le> 90) s"

definition hex64 :: "string \<Rightarrow> bool" where
  "hex64 s \<longleftrightarrow> length s = 64 \<and> list_all lower_hex s"

text \<open>\<open>LEFT(s, n)\<close>: the first \<open>n\<close> characters of a text.\<close>

fun left_chars :: "nat \<Rightarrow> string \<Rightarrow> string" where
  "left_chars 0 s = []"
| "left_chars (Suc n) [] = []"
| "left_chars (Suc n) (c # cs) =
     (let (r, w) = decode_rune (c # cs) in take w (c # cs) @ left_chars n (drop (w - 1) cs))"

text \<open>
  A \<open>jsonb\<close> column is the server's: given a JSON text, it refuses it or keeps it in a form of
  its own, whose text it shows when the column is read.
\<close>

record pglib = golib +
  jsonb_column :: "string \<Rightarrow> string option"

definition json_object :: "string \<Rightarrow> bool" where
  "json_object s = (case json_parse s of Some (JObj ms) \<Rightarrow> True | _ \<Rightarrow> False)"

text \<open>A concrete library, to evaluate examples with.\<close>

definition sample_float :: "string \<Rightarrow> float64 option" where
  "sample_float s =
     (if s = ''0.5'' then Some (Finite (1/2)) else map_option (\<lambda>i. Finite (of_int i)) (parse_int64 s))"

definition sample_lib :: pglib where
  "sample_lib =
     \<lparr>uni_upper = (\<lambda>r. r), uni_lower = (\<lambda>r. r), sha256 = (\<lambda>s. take 32 (s @ replicate 32 CHR ''x'')),
      time_text = (\<lambda>t. show_int (wall t)),
      parse_time = (\<lambda>s. map_option (\<lambda>i. \<lparr>wall = i, zone = 0\<rparr>) (parse_int64 s)),
      parse_float = sample_float, float_text = (\<lambda>f. if f = Finite (1/2) then ''0.5'' else ''1''),
      go_quote = (\<lambda>s. CHR 0x22 # s @ [CHR 0x22]), json_error = (\<lambda>s. ''syntax error''),
      jsonb_column = (\<lambda>s. Some (if json_object s then s else [CHR 0x7B, CHR 0x7D]))\<rparr>"

text \<open>
  The JSON objects that the services write: their values are integers, texts and arrays of
  texts.  The server accepts such an object when its texts are texts a \<open>text\<close> column accepts.
\<close>

fun plain_json :: "json \<Rightarrow> bool" where
  "plain_json (JStr s) \<longleftrightarrow> pg_text s"
| "plain_json (JNum n) \<longleftrightarrow> (case parse_int64 n of None \<Rightarrow> False | Some i \<Rightarrow> n = show_int i)"
| "plain_json (JArr xs) \<longleftrightarrow> list_all (\<lambda>x. case x of JStr s \<Rightarrow> pg_text s | _ \<Rightarrow> False) xs"
| "plain_json _ \<longleftrightarrow> False"

definition jsonb_accepts :: "'a pglib_scheme \<Rightarrow> bool" where
  "jsonb_accepts L \<longleftrightarrow>
     (\<forall>ms. list_all (\<lambda>(k, v). pg_text k \<and> plain_json v) ms \<longrightarrow>
        (case jsonb_column L (json_text (JObj ms)) of None \<Rightarrow> False | Some t \<Rightarrow> json_object t))"

text \<open>\<open>length(btrim(s)) > 0\<close>\<close>

definition not_blank :: "string \<Rightarrow> bool" where
  "not_blank s \<longleftrightarrow> list_ex (\<lambda>c. c \<noteq> CHR '' '') s"

definition constraint_error :: "string \<Rightarrow> go_error" where
  "constraint_error what = Msg (''violates constraint '' @ what)"

lemma foreign_constraint [simp]: "foreign (constraint_error what)"
  by (simp add: constraint_error_def)

section \<open>ASCII texts\<close>

definition plain_text :: "string \<Rightarrow> bool" where
  "plain_text s \<longleftrightarrow> list_all (\<lambda>c. 0 < byte c \<and> byte c < 128) s"

lemma plain_text_ascii: "plain_text s \<Longrightarrow> list_all ascii s"
  by (auto simp: plain_text_def list_all_iff ascii_def)

lemma valid_utf8_ascii: "list_all ascii s \<Longrightarrow> valid_utf8 s"
  by (induction s) (auto simp: decode_rune_ascii rune_error_def ascii_def Let_def)

lemma rune_count_ascii: "list_all ascii s \<Longrightarrow> rune_count s = length s"
  by (simp add: rune_count_def runes_ascii)

lemma plain_pg_text: "plain_text s \<Longrightarrow> pg_text s"
  using valid_utf8_ascii [OF plain_text_ascii]
  by (auto simp: pg_text_def plain_text_def list_all_iff byte_def)

lemma plain_varchar: "plain_text s \<Longrightarrow> length s \<le> n \<Longrightarrow> varchar n s"
  by (simp add: varchar_def plain_pg_text rune_count_ascii plain_text_ascii)

lemma upper_plain: "upper_letters n s \<Longrightarrow> plain_text s"
  by (auto simp: upper_letters_def plain_text_def list_all_iff)

lemma sample_object: "json_object [CHR 0x7B, CHR 0x7D]"
  by (simp add: json_object_def json_parse_def skip_space_def json_space_def byte_def numeral_eq_Suc)

lemma sample_jsonb: "jsonb_accepts sample_lib"
  by (simp add: jsonb_accepts_def sample_lib_def sample_object)

text \<open>The named constraints of an insert: the first one that fails is the error.\<close>

fun check_all :: "(string \<times> bool) list \<Rightarrow> 'a \<Rightarrow> 'a result" where
  "check_all [] x = Inr x"
| "check_all ((name, ok) # cs) x = (if ok then check_all cs x else Inl (constraint_error name))"

lemma check_all_Inr [table_simps]: "check_all cs x = Inr y \<longleftrightarrow> list_all snd cs \<and> y = x"
  by (induction cs x rule: check_all.induct) auto

lemma check_all_foreign: "check_all cs x = Inl e \<Longrightarrow> foreign e"
  by (induction cs x rule: check_all.induct) (auto split: if_splits)

end
