(* ===== verification/Identifiers.thy ===== *)
theory Identifiers
  imports Tables
begin

text \<open>
  Identifiers: the UUIDs the services generate (\<open>newUUID\<close> in payment, review and
  observability), the payment ID accepted from a caller (payment/id.go), and the request ID
  that becomes the trace ID of an event (correlation/context.go).
\<close>

unbundle bit_operations_syntax

section \<open>Generated identifiers\<close>

type_synonym byte8 = "8 word"

definition hex_bytes :: "byte8 list \<Rightarrow> string" where
  "hex_bytes bs = hex_encode (map unat bs)"

text \<open>The version and variant bits that \<open>newUUID\<close> sets in its 16 random bytes.\<close>

definition stamp_v4 :: "byte8 list \<Rightarrow> byte8 list" where
  "stamp_v4 bs = (let bs1 = bs[6 := (bs ! 6 AND 0x0F) OR 0x40] in bs1[8 := (bs1 ! 8 AND 0x3F) OR 0x80])"

definition format_uuid :: "byte8 list \<Rightarrow> string" where
  "format_uuid bs =
     hex_bytes (take 4 bs) @ [CHR ''-''] @ hex_bytes (take 2 (drop 4 bs)) @ [CHR ''-'']
     @ hex_bytes (take 2 (drop 6 bs)) @ [CHR ''-''] @ hex_bytes (take 2 (drop 8 bs)) @ [CHR ''-'']
     @ hex_bytes (take 6 (drop 10 bs))"

text \<open>\<open>newUUID\<close>: the argument is what \<open>rand.Read\<close> delivers, an error or 16 bytes.\<close>

definition new_uuid :: "byte8 list result \<Rightarrow> string result" where
  "new_uuid rnd = (case rnd of Inl e \<Rightarrow> Inl e | Inr bs \<Rightarrow> Inr (format_uuid (stamp_v4 bs)))"

section \<open>Payment IDs from callers\<close>

text \<open>
  \<open>payment.NormalizeID\<close>.  When the checks pass every byte is ASCII, so that
  \<open>strings.ToLower\<close> works byte by byte.
\<close>

definition NormalizeID :: "string \<Rightarrow> string result" where
  "NormalizeID raw =
     (if \<not> hyphens_at raw then Inl (Sentinel ErrPaymentIDInvalid)
      else let compact = filter (\<lambda>c. c \<noteq> CHR ''-'') raw in
           if length compact \<noteq> 32 then Inl (Sentinel ErrPaymentIDInvalid)
           else if \<not> hex_decodes compact then Inl (Sentinel ErrPaymentIDInvalid)
           else Inr (map ascii_lower raw))"

section \<open>Request IDs\<close>

definition hyphen_index :: "nat \<Rightarrow> bool" where
  "hyphen_index i \<longleftrightarrow> i = 8 \<or> i = 13 \<or> i = 18 \<or> i = 23"

text \<open>
  \<open>correlation.NormalizeRequestID\<close>.  The source ranges over runes; a byte of a longer rune
  is no lowercase hexadecimal digit, so the test is the same on bytes.
\<close>

definition NormalizeRequestID :: "'a unicode_tables_scheme \<Rightarrow> string \<Rightarrow> string option" where
  "NormalizeRequestID ut v0 =
     (let v = to_lower ut (trim_space v0) in
      if \<not> hyphens_at v then None
      else if \<not> list_all (\<lambda>i. hyphen_index i \<or> lower_hex (v ! i)) [0..<length v] then None
      else if v ! 14 \<noteq> CHR ''4''
           \<or> (v ! 19 \<noteq> CHR ''8'' \<and> v ! 19 \<noteq> CHR ''9'' \<and> v ! 19 \<noteq> CHR ''a'' \<and> v ! 19 \<noteq> CHR ''b'')
        then None
      else Some v)"

text \<open>
  A request context: the request ID that \<open>WithRequestID\<close> may have attached.  \<open>RequestID\<close>
  returns the empty string where there is none.
\<close>

record context_values =
  request_id :: "string option"

definition WithRequestID ::
    "'a unicode_tables_scheme \<Rightarrow> context_values \<Rightarrow> string \<Rightarrow> context_values" where
  "WithRequestID ut ctx rid =
     (case NormalizeRequestID ut rid of None \<Rightarrow> ctx | Some v \<Rightarrow> ctx\<lparr>request_id := Some v\<rparr>)"

definition RequestID :: "context_values \<Rightarrow> string" where
  "RequestID ctx = (case request_id ctx of None \<Rightarrow> [] | Some v \<Rightarrow> v)"

section \<open>Canonical UUIDs\<close>

text \<open>The text that \<open>id::text\<close> shows: lowercase hexadecimal digits between the hyphens.\<close>

definition canonical_uuid :: "string \<Rightarrow> bool" where
  "canonical_uuid s \<longleftrightarrow> hyphens_at s \<and> list_all lower_hex (uuid_hex s)"

definition uuid_v4 :: "string \<Rightarrow> bool" where
  "uuid_v4 s \<longleftrightarrow> canonical_uuid s \<and> s ! 14 = CHR ''4'' \<and> s ! 19 \<in> set ''89ab''"

lemma hex_decodes_32: "length s = 32 \<Longrightarrow> hex_decodes s \<longleftrightarrow> list_all is_hex s"
  by (simp add: hex_decodes_def)

lemma NormalizeID_eq:
  "NormalizeID raw = (case uuid_in raw of None \<Rightarrow> Inl (Sentinel ErrPaymentIDInvalid) | Some u \<Rightarrow> Inr u)"
  using compact_hex_iff [of raw] by (auto simp: NormalizeID_def uuid_in_def Let_def hex_decodes_32)

lemma map_lower_hyphens:
  assumes "hyphens_at s" and "list_all is_hex (uuid_hex s)"
  shows "canonical_uuid (map ascii_lower s)"
proof -
  have h: "ascii_lower CHR ''-'' = CHR ''-''" by (simp add: ascii_lower_def byte_def)
  have u: "uuid_hex (map ascii_lower s) = map ascii_lower (uuid_hex s)"
    by (simp add: uuid_hex_def take_map drop_map)
  show ?thesis using assms u h
    by (auto simp: canonical_uuid_def hyphens_at_def list_all_iff)
qed

lemma uuid_in_canonical: "uuid_in s = Some u \<Longrightarrow> canonical_uuid u"
  by (auto simp: uuid_in_def map_lower_hyphens split: if_splits)

lemma canonical_lower_id:
  assumes "canonical_uuid s" shows "map ascii_lower s = s"
proof -
  have h: "ascii_lower CHR ''-'' = CHR ''-''" by (simp add: ascii_lower_def byte_def)
  have "map ascii_lower x = x" if "list_all lower_hex x" for x
    using that by (induction x) auto
  then have *: "\<And>x. x \<in> {take 8 s, take 4 (drop 9 s), take 4 (drop 14 s), take 4 (drop 19 s), drop 24 s}
    \<Longrightarrow> map ascii_lower x = x"
    using assms by (auto simp: canonical_uuid_def uuid_hex_def)
  from assms have s: "s = take 8 s @ [CHR ''-''] @ take 4 (drop 9 s) @ [CHR ''-''] @ take 4 (drop 14 s)
             @ [CHR ''-''] @ take 4 (drop 19 s) @ [CHR ''-''] @ drop 24 s"
    by (intro hyphens_at_split) (simp add: canonical_uuid_def)
  show ?thesis
    by (subst s, subst (2) s) (simp add: * h)
qed

lemma uuid_in_of_canonical [table_simps]: "canonical_uuid s \<Longrightarrow> uuid_in s = Some s"
  using canonical_lower_id [of s]
  by (auto simp: uuid_in_def canonical_uuid_def list_all_iff intro: lower_hex_is_hex)

lemma NormalizeID_canonical: "NormalizeID raw = Inr u \<Longrightarrow> canonical_uuid u"
  by (auto simp: NormalizeID_eq split: option.splits intro: uuid_in_canonical)

section \<open>Generated identifiers are version 4 UUIDs\<close>

lemma byte8_less: "unat (b :: byte8) < 256"
  using unsigned_less [of b] by simp

lemma low_bits_disjoint: "n \<le> m \<Longrightarrow> take_bit n (b :: byte8) AND push_bit m 1 = 0"
  by (intro bit_word_eqI)
     (auto simp only: bit_and_iff bit_take_bit_iff bit_push_bit_iff bit_0_eq bot_apply bot_bool_def)

lemma unat_stamp:
  "unat ((b :: byte8) AND 0x0F OR 0x40) = 64 + unat b mod 16"
  "unat ((b :: byte8) AND 0x3F OR 0x80) = 128 + unat b mod 64"
proof -
  have m: "b AND 0x0F = take_bit 4 b" "b AND 0x3F = take_bit 6 b"
    by (simp_all add: take_bit_eq_mask mask_eq_exp_minus_1)
  have "take_bit 4 b AND 0x40 = 0" "take_bit 6 b AND 0x80 = 0"
    using low_bits_disjoint [of 4 6 b] low_bits_disjoint [of 6 7 b] by simp_all
  then have o: "take_bit 4 b OR 0x40 = take_bit 4 b + 0x40" "take_bit 6 b OR 0x80 = take_bit 6 b + 0x80"
    by (simp_all add: disjunctive_add_eq_or)
  have u: "unat (take_bit n b) = unat b mod 2 ^ n" for n
    by (simp only: unsigned_take_bit_eq take_bit_eq_mod [of n "unat b"])
  have "unat b mod 16 < 16" "unat b mod 64 < 64" by simp_all
  then show "unat ((b :: byte8) AND 0x0F OR 0x40) = 64 + unat b mod 16"
    "unat ((b :: byte8) AND 0x3F OR 0x80) = 128 + unat b mod 64"
    using u [of 4] u [of 6] unfolding m o by (simp_all only: unat_word_ariths) simp_all
qed

lemma length_hex_bytes [simp]: "length (hex_bytes bs) = 2 * length bs"
  by (induction bs) (simp_all add: hex_bytes_def hex_encode_def hex_byte_def)

lemma hex_bytes_lower: "list_all lower_hex (hex_bytes bs)"
proof (induction bs)
  case (Cons b bs)
  have "unat b div 16 < 16" using byte8_less [of b] by simp
  with Cons show ?case by (simp add: hex_bytes_def hex_encode_def hex_byte_def)
qed (simp add: hex_bytes_def hex_encode_def)

lemma length_stamp [simp]: "length (stamp_v4 bs) = length bs"
  by (simp add: stamp_v4_def Let_def)

lemma format_uuid_canonical: "length bs = 16 \<Longrightarrow> canonical_uuid (format_uuid bs)"
  unfolding canonical_uuid_def format_uuid_def
  by (subst hyphens_at_append, simp_all add: uuid_hex_append hex_bytes_lower del: append.simps)

lemma hex_bytes_Cons: "hex_bytes (b # bs) = hex_digit (unat b div 16) # hex_digit (unat b mod 16) # hex_bytes bs"
  by (simp add: hex_bytes_def hex_encode_def hex_byte_def)

lemma format_uuid_nth:
  assumes "length bs = 16"
  shows "format_uuid bs ! 14 = hex_digit (unat (bs ! 6) div 16)"
    and "format_uuid bs ! 19 = hex_digit (unat (bs ! 8) div 16)"
proof -
  have d: "take 2 (drop k bs) = [bs ! k, bs ! Suc k]" if "k < 15" for k
    using assms that by (simp add: numeral_2_eq_2 take_Suc_conv_app_nth)
  show "format_uuid bs ! 14 = hex_digit (unat (bs ! 6) div 16)"
    and "format_uuid bs ! 19 = hex_digit (unat (bs ! 8) div 16)"
    using assms by (simp_all add: format_uuid_def nth_append d hex_bytes_Cons)
qed

lemma hex_digit_vals:
  "hex_digit 4 = CHR ''4''" "hex_digit 8 = CHR ''8''" "hex_digit 9 = CHR ''9''"
  "hex_digit 10 = CHR ''a''" "hex_digit 11 = CHR ''b''"
  by code_simp+

lemma version_digit: "hex_digit ((64 + (n::nat) mod 16) div 16) = CHR ''4''"
proof -
  have "(64 + n mod 16) div 16 = 4" by simp
  then show ?thesis by (simp add: hex_digit_vals)
qed

lemma variant_digit:
  assumes "(n::nat) < 64"
  shows "hex_digit ((128 + n) div 16) \<in> set ''89ab''"
proof -
  have "n div 16 = 0 \<or> n div 16 = 1 \<or> n div 16 = 2 \<or> n div 16 = 3" using assms by linarith
  moreover have "(128 + n) div 16 = 8 + n div 16" by simp
  ultimately show ?thesis by (elim disjE) (simp_all add: hex_digit_vals)
qed

lemma stamp_v4_nth:
  "length bs = 16 \<Longrightarrow> unat (stamp_v4 bs ! 6) = 64 + unat (bs ! 6) mod 16"
  "length bs = 16 \<Longrightarrow> unat (stamp_v4 bs ! 8) = 128 + unat (bs ! 8) mod 64"
  using unat_stamp by (simp_all add: stamp_v4_def Let_def)

lemma stamped_v4:
  assumes "length bs = 16"
  shows "uuid_v4 (format_uuid (stamp_v4 bs))"
proof -
  have "format_uuid (stamp_v4 bs) ! 14 = CHR ''4''"
    using assms by (simp only: format_uuid_nth stamp_v4_nth length_stamp version_digit)
  moreover have "format_uuid (stamp_v4 bs) ! 19 \<in> set ''89ab''"
    using assms by (simp only: format_uuid_nth stamp_v4_nth length_stamp) (rule variant_digit, simp)
  ultimately show ?thesis
    using assms by (simp only: uuid_v4_def format_uuid_canonical length_stamp simp_thms)
qed
lemma set_take_drop: "set (take n (drop k s)) = {s ! i |i. k \<le> i \<and> i < k + n \<and> i < length s}"
proof -
  have "x \<in> set (take n (drop k s)) \<longleftrightarrow> (\<exists>i. x = s ! i \<and> k \<le> i \<and> i < k + n \<and> i < length s)" for x
  proof
    assume "x \<in> set (take n (drop k s))"
    then obtain j where "j < n" "j < length s - k" "x = s ! (k + j)"
      by (auto simp: in_set_conv_nth)
    then show "\<exists>i. x = s ! i \<and> k \<le> i \<and> i < k + n \<and> i < length s"
      by (intro exI [of _ "k + j"]) auto
  next
    assume "\<exists>i. x = s ! i \<and> k \<le> i \<and> i < k + n \<and> i < length s"
    then obtain i where "x = s ! i" "k \<le> i" "i < k + n" "i < length s" by blast
    then show "x \<in> set (take n (drop k s))"
      by (auto simp: in_set_conv_nth intro!: exI [of _ "i - k"])
  qed
  then show ?thesis by blast
qed

lemma set_uuid_hex:
  assumes "hyphens_at s"
  shows "set (uuid_hex s) = {s ! i |i. i < 36 \<and> \<not> hyphen_index i}"
proof -
  have "drop 24 s = take 12 (drop 24 s)" using assms by (simp add: hyphens_at_def)
  then have "set (drop 24 s) = {s ! i |i. 24 \<le> i \<and> i < 36}"
    using assms set_take_drop [of 12 24 s] by (simp add: hyphens_at_def)
  moreover have "i < 36 \<and> \<not> hyphen_index i \<longleftrightarrow> i < 8 \<or> (9 \<le> i \<and> i < 13) \<or> (14 \<le> i \<and> i < 18)
      \<or> (19 \<le> i \<and> i < 23) \<or> (24 \<le> i \<and> i < 36)" for i
    unfolding hyphen_index_def by presburger
  ultimately show ?thesis
    using assms set_take_drop [of 8 0 s] set_take_drop [of 4 9 s] set_take_drop [of 4 14 s]
      set_take_drop [of 4 19 s]
    by (auto simp: uuid_hex_def hyphens_at_def)
qed

lemma indexed_hex_iff:
  "hyphens_at s \<Longrightarrow>
   list_all (\<lambda>i. hyphen_index i \<or> lower_hex (s ! i)) [0..<length s] \<longleftrightarrow> list_all lower_hex (uuid_hex s)"
  by (simp add: list_all_iff set_uuid_hex hyphens_at_def) fastforce

lemma NormalizeRequestID_eq:
  "NormalizeRequestID ut v0 =
     (let v = to_lower ut (trim_space v0) in if uuid_v4 v then Some v else None)"
  by (auto simp: NormalizeRequestID_def Let_def uuid_v4_def canonical_uuid_def indexed_hex_iff)

lemma canonical_set:
  assumes "canonical_uuid s"
  shows "set s \<subseteq> {c. lower_hex c} \<union> {CHR ''-''}"
proof -
  have "set s \<subseteq> set (uuid_hex s) \<union> {CHR ''-''}"
    using assms hyphens_at_split [of s] by (auto simp: canonical_uuid_def uuid_hex_def dest: arg_cong [of s _ set])
  then show ?thesis using assms by (auto simp: canonical_uuid_def list_all_iff)
qed

lemma canonical_bytes:
  assumes "canonical_uuid s" and "c \<in> set s"
  shows "ascii c" "plain_byte c" "c \<noteq> CHR 0x00"
proof -
  have "lower_hex c \<or> c = CHR ''-''" using canonical_set assms by blast
  then show "ascii c" "plain_byte c" "c \<noteq> CHR 0x00"
    by (auto simp: ascii_def plain_byte_def lower_hex_def is_space_def byte_def)
qed

lemma canonical_plain: "canonical_uuid s \<Longrightarrow> plain_text s"
  using canonical_set [of s] by (auto simp: plain_text_def list_all_iff lower_hex_def byte_def)

lemma to_lower_canonical: "canonical_uuid s \<Longrightarrow> to_lower ut s = s"
  by (simp add: to_lower_ascii list_all_iff canonical_bytes canonical_lower_id)

lemma trim_space_canonical: "canonical_uuid s \<Longrightarrow> trim_space s = s"
proof -
  assume c: "canonical_uuid s"
  then have "s \<noteq> []" by (auto simp: canonical_uuid_def hyphens_at_def)
  with c show ?thesis by (intro trim_space_plain) (auto intro: canonical_bytes)
qed

lemma uuid_v4_canonical: "uuid_v4 s \<Longrightarrow> canonical_uuid s"
  by (simp add: uuid_v4_def)

lemma NormalizeID_of_canonical: "canonical_uuid s \<Longrightarrow> NormalizeID s = Inr s"
  by (simp add: NormalizeID_eq uuid_in_of_canonical)

lemma canonical_nonempty: "canonical_uuid s \<Longrightarrow> s \<noteq> []"
  by (auto simp: canonical_uuid_def hyphens_at_def)

lemma NormalizeRequestID_Some:
  "NormalizeRequestID ut v = Some u \<Longrightarrow>
   uuid_v4 u \<and> NormalizeRequestID ut u = Some u \<and> u = to_lower ut (trim_space v)"
  using uuid_v4_canonical [of u]
  by (auto simp: NormalizeRequestID_eq Let_def trim_space_canonical to_lower_canonical split: if_splits)

lemma new_uuid_Inr: "new_uuid (Inr bs) = Inr (format_uuid (stamp_v4 bs))"
  by (simp add: new_uuid_def)

section \<open>Properties\<close>

text \<open>
  Whatever 16 random bytes \<open>newUUID\<close> gets, its result is a canonical version 4 UUID, which
  both \<open>payment.NormalizeID\<close> and \<open>correlation.NormalizeRequestID\<close> accept unchanged: the IDs
  that the services generate always pass the checks on the IDs that callers present.
\<close>

theorem new_uuid_accepted:
  assumes "length bs = 16"
  shows "\<exists>u. new_uuid (Inr bs) = Inr u \<and> uuid_v4 u \<and> NormalizeID u = Inr u
             \<and> NormalizeRequestID ut u = Some u"
proof -
  let ?u = "format_uuid (stamp_v4 bs)"
  have v: "uuid_v4 ?u" using assms by (rule stamped_v4)
  then have c: "canonical_uuid ?u" by (rule uuid_v4_canonical)
  have "NormalizeRequestID ut ?u = Some ?u"
    using v c by (simp add: NormalizeRequestID_eq trim_space_canonical to_lower_canonical)
  with v NormalizeID_of_canonical [OF c] show ?thesis by (simp add: new_uuid_Inr)
qed

text \<open>
  \<open>payment.NormalizeID\<close> accepts exactly the 36-byte UUIDs with hexadecimal digits of either
  case between the hyphens, returns their lowercase form, which it accepts again unchanged and
  which is the value PostgreSQL reads from the caller's text; every other string is the error
  \<open>ErrPaymentIDInvalid\<close>.
\<close>

theorem NormalizeID_spec:
  "NormalizeID raw =
     (if hyphens_at raw \<and> list_all is_hex (uuid_hex raw) then Inr (map ascii_lower raw)
      else Inl (Sentinel ErrPaymentIDInvalid))
   \<and> (case NormalizeID raw of Inl e \<Rightarrow> e = Sentinel ErrPaymentIDInvalid
      | Inr u \<Rightarrow> canonical_uuid u \<and> NormalizeID u = Inr u \<and> uuid_in raw = Some u)"
  using map_lower_hyphens [of raw] NormalizeID_of_canonical
  by (auto simp: NormalizeID_eq uuid_in_def split: if_splits)

text \<open>
  A request ID attached to a context is a version 4 UUID whatever the caller sent, and
  attaching an invalid one leaves the context as it was, so that the trace ID of an event
  cannot be polluted.
\<close>

theorem attached_request_id:
  "WithRequestID ut ctx rid = ctx \<and> NormalizeRequestID ut rid = None
   \<or> uuid_v4 (RequestID (WithRequestID ut ctx rid))
     \<and> RequestID (WithRequestID ut ctx rid) = to_lower ut (trim_space rid)"
  using NormalizeRequestID_Some [of ut rid]
  by (cases "NormalizeRequestID ut rid") (auto simp: WithRequestID_def RequestID_def)

end
