(* ===== verification/Payment_Domain.thy ===== *)
theory Payment_Domain
  imports Identifiers
begin

text \<open>
  The payment domain: the request and payment records (payment/model.go), normalisation and
  validation (payment/validation.go), and the request fingerprint that decides whether two
  requests with one idempotency key are the same (payment/fingerprint.go).
\<close>

section \<open>Data\<close>

definition StatusPendingRisk :: string where "StatusPendingRisk = ''PENDING_RISK''"
definition PaymentCreated :: string where "PaymentCreated = ''payments.created''"
definition SchemaVersion :: int where "SchemaVersion = 1"

record create_request =
  req_customer_id :: string
  req_merchant_id :: string
  req_device_id :: string
  req_amount_minor :: int
  req_currency :: string
  req_country :: string

record payment =
  pay_id :: string
  idempotency_key :: string
  request_fingerprint :: string
  customer_id :: string
  merchant_id :: string
  device_id :: string
  amount_minor :: int
  currency :: string
  country :: string
  pay_status :: string
  created_at :: gtime
  updated_at :: gtime

record outbox_event =
  oe_id :: string
  oe_aggregate_id :: string
  oe_event_type :: string
  oe_schema_version :: int
  oe_occurred_at :: gtime
  oe_trace_id :: string
  oe_payload :: string

record create_result =
  cr_payment :: payment
  cr_replayed :: bool

section \<open>Validation\<close>

definition isUpperASCII :: "string \<Rightarrow> nat \<Rightarrow> bool" where
  "isUpperASCII value n \<longleftrightarrow> length value = n \<and> list_all (\<lambda>r. 65 \<le> r \<and> r \<le> 90) (runes value)"

text \<open>The entry that \<open>validateIdentifier\<close> writes into the map of field errors, if any.\<close>

definition validateIdentifier :: "string \<Rightarrow> string \<Rightarrow> fields" where
  "validateIdentifier name value =
     (if value = [] then [(name, ''is required'')]
      else if rune_count value > 255 then [(name, ''must be at most 255 characters'')]
      else [])"

definition normalizeRequest :: "'a unicode_tables_scheme \<Rightarrow> create_request \<Rightarrow> create_request" where
  "normalizeRequest ut r =
     \<lparr>req_customer_id = trim_space (req_customer_id r),
      req_merchant_id = trim_space (req_merchant_id r),
      req_device_id = trim_space (req_device_id r),
      req_amount_minor = req_amount_minor r,
      req_currency = to_upper ut (trim_space (req_currency r)),
      req_country = to_upper ut (trim_space (req_country r))\<rparr>"

definition requestFields :: "create_request \<Rightarrow> fields" where
  "requestFields n =
     validateIdentifier ''customer_id'' (req_customer_id n)
     @ validateIdentifier ''merchant_id'' (req_merchant_id n)
     @ validateIdentifier ''device_id'' (req_device_id n)
     @ (if req_amount_minor n \<le> 0 then [(''amount_minor'', ''must be greater than zero'')] else [])
     @ (if \<not> isUpperASCII (req_currency n) 3
        then [(''currency'', ''must be a three-letter currency code'')] else [])
     @ (if \<not> isUpperASCII (req_country n) 2
        then [(''country'', ''must be a two-letter country code'')] else [])"

definition NormalizeAndValidate ::
    "'a unicode_tables_scheme \<Rightarrow> create_request \<Rightarrow> create_request result" where
  "NormalizeAndValidate ut r =
     (let normalized = normalizeRequest ut r; fs = requestFields normalized in
      if fs \<noteq> [] then Inl (PaymentValidationError fs) else Inr normalized)"

definition normalizeIdempotencyKey :: "string \<Rightarrow> string result" where
  "normalizeIdempotencyKey key =
     (let normalized = trim_space key in
      if normalized = [] then Inl (Sentinel ErrIdempotencyKeyRequired)
      else if rune_count normalized > 255 then Inl (Sentinel ErrIdempotencyKeyInvalid)
      else if list_ex is_control (runes normalized) then Inl (Sentinel ErrIdempotencyKeyInvalid)
      else Inr normalized)"

section \<open>The fingerprint\<close>

definition writeFingerprintField :: "string \<Rightarrow> string \<Rightarrow> string" where
  "writeFingerprintField name value =
     name @ [CHR '':''] @ show_nat (length value) @ [CHR '':''] @ value @ [char_of (10 :: nat)]"

definition canonicalFingerprintInput :: "create_request \<Rightarrow> string" where
  "canonicalFingerprintInput r =
     writeFingerprintField ''fingerprint_version'' ''1''
     @ writeFingerprintField ''customer_id'' (req_customer_id r)
     @ writeFingerprintField ''merchant_id'' (req_merchant_id r)
     @ writeFingerprintField ''device_id'' (req_device_id r)
     @ writeFingerprintField ''amount_minor'' (show_int (req_amount_minor r))
     @ writeFingerprintField ''currency'' (req_currency r)
     @ writeFingerprintField ''country'' (req_country r)"

text \<open>\<open>hex.EncodeToString\<close> of a digest\<close>

definition digest_hex :: "string \<Rightarrow> string" where
  "digest_hex d = hex_encode (map byte d)"

definition Fingerprint :: "'a golib_scheme \<Rightarrow> create_request \<Rightarrow> string" where
  "Fingerprint L normalized = digest_hex (sha256 L (canonicalFingerprintInput normalized))"

section \<open>What validation guarantees\<close>

definition valid_identifier :: "string \<Rightarrow> bool" where
  "valid_identifier s \<longleftrightarrow> s \<noteq> [] \<and> rune_count s \<le> 255"

definition valid_request :: "create_request \<Rightarrow> bool" where
  "valid_request n \<longleftrightarrow>
     valid_identifier (req_customer_id n) \<and> valid_identifier (req_merchant_id n)
     \<and> valid_identifier (req_device_id n) \<and> 0 < req_amount_minor n
     \<and> upper_letters 3 (req_currency n) \<and> upper_letters 2 (req_country n)"

lemma isUpperASCII_iff: "isUpperASCII s n \<longleftrightarrow> upper_letters n s"
  using list_all_runes [of "\<lambda>r. 65 \<le> r \<and> r \<le> 90" s] by (auto simp: isUpperASCII_def upper_letters_def)

lemma validateIdentifier_Nil: "validateIdentifier name s = [] \<longleftrightarrow> valid_identifier s"
  by (simp add: validateIdentifier_def valid_identifier_def)

lemma requestFields_Nil: "requestFields n = [] \<longleftrightarrow> valid_request n"
  by (auto simp: requestFields_def valid_request_def validateIdentifier_Nil isUpperASCII_iff)

lemma NormalizeAndValidate_Inr:
  "NormalizeAndValidate ut r = Inr n \<longleftrightarrow> n = normalizeRequest ut r \<and> valid_request n"
  by (auto simp: NormalizeAndValidate_def Let_def requestFields_Nil)

lemma NormalizeAndValidate_Inl:
  "NormalizeAndValidate ut r = Inl e \<longleftrightarrow>
     \<not> valid_request (normalizeRequest ut r)
     \<and> e = PaymentValidationError (requestFields (normalizeRequest ut r))"
  by (auto simp: NormalizeAndValidate_def Let_def requestFields_Nil)

section \<open>The fingerprint input is injective\<close>

lemma digits_colon_inject:
  assumes "xs @ CHR '':'' # r = ys @ CHR '':'' # r'"
    and "list_all is_digit xs" and "list_all is_digit ys"
  shows "xs = ys \<and> r = r'"
  using assms
proof (induction xs arbitrary: ys)
  case Nil
  then show ?case using not_digit_minus(3) by (cases ys) auto
next
  case (Cons x xs)
  then show ?case using not_digit_minus(3) by (cases ys) auto
qed

lemma writeFingerprintField_inject:
  assumes "writeFingerprintField name v @ r = writeFingerprintField name v' @ r'"
  shows "v = v' \<and> r = r'"
proof -
  from assms have e: "show_nat (length v) @ CHR '':'' # (v @ char_of (10 :: nat) # r)
      = show_nat (length v') @ CHR '':'' # (v' @ char_of (10 :: nat) # r')"
    by (simp add: writeFingerprintField_def)
  from digits_colon_inject [OF e] have "length v = length v'"
    and "v @ char_of (10 :: nat) # r = v' @ char_of (10 :: nat) # r'"
    by (simp_all add: show_nat_digits)
  then show ?thesis by simp
qed

lemma canonicalFingerprintInput_eq:
  assumes "canonicalFingerprintInput r = canonicalFingerprintInput r'"
  shows "r = r'"
proof -
  let ?w = writeFingerprintField
  from assms have
    "?w ''customer_id'' (req_customer_id r) @ ?w ''merchant_id'' (req_merchant_id r)
     @ ?w ''device_id'' (req_device_id r) @ ?w ''amount_minor'' (show_int (req_amount_minor r))
     @ ?w ''currency'' (req_currency r) @ ?w ''country'' (req_country r) @ []
     = ?w ''customer_id'' (req_customer_id r') @ ?w ''merchant_id'' (req_merchant_id r')
     @ ?w ''device_id'' (req_device_id r') @ ?w ''amount_minor'' (show_int (req_amount_minor r'))
     @ ?w ''currency'' (req_currency r') @ ?w ''country'' (req_country r') @ []"
    by (simp add: canonicalFingerprintInput_def)
  then show ?thesis
    by (auto dest!: writeFingerprintField_inject
        writeFingerprintField_inject [where r = "[]" and r' = "[]", simplified])
qed

lemma length_hex_encode [simp]: "length (hex_encode bs) = 2 * length bs"
  by (induction bs) (simp_all add: hex_encode_def hex_byte_def)

lemma hex_encode_lower: "\<forall>b \<in> set bs. b < 256 \<Longrightarrow> list_all lower_hex (hex_encode bs)"
  by (induction bs) (auto simp: hex_encode_def hex_byte_def)

lemma digest_hex64: "length d = 32 \<Longrightarrow> hex64 (digest_hex d)"
  by (auto simp: hex64_def digest_hex_def intro!: hex_encode_lower)

lemma hex_digit_inject: "d < 16 \<Longrightarrow> d' < 16 \<Longrightarrow> hex_digit d = hex_digit d' \<Longrightarrow> d = d'"
  by (metis hex_value_digit)

lemma hex_byte_inject:
  assumes "b < 256" and "b' < 256" and "hex_byte b @ r = hex_byte b' @ r'"
  shows "b = b' \<and> r = r'"
proof -
  have lt: "b div 16 < 16" "b' div 16 < 16" "b mod 16 < 16" "b' mod 16 < 16"
    using assms(1,2) by (auto simp: less_mult_imp_div_less)
  from assms(3) have eqs: "hex_digit (b div 16) = hex_digit (b' div 16)"
    "hex_digit (b mod 16) = hex_digit (b' mod 16)" "r = r'"
    unfolding hex_byte_def by simp_all
  have "b div 16 = b' div 16" by (rule hex_digit_inject [OF lt(1,2) eqs(1)])
  moreover have "b mod 16 = b' mod 16" by (rule hex_digit_inject [OF lt(3,4) eqs(2)])
  ultimately have "b = b'" by (metis div_mult_mod_eq)
  then show ?thesis using eqs(3) by simp
qed

lemma hex_encode_Cons: "hex_encode (b # bs) = hex_byte b @ hex_encode bs"
  by (simp add: hex_encode_def)

lemma hex_byte_not_Nil: "hex_byte b @ r \<noteq> []"
  by (simp add: hex_byte_def)

lemma hex_encode_inject:
  "\<forall>b \<in> set bs. b < 256 \<Longrightarrow> \<forall>b \<in> set cs. b < 256 \<Longrightarrow> hex_encode bs = hex_encode cs \<Longrightarrow> bs = cs"
proof (induction bs arbitrary: cs)
  case Nil
  have "hex_encode cs = []" using Nil.prems(3) by (simp add: hex_encode_def)
  then show ?case by (cases cs) (simp_all only: hex_encode_Cons hex_byte_not_Nil simp_thms)
next
  case (Cons b bs)
  show ?case
  proof (cases cs)
    case Nil
    then have "hex_byte b @ hex_encode bs = []"
      using Cons.prems(3) by (simp only: hex_encode_Cons) (simp add: hex_encode_def)
    then show ?thesis by (simp only: hex_byte_not_Nil)
  next
    case cs: (Cons c cs')
    have lt: "b < 256" "c < 256" using Cons.prems(1,2) cs by simp_all
    have "hex_byte b @ hex_encode bs = hex_byte c @ hex_encode cs'"
      using Cons.prems(3) unfolding cs hex_encode_Cons .
    from hex_byte_inject [OF lt this] have "b = c" and e: "hex_encode bs = hex_encode cs'" by auto
    moreover have "bs = cs'" using Cons.prems(1,2) e cs by (intro Cons.IH) simp_all
    ultimately show ?thesis using cs by simp
  qed
qed

lemma digest_hex_inject: "digest_hex d = digest_hex d' \<longleftrightarrow> d = d'"
proof
  assume "digest_hex d = digest_hex d'"
  then have "map byte d = map byte d'" unfolding digest_hex_def by (rule hex_encode_inject [rotated 2]) auto
  then show "d = d'" by (simp add: inj_map_eq_map inj_def)
qed simp

lemma Fingerprint_eqD:
  "Fingerprint L r = Fingerprint L r' \<Longrightarrow>
   sha256 L (canonicalFingerprintInput r) = sha256 L (canonicalFingerprintInput r')"
  by (simp add: Fingerprint_def digest_hex_inject)

section \<open>The fields a validation error names\<close>

text \<open>The fields in the order they are checked, and what is required of each.\<close>

definition request_field_names :: "string list" where
  "request_field_names =
     [''customer_id'', ''merchant_id'', ''device_id'', ''amount_minor'', ''currency'', ''country'']"

definition field_ok :: "create_request \<Rightarrow> string \<Rightarrow> bool" where
  "field_ok n f \<longleftrightarrow>
     (if f = ''customer_id'' then valid_identifier (req_customer_id n)
      else if f = ''merchant_id'' then valid_identifier (req_merchant_id n)
      else if f = ''device_id'' then valid_identifier (req_device_id n)
      else if f = ''amount_minor'' then 0 < req_amount_minor n
      else if f = ''currency'' then upper_letters 3 (req_currency n)
      else upper_letters 2 (req_country n))"

lemma filter_Cons_append: "filter P (x # xs) = (if P x then [x] else []) @ filter P xs"
  by simp

lemma map_fst_validateIdentifier:
  "map fst (validateIdentifier name s) = (if \<not> valid_identifier s then [name] else [])"
  by (simp add: validateIdentifier_def valid_identifier_def)

lemma requestFields_names:
  "map fst (requestFields n) = filter (\<lambda>f. \<not> field_ok n f) request_field_names"
proof -
  have ok: "field_ok n ''customer_id'' = valid_identifier (req_customer_id n)"
    "field_ok n ''merchant_id'' = valid_identifier (req_merchant_id n)"
    "field_ok n ''device_id'' = valid_identifier (req_device_id n)"
    "field_ok n ''amount_minor'' = (0 < req_amount_minor n)"
    "field_ok n ''currency'' = upper_letters 3 (req_currency n)"
    "field_ok n ''country'' = upper_letters 2 (req_country n)"
    by (simp_all add: field_ok_def)
  have fst1: "map fst (if c then [(x, y)] else []) = (if c then [x] else [])" for c and x y :: string
    by simp
  show ?thesis
    unfolding requestFields_def request_field_names_def filter_Cons_append ok isUpperASCII_iff
      map_append map_fst_validateIdentifier fst1 not_less
    by simp
qed

section \<open>Properties\<close>

text \<open>
  C36: \<open>NormalizeAndValidate\<close> accepts a request exactly when its normalised form has three
  identifiers of 1 to 255 characters, a positive amount, and a currency and a country of three
  and two uppercase letters; it returns that normalised form.  A refused request is a
  validation error that names exactly the fields that fail, each once, in a fixed order.
\<close>

theorem NormalizeAndValidate_spec:
  "NormalizeAndValidate ut r =
     (if valid_request (normalizeRequest ut r) then Inr (normalizeRequest ut r)
      else Inl (PaymentValidationError (requestFields (normalizeRequest ut r))))
   \<and> map fst (requestFields (normalizeRequest ut r)) =
       filter (\<lambda>f. \<not> field_ok (normalizeRequest ut r) f) request_field_names"
  by (simp add: NormalizeAndValidate_def Let_def requestFields_Nil requestFields_names)

text \<open>
  C37: two normalised requests have the same fingerprint input only when all their fields agree:
  no customer, merchant or device ID, whatever bytes it holds, can be chosen so that its text
  runs into the next field.  Their fingerprints can therefore agree only through a collision of
  SHA-256.
\<close>

theorem fingerprint_input_injective:
  "(canonicalFingerprintInput r = canonicalFingerprintInput r' \<longleftrightarrow> r = r')
   \<and> (Fingerprint L r = Fingerprint L r' \<longleftrightarrow>
        sha256 L (canonicalFingerprintInput r) = sha256 L (canonicalFingerprintInput r'))"
  using canonicalFingerprintInput_eq [of r r'] by (auto simp: Fingerprint_def digest_hex_inject)

end
