(* ===== verification/Schema.thy ===== *)
theory Schema
  imports Payment_Domain
begin

text \<open>
  The tables of database/migrations: one record per row, one list per table, and for every
  statement that inserts a row the type conversions, CHECK, UNIQUE and REFERENCES constraints
  that the migrations declare, in the order PostgreSQL applies them.  \<open>valid_db\<close> says that all
  constraints hold; every insert and update used by the services preserves it.
\<close>

section \<open>Rows\<close>

record outbox_row =
  ev_id :: string
  ev_aggregate_id :: string
  ev_event_type :: string
  ev_schema_version :: int
  ev_occurred_at :: gtime
  ev_trace_id :: string
  ev_payload :: string
  ev_created_at :: gtime
  ev_published_at :: "gtime option"
  ev_delivery_attempts :: int
  ev_next_attempt_at :: gtime
  ev_last_attempt_at :: "gtime option"
  ev_last_error :: "string option"
  ev_dead_lettered_at :: "gtime option"

record decision_row =
  dr_decision_id :: string
  dr_payment_id :: string
  dr_source_event_id :: string
  dr_trace_id :: string
  dr_schema_version :: int
  dr_decision :: string
  dr_risk_score :: int
  dr_rule_score :: int
  dr_model_score :: int
  dr_model_probability :: float64
  dr_model_review_threshold :: float64
  dr_reason_codes :: "string list"
  dr_rule_version :: string
  dr_model_version :: string
  dr_velocity_5m :: int
  dr_new_device :: bool
  dr_cross_border :: bool
  dr_baseline_country :: string
  dr_decision_at :: gtime
  dr_event_fingerprint :: string
  dr_recorded_at :: gtime

record receipt_row =
  ir_topic :: string
  ir_partition :: int
  ir_offset :: int
  ir_record_sha256 :: string
  ir_event_id :: "string option"
  ir_payment_id :: "string option"
  ir_disposition :: string
  ir_error_code :: "string option"
  ir_error_message :: "string option"
  ir_rejected_value :: "string option"
  ir_recorded_at :: gtime

record audit_row =
  au_id :: string
  au_aggregate_type :: string
  au_aggregate_id :: string
  au_event_type :: string
  au_actor_type :: string
  au_actor_id :: string
  au_decision_id :: string
  au_occurred_at :: gtime
  au_details :: string
  au_recorded_at :: gtime

record review_row =
  rv_payment_id :: string
  rv_decision_id :: string
  rv_status :: string
  rv_version :: int
  rv_enqueued_at :: gtime
  rv_resolved_at :: "gtime option"
  rv_reviewer_id :: "string option"
  rv_resolution_reason :: "string option"

record db =
  t_payments :: "payment list"
  t_outbox :: "outbox_row list"
  t_decisions :: "decision_row list"
  t_receipts :: "receipt_row list"
  t_audits :: "audit_row list"
  t_reviews :: "review_row list"

definition empty_db :: db where
  "empty_db = \<lparr>t_payments = [], t_outbox = [], t_decisions = [], t_receipts = [], t_audits = [],
     t_reviews = []\<rparr>"

definition coordinate :: "receipt_row \<Rightarrow> string \<times> int \<times> int" where
  "coordinate r = (ir_topic r, ir_partition r, ir_offset r)"

definition audit_key :: "audit_row \<Rightarrow> string \<times> string" where
  "audit_key r = (au_event_type r, au_decision_id r)"

definition payment_exists :: "db \<Rightarrow> string \<Rightarrow> bool" where
  "payment_exists d k \<longleftrightarrow> fetch pay_id k (t_payments d) \<noteq> None"

definition decision_exists :: "db \<Rightarrow> string \<Rightarrow> bool" where
  "decision_exists d k \<longleftrightarrow> fetch dr_decision_id k (t_decisions d) \<noteq> None"

section \<open>The constraints of one row\<close>

definition payment_statuses :: "string list" where
  "payment_statuses = [''PENDING_RISK'', ''ALLOWED'', ''REVIEW'', ''BLOCKED'', ''FAILED'']"

definition payment_checks :: "payment \<Rightarrow> (string \<times> bool) list" where
  "payment_checks p =
     [(''idempotency_key'', varchar 255 (idempotency_key p)),
      (''request_fingerprint_check'', hex64 (request_fingerprint p)),
      (''customer_id'', varchar 255 (customer_id p)),
      (''merchant_id'', varchar 255 (merchant_id p)),
      (''device_id'', varchar 255 (device_id p)),
      (''amount_minor_check'', 0 < amount_minor p \<and> in_int64 (amount_minor p)),
      (''currency_check'', upper_letters 3 (currency p)),
      (''country_check'', upper_letters 2 (country p)),
      (''status_check'', pay_status p \<in> set payment_statuses)]"

definition outbox_checks :: "db \<Rightarrow> outbox_row \<Rightarrow> (string \<times> bool) list" where
  "outbox_checks d r =
     [(''event_type'', varchar 100 (ev_event_type r)),
      (''schema_version_check'', 0 < ev_schema_version r \<and> int4 (ev_schema_version r)),
      (''payload_check'', json_object (ev_payload r)),
      (''aggregate_id_fkey'', payment_exists d (ev_aggregate_id r))]"

definition unit_interval :: "float64 \<Rightarrow> bool" where
  "unit_interval f = (case f of Finite q \<Rightarrow> 0 \<le> q \<and> q \<le> 1 | _ \<Rightarrow> False)"

definition open_interval :: "float64 \<Rightarrow> bool" where
  "open_interval f = (case f of Finite q \<Rightarrow> 0 < q \<and> q < 1 | _ \<Rightarrow> False)"

definition score :: "int \<Rightarrow> bool" where
  "score i \<longleftrightarrow> 0 \<le> i \<and> i \<le> 100"

definition decision_checks :: "db \<Rightarrow> decision_row \<Rightarrow> (string \<times> bool) list" where
  "decision_checks d r =
     [(''schema_version_check'', dr_schema_version r = 2),
      (''decision_check'', dr_decision r \<in> {''ALLOW'', ''REVIEW'', ''BLOCK''}),
      (''risk_score_check'', score (dr_risk_score r)),
      (''rule_score_check'', score (dr_rule_score r)),
      (''model_score_check'', score (dr_model_score r)),
      (''model_probability_check'', unit_interval (dr_model_probability r)),
      (''model_review_threshold_check'', open_interval (dr_model_review_threshold r)),
      (''reason_codes_check'', dr_reason_codes r \<noteq> [] \<and> list_all pg_text (dr_reason_codes r)),
      (''rule_version_check'', varchar 255 (dr_rule_version r) \<and> not_blank (dr_rule_version r)),
      (''model_version_check'', varchar 255 (dr_model_version r) \<and> not_blank (dr_model_version r)),
      (''velocity_5m_check'', int4 (dr_velocity_5m r) \<and> 1 \<le> dr_velocity_5m r),
      (''baseline_country_check'', upper_letters 2 (dr_baseline_country r)),
      (''event_fingerprint_check'', hex64 (dr_event_fingerprint r)),
      (''payment_id_fkey'', payment_exists d (dr_payment_id r))]"

definition receipt_shape :: "receipt_row \<Rightarrow> bool" where
  "receipt_shape r \<longleftrightarrow>
     (ir_disposition r \<in> {''APPLIED'', ''REPLAYED''} \<and> ir_event_id r \<noteq> None
      \<and> ir_payment_id r \<noteq> None \<and> ir_error_code r = None \<and> ir_error_message r = None
      \<and> ir_rejected_value r = None)
     \<or> (ir_disposition r = ''REJECTED'' \<and> ir_event_id r = None \<and> ir_payment_id r = None
      \<and> ir_error_code r \<noteq> None \<and> ir_error_message r \<noteq> None \<and> ir_rejected_value r \<noteq> None)"

definition opt_all :: "('a \<Rightarrow> bool) \<Rightarrow> 'a option \<Rightarrow> bool" where
  "opt_all p x = (case x of None \<Rightarrow> True | Some y \<Rightarrow> p y)"

definition receipt_checks :: "db \<Rightarrow> receipt_row \<Rightarrow> (string \<times> bool) list" where
  "receipt_checks d r =
     [(''source_topic'', varchar 249 (ir_topic r)),
      (''source_partition_check'', 0 \<le> ir_partition r \<and> int4 (ir_partition r)),
      (''source_offset_check'', 0 \<le> ir_offset r \<and> in_int64 (ir_offset r)),
      (''record_sha256_check'', hex64 (ir_record_sha256 r)),
      (''error_code'', opt_all (varchar 100) (ir_error_code r)),
      (''error_message'', opt_all pg_text (ir_error_message r)),
      (''decision_ingestion_record_shape'', receipt_shape r),
      (''payment_id_fkey'', opt_all (payment_exists d) (ir_payment_id r))]"

definition audit_checks :: "db \<Rightarrow> audit_row \<Rightarrow> (string \<times> bool) list" where
  "audit_checks d r =
     [(''aggregate_type'', varchar 100 (au_aggregate_type r)),
      (''event_type'', varchar 100 (au_event_type r)),
      (''actor_type'', varchar 32 (au_actor_type r)),
      (''actor_id'', varchar 255 (au_actor_id r)),
      (''details_check'', json_object (au_details r)),
      (''decision_id_fkey'', decision_exists d (au_decision_id r))]"

text \<open>
  \<open>length(btrim(NULL)) > 0\<close> is unknown, and a CHECK whose value is unknown passes: the shape of
  000004 does not refuse a resolved row without a reviewer or a reason.
\<close>

definition resolution_shape :: "review_row \<Rightarrow> bool" where
  "resolution_shape r \<longleftrightarrow>
     (rv_status r = ''PENDING'' \<and> rv_resolved_at r = None \<and> rv_reviewer_id r = None
      \<and> rv_resolution_reason r = None)
     \<or> (rv_status r \<in> {''APPROVED'', ''REJECTED''} \<and> rv_resolved_at r \<noteq> None
      \<and> opt_all not_blank (rv_reviewer_id r) \<and> opt_all not_blank (rv_resolution_reason r))"

definition review_checks :: "db \<Rightarrow> review_row \<Rightarrow> (string \<times> bool) list" where
  "review_checks d r =
     [(''version_check'', 0 < rv_version r \<and> int4 (rv_version r)),
      (''reviewer_id'', opt_all (varchar 255) (rv_reviewer_id r)),
      (''resolution_reason'', opt_all pg_text (rv_resolution_reason r)),
      (''manual_review_resolution_shape'', resolution_shape r),
      (''payment_id_fkey'', payment_exists d (rv_payment_id r)),
      (''decision_id_fkey'', decision_exists d (rv_decision_id r))]"

section \<open>Inserts\<close>

text \<open>
  \<open>INSERT INTO payments ... ON CONFLICT (idempotency_key) DO NOTHING RETURNING\<close>: no row when the
  key is taken; the primary key is checked only when the row is really inserted.
\<close>

definition insert_payment :: "payment \<Rightarrow> db \<Rightarrow> (payment option \<times> db) result" where
  "insert_payment p d =
     (case uuid_in (pay_id p) of
        None \<Rightarrow> Inl (constraint_error ''id'')
      | Some u \<Rightarrow>
          let r = p\<lparr>pay_id := u, created_at := timestamptz (created_at p),
                    updated_at := timestamptz (updated_at p)\<rparr> in
          (case check_all (payment_checks r) () of
             Inl e \<Rightarrow> Inl e
           | Inr _ \<Rightarrow>
               if fetch idempotency_key (idempotency_key r) (t_payments d) \<noteq> None then Inr (None, d)
               else if payment_exists d u then Inl (constraint_error ''payments_pkey'')
               else Inr (Some r, d\<lparr>t_payments := t_payments d @ [r]\<rparr>)))"

text \<open>The other inserts; the callers convert the parameters to column values first.\<close>

definition insert_outbox :: "outbox_row \<Rightarrow> db \<Rightarrow> db result" where
  "insert_outbox r d =
     check_all (outbox_checks d r
       @ [(''outbox_events_pkey'', fetch ev_id (ev_id r) (t_outbox d) = None)])
       (d\<lparr>t_outbox := t_outbox d @ [r]\<rparr>)"

definition insert_decision :: "decision_row \<Rightarrow> db \<Rightarrow> db result" where
  "insert_decision r d =
     check_all (decision_checks d r
       @ [(''payment_decisions_pkey'', \<not> decision_exists d (dr_decision_id r)),
          (''source_event_id_key'',
             fetch dr_source_event_id (dr_source_event_id r) (t_decisions d) = None)])
       (d\<lparr>t_decisions := t_decisions d @ [r]\<rparr>)"

definition insert_audit :: "audit_row \<Rightarrow> db \<Rightarrow> db result" where
  "insert_audit r d =
     check_all (audit_checks d r
       @ [(''audit_events_pkey'', fetch au_id (au_id r) (t_audits d) = None),
          (''event_type_decision_id_key'', fetch audit_key (audit_key r) (t_audits d) = None)])
       (d\<lparr>t_audits := t_audits d @ [r]\<rparr>)"

definition insert_review :: "review_row \<Rightarrow> db \<Rightarrow> db result" where
  "insert_review r d =
     check_all (review_checks d r
       @ [(''manual_review_queue_pkey'', fetch rv_payment_id (rv_payment_id r) (t_reviews d) = None),
          (''decision_id_key'', fetch rv_decision_id (rv_decision_id r) (t_reviews d) = None)])
       (d\<lparr>t_reviews := t_reviews d @ [r]\<rparr>)"

text \<open>
  The receipt insert of Reject refuses a taken coordinate; the one of Apply says
  \<open>ON CONFLICT DO NOTHING\<close> and reports the number of rows it inserted.
\<close>

definition insert_receipt_row :: "receipt_row \<Rightarrow> db \<Rightarrow> db result" where
  "insert_receipt_row r d =
     check_all (receipt_checks d r
       @ [(''decision_ingestion_records_pkey'', fetch coordinate (coordinate r) (t_receipts d) = None)])
       (d\<lparr>t_receipts := t_receipts d @ [r]\<rparr>)"

definition insert_receipt_or_skip :: "receipt_row \<Rightarrow> db \<Rightarrow> (nat \<times> db) result" where
  "insert_receipt_or_skip r d =
     check_all (receipt_checks d r)
       (if fetch coordinate (coordinate r) (t_receipts d) \<noteq> None then (0, d)
        else (1, d\<lparr>t_receipts := t_receipts d @ [r]\<rparr>))"

section \<open>Updates\<close>

text \<open>\<open>UPDATE payments SET status, updated_at WHERE id AND status\<close>, with the rows affected\<close>

definition set_payment_status ::
    "string \<Rightarrow> string \<Rightarrow> string \<Rightarrow> gtime \<Rightarrow> db \<Rightarrow> nat \<times> db" where
  "set_payment_status pid old new tm d =
     (let hit = (\<lambda>p. pay_id p = pid \<and> pay_status p = old) in
      (affected hit (t_payments d),
       d\<lparr>t_payments := update_rows hit (\<lambda>p. p\<lparr>pay_status := new, updated_at := timestamptz tm\<rparr>)
            (t_payments d)\<rparr>))"

section \<open>All constraints hold\<close>

definition holds :: "(string \<times> bool) list \<Rightarrow> bool" where
  "holds cs \<longleftrightarrow> list_all snd cs"

definition valid_payments :: "db \<Rightarrow> bool" where
  "valid_payments d \<longleftrightarrow>
     unique_by pay_id (t_payments d) \<and> unique_by idempotency_key (t_payments d)
     \<and> (\<forall>p \<in> set (t_payments d). holds (payment_checks p) \<and> canonical_uuid (pay_id p)
          \<and> timestamptz (created_at p) = created_at p \<and> timestamptz (updated_at p) = updated_at p)"

definition valid_outbox :: "db \<Rightarrow> bool" where
  "valid_outbox d \<longleftrightarrow>
     unique_by ev_id (t_outbox d)
     \<and> (\<forall>r \<in> set (t_outbox d). holds (outbox_checks d r)
          \<and> (ev_published_at r = None \<or> ev_dead_lettered_at r = None)
          \<and> 0 \<le> ev_delivery_attempts r)"

definition valid_decisions :: "db \<Rightarrow> bool" where
  "valid_decisions d \<longleftrightarrow>
     unique_by dr_decision_id (t_decisions d) \<and> unique_by dr_source_event_id (t_decisions d)
     \<and> (\<forall>r \<in> set (t_decisions d). holds (decision_checks d r))"

definition valid_receipts :: "db \<Rightarrow> bool" where
  "valid_receipts d \<longleftrightarrow>
     unique_by coordinate (t_receipts d) \<and> (\<forall>r \<in> set (t_receipts d). holds (receipt_checks d r))"

definition valid_audits :: "db \<Rightarrow> bool" where
  "valid_audits d \<longleftrightarrow>
     unique_by au_id (t_audits d) \<and> unique_by audit_key (t_audits d)
     \<and> (\<forall>r \<in> set (t_audits d). holds (audit_checks d r))"

definition valid_reviews :: "db \<Rightarrow> bool" where
  "valid_reviews d \<longleftrightarrow>
     unique_by rv_payment_id (t_reviews d) \<and> unique_by rv_decision_id (t_reviews d)
     \<and> (\<forall>r \<in> set (t_reviews d). holds (review_checks d r))"

definition valid_db :: "db \<Rightarrow> bool" where
  "valid_db d \<longleftrightarrow> valid_payments d \<and> valid_outbox d \<and> valid_decisions d \<and> valid_receipts d
     \<and> valid_audits d \<and> valid_reviews d"

text \<open>The references of one table only grow with the table they point to.\<close>

definition extends :: "db \<Rightarrow> db \<Rightarrow> bool" where
  "extends d d' \<longleftrightarrow>
     (\<forall>k. payment_exists d k \<longrightarrow> payment_exists d' k)
     \<and> (\<forall>k. decision_exists d k \<longrightarrow> decision_exists d' k)"

lemma holds_append [simp]: "holds (cs @ ds) \<longleftrightarrow> holds cs \<and> holds ds"
  by (simp add: holds_def)

lemma holds_Cons [simp]: "holds ((n, b) # cs) \<longleftrightarrow> b \<and> holds cs"
  by (simp add: holds_def)

lemma holds_Nil [simp]: "holds []"
  by (simp add: holds_def)

lemma check_all_holds: "check_all cs x = Inr y \<longleftrightarrow> holds cs \<and> y = x"
  by (simp add: check_all_Inr holds_def)

lemma check_all_cases:
  "check_all cs x = (if holds cs then Inr x else check_all cs x)"
  "\<not> holds cs \<Longrightarrow> \<exists>e. check_all cs x = Inl e \<and> foreign e"
proof -
  show "check_all cs x = (if holds cs then Inr x else check_all cs x)"
    using check_all_holds [of cs x x] by auto
  assume "\<not> holds cs"
  then show "\<exists>e. check_all cs x = Inl e \<and> foreign e"
    by (cases "check_all cs x") (auto simp: check_all_holds dest: check_all_foreign)
qed

lemma valid_empty [simp]: "valid_db empty_db"
  by (simp add: valid_db_def valid_payments_def valid_outbox_def valid_decisions_def
      valid_receipts_def valid_audits_def valid_reviews_def empty_db_def)

section \<open>Inserts and updates keep all constraints\<close>

lemma extends_refl [simp]: "extends d d"
  by (simp add: extends_def)

lemma opt_all_mono: "(\<And>x. p x \<Longrightarrow> q x) \<Longrightarrow> opt_all p y \<Longrightarrow> opt_all q y"
  by (simp add: opt_all_def split: option.splits)

lemma checks_extends:
  assumes "extends d d'"
  shows "holds (outbox_checks d o1) \<Longrightarrow> holds (outbox_checks d' o1)"
    and "holds (decision_checks d dr) \<Longrightarrow> holds (decision_checks d' dr)"
    and "holds (receipt_checks d ir) \<Longrightarrow> holds (receipt_checks d' ir)"
    and "holds (audit_checks d au) \<Longrightarrow> holds (audit_checks d' au)"
    and "holds (review_checks d rv) \<Longrightarrow> holds (review_checks d' rv)"
  using assms
  by (auto simp: outbox_checks_def decision_checks_def receipt_checks_def audit_checks_def
      review_checks_def extends_def elim: opt_all_mono [rotated])

lemma valid_extends:
  assumes "extends d d'"
  shows "t_outbox d' = t_outbox d \<Longrightarrow> valid_outbox d \<Longrightarrow> valid_outbox d'"
    and "t_decisions d' = t_decisions d \<Longrightarrow> valid_decisions d \<Longrightarrow> valid_decisions d'"
    and "t_receipts d' = t_receipts d \<Longrightarrow> valid_receipts d \<Longrightarrow> valid_receipts d'"
    and "t_audits d' = t_audits d \<Longrightarrow> valid_audits d \<Longrightarrow> valid_audits d'"
    and "t_reviews d' = t_reviews d \<Longrightarrow> valid_reviews d \<Longrightarrow> valid_reviews d'"
  using checks_extends [OF assms]
  by (auto simp: valid_outbox_def valid_decisions_def valid_receipts_def valid_audits_def valid_reviews_def)

lemma payment_exists_append:
  "payment_exists d k \<Longrightarrow> payment_exists (d\<lparr>t_payments := t_payments d @ ps\<rparr>) k"
  by (auto simp: payment_exists_def fetch_append split: option.splits)

lemma decision_exists_append:
  "decision_exists d k \<Longrightarrow> decision_exists (d\<lparr>t_decisions := t_decisions d @ rs\<rparr>) k"
  by (auto simp: decision_exists_def fetch_append split: option.splits)

lemma exists_updates [simp]:
  "payment_exists (d\<lparr>t_outbox := a\<rparr>) = payment_exists d"
  "payment_exists (d\<lparr>t_decisions := b\<rparr>) = payment_exists d"
  "payment_exists (d\<lparr>t_receipts := c\<rparr>) = payment_exists d"
  "payment_exists (d\<lparr>t_audits := e\<rparr>) = payment_exists d"
  "payment_exists (d\<lparr>t_reviews := f\<rparr>) = payment_exists d"
  "decision_exists (d\<lparr>t_outbox := a\<rparr>) = decision_exists d"
  "decision_exists (d\<lparr>t_payments := g\<rparr>) = decision_exists d"
  "decision_exists (d\<lparr>t_receipts := c\<rparr>) = decision_exists d"
  "decision_exists (d\<lparr>t_audits := e\<rparr>) = decision_exists d"
  "decision_exists (d\<lparr>t_reviews := f\<rparr>) = decision_exists d"
  by (simp_all add: payment_exists_def decision_exists_def fun_eq_iff)

lemma extends_inserts [simp]:
  "extends d (d\<lparr>t_payments := t_payments d @ ps\<rparr>)"
  "extends d (d\<lparr>t_decisions := t_decisions d @ rs\<rparr>)"
  "extends d (d\<lparr>t_outbox := a\<rparr>)" "extends d (d\<lparr>t_receipts := c\<rparr>)"
  "extends d (d\<lparr>t_audits := e\<rparr>)" "extends d (d\<lparr>t_reviews := f\<rparr>)"
  by (simp_all add: extends_def payment_exists_append decision_exists_append)

lemma uuid_in_out: "uuid_in s = Some u \<Longrightarrow> canonical_uuid u"
  by (rule uuid_in_canonical)

lemma insert_payment_Some:
  "insert_payment p d = Inr (Some r, d') \<Longrightarrow>
   uuid_in (pay_id p) = Some (pay_id r)
   \<and> r = p\<lparr>pay_id := pay_id r, created_at := timestamptz (created_at p), updated_at := timestamptz (updated_at p)\<rparr>
   \<and> created_at r = timestamptz (created_at p) \<and> updated_at r = timestamptz (updated_at p)
   \<and> holds (payment_checks r) \<and> fetch idempotency_key (idempotency_key r) (t_payments d) = None
   \<and> \<not> payment_exists d (pay_id r) \<and> d' = d\<lparr>t_payments := t_payments d @ [r]\<rparr>"
  by (auto simp: insert_payment_def Let_def check_all_holds split: option.splits sum.splits if_splits)

lemma insert_payment_None:
  "insert_payment p d = Inr (None, d') \<Longrightarrow>
   d' = d \<and> fetch idempotency_key (idempotency_key p) (t_payments d) \<noteq> None"
  by (auto simp: insert_payment_def Let_def split: option.splits sum.splits if_splits)

lemma insert_payment_Inl: "insert_payment p d = Inl e \<Longrightarrow> foreign e"
  by (auto simp: insert_payment_def Let_def split: option.splits sum.splits if_splits
      dest: check_all_foreign)

lemma valid_insert_payment:
  assumes "insert_payment p d = Inr (x, d')" and "valid_db d"
  shows "valid_db d'"
proof (cases x)
  case None
  with assms insert_payment_None show ?thesis by blast
next
  case (Some r)
  with assms have r: "canonical_uuid (pay_id r)" "timestamptz (created_at r) = created_at r"
    "timestamptz (updated_at r) = updated_at r" "holds (payment_checks r)"
    "fetch idempotency_key (idempotency_key r) (t_payments d) = None"
    "fetch pay_id (pay_id r) (t_payments d) = None"
    and d': "d' = d\<lparr>t_payments := t_payments d @ [r]\<rparr>"
    using insert_payment_Some [of p d r d'] uuid_in_canonical [of "pay_id p" "pay_id r"]
    by (auto simp: payment_exists_def)
  have e: "extends d d'" by (simp add: d')
  have "valid_payments d'" using assms(2) r
    by (auto simp: valid_db_def valid_payments_def d' unique_by_append1)
  with assms(2) valid_extends [OF e] show ?thesis by (simp add: valid_db_def d')
qed

lemma valid_insert_outbox:
  assumes "insert_outbox r d = Inr d'" and "valid_db d"
    and "ev_published_at r = None" and "0 \<le> ev_delivery_attempts r"
  shows "valid_db d'"
proof -
  have d': "d' = d\<lparr>t_outbox := t_outbox d @ [r]\<rparr>" and r: "holds (outbox_checks d r)"
    "fetch ev_id (ev_id r) (t_outbox d) = None"
    using assms(1) by (auto simp: insert_outbox_def check_all_holds)
  have e: "extends d d'" by (simp add: d')
  have "valid_outbox d'" using assms r checks_extends(1) [OF e]
    by (auto simp: valid_db_def valid_outbox_def d' unique_by_append1)
  with assms(2) valid_extends [OF e] show ?thesis by (simp add: valid_db_def valid_payments_def d')
qed

lemma valid_insert_decision:
  assumes "insert_decision r d = Inr d'" and "valid_db d"
  shows "valid_db d'"
proof -
  have d': "d' = d\<lparr>t_decisions := t_decisions d @ [r]\<rparr>" and r: "holds (decision_checks d r)"
    "fetch dr_decision_id (dr_decision_id r) (t_decisions d) = None"
    "fetch dr_source_event_id (dr_source_event_id r) (t_decisions d) = None"
    using assms(1) by (auto simp: insert_decision_def check_all_holds decision_exists_def)
  have e: "extends d d'" by (simp add: d')
  have "valid_decisions d'" using assms r checks_extends(2) [OF e]
    by (auto simp: valid_db_def valid_decisions_def d' unique_by_append1)
  with assms(2) valid_extends [OF e] show ?thesis by (simp add: valid_db_def valid_payments_def d')
qed

lemma valid_insert_audit:
  assumes "insert_audit r d = Inr d'" and "valid_db d"
  shows "valid_db d'"
proof -
  have d': "d' = d\<lparr>t_audits := t_audits d @ [r]\<rparr>" and r: "holds (audit_checks d r)"
    "fetch au_id (au_id r) (t_audits d) = None" "fetch audit_key (audit_key r) (t_audits d) = None"
    using assms(1) by (auto simp: insert_audit_def check_all_holds)
  have e: "extends d d'" by (simp add: d')
  have "valid_audits d'" using assms r checks_extends(4) [OF e]
    by (auto simp: valid_db_def valid_audits_def d' unique_by_append1)
  with assms(2) valid_extends [OF e] show ?thesis by (simp add: valid_db_def valid_payments_def d')
qed

lemma valid_insert_review:
  assumes "insert_review r d = Inr d'" and "valid_db d"
  shows "valid_db d'"
proof -
  have d': "d' = d\<lparr>t_reviews := t_reviews d @ [r]\<rparr>" and r: "holds (review_checks d r)"
    "fetch rv_payment_id (rv_payment_id r) (t_reviews d) = None"
    "fetch rv_decision_id (rv_decision_id r) (t_reviews d) = None"
    using assms(1) by (auto simp: insert_review_def check_all_holds)
  have e: "extends d d'" by (simp add: d')
  have "valid_reviews d'" using assms r checks_extends(5) [OF e]
    by (auto simp: valid_db_def valid_reviews_def d' unique_by_append1)
  with assms(2) valid_extends [OF e] show ?thesis by (simp add: valid_db_def valid_payments_def d')
qed

lemma valid_add_receipt:
  assumes "holds (receipt_checks d r)" and "fetch coordinate (coordinate r) (t_receipts d) = None"
    and "valid_db d"
  shows "valid_db (d\<lparr>t_receipts := t_receipts d @ [r]\<rparr>)" (is "valid_db ?d")
proof -
  have e: "extends d ?d" by simp
  have "valid_receipts ?d" using assms checks_extends(3) [OF e]
    by (auto simp: valid_db_def valid_receipts_def unique_by_append1)
  with assms(3) valid_extends [OF e] show ?thesis by (simp add: valid_db_def valid_payments_def)
qed

lemma valid_insert_receipt_row:
  "insert_receipt_row r d = Inr d' \<Longrightarrow> valid_db d \<Longrightarrow> valid_db d'"
  by (auto simp: insert_receipt_row_def check_all_holds intro: valid_add_receipt)

lemma valid_insert_receipt_or_skip:
  "insert_receipt_or_skip r d = Inr (n, d') \<Longrightarrow> valid_db d \<Longrightarrow> valid_db d'"
  by (auto simp: insert_receipt_or_skip_def check_all_holds intro: valid_add_receipt split: if_splits)

lemma valid_set_payment_status:
  assumes "new \<in> set payment_statuses" and "valid_db d"
  shows "valid_db (snd (set_payment_status pid old new tm d))"
proof -
  let ?d = "snd (set_payment_status pid old new tm d)"
  have e: "extends d ?d"
    by (auto simp: set_payment_status_def Let_def extends_def payment_exists_def fetch_update_rows)
  have k: "holds (payment_checks (p\<lparr>pay_status := new, updated_at := timestamptz tm\<rparr>))"
    if "holds (payment_checks p)" for p
    using that assms(1) by (simp add: payment_checks_def)
  have "valid_payments ?d" using assms(2) k
    by (auto simp: set_payment_status_def Let_def valid_db_def valid_payments_def unique_by_update_rows
        set_update_rows)
  with assms(2) valid_extends [OF e] show ?thesis
    by (simp add: valid_db_def set_payment_status_def Let_def)
qed

end
