(* ===== verification/Payment_Store.thy ===== *)
theory Payment_Store
  imports Schema
begin

text \<open>
  payment/postgres_repository.go: \<open>Create\<close> inserts a payment and its outbox event in one
  transaction, or answers from the payment that already has the idempotency key; \<open>GetByID\<close>
  loads one payment.  \<open>payment_repository\<close> is the \<open>Repository\<close> interface of
  payment/service.go with what the service relies on; it is interpreted on these definitions.
\<close>

section \<open>The repository\<close>

definition scanPayment :: "payment \<Rightarrow> payment" where
  "scanPayment r =
     r\<lparr>currency := trim_space (currency r), country := trim_space (country r),
       created_at := utc (created_at r), updated_at := utc (updated_at r)\<rparr>"

text \<open>The parameters of \<open>insertOutboxEventSQL\<close> as a row; \<open>now\<close> is the column defaults' \<open>NOW()\<close>.\<close>

definition insert_outbox_event ::
    "'a pglib_scheme \<Rightarrow> gtime \<Rightarrow> outbox_event \<Rightarrow> db \<Rightarrow> db result" where
  "insert_outbox_event L now e d =
     (case (uuid_in (oe_id e), uuid_in (oe_aggregate_id e), uuid_in (oe_trace_id e),
            jsonb_column L (oe_payload e)) of
        (Some i, Some a, Some t, Some p) \<Rightarrow>
          insert_outbox
            \<lparr>ev_id = i, ev_aggregate_id = a, ev_event_type = oe_event_type e,
             ev_schema_version = oe_schema_version e, ev_occurred_at = timestamptz (oe_occurred_at e),
             ev_trace_id = t, ev_payload = p, ev_created_at = timestamptz now,
             ev_published_at = None, ev_delivery_attempts = 0,
             ev_next_attempt_at = timestamptz now, ev_last_attempt_at = None,
             ev_last_error = None, ev_dead_lettered_at = None\<rparr> d
      | _ \<Rightarrow> Inl (constraint_error ''outbox_events''))"

definition create_payment ::
    "'a pglib_scheme \<Rightarrow> pg_env \<Rightarrow> payment \<Rightarrow> outbox_event \<Rightarrow> db \<Rightarrow> create_result result \<times> db" where
  "create_payment L env candidate event d =
     (case pg_begin env of
        Some e \<Rightarrow> (Inl (errorf ''begin payment transaction'' e), d)
      | None \<Rightarrow>
     (case statement env 0 (insert_payment candidate d) of
        Inl e \<Rightarrow> (Inl (errorf ''insert payment'' e), d)
      | Inr (None, _) \<Rightarrow>
          (case statement env 1
                  (Inr (fetch idempotency_key (idempotency_key candidate) (t_payments d))) of
             Inl e \<Rightarrow> (Inl (errorf ''load idempotent payment'' e), d)
           | Inr None \<Rightarrow>
               (Inl (errorf ''load idempotent payment'' (Msg ''no rows in result set'')), d)
           | Inr (Some row) \<Rightarrow>
               let existing = scanPayment row in
               if request_fingerprint existing \<noteq> request_fingerprint candidate
               then (Inl (Sentinel ErrIdempotencyConflict), d)
               else (Inr \<lparr>cr_payment = existing, cr_replayed = True\<rparr>, d))
      | Inr (Some row, d1) \<Rightarrow>
          (case statement env 2 (insert_outbox_event L (pg_clock env 0) event d1) of
             Inl e \<Rightarrow> (Inl (errorf ''insert payment outbox event'' e), d)
           | Inr d2 \<Rightarrow>
               commit_tx env ''commit payment transaction'' d d2
                 \<lparr>cr_payment = scanPayment row, cr_replayed = False\<rparr>)))"

definition get_payment :: "pg_env \<Rightarrow> string \<Rightarrow> db \<Rightarrow> payment result" where
  "get_payment env pid d =
     (case statement env 0 (case uuid_in pid of None \<Rightarrow> Inl (constraint_error ''id'')
                                     | Some u \<Rightarrow> Inr (fetch pay_id u (t_payments d))) of
        Inl e \<Rightarrow> Inl (errorf ''load payment by ID'' e)
      | Inr None \<Rightarrow> Inl (Sentinel ErrPaymentNotFound)
      | Inr (Some row) \<Rightarrow> Inr (scanPayment row))"

section \<open>The interface\<close>

text \<open>The payment that a repository returns for a stored candidate: UTC microseconds.\<close>

definition as_stored :: "payment \<Rightarrow> payment" where
  "as_stored p = p\<lparr>created_at := timestamptz (created_at p), updated_at := timestamptz (updated_at p)\<rparr>"

locale payment_repository =
  fixes inv :: "'s \<Rightarrow> bool"
    and lookup_key :: "'s \<Rightarrow> string \<Rightarrow> payment option"
    and env_ok :: "'e \<Rightarrow> bool"
    and create :: "'e \<Rightarrow> payment \<Rightarrow> outbox_event \<Rightarrow> 's \<Rightarrow> create_result result \<times> 's"
  assumes create_inv: "inv s \<Longrightarrow> inv (snd (create e p ev s))"
    and create_taken:
      "inv s \<Longrightarrow> env_ok e \<Longrightarrow> lookup_key s (idempotency_key p) = Some q \<Longrightarrow> create e p ev s = (r, s') \<Longrightarrow>
       s' = s \<and> (r = Inr \<lparr>cr_payment = q, cr_replayed = True\<rparr> \<and> request_fingerprint q = request_fingerprint p
                 \<or> r = Inl (Sentinel ErrIdempotencyConflict) \<and> request_fingerprint q \<noteq> request_fingerprint p
                 \<or> (\<exists>err. r = Inl err \<and> foreign err))"
    and create_free:
      "inv s \<Longrightarrow> env_ok e \<Longrightarrow> lookup_key s (idempotency_key p) = None \<Longrightarrow> canonical_uuid (pay_id p) \<Longrightarrow>
       upper_letters 3 (currency p) \<Longrightarrow> upper_letters 2 (country p) \<Longrightarrow> create e p ev s = (r, s') \<Longrightarrow>
       (s' = s \<and> (\<exists>err. r = Inl err \<and> foreign err))
       \<or> (lookup_key s' = (lookup_key s)(idempotency_key p \<mapsto> as_stored p)
          \<and> (r = Inr \<lparr>cr_payment = as_stored p, cr_replayed = False\<rparr> \<or> (\<exists>err. r = Inl err \<and> foreign err)))"
begin

text \<open>Whatever an attempt answers, the payments already stored stay as they are.\<close>

lemma create_keeps:
  assumes "inv s" and "env_ok e" and "canonical_uuid (pay_id p)"
    and "upper_letters 3 (currency p)" and "upper_letters 2 (country p)"
    and "lookup_key s k = Some q"
  shows "lookup_key (snd (create e p ev s)) k = Some q"
proof (cases "lookup_key s (idempotency_key p)")
  case None
  obtain r s' where r: "create e p ev s = (r, s')" by (cases "create e p ev s")
  from create_free [OF assms(1,2) None assms(3-5) r] assms(6) None r show ?thesis by auto
next
  case (Some q')
  with create_taken [OF assms(1,2) Some] assms(6) show ?thesis
    by (cases "create e p ev s") auto
qed

text \<open>A returned payment is the one that the key leads to from then on.\<close>

lemma create_returns:
  assumes "inv s" and "env_ok e" and "canonical_uuid (pay_id p)"
    and "upper_letters 3 (currency p)" and "upper_letters 2 (country p)"
    and "create e p ev s = (Inr x, s')"
  shows "lookup_key s' (idempotency_key p) = Some (cr_payment x)
         \<and> request_fingerprint (cr_payment x) = request_fingerprint p
         \<and> (cr_replayed x \<longleftrightarrow> lookup_key s (idempotency_key p) \<noteq> None)"
proof (cases "lookup_key s (idempotency_key p)")
  case None
  with create_free [OF assms(1,2) None assms(3-6)] show ?thesis
    by (auto simp: as_stored_def)
next
  case (Some q')
  with create_taken [OF assms(1,2) Some assms(6)] show ?thesis by auto
qed

text \<open>
  Two attempts with one key: when both return a payment it is the same one, and the second
  attempt reports a replay whatever became of the first.
\<close>

lemma attempts_agree:
  assumes "inv s" and "env_ok e1" and "env_ok e2"
    and "canonical_uuid (pay_id p1)" "upper_letters 3 (currency p1)" "upper_letters 2 (country p1)"
    and "canonical_uuid (pay_id p2)" "upper_letters 3 (currency p2)" "upper_letters 2 (country p2)"
    and "idempotency_key p2 = idempotency_key p1"
    and "create e1 p1 ev1 s = (Inr x1, s1)" and "create e2 p2 ev2 s1 = (Inr x2, s2)"
  shows "cr_payment x2 = cr_payment x1 \<and> cr_replayed x2 \<and> s2 = s1"
proof -
  from create_returns [OF assms(1,2,4-6,11)]
  have k: "lookup_key s1 (idempotency_key p2) = Some (cr_payment x1)" by (simp add: assms(10))
  have "inv s1" using create_inv [OF assms(1), of e1 p1 ev1] assms(11) by simp
  from create_taken [OF this assms(3) k assms(12)] show ?thesis by auto
qed

end

section \<open>The repository implements the interface\<close>

definition lookup_payment :: "db \<Rightarrow> string \<Rightarrow> payment option" where
  "lookup_payment d k = map_option scanPayment (fetch idempotency_key k (t_payments d))"

lemma scanPayment_fields [simp]:
  "pay_id (scanPayment r) = pay_id r" "idempotency_key (scanPayment r) = idempotency_key r"
  "request_fingerprint (scanPayment r) = request_fingerprint r" "pay_status (scanPayment r) = pay_status r"
  "customer_id (scanPayment r) = customer_id r" "merchant_id (scanPayment r) = merchant_id r"
  "device_id (scanPayment r) = device_id r" "amount_minor (scanPayment r) = amount_minor r"
  by (simp_all add: scanPayment_def)

lemma as_stored_fields [simp]:
  "pay_id (as_stored p) = pay_id p" "idempotency_key (as_stored p) = idempotency_key p"
  "request_fingerprint (as_stored p) = request_fingerprint p" "pay_status (as_stored p) = pay_status p"
  "currency (as_stored p) = currency p" "country (as_stored p) = country p"
  by (simp_all add: as_stored_def)

lemma trim_space_upper:
  assumes "upper_letters n s" and "0 < n"
  shows "trim_space s = s"
proof -
  have "s \<noteq> []" using assms by (auto simp: upper_letters_def)
  moreover have "list_all plain_byte s"
    using assms(1) by (auto simp: upper_letters_def list_all_iff plain_byte_def ascii_def is_space_def)
  ultimately show ?thesis by (intro trim_space_plain) (auto simp: list_all_iff)
qed

lemma scanPayment_stored:
  "upper_letters 3 (currency p) \<Longrightarrow> upper_letters 2 (country p) \<Longrightarrow> scanPayment (as_stored p) = as_stored p"
  by (simp add: scanPayment_def as_stored_def trim_space_upper)

lemma scanPayment_valid:
  assumes "valid_db d" and "r \<in> set (t_payments d)"
  shows "scanPayment r = r"
proof -
  from assms have "upper_letters 3 (currency r)" "upper_letters 2 (country r)"
    "as_stored r = r"
    by (auto simp: valid_db_def valid_payments_def payment_checks_def as_stored_def)
  then show ?thesis using scanPayment_stored [of r] by simp
qed

lemma insert_outbox_event_Inr:
  "insert_outbox_event L now e d = Inr d' \<Longrightarrow>
   \<exists>r. insert_outbox r d = Inr d' \<and> ev_published_at r = None \<and> ev_dead_lettered_at r = None
       \<and> ev_delivery_attempts r = 0 \<and> uuid_in (oe_id e) = Some (ev_id r)
       \<and> uuid_in (oe_aggregate_id e) = Some (ev_aggregate_id r)
       \<and> uuid_in (oe_trace_id e) = Some (ev_trace_id r)
       \<and> jsonb_column L (oe_payload e) = Some (ev_payload r) \<and> ev_event_type r = oe_event_type e
       \<and> ev_schema_version r = oe_schema_version e \<and> ev_occurred_at r = timestamptz (oe_occurred_at e)"
  by (auto simp: insert_outbox_event_def split: option.splits)

lemma insert_outbox_event_Inl: "insert_outbox_event L now e d = Inl err \<Longrightarrow> foreign err"
  by (auto simp: insert_outbox_event_def insert_outbox_def split: option.splits dest: check_all_foreign)

lemma insert_outbox_state: "insert_outbox r d = Inr d' \<Longrightarrow> d' = d\<lparr>t_outbox := t_outbox d @ [r]\<rparr>"
  by (simp add: insert_outbox_def check_all_holds)

lemma valid_insert_outbox_event:
  "insert_outbox_event L now e d = Inr d' \<Longrightarrow> valid_db d \<Longrightarrow> valid_db d'"
  using insert_outbox_event_Inr [of L now e d d'] by (auto intro: valid_insert_outbox)

lemma statement_foreign:
  "foreign_env env \<Longrightarrow> statement env k r = Inl e \<Longrightarrow> (\<And>e. r = Inl e \<Longrightarrow> foreign e) \<Longrightarrow> foreign e"
  by (auto simp: statement_def foreign_env_def split: option.splits)

text \<open>
  The two possible effects of \<open>create_payment\<close> on the database: none, or exactly one payment
  row and one outbox row.
\<close>

lemma create_payment_effect:
  assumes "create_payment L env p ev d = (r, d')"
  shows "d' = d
    \<or> (\<exists>row d1. insert_payment p d = Inr (Some row, d1)
         \<and> insert_outbox_event L (pg_clock env 0) ev d1 = Inr d'
         \<and> (r = Inr \<lparr>cr_payment = scanPayment row, cr_replayed = False\<rparr> \<or> (\<exists>e. r = Inl e)))"
  using assms
  by (auto simp: create_payment_def commit_tx_def statement_Inr Let_def
      split: option.splits sum.splits commit_outcome.splits if_splits)

lemma create_payment_valid: "valid_db d \<Longrightarrow> valid_db (snd (create_payment L env p ev d))"
proof -
  assume v: "valid_db d"
  obtain r d' where r: "create_payment L env p ev d = (r, d')" by (cases "create_payment L env p ev d")
  from create_payment_effect [OF r] v have "valid_db d'"
    using valid_insert_payment valid_insert_outbox_event by blast
  with r show ?thesis by simp
qed

lemma insert_payment_taken:
  "fetch idempotency_key (idempotency_key p) (t_payments d) = Some q \<Longrightarrow>
   (\<exists>e. insert_payment p d = Inl e \<and> foreign e) \<or> insert_payment p d = Inr (None, d)"
  using insert_payment_Inl [of p d]
  by (auto simp: insert_payment_def Let_def split: option.splits sum.splits)

lemma insert_payment_free:
  assumes "fetch idempotency_key (idempotency_key p) (t_payments d) = None" and "canonical_uuid (pay_id p)"
  shows "(\<exists>e. insert_payment p d = Inl e \<and> foreign e)
    \<or> insert_payment p d = Inr (Some (as_stored p), d\<lparr>t_payments := t_payments d @ [as_stored p]\<rparr>)"
proof -
  have "p\<lparr>pay_id := pay_id p\<rparr> = p" by simp
  then show ?thesis
    using insert_payment_Inl [of p d] assms
    by (auto simp: insert_payment_def Let_def uuid_in_of_canonical as_stored_def
        split: option.splits sum.splits)
qed

lemma create_payment_taken:
  assumes "valid_db d" and "foreign_env env"
    and "lookup_payment d (idempotency_key p) = Some q" and "create_payment L env p ev d = (r, d')"
  shows "d' = d \<and> (r = Inr \<lparr>cr_payment = q, cr_replayed = True\<rparr> \<and> request_fingerprint q = request_fingerprint p
                 \<or> r = Inl (Sentinel ErrIdempotencyConflict) \<and> request_fingerprint q \<noteq> request_fingerprint p
                 \<or> (\<exists>err. r = Inl err \<and> foreign err))"
proof -
  from assms(3) obtain row where row: "fetch idempotency_key (idempotency_key p) (t_payments d) = Some row"
    and q: "q = scanPayment row" by (auto simp: lookup_payment_def)
  from insert_payment_taken [OF row] show ?thesis
    using assms(2,4) row q
    by (auto simp: create_payment_def statement_def Let_def foreign_env_def
        split: option.splits if_splits)
qed

lemma create_payment_free:
  assumes "valid_db d" and "foreign_env env"
    and "lookup_payment d (idempotency_key p) = None" and "canonical_uuid (pay_id p)"
    and "upper_letters 3 (currency p)" and "upper_letters 2 (country p)"
    and "create_payment L env p ev d = (r, d')"
  shows "(d' = d \<and> (\<exists>err. r = Inl err \<and> foreign err))
       \<or> (lookup_payment d' = (lookup_payment d)(idempotency_key p \<mapsto> as_stored p)
          \<and> (r = Inr \<lparr>cr_payment = as_stored p, cr_replayed = False\<rparr> \<or> (\<exists>err. r = Inl err \<and> foreign err)))"
proof -
  let ?d1 = "d\<lparr>t_payments := t_payments d @ [as_stored p]\<rparr>"
  have free: "fetch idempotency_key (idempotency_key p) (t_payments d) = None"
    using assms(3) by (simp add: lookup_payment_def)
  have upd: "lookup_payment d2 = (lookup_payment d)(idempotency_key p \<mapsto> as_stored p)"
    if "insert_outbox_event L (pg_clock env 0) ev ?d1 = Inr d2" for d2
  proof -
    from insert_outbox_event_Inr [OF that] have "t_payments d2 = t_payments d @ [as_stored p]"
      by (auto dest: insert_outbox_state)
    with free assms(5,6) show ?thesis
      by (auto simp: lookup_payment_def fun_eq_iff fetch_append fetch_Cons scanPayment_stored
          split: option.splits)
  qed
  from insert_payment_free [OF free assms(4)] show ?thesis
  proof
    assume "\<exists>e. insert_payment p d = Inl e \<and> foreign e"
    then show ?thesis using assms(2,7)
      by (auto simp: create_payment_def statement_def foreign_env_def split: option.splits)
  next
    assume "insert_payment p d = Inr (Some (as_stored p), ?d1)"
    then show ?thesis
      using assms(2,7) upd insert_outbox_event_Inl [of L "pg_clock env 0" ev ?d1]
        scanPayment_stored [OF assms(5,6)]
      by (cases "insert_outbox_event L (pg_clock env 0) ev ?d1")
         (auto simp: create_payment_def statement_def foreign_env_def commit_tx_def
          split: option.splits commit_outcome.splits)
  qed
qed

interpretation pg_payments: payment_repository valid_db lookup_payment foreign_env "create_payment L"
  for L :: "'a pglib_scheme"
proof
  show "valid_db s \<Longrightarrow> valid_db (snd (create_payment L e p ev s))" for s e p ev
    by (rule create_payment_valid)
qed (use create_payment_taken create_payment_free in blast)+

section \<open>When nothing fails\<close>

text \<open>An event whose insertion the server accepts once its payment exists.\<close>

definition event_ok :: "'a pglib_scheme \<Rightarrow> outbox_event \<Rightarrow> db \<Rightarrow> bool" where
  "event_ok L ev d \<longleftrightarrow>
     canonical_uuid (oe_id ev) \<and> canonical_uuid (oe_aggregate_id ev) \<and> canonical_uuid (oe_trace_id ev)
     \<and> varchar 100 (oe_event_type ev) \<and> 0 < oe_schema_version ev \<and> int4 (oe_schema_version ev)
     \<and> (case jsonb_column L (oe_payload ev) of None \<Rightarrow> False | Some t \<Rightarrow> json_object t)
     \<and> fetch ev_id (oe_id ev) (t_outbox d) = None"

lemma insert_outbox_event_ok:
  assumes "event_ok L ev d" and "payment_exists d' (oe_aggregate_id ev)" and "t_outbox d' = t_outbox d"
  shows "\<exists>r. insert_outbox_event L now ev d' = Inr (d'\<lparr>t_outbox := t_outbox d' @ [r]\<rparr>)"
  using assms
  by (auto simp: event_ok_def insert_outbox_event_def insert_outbox_def outbox_checks_def
      uuid_in_of_canonical split: option.splits)

lemma create_payment_ok:
  assumes "no_fault env" and "lookup_payment d (idempotency_key p) = None"
    and "canonical_uuid (pay_id p)" and "holds (payment_checks (as_stored p))"
    and "\<not> payment_exists d (pay_id p)" and "event_ok L ev d" and "oe_aggregate_id ev = pay_id p"
  shows "fst (create_payment L env p ev d) = Inr \<lparr>cr_payment = as_stored p, cr_replayed = False\<rparr>"
proof -
  let ?d1 = "d\<lparr>t_payments := t_payments d @ [as_stored p]\<rparr>"
  have up: "upper_letters 3 (currency p)" "upper_letters 2 (country p)"
    using assms(4) by (simp_all add: payment_checks_def)
  have free: "fetch idempotency_key (idempotency_key p) (t_payments d) = None"
    using assms(2) by (simp add: lookup_payment_def)
  have "insert_payment p d = Inr (Some (as_stored p), ?d1)"
    using insert_payment_free [OF free assms(3)] assms(3-5) free
    by (auto simp: insert_payment_def Let_def uuid_in_of_canonical check_all_cases(1)
        as_stored_def [symmetric] split: if_splits)
  moreover have "payment_exists ?d1 (oe_aggregate_id ev)"
    by (auto simp: payment_exists_def fetch_append fetch_Cons assms(7) split: option.splits)
  then obtain o1 where "insert_outbox_event L (pg_clock env 0) ev ?d1 = Inr (?d1\<lparr>t_outbox := t_outbox ?d1 @ [o1]\<rparr>)"
    using insert_outbox_event_ok [OF assms(6), of ?d1] by auto
  ultimately show ?thesis
    using assms(1) by (simp add: create_payment_def no_faultD statement_no_fault commit_no_fault
        scanPayment_stored [OF up])
qed

section \<open>Properties\<close>

text \<open>The outbox event that belongs to a payment.\<close>

definition event_of :: "outbox_event \<Rightarrow> outbox_row \<Rightarrow> bool" where
  "event_of ev r \<longleftrightarrow>
     uuid_in (oe_id ev) = Some (ev_id r) \<and> uuid_in (oe_aggregate_id ev) = Some (ev_aggregate_id r)
     \<and> uuid_in (oe_trace_id ev) = Some (ev_trace_id r)
     \<and> ev_event_type r = oe_event_type ev \<and> ev_schema_version r = oe_schema_version ev
     \<and> ev_occurred_at r = timestamptz (oe_occurred_at ev)
     \<and> ev_published_at r = None \<and> ev_dead_lettered_at r = None \<and> ev_delivery_attempts r = 0"

lemma create_payment_rows:
  assumes "create_payment L env p ev d = (r, d')" and "d' \<noteq> d"
  shows "\<exists>row orow. d' = d\<lparr>t_payments := t_payments d @ [row], t_outbox := t_outbox d @ [orow]\<rparr>
     \<and> uuid_in (pay_id p) = Some (pay_id row) \<and> as_stored (p\<lparr>pay_id := pay_id row\<rparr>) = row
     \<and> event_of ev orow \<and> jsonb_column L (oe_payload ev) = Some (ev_payload orow)
     \<and> (r = Inr \<lparr>cr_payment = scanPayment row, cr_replayed = False\<rparr> \<or> (\<exists>e. r = Inl e))"
proof -
  from create_payment_effect [OF assms(1)] assms(2) obtain row d1
    where 1: "insert_payment p d = Inr (Some row, d1)"
      and 2: "insert_outbox_event L (pg_clock env 0) ev d1 = Inr d'"
      and 3: "r = Inr \<lparr>cr_payment = scanPayment row, cr_replayed = False\<rparr> \<or> (\<exists>e. r = Inl e)"
    by blast
  from insert_payment_Some [OF 1] have d1: "d1 = d\<lparr>t_payments := t_payments d @ [row]\<rparr>"
    and u: "uuid_in (pay_id p) = Some (pay_id row)"
    and row: "as_stored (p\<lparr>pay_id := pay_id row\<rparr>) = row"
    unfolding as_stored_def by auto
  from insert_outbox_event_Inr [OF 2] obtain orow where o: "insert_outbox orow d1 = Inr d'"
    "event_of ev orow" "jsonb_column L (oe_payload ev) = Some (ev_payload orow)"
    by (auto simp: event_of_def)
  from insert_outbox_state [OF o(1)] d1
  have "d' = d\<lparr>t_payments := t_payments d @ [row], t_outbox := t_outbox d @ [orow]\<rparr>" by simp
  with u row o(2,3) 3 show ?thesis by blast
qed

text \<open>
  \<open>Create\<close> is atomic.  Whichever statement or commit fails, the database is afterwards either
  unchanged, or has exactly one more payment (the candidate, with microsecond timestamps) and
  exactly one more outbox event, unpublished and never attempted, with the event's identity.
  A payment is never stored without its event.
\<close>

theorem create_payment_atomic:
  "snd (create_payment L env p ev d) = d
   \<or> (\<exists>row orow. snd (create_payment L env p ev d) =
          d\<lparr>t_payments := t_payments d @ [row], t_outbox := t_outbox d @ [orow]\<rparr>
        \<and> uuid_in (pay_id p) = Some (pay_id row) \<and> as_stored (p\<lparr>pay_id := pay_id row\<rparr>) = row
        \<and> event_of ev orow)"
  using create_payment_rows [of L env p ev d "fst (create_payment L env p ev d)" "snd (create_payment L env p ev d)"]
  by (auto simp only: prod.collapse)

text \<open>
  \<open>Create\<close> never breaks a constraint of the schema: from a database in which every CHECK,
  UNIQUE and REFERENCES constraint holds it leads to such a database, whatever is inserted
  and whatever fails; and it returns a payment exactly when the key leads to it afterwards.
\<close>

theorem create_payment_result:
  assumes "valid_db d" and "foreign_env env" and "canonical_uuid (pay_id p)"
    and "upper_letters 3 (currency p)" and "upper_letters 2 (country p)"
    and "create_payment L env p ev d = (r, d')"
  shows "valid_db d'
    \<and> (case r of
         Inr x \<Rightarrow> lookup_payment d' (idempotency_key p) = Some (cr_payment x)
           \<and> request_fingerprint (cr_payment x) = request_fingerprint p
           \<and> (cr_replayed x \<longleftrightarrow> lookup_payment d (idempotency_key p) \<noteq> None)
       | Inl e \<Rightarrow> foreign e
           \<or> (e = Sentinel ErrIdempotencyConflict \<and> d' = d
              \<and> (\<exists>q. lookup_payment d (idempotency_key p) = Some q
                     \<and> request_fingerprint q \<noteq> request_fingerprint p)))"
proof (cases r)
  case (Inr x)
  then show ?thesis
    using pg_payments.create_returns [OF assms(1-5), of L ev x d'] assms(6)
      create_payment_valid [OF assms(1), of L env p ev] by simp
next
  case (Inl e)
  have "valid_db d'" using create_payment_valid [OF assms(1), of L env p ev] assms(6) by simp
  then show ?thesis
    using Inl pg_payments.create_taken [OF assms(1,2) _ assms(6)]
      pg_payments.create_free [OF assms(1,2) _ assms(3-5) assms(6)]
    by (cases "lookup_payment d (idempotency_key p)") auto
qed

section \<open>Examples\<close>

definition sample_uuid :: string where
  "sample_uuid = ''0f8fad5b-d9cb-469f-a165-70867728950e''"

definition sample_payment :: payment where
  "sample_payment =
     \<lparr>pay_id = sample_uuid, idempotency_key = ''key-1'', request_fingerprint = replicate 64 CHR ''a'',
      customer_id = ''cust'', merchant_id = ''shop'', device_id = ''phone'', amount_minor = 1250,
      currency = ''EUR'', country = ''DE'', pay_status = StatusPendingRisk,
      created_at = \<lparr>wall = 5000000, zone = 0\<rparr>, updated_at = \<lparr>wall = 5000000, zone = 0\<rparr>\<rparr>"

definition sample_event :: outbox_event where
  "sample_event =
     \<lparr>oe_id = sample_uuid, oe_aggregate_id = sample_uuid, oe_event_type = PaymentCreated,
      oe_schema_version = 1, oe_occurred_at = \<lparr>wall = 5000000, zone = 0\<rparr>, oe_trace_id = sample_uuid,
      oe_payload = [CHR 0x7B, CHR 0x7D]\<rparr>"

lemma sample_uuid_canonical: "canonical_uuid sample_uuid"
  by (simp add: canonical_uuid_def hyphens_at_def uuid_hex_def sample_uuid_def lower_hex_def byte_def)

lemma sample_payment_checks: "holds (payment_checks (as_stored sample_payment))"
  by (simp add: payment_checks_def sample_payment_def as_stored_def payment_statuses_def
      StatusPendingRisk_def plain_varchar plain_text_def byte_def hex64_def lower_hex_def in_int64_def
      upper_letters_def list_all_iff)

lemma sample_payment_fields:
  "pay_id sample_payment = sample_uuid" "idempotency_key sample_payment = ''key-1''"
  "currency sample_payment = ''EUR''" "country sample_payment = ''DE''"
  "upper_letters 3 ''EUR''" "upper_letters 2 ''DE''"
  by (simp_all add: sample_payment_def upper_letters_def byte_def)

lemma sample_create:
  "fst (create_payment sample_lib (healthy t) sample_payment sample_event empty_db) =
     Inr \<lparr>cr_payment = as_stored sample_payment, cr_replayed = False\<rparr>"
proof (rule create_payment_ok)
  show "event_ok sample_lib sample_event empty_db"
    by (simp add: event_ok_def sample_event_def sample_uuid_canonical PaymentCreated_def plain_varchar
        plain_text_def byte_def int4_def sample_lib_def sample_object empty_db_def)
qed (simp_all add: lookup_payment_def empty_db_def sample_payment_fields sample_uuid_canonical
    sample_payment_checks payment_exists_def sample_event_def)

theorem create_payment_result_witness:
  "\<exists>d'. lookup_payment d' ''key-1'' = Some (as_stored sample_payment)"
proof -
  obtain d' where r: "create_payment sample_lib (healthy zero_time) sample_payment sample_event empty_db
      = (Inr \<lparr>cr_payment = as_stored sample_payment, cr_replayed = False\<rparr>, d')"
    using sample_create [of zero_time]
    by (cases "create_payment sample_lib (healthy zero_time) sample_payment sample_event empty_db") auto
  have "foreign_env (healthy zero_time)" by (rule foreign_no_fault) simp
  then show ?thesis
    using create_payment_result [OF valid_empty _ _ _ _ r]
    by (auto simp: sample_payment_fields sample_uuid_canonical)
qed

end
