(* ===== verification/Payment_Service.thy ===== *)
theory Payment_Service
  imports Payment_Store
begin

text \<open>
  payment/service.go: \<open>Create\<close> validates the request, generates the identifiers, builds the
  payment and its \<open>payments.created\<close> event and hands both to the repository; \<open>Get\<close> loads a
  payment by a caller's ID.  The repository is an argument, as the \<open>Repository\<close> interface is in
  the code; the theorems are about the PostgreSQL repository.
\<close>

section \<open>The service\<close>

text \<open>What the random source delivers to the calls of \<open>newID\<close>, and the time of \<open>now\<close>.\<close>

record service_env =
  se_random :: "nat \<Rightarrow> byte8 list result"
  se_now :: gtime

text \<open>\<open>paymentCreatedPayload\<close> as \<open>json.Marshal\<close> writes it\<close>

definition created_payload :: "'a golib_scheme \<Rightarrow> payment \<Rightarrow> string" where
  "created_payload L p =
     json_text (JObj
       [(''payment_id'', JStr (pay_id p)), (''customer_id'', JStr (customer_id p)),
        (''merchant_id'', JStr (merchant_id p)), (''device_id'', JStr (device_id p)),
        (''amount_minor'', JNum (show_int (amount_minor p))), (''currency'', JStr (currency p)),
        (''country'', JStr (country p)), (''status'', JStr (pay_status p)),
        (''created_at'', JStr (time_text L (created_at p)))])"

definition candidate_payment ::
    "'a golib_scheme \<Rightarrow> string \<Rightarrow> string \<Rightarrow> create_request \<Rightarrow> gtime \<Rightarrow> payment" where
  "candidate_payment L pid key n now =
     \<lparr>pay_id = pid, idempotency_key = key, request_fingerprint = Fingerprint L n,
      customer_id = req_customer_id n, merchant_id = req_merchant_id n,
      device_id = req_device_id n, amount_minor = req_amount_minor n, currency = req_currency n,
      country = req_country n, pay_status = StatusPendingRisk, created_at = now, updated_at = now\<rparr>"

definition created_event ::
    "'a golib_scheme \<Rightarrow> string \<Rightarrow> string \<Rightarrow> payment \<Rightarrow> gtime \<Rightarrow> outbox_event" where
  "created_event L eid tid p now =
     \<lparr>oe_id = eid, oe_aggregate_id = pay_id p, oe_event_type = PaymentCreated,
      oe_schema_version = SchemaVersion, oe_occurred_at = now, oe_trace_id = tid,
      oe_payload = created_payload L p\<rparr>"

text \<open>Everything \<open>Service.Create\<close> does before it calls the repository.\<close>

definition prepare_create ::
    "'a golib_scheme \<Rightarrow> service_env \<Rightarrow> context_values \<Rightarrow> string \<Rightarrow> create_request
     \<Rightarrow> (payment \<times> outbox_event) result" where
  "prepare_create L senv ctx key request =
     (case normalizeIdempotencyKey key of
        Inl e \<Rightarrow> Inl e
      | Inr normalizedKey \<Rightarrow>
     (case NormalizeAndValidate L request of
        Inl e \<Rightarrow> Inl e
      | Inr normalized \<Rightarrow>
     (case new_uuid (se_random senv 0) of
        Inl e \<Rightarrow> Inl (errorf ''generate payment ID'' e)
      | Inr paymentID \<Rightarrow>
     (case new_uuid (se_random senv 1) of
        Inl e \<Rightarrow> Inl (errorf ''generate event ID'' e)
      | Inr eventID \<Rightarrow>
     (case (if RequestID ctx = [] then new_uuid (se_random senv 2) else Inr (RequestID ctx)) of
        Inl e \<Rightarrow> Inl (errorf ''generate trace ID'' e)
      | Inr traceID \<Rightarrow>
          let now = utc (se_now senv);
              p = candidate_payment L paymentID normalizedKey normalized now
          in if time_marshals now then Inr (p, created_event L eventID traceID p now)
             else Inl (errorf ''encode payment event payload'' marshal_time_error))))))"

definition service_create ::
    "'a golib_scheme \<Rightarrow> service_env \<Rightarrow> (payment \<Rightarrow> outbox_event \<Rightarrow> 's \<Rightarrow> create_result result \<times> 's)
     \<Rightarrow> context_values \<Rightarrow> string \<Rightarrow> create_request \<Rightarrow> 's \<Rightarrow> create_result result \<times> 's" where
  "service_create L senv repository_create ctx key request s =
     (case prepare_create L senv ctx key request of
        Inl e \<Rightarrow> (Inl e, s)
      | Inr (p, ev) \<Rightarrow> repository_create p ev s)"

definition service_get :: "(string \<Rightarrow> 's \<Rightarrow> payment result) \<Rightarrow> string \<Rightarrow> 's \<Rightarrow> payment result" where
  "service_get repository_get pid s =
     (case NormalizeID pid of Inl e \<Rightarrow> Inl e | Inr u \<Rightarrow> repository_get u s)"

section \<open>What is handed to the repository\<close>

text \<open>\<open>rand.Read\<close> fills the 16 bytes or fails.\<close>

definition good_random :: "service_env \<Rightarrow> bool" where
  "good_random senv \<longleftrightarrow> (\<forall>k. case se_random senv k of Inl e \<Rightarrow> foreign e | Inr bs \<Rightarrow> length bs = 16)"

text \<open>The request contexts that the middleware builds: \<open>WithRequestID\<close> attaches valid IDs only.\<close>

definition good_context :: "context_values \<Rightarrow> bool" where
  "good_context ctx \<longleftrightarrow> (case request_id ctx of None \<Rightarrow> True | Some v \<Rightarrow> uuid_v4 v)"

lemma new_uuid_good:
  "good_random senv \<Longrightarrow> new_uuid (se_random senv k) = Inr u \<Longrightarrow> canonical_uuid u"
  using stamped_v4 uuid_v4_canonical
  by (fastforce simp: new_uuid_def good_random_def split: sum.splits dest: spec [of _ k])

lemma good_contextD: "good_context ctx \<Longrightarrow> RequestID ctx \<noteq> [] \<Longrightarrow> canonical_uuid (RequestID ctx)"
  by (auto simp: good_context_def RequestID_def uuid_v4_canonical split: option.splits)

lemma prepare_create_Inr:
  "prepare_create L senv ctx key request = Inr (p, ev) \<longleftrightarrow>
   (\<exists>k n i j t. normalizeIdempotencyKey key = Inr k \<and> NormalizeAndValidate L request = Inr n
     \<and> new_uuid (se_random senv 0) = Inr i \<and> new_uuid (se_random senv 1) = Inr j
     \<and> (if RequestID ctx = [] then new_uuid (se_random senv 2) else Inr (RequestID ctx)) = Inr t
     \<and> time_marshals (utc (se_now senv)) \<and> p = candidate_payment L i k n (utc (se_now senv))
     \<and> ev = created_event L j t p (utc (se_now senv)))"
  by (auto simp: prepare_create_def Let_def split: sum.splits if_splits)

lemma prepare_create_fields:
  assumes "prepare_create L senv ctx key request = Inr (p, ev)" and "good_random senv" and "good_context ctx"
  shows "canonical_uuid (pay_id p)" "upper_letters 3 (currency p)" "upper_letters 2 (country p)"
    "normalizeIdempotencyKey key = Inr (idempotency_key p)"
    "request_fingerprint p = Fingerprint L (normalizeRequest L request)"
    "valid_request (normalizeRequest L request)"
    "pay_status p = StatusPendingRisk" "oe_aggregate_id ev = pay_id p" "oe_event_type ev = PaymentCreated"
    "oe_schema_version ev = 1" "canonical_uuid (oe_id ev)" "canonical_uuid (oe_trace_id ev)"
    "oe_payload ev = created_payload L p" "oe_occurred_at ev = created_at p" "updated_at p = created_at p"
    "customer_id p = req_customer_id (normalizeRequest L request)"
    "merchant_id p = req_merchant_id (normalizeRequest L request)"
    "device_id p = req_device_id (normalizeRequest L request)"
    "amount_minor p = req_amount_minor (normalizeRequest L request)"
    "currency p = req_currency (normalizeRequest L request)"
    "country p = req_country (normalizeRequest L request)"
    "RequestID ctx \<noteq> [] \<Longrightarrow> oe_trace_id ev = RequestID ctx"
  using assms new_uuid_good [OF assms(2)] good_contextD [OF assms(3)]
  by (auto simp: prepare_create_Inr NormalizeAndValidate_Inr candidate_payment_def created_event_def
      valid_request_def SchemaVersion_def split: if_splits)

section \<open>Attempts with one idempotency key\<close>

text \<open>One call of the API with everything that may differ between two calls.\<close>

record attempt =
  at_service :: service_env
  at_pg :: pg_env
  at_context :: context_values
  at_key :: string
  at_request :: create_request

definition good_attempt :: "attempt \<Rightarrow> bool" where
  "good_attempt a \<longleftrightarrow> good_random (at_service a) \<and> foreign_env (at_pg a) \<and> good_context (at_context a)"

definition run_attempt :: "'a pglib_scheme \<Rightarrow> attempt \<Rightarrow> db \<Rightarrow> create_result result \<times> db" where
  "run_attempt L a d =
     service_create L (at_service a) (create_payment L (at_pg a)) (at_context a) (at_key a) (at_request a) d"

fun run_attempts :: "'a pglib_scheme \<Rightarrow> attempt list \<Rightarrow> db \<Rightarrow> create_result result list \<times> db" where
  "run_attempts L [] d = ([], d)"
| "run_attempts L (a # as) d =
     (let (r, d1) = run_attempt L a d; (rs, d2) = run_attempts L as d1 in (r # rs, d2))"

lemma run_attempt_cases:
  assumes "run_attempt L a d = (r, d')"
  obtains e where "prepare_create L (at_service a) (at_context a) (at_key a) (at_request a) = Inl e"
      and "r = Inl e" and "d' = d"
  | p ev where "prepare_create L (at_service a) (at_context a) (at_key a) (at_request a) = Inr (p, ev)"
      and "create_payment L (at_pg a) p ev d = (r, d')"
  using assms by (auto simp: run_attempt_def service_create_def split: sum.splits)

lemma lookup_valid_stored:
  "lookup_payment d k = Some q \<Longrightarrow> valid_db d \<Longrightarrow> q \<in> set (t_payments d) \<and> idempotency_key q = k"
  by (auto simp: lookup_payment_def scanPayment_valid dest!: fetch_SomeD)

lemma run_attempt_taken:
  assumes "valid_db d" and "good_attempt a" and "normalizeIdempotencyKey (at_key a) = Inr k"
    and "lookup_payment d k = Some q" and "run_attempt L a d = (r, d')"
  shows "d' = d \<and> (\<forall>x. r = Inr x \<longrightarrow> cr_payment x = q \<and> cr_replayed x)"
  using assms(5)
proof (cases rule: run_attempt_cases)
  case (2 p ev)
  then have "idempotency_key p = k"
    using prepare_create_fields(4) [OF 2(1)] assms(2,3) by (simp add: good_attempt_def)
  with pg_payments.create_taken [OF assms(1), of "at_pg a" p q] 2(2) assms(2,4) show ?thesis
    by (fastforce simp: good_attempt_def)
qed simp

lemma run_attempt_free:
  assumes "valid_db d" and "good_attempt a" and "normalizeIdempotencyKey (at_key a) = Inr k"
    and "lookup_payment d k = None" and "run_attempt L a d = (r, d')"
  shows "(d' = d \<and> (\<exists>e. r = Inl e))
    \<or> (\<exists>q row orow. lookup_payment d' k = Some q \<and> (\<forall>x. r = Inr x \<longrightarrow> cr_payment x = q)
        \<and> d' = d\<lparr>t_payments := t_payments d @ [row], t_outbox := t_outbox d @ [orow]\<rparr>)"
  using assms(5)
proof (cases rule: run_attempt_cases)
  case (2 p ev)
  have f: "canonical_uuid (pay_id p)" "upper_letters 3 (currency p)" "upper_letters 2 (country p)"
    and k: "idempotency_key p = k"
    using prepare_create_fields(1-4) [OF 2(1)] assms(2,3) by (simp_all add: good_attempt_def)
  have "foreign_env (at_pg a)" using assms(2) by (simp add: good_attempt_def)
  from pg_payments.create_free [OF assms(1) this _ f 2(2)] assms(4) k
  consider "d' = d" "\<exists>e. r = Inl e"
    | "lookup_payment d' = (lookup_payment d)(k \<mapsto> as_stored p)"
      "r = Inr \<lparr>cr_payment = as_stored p, cr_replayed = False\<rparr> \<or> (\<exists>e. r = Inl e)"
    by auto
  then show ?thesis
  proof cases
    case stored: 2
    then have "d' \<noteq> d" by (metis assms(4) fun_upd_same option.distinct(1))
    from create_payment_rows [OF 2(2) this] obtain row orow
      where rows: "d' = d\<lparr>t_payments := t_payments d @ [row], t_outbox := t_outbox d @ [orow]\<rparr>" by blast
    have "lookup_payment d' k = Some (as_stored p)" using stored(1) by simp
    moreover have "\<forall>x. r = Inr x \<longrightarrow> cr_payment x = as_stored p" using stored(2) by auto
    ultimately show ?thesis using rows by blast
  qed blast
qed simp

lemma run_attempt_valid: "valid_db d \<Longrightarrow> valid_db (snd (run_attempt L a d))"
  by (auto simp: run_attempt_def service_create_def create_payment_valid split: sum.splits)

lemma run_attempts_taken:
  assumes "valid_db d" and "\<forall>a \<in> set as. good_attempt a \<and> normalizeIdempotencyKey (at_key a) = Inr k"
    and "lookup_payment d k = Some q"
  shows "snd (run_attempts L as d) = d
    \<and> (\<forall>x. Inr x \<in> set (fst (run_attempts L as d)) \<longrightarrow> cr_payment x = q \<and> cr_replayed x)"
  using assms(2)
proof (induction as)
  case (Cons a as)
  obtain r d1 where r: "run_attempt L a d = (r, d1)" by (cases "run_attempt L a d")
  from run_attempt_taken [OF assms(1) _ _ assms(3) r] Cons.prems
  have "d1 = d" "\<forall>x. r = Inr x \<longrightarrow> cr_payment x = q \<and> cr_replayed x" by auto
  with Cons r show ?case by (auto simp: Let_def split: prod.splits)
qed simp

text \<open>
  C1: idempotency.  Take any number of calls of \<open>Service.Create\<close> with one idempotency key
  (each with its own request, identifiers, clock and failures, lost commit answers included).
  All calls that return a payment return the same one, all of them together store at most one
  payment and exactly one outbox event with it, and the key then leads to that payment.
\<close>

theorem attempts_idempotent:
  assumes "valid_db d" and "\<forall>a \<in> set as. good_attempt a \<and> normalizeIdempotencyKey (at_key a) = Inr k"
    and "run_attempts L as d = (rs, d')"
  shows "valid_db d'
    \<and> (\<forall>x y. Inr x \<in> set rs \<and> Inr y \<in> set rs \<longrightarrow> cr_payment x = cr_payment y)
    \<and> (\<forall>x. Inr x \<in> set rs \<longrightarrow> lookup_payment d' k = Some (cr_payment x))
    \<and> (d' = d \<or> (\<exists>row orow. d' = d\<lparr>t_payments := t_payments d @ [row], t_outbox := t_outbox d @ [orow]\<rparr>))"
  using assms
proof (induction as arbitrary: d rs)
  case (Cons a as)
  obtain r d1 where r: "run_attempt L a d = (r, d1)" by (cases "run_attempt L a d")
  obtain rs1 where rs: "run_attempts L as d1 = (rs1, d')" and rs1: "rs = r # rs1"
    using Cons.prems(3) r by (auto simp: Let_def split: prod.splits)
  have v1: "valid_db d1" using run_attempt_valid [OF Cons.prems(1), of L a] r by simp
  have a: "good_attempt a" "normalizeIdempotencyKey (at_key a) = Inr k"
    and as: "\<forall>a \<in> set as. good_attempt a \<and> normalizeIdempotencyKey (at_key a) = Inr k"
    using Cons.prems(2) by auto
  show ?case
  proof (cases "lookup_payment d1 k")
    case (Some q)
    from run_attempts_taken [OF v1 as Some, of L] rs
    have *: "d' = d1" "\<forall>x. Inr x \<in> set rs1 \<longrightarrow> cr_payment x = q" by auto
    have "\<forall>x. r = Inr x \<longrightarrow> cr_payment x = q"
      using run_attempt_taken [OF Cons.prems(1) a _ r] run_attempt_free [OF Cons.prems(1) a _ r] Some
      by (cases "lookup_payment d k") auto
    moreover have "d1 = d \<or> (\<exists>row orow. d1 = d\<lparr>t_payments := t_payments d @ [row], t_outbox := t_outbox d @ [orow]\<rparr>)"
      using run_attempt_taken [OF Cons.prems(1) a _ r] run_attempt_free [OF Cons.prems(1) a _ r]
      by (cases "lookup_payment d k") auto
    ultimately show ?thesis using * Some v1 rs1 by auto
  next
    case None
    have d: "lookup_payment d k = None"
    proof (cases "lookup_payment d k")
      case (Some q)
      with run_attempt_taken [OF Cons.prems(1) a Some r] None show ?thesis by simp
    qed
    from run_attempt_free [OF Cons.prems(1) a d r] None obtain e where d1: "d1 = d" and "r = Inl e" by auto
    then have s: "Inr x \<in> set rs \<longleftrightarrow> Inr x \<in> set rs1" for x by (simp add: rs1)
    show ?thesis unfolding s using Cons.IH [OF v1 as rs] unfolding d1 .
  qed
qed simp

section \<open>When the environment does not fail\<close>

definition all_random :: "service_env \<Rightarrow> bool" where
  "all_random senv \<longleftrightarrow> (\<forall>k. case se_random senv k of Inl e \<Rightarrow> False | Inr bs \<Rightarrow> length bs = 16)"

text \<open>SHA-256 has 32 bytes.\<close>

definition digest_32 :: "'a golib_scheme \<Rightarrow> bool" where
  "digest_32 L \<longleftrightarrow> (\<forall>s. length (sha256 L s) = 32)"

text \<open>What PostgreSQL additionally asks of the texts, and Go's type of the amount.\<close>

definition storable :: "create_request \<Rightarrow> bool" where
  "storable n \<longleftrightarrow> pg_text (req_customer_id n) \<and> pg_text (req_merchant_id n) \<and> pg_text (req_device_id n)
     \<and> in_int64 (req_amount_minor n)"

text \<open>The RFC 3339 text of a time is ASCII.\<close>

definition time_plain :: "'a golib_scheme \<Rightarrow> bool" where
  "time_plain L \<longleftrightarrow> (\<forall>t. plain_text (time_text L t))"

lemma created_payload_accepted:
  assumes "jsonb_accepts L" and "time_plain L" and "canonical_uuid (pay_id p)"
    and "holds (payment_checks (as_stored p))"
  shows "case jsonb_column L (created_payload L p) of None \<Rightarrow> False | Some t \<Rightarrow> json_object t"
proof -
  let ?ms = "[(''payment_id'', JStr (pay_id p)), (''customer_id'', JStr (customer_id p)),
        (''merchant_id'', JStr (merchant_id p)), (''device_id'', JStr (device_id p)),
        (''amount_minor'', JNum (show_int (amount_minor p))), (''currency'', JStr (currency p)),
        (''country'', JStr (country p)), (''status'', JStr (pay_status p)),
        (''created_at'', JStr (time_text L (created_at p)))]"
  have "pg_text ''payment_id''" "pg_text ''customer_id''" "pg_text ''merchant_id''" "pg_text ''device_id''"
    "pg_text ''amount_minor''" "pg_text ''currency''" "pg_text ''country''" "pg_text ''status''"
    "pg_text ''created_at''"
    by (simp_all add: plain_pg_text plain_text_def byte_def)
  moreover have "pg_text (pay_id p)" "pg_text (time_text L (created_at p))"
    using assms(2,3) canonical_plain by (auto simp: time_plain_def intro: plain_pg_text)
  moreover have "pg_text (pay_status p)"
    using assms(4) by (auto simp: payment_checks_def payment_statuses_def plain_pg_text plain_text_def byte_def)
  moreover have "pg_text (customer_id p)" "pg_text (merchant_id p)" "pg_text (device_id p)"
    "in_int64 (amount_minor p)" "pg_text (currency p)" "pg_text (country p)"
    using assms(4) by (auto simp: payment_checks_def as_stored_def varchar_def intro: plain_pg_text upper_plain)
  ultimately have "list_all (\<lambda>(k, v). pg_text k \<and> plain_json v) ?ms"
    by (simp only: list.pred_inject case_prod_conv plain_json.simps parse_show_int option.case simp_thms)
  with assms(1) show ?thesis unfolding jsonb_accepts_def created_payload_def by blast
qed

lemma all_random_good: "all_random senv \<Longrightarrow> good_random senv"
  by (simp add: all_random_def good_random_def) (metis (mono_tags, lifting) old.sum.simps(5) sum.case_eq_if)

lemma all_random_uuid: "all_random senv \<Longrightarrow> \<exists>u. new_uuid (se_random senv k) = Inr u"
  by (auto simp: all_random_def new_uuid_def split: sum.splits)

lemma normalizeIdempotencyKey_Inr:
  "normalizeIdempotencyKey key = Inr k \<Longrightarrow> k = trim_space key \<and> rune_count k \<le> 255"
  by (auto simp: normalizeIdempotencyKey_def Let_def split: if_splits)

lemma prepare_create_ok:
  assumes "all_random senv" and "normalizeIdempotencyKey key = Inr k"
    and "valid_request (normalizeRequest L request)" and "time_marshals (utc (se_now senv))"
  obtains p ev where "prepare_create L senv ctx key request = Inr (p, ev)"
proof -
  obtain u0 u1 u2 where "new_uuid (se_random senv 0) = Inr u0" "new_uuid (se_random senv 1) = Inr u1"
    "new_uuid (se_random senv 2) = Inr u2" using all_random_uuid [OF assms(1)] by meson
  then have "\<exists>p ev. prepare_create L senv ctx key request = Inr (p, ev)"
    using assms(2-4) by (auto simp: prepare_create_def Let_def NormalizeAndValidate_def requestFields_Nil)
  with that show ?thesis by blast
qed

lemma prepared_checks:
  assumes "prepare_create L senv ctx key request = Inr (p, ev)" and "good_random senv" and "good_context ctx"
    and "digest_32 L" and "storable (normalizeRequest L request)" and "pg_text (idempotency_key p)"
  shows "holds (payment_checks (as_stored p))"
proof -
  have f: "hex64 (Fingerprint L n)" for n
    unfolding Fingerprint_def using assms(4) by (intro digest_hex64) (simp add: digest_32_def)
  have fields: "customer_id p = req_customer_id (normalizeRequest L request)"
    "merchant_id p = req_merchant_id (normalizeRequest L request)"
    "device_id p = req_device_id (normalizeRequest L request)"
    "amount_minor p = req_amount_minor (normalizeRequest L request)"
    "upper_letters 3 (currency p)" "upper_letters 2 (country p)" "pay_status p = StatusPendingRisk"
    "request_fingerprint p = Fingerprint L (normalizeRequest L request)"
    "valid_request (normalizeRequest L request)" "normalizeIdempotencyKey key = Inr (idempotency_key p)"
    using prepare_create_fields [OF assms(1-3)] by metis+
  have "valid_identifier (customer_id p)" "valid_identifier (merchant_id p)"
    "valid_identifier (device_id p)" "0 < amount_minor p"
    using fields(9) unfolding fields(1-4) valid_request_def by simp_all
  moreover have "pg_text (customer_id p)" "pg_text (merchant_id p)" "pg_text (device_id p)"
    "in_int64 (amount_minor p)"
    using assms(5) unfolding fields(1-4) storable_def by simp_all
  moreover have "rune_count (idempotency_key p) \<le> 255"
    using normalizeIdempotencyKey_Inr [OF fields(10)] by (elim conjE)
  moreover have "StatusPendingRisk \<in> set payment_statuses"
    by (simp add: StatusPendingRisk_def payment_statuses_def)
  ultimately show ?thesis
    using fields(5-8) f assms(6) by (simp add: payment_checks_def as_stored_def varchar_def valid_identifier_def)
qed

lemma create_payment_taken_ok:
  assumes "valid_db d" and "no_fault env" and "lookup_payment d (idempotency_key p) = Some q"
    and "holds (payment_checks (as_stored p))" and "canonical_uuid (pay_id p)"
  shows "create_payment L env p ev d =
    (if request_fingerprint q = request_fingerprint p then Inr \<lparr>cr_payment = q, cr_replayed = True\<rparr>
     else Inl (Sentinel ErrIdempotencyConflict), d)"
proof -
  from assms(3) obtain row where row: "fetch idempotency_key (idempotency_key p) (t_payments d) = Some row"
    and q: "q = scanPayment row" by (auto simp: lookup_payment_def)
  have "p\<lparr>pay_id := pay_id p\<rparr> = p" by simp
  then have "insert_payment p d = Inr (None, d)"
    using row assms(4,5) check_all_cases(1) [of "payment_checks (as_stored p)" "()"]
    by (simp add: insert_payment_def Let_def uuid_in_of_canonical as_stored_def)
  with assms(2) row q show ?thesis
    by (simp add: create_payment_def no_faultD statement_no_fault Let_def)
qed

text \<open>
  What the key decides.  In a call of \<open>Service.Create\<close> with a valid, storable request in
  which nothing fails, a key that belongs to a payment leads to that payment, as a replay, when
  the fingerprints agree, and otherwise to \<open>ErrIdempotencyConflict\<close>; the database stays as it
  is in both cases.
\<close>

theorem service_create_taken:
  assumes "valid_db d" and "no_fault env" and "all_random senv" and "good_context ctx" and "digest_32 L"
    and "normalizeIdempotencyKey key = Inr k" and "pg_text k"
    and "valid_request (normalizeRequest L request)" and "storable (normalizeRequest L request)"
    and "lookup_payment d k = Some q" and "time_marshals (utc (se_now senv))"
  shows "service_create L senv (create_payment L env) ctx key request d =
    (if request_fingerprint q = Fingerprint L (normalizeRequest L request)
     then Inr \<lparr>cr_payment = q, cr_replayed = True\<rparr> else Inl (Sentinel ErrIdempotencyConflict), d)"
proof -
  obtain p ev where p: "prepare_create L senv ctx key request = Inr (p, ev)"
    by (rule prepare_create_ok [OF assms(3,6,8,11)])
  have g: "good_random senv" using assms(3) by (rule all_random_good)
  have f: "canonical_uuid (pay_id p)" "request_fingerprint p = Fingerprint L (normalizeRequest L request)"
    "normalizeIdempotencyKey key = Inr (idempotency_key p)"
    using prepare_create_fields [OF p g assms(4)] by metis+
  have k: "idempotency_key p = k" using f(3) assms(6) by simp
  have c: "holds (payment_checks (as_stored p))"
    using prepared_checks [OF p g assms(4,5,9)] assms(7) k by simp
  show ?thesis
    using create_payment_taken_ok [OF assms(1,2) _ c f(1), of q L ev] assms(10) k p f(2)
    by (simp add: service_create_def)
qed

text \<open>
  C35: a valid, storable request with an unused key succeeds when nothing fails, the clock shows a
  year that \<open>json.Marshal\<close> can write (0 to 9999), and the generated identifiers are new: the answer is not a replay, and the payment, with the
  normalised fields of the request, is \<open>PENDING_RISK\<close>, was created at the service's time in
  UTC microseconds, and is the one to which the key then leads.
\<close>

theorem service_create_fresh:
  assumes "valid_db d" and "no_fault env" and "all_random senv" and "good_context ctx" and "digest_32 L"
    and "normalizeIdempotencyKey key = Inr k" and "pg_text k"
    and "valid_request (normalizeRequest L request)" and "storable (normalizeRequest L request)"
    and "lookup_payment d k = None"
    and "\<And>u. new_uuid (se_random senv 0) = Inr u \<Longrightarrow> \<not> payment_exists d u"
    and "\<And>u. new_uuid (se_random senv 1) = Inr u \<Longrightarrow> fetch ev_id u (t_outbox d) = None"
    and "jsonb_accepts L" and "time_plain L" and "time_marshals (utc (se_now senv))"
  shows "\<exists>x d'. service_create L senv (create_payment L env) ctx key request d = (Inr x, d')
    \<and> \<not> cr_replayed x \<and> lookup_payment d' k = Some (cr_payment x)
    \<and> pay_status (cr_payment x) = StatusPendingRisk
    \<and> created_at (cr_payment x) = timestamptz (se_now senv)
    \<and> customer_id (cr_payment x) = req_customer_id (normalizeRequest L request)
    \<and> merchant_id (cr_payment x) = req_merchant_id (normalizeRequest L request)
    \<and> device_id (cr_payment x) = req_device_id (normalizeRequest L request)
    \<and> amount_minor (cr_payment x) = req_amount_minor (normalizeRequest L request)
    \<and> currency (cr_payment x) = req_currency (normalizeRequest L request)
    \<and> country (cr_payment x) = req_country (normalizeRequest L request)"
proof -
  obtain p ev where p: "prepare_create L senv ctx key request = Inr (p, ev)"
    by (rule prepare_create_ok [OF assms(3,6,8,15)])
  have g: "good_random senv" using assms(3) by (rule all_random_good)
  note f = prepare_create_fields [OF p g assms(4)]
  have k: "idempotency_key p = k" using f(4) assms(6) by simp
  have c: "holds (payment_checks (as_stored p))"
    using prepared_checks [OF p g assms(4,5,9)] assms(7) k by simp
  from p have new: "\<not> payment_exists d (pay_id p)" "fetch ev_id (oe_id ev) (t_outbox d) = None"
    and at: "created_at p = utc (se_now senv)"
    using assms(11,12) by (auto simp: prepare_create_Inr candidate_payment_def created_event_def)
  have "event_ok L ev d"
    using f(1,8-13) new(2) created_payload_accepted [OF assms(13,14) f(1) c]
    by (simp add: event_ok_def plain_varchar plain_text_def PaymentCreated_def byte_def int4_def)
  from create_payment_ok [OF assms(2) _ f(1) c new(1) this f(8)] assms(10) k
  have r: "fst (create_payment L env p ev d) = Inr \<lparr>cr_payment = as_stored p, cr_replayed = False\<rparr>" by simp
  obtain d' where d': "create_payment L env p ev d = (Inr \<lparr>cr_payment = as_stored p, cr_replayed = False\<rparr>, d')"
    using r by (cases "create_payment L env p ev d") auto
  from pg_payments.create_returns [OF assms(1) foreign_no_fault [OF assms(2)] f(1-3) d']
  have "lookup_payment d' k = Some (as_stored p)" using k by simp
  with d' p at f(7,16-21) show ?thesis
    by (simp add: service_create_def as_stored_def timestamptz_def)
qed

text \<open>
  \<open>GetByID\<close> reads back what \<open>Create\<close> returned: a caller who presents the ID of the returned
  payment, in either case of its hexadecimal digits, gets exactly that payment.
\<close>

theorem service_get_created:
  assumes "valid_db d" and "good_attempt a" and "run_attempt L a d = (Inr x, d')"
    and "NormalizeID pid = Inr (pay_id (cr_payment x))" and "no_fault env"
  shows "service_get (get_payment env) pid d' = Inr (cr_payment x)"
  using assms(3)
proof (cases rule: run_attempt_cases)
  case (2 p ev)
  have f: "canonical_uuid (pay_id p)" "upper_letters 3 (currency p)" "upper_letters 2 (country p)"
    using prepare_create_fields(1-3) [OF 2(1)] assms(2) by (simp_all add: good_attempt_def)
  have fe: "foreign_env (at_pg a)" using assms(2) by (simp add: good_attempt_def)
  have v: "valid_db d'" using run_attempt_valid [OF assms(1), of L a] assms(3) by simp
  from pg_payments.create_returns [OF assms(1) fe f 2(2)]
  have "cr_payment x \<in> set (t_payments d')" using lookup_valid_stored [OF _ v] by blast
  moreover from this v have "unique_by pay_id (t_payments d')" "scanPayment (cr_payment x) = cr_payment x"
    by (simp_all add: valid_db_def valid_payments_def scanPayment_valid)
  ultimately show ?thesis
    using assms(4,5) NormalizeID_canonical [OF assms(4)]
    by (simp add: service_get_def get_payment_def statement_no_fault uuid_in_of_canonical fetch_unique)
qed simp

text \<open>
  A customer ID that validation accepts but PostgreSQL does not (a NUL character, which JSON
  can escape) is never answered with a validation error: the call fails with an error of the
  database, whatever the key, and changes nothing.
\<close>

theorem service_create_unstorable:
  assumes "good_attempt a" and "\<not> pg_text (req_customer_id (normalizeRequest L (at_request a)))"
    and "normalizeIdempotencyKey (at_key a) = Inr k"
    and "valid_request (normalizeRequest L (at_request a))"
  shows "\<exists>e. run_attempt L a d = (Inl e, d) \<and> foreign e"
proof -
  obtain r d' where r: "run_attempt L a d = (r, d')" by (cases "run_attempt L a d")
  have g: "good_random (at_service a)" "good_context (at_context a)" "foreign_env (at_pg a)"
    using assms(1) by (simp_all add: good_attempt_def)
  have uuid: "foreign e" if "new_uuid (se_random (at_service a) k) = Inl e" for k e
    using g(1) that by (auto simp: good_random_def new_uuid_def split: sum.splits dest: spec [of _ k])
  from r show ?thesis
  proof (cases rule: run_attempt_cases)
    case (1 e)
    then show ?thesis using assms(3,4) uuid r
      by (auto simp: prepare_create_def NormalizeAndValidate_def requestFields_Nil Let_def
          split: sum.splits if_splits)
  next
    case (2 p ev)
    have "\<not> pg_text (customer_id p)" using prepare_create_fields(16) [OF 2(1) g(1,2)] assms(2) by simp
    then have "\<not> holds (payment_checks (q\<lparr>customer_id := customer_id p\<rparr>))" for q
      by (simp add: payment_checks_def varchar_def)
    from this [of "p\<lparr>pay_id := u, created_at := timestamptz (created_at p), updated_at := timestamptz (updated_at p)\<rparr>" for u]
    have nh: "\<not> holds (payment_checks (p\<lparr>pay_id := u, created_at := timestamptz (created_at p),
        updated_at := timestamptz (updated_at p)\<rparr>))" for u by simp
    have "\<exists>e. insert_payment p d = Inl e"
      using nh by (auto simp: insert_payment_def Let_def check_all_holds split: option.splits sum.splits)
    then have "\<exists>e. insert_payment p d = Inl e \<and> foreign e" using insert_payment_Inl by blast
    then show ?thesis using 2(2) g(3) r
      by (auto simp: create_payment_def statement_def foreign_env_def split: option.splits)
  qed
qed

section \<open>Examples\<close>

definition sample_request :: create_request where
  "sample_request =
     \<lparr>req_customer_id = ''cust'', req_merchant_id = ''shop'', req_device_id = ''phone'',
      req_amount_minor = 1250, req_currency = ''EUR'', req_country = ''DE''\<rparr>"

definition sample_service :: service_env where
  "sample_service = \<lparr>se_random = (\<lambda>k. Inr (replicate 16 (of_nat k))), se_now = \<lparr>wall = 5000000, zone = 0\<rparr>\<rparr>"

definition sample_attempt :: attempt where
  "sample_attempt =
     \<lparr>at_service = sample_service, at_pg = healthy zero_time, at_context = \<lparr>request_id = None\<rparr>,
      at_key = ''key-1'', at_request = sample_request\<rparr>"

lemma plain_runes: "plain_text s \<Longrightarrow> runes s = map byte s"
  by (simp add: runes_ascii plain_text_ascii)

lemma sample_key: "normalizeIdempotencyKey ''key-1'' = Inr ''key-1''"
proof -
  have "trim_space ''key-1'' = ''key-1''"
    by (rule trim_space_plain) (simp_all add: plain_byte_def ascii_def is_space_def byte_def)
  moreover have "runes ''key-1'' = map byte ''key-1''"
    by (rule plain_runes) (simp add: plain_text_def byte_def)
  ultimately show ?thesis by (simp add: normalizeIdempotencyKey_def Let_def rune_count_def is_control_def byte_def)
qed

lemma sample_normalized: "normalizeRequest sample_lib sample_request = sample_request"
proof -
  have t: "trim_space s = s" if "s \<in> {''cust'', ''shop'', ''phone'', ''EUR'', ''DE''}" for s
    using that by (intro trim_space_plain) (auto simp: plain_byte_def ascii_def is_space_def byte_def)
  have u: "to_upper sample_lib s = s" if "s \<in> {''EUR'', ''DE''}" for s
    using that by (subst to_upper_ascii) (auto simp: ascii_def byte_def ascii_upper_def)
  show ?thesis by (simp add: normalizeRequest_def sample_request_def t u)
qed

lemma sample_request_valid:
  "valid_request sample_request" "storable sample_request"
proof -
  have p: "plain_text s" if "s \<in> {''cust'', ''shop'', ''phone''}" for s
    using that by (auto simp: plain_text_def byte_def)
  have "rune_count ''cust'' = 4" "rune_count ''shop'' = 4" "rune_count ''phone'' = 5"
    using p [THEN plain_text_ascii, THEN rune_count_ascii] by simp_all
  then show "valid_request sample_request"
    by (simp add: valid_request_def sample_request_def valid_identifier_def
        upper_letters_def byte_def)
  show "storable sample_request"
    using p by (simp add: storable_def sample_request_def plain_pg_text in_int64_def)
qed

lemma sample_environment:
  "all_random sample_service" "digest_32 sample_lib" "good_context \<lparr>request_id = None\<rparr>"
  by (simp_all add: all_random_def sample_service_def digest_32_def sample_lib_def good_context_def
      min_def)

lemma sample_marshals: "time_marshals (utc (se_now sample_service))"
  by (simp add: sample_service_def time_marshals_utc json_year_def)

lemma show_nat_plain: "plain_text (show_nat n)"
  using show_nat_digits [of n] by (auto simp: plain_text_def list_all_iff is_digit_def byte_def)

lemma show_int_plain: "plain_text (show_int i)"
  using show_nat_plain by (simp add: show_int_def plain_text_def byte_def)

lemma sample_time_plain: "time_plain sample_lib"
  by (simp add: time_plain_def sample_lib_def show_int_plain)

lemma sample_good_attempt: "good_attempt sample_attempt"
  using all_random_good [OF sample_environment(1)] sample_environment(3)
  by (simp add: good_attempt_def sample_attempt_def foreign_no_fault)

lemma sample_attempt_fields:
  "at_key sample_attempt = ''key-1''" "at_request sample_attempt = sample_request"
  by (simp_all add: sample_attempt_def)

lemma sample_run:
  assumes "valid_db d" and "lookup_payment d ''key-1'' = None"
    and "t_payments d = []" and "t_outbox d = []"
  shows "\<exists>x d'. run_attempt sample_lib sample_attempt d = (Inr x, d')"
proof -
  obtain p ev where p: "prepare_create sample_lib sample_service \<lparr>request_id = None\<rparr> ''key-1'' sample_request
      = Inr (p, ev)"
    by (rule prepare_create_ok [OF sample_environment(1) sample_key, of sample_lib sample_request])
       (simp_all add: sample_normalized sample_request_valid sample_marshals)
  have g: "good_random sample_service" using all_random_good [OF sample_environment(1)] .
  note f = prepare_create_fields [OF p g sample_environment(3)]
  have k: "idempotency_key p = ''key-1''" using f(4) sample_key by simp
  have "pg_text ''key-1''" by (simp add: plain_pg_text plain_text_def byte_def)
  with prepared_checks [OF p g sample_environment(3,2)] k
  have c: "holds (payment_checks (as_stored p))" by (simp add: sample_normalized sample_request_valid)
  have "event_ok sample_lib ev d"
    using f(1,8-13) created_payload_accepted [OF sample_jsonb sample_time_plain f(1) c] assms(4)
    by (simp add: event_ok_def plain_varchar plain_text_def PaymentCreated_def byte_def int4_def)
  from create_payment_ok [OF no_fault_healthy _ f(1) c _ this f(8), of zero_time] assms(2,3) k
  have "fst (create_payment sample_lib (healthy zero_time) p ev d)
      = Inr \<lparr>cr_payment = as_stored p, cr_replayed = False\<rparr>" by (simp add: payment_exists_def)
  then show ?thesis
    using p by (cases "create_payment sample_lib (healthy zero_time) p ev d")
      (auto simp: run_attempt_def service_create_def sample_attempt_def)
qed

lemma empty_lookup: "lookup_payment empty_db k = None" "t_payments empty_db = []" "t_outbox empty_db = []"
  by (simp_all add: lookup_payment_def empty_db_def)

theorem attempts_idempotent_witness:
  "valid_db (snd (run_attempts sample_lib [sample_attempt, sample_attempt] empty_db))"
proof -
  obtain rs d' where r: "run_attempts sample_lib [sample_attempt, sample_attempt] empty_db = (rs, d')"
    by (cases "run_attempts sample_lib [sample_attempt, sample_attempt] empty_db")
  have "\<forall>a \<in> set [sample_attempt, sample_attempt].
      good_attempt a \<and> normalizeIdempotencyKey (at_key a) = Inr ''key-1''"
    by (simp add: sample_good_attempt sample_attempt_fields sample_key)
  from attempts_idempotent [OF valid_empty this r] r show ?thesis by simp
qed

theorem service_create_fresh_witness:
  "\<exists>x d'. service_create sample_lib sample_service (create_payment sample_lib (healthy zero_time))
       \<lparr>request_id = None\<rparr> ''key-1'' sample_request empty_db = (Inr x, d')
     \<and> amount_minor (cr_payment x) = 1250"
proof -
  have t: "pg_text ''key-1''" by (simp add: plain_pg_text plain_text_def byte_def)
  have v: "valid_request (normalizeRequest sample_lib sample_request)"
    "storable (normalizeRequest sample_lib sample_request)"
    by (simp_all add: sample_normalized sample_request_valid)
  have e: "\<not> payment_exists empty_db u" "fetch ev_id u (t_outbox empty_db) = None" for u
    by (simp_all add: payment_exists_def empty_lookup)
  from service_create_fresh [OF valid_empty no_fault_healthy sample_environment(1,3,2) sample_key t v
      empty_lookup(1) e sample_jsonb sample_time_plain sample_marshals, of zero_time]
  obtain x d' where "service_create sample_lib sample_service (create_payment sample_lib (healthy zero_time))
       \<lparr>request_id = None\<rparr> ''key-1'' sample_request empty_db = (Inr x, d')"
    and "amount_minor (cr_payment x) = req_amount_minor (normalizeRequest sample_lib sample_request)"
    by blast
  moreover from this(2) have "amount_minor (cr_payment x) = 1250"
    unfolding sample_normalized by (simp add: sample_request_def)
  ultimately show ?thesis by blast
qed

theorem service_get_created_witness:
  "\<exists>x d'. run_attempt sample_lib sample_attempt empty_db = (Inr x, d')
     \<and> service_get (get_payment (healthy zero_time)) (pay_id (cr_payment x)) d' = Inr (cr_payment x)"
proof -
  obtain x d' where r: "run_attempt sample_lib sample_attempt empty_db = (Inr x, d')"
    using sample_run [OF valid_empty empty_lookup] by blast
  from r have "canonical_uuid (pay_id (cr_payment x))"
  proof (cases rule: run_attempt_cases)
    case (2 p ev)
    have f: "canonical_uuid (pay_id p)" "upper_letters 3 (currency p)" "upper_letters 2 (country p)"
      using prepare_create_fields(1-3) [OF 2(1)] sample_good_attempt by (simp_all add: good_attempt_def)
    have fe: "foreign_env (at_pg sample_attempt)" using sample_good_attempt by (simp add: good_attempt_def)
    from pg_payments.create_free [OF valid_empty fe _ f 2(2)] f(1) show ?thesis
      by (auto simp: empty_lookup)
  qed simp
  then have "NormalizeID (pay_id (cr_payment x)) = Inr (pay_id (cr_payment x))"
    by (rule NormalizeID_of_canonical)
  from service_get_created [OF valid_empty sample_good_attempt r this no_fault_healthy] r
  show ?thesis by blast
qed

theorem service_create_taken_witness:
  "\<exists>x d'. run_attempt sample_lib sample_attempt empty_db = (Inr x, d')
     \<and> service_create sample_lib sample_service (create_payment sample_lib (healthy zero_time))
         \<lparr>request_id = None\<rparr> ''key-1'' (sample_request\<lparr>req_amount_minor := 1\<rparr>) d'
       = (if request_fingerprint (cr_payment x)
             = Fingerprint sample_lib (normalizeRequest sample_lib (sample_request\<lparr>req_amount_minor := 1\<rparr>))
          then Inr \<lparr>cr_payment = cr_payment x, cr_replayed = True\<rparr>
          else Inl (Sentinel ErrIdempotencyConflict), d')"
proof -
  obtain x d' where r: "run_attempt sample_lib sample_attempt empty_db = (Inr x, d')"
    using sample_run [OF valid_empty empty_lookup] by blast
  have v: "valid_db d'" using run_attempt_valid [OF valid_empty, of sample_lib sample_attempt] r by simp
  have k: "normalizeIdempotencyKey (at_key sample_attempt) = Inr ''key-1''"
    by (simp add: sample_attempt_fields sample_key)
  have l: "lookup_payment d' ''key-1'' = Some (cr_payment x)"
    using run_attempt_free [OF valid_empty sample_good_attempt k empty_lookup(1) r] by auto
  let ?r = "sample_request\<lparr>req_amount_minor := 1\<rparr>"
  have n: "normalizeRequest sample_lib ?r = ?r"
    using sample_normalized by (simp add: normalizeRequest_def sample_request_def)
  have "valid_request ?r" "storable ?r"
    using sample_request_valid by (simp_all add: valid_request_def storable_def in_int64_def)
  then have "valid_request (normalizeRequest sample_lib ?r)" "storable (normalizeRequest sample_lib ?r)"
    by (simp_all add: n)
  moreover have "pg_text ''key-1''" by (simp add: plain_pg_text plain_text_def byte_def)
  ultimately show ?thesis
    using service_create_taken [OF v no_fault_healthy sample_environment(1,3,2) sample_key _ _ _ l sample_marshals] r by blast
qed

theorem service_create_unstorable_witness:
  "\<exists>e. run_attempt sample_lib
         (sample_attempt\<lparr>at_request := sample_request\<lparr>req_customer_id := [CHR ''a'', CHR 0x00, CHR ''b'']\<rparr>\<rparr>)
         empty_db = (Inl e, empty_db)"
proof -
  let ?nul = "[CHR ''a'', CHR 0x00, CHR ''b'']"
  let ?r = "sample_request\<lparr>req_customer_id := ?nul\<rparr>"
  let ?a = "sample_attempt\<lparr>at_request := ?r\<rparr>"
  have asc: "list_all ascii ?nul" by (simp add: ascii_def byte_def)
  have "trim_space ?nul = ?nul"
    by (rule trim_space_plain) (simp_all add: plain_byte_def ascii_def is_space_def byte_def)
  then have n: "normalizeRequest sample_lib ?r = ?r"
    using sample_normalized by (simp add: normalizeRequest_def sample_request_def)
  have "valid_request ?r"
    using sample_request_valid(1) rune_count_ascii [OF asc]
    by (simp add: valid_request_def valid_identifier_def)
  moreover have "\<not> pg_text ?nul" by (simp add: pg_text_def)
  moreover have "good_attempt ?a" using sample_good_attempt by (simp add: good_attempt_def)
  ultimately show ?thesis
    using service_create_unstorable [of ?a sample_lib "''key-1''" empty_db] n sample_key
    by (auto simp: sample_attempt_fields)
qed

end
