(* ===== verification/Outbox_Event.thy ===== *)
theory Outbox_Event
  imports Payment_Service
begin

text \<open>
  outbox/event.go and outbox/message.go: the event read from the outbox, its validation, the
  envelope written to Kafka, and the classification of delivery errors.
\<close>

section \<open>Data\<close>

record delivery_event =
  de_id :: string
  de_event_type :: string
  de_aggregate_id :: string
  de_schema_version :: int
  de_occurred_at :: gtime
  de_trace_id :: string
  de_payload :: string
  de_delivery_attempts :: int

record message =
  msg_topic :: string
  msg_key :: string
  msg_value :: string
  msg_headers :: "(string \<times> string) list"

definition paymentsCreatedEventType :: string where
  "paymentsCreatedEventType = ''payments.created''"

section \<open>Validation\<close>

definition invalid_outbox :: "string \<Rightarrow> string \<Rightarrow> go_error" where
  "invalid_outbox eid what = Msg (''invalid outbox event'' @ eid @ '': '' @ what)"

text \<open>
  The payload is read by a decoder: the first \<open>Decode\<close> takes one value, which must be an object,
  and the second must meet the end of the input.
\<close>

definition validatePayload :: "string \<Rightarrow> string \<Rightarrow> go_error option" where
  "validatePayload eid payload =
     (case json_value (2 * length payload + 2) 0 payload of
        Some (JObj ms, rest) \<Rightarrow>
          if skip_space rest = [] then None
          else Some (invalid_outbox eid ''payload must contain one JSON object'')
      | _ \<Rightarrow> Some (invalid_outbox eid ''payload must be a JSON object''))"

definition validateEvent :: "delivery_event \<Rightarrow> go_error option" where
  "validateEvent e =
     (let eid = '' '' @ de_id e in
      if trim_space (de_id e) = [] then Some (invalid_outbox [] ''event_id is required'')
      else if trim_space (de_event_type e) = [] then Some (invalid_outbox eid ''event_type is required'')
      else if trim_space (de_aggregate_id e) = [] then Some (invalid_outbox eid ''aggregate_id is required'')
      else if de_schema_version e < 1 then Some (invalid_outbox eid ''schema_version must be positive'')
      else if is_zero_time (de_occurred_at e) then Some (invalid_outbox eid ''occurred_at is required'')
      else if trim_space (de_trace_id e) = [] then Some (invalid_outbox eid ''trace_id is required'')
      else validatePayload eid (de_payload e))"

section \<open>The envelope\<close>

text \<open>
  How \<open>json.Marshal\<close> writes a \<open>RawMessage\<close>: without white space between tokens, and with the
  characters that are special in HTML or JavaScript escaped.  The flag says whether the
  position is inside a string literal.
\<close>

fun compact_json :: "bool \<Rightarrow> string \<Rightarrow> string" where
  "compact_json q [] = []"
| "compact_json q (c # cs) =
     (if q \<and> c = CHR 0x5C then
        (case cs of [] \<Rightarrow> [c] | d # ds \<Rightarrow> c # d # compact_json q ds)
      else if c = CHR ''<'' \<or> c = CHR ''>'' \<or> c = CHR ''&'' then
        [CHR 0x5C, CHR ''u'', CHR ''0'', CHR ''0''] @ hex_byte (byte c) @ compact_json q cs
      else if byte c = 0xE2 \<and> length cs \<ge> 2 \<and> byte (cs ! 0) = 0x80
              \<and> (byte (cs ! 1) = 0xA8 \<or> byte (cs ! 1) = 0xA9) then
        [CHR 0x5C, CHR ''u'', CHR ''2'', CHR ''0''] @ hex_byte (byte (cs ! 1) - 0x80)
        @ compact_json q (drop 2 cs)
      else if c = CHR 0x22 then c # compact_json (\<not> q) cs
      else if \<not> q \<and> json_space c then compact_json q cs
      else c # compact_json q cs)"

definition envelope_fields :: "'a golib_scheme \<Rightarrow> delivery_event \<Rightarrow> (string \<times> json) list" where
  "envelope_fields L e =
     [(''event_id'', JStr (de_id e)), (''event_type'', JStr (de_event_type e)),
      (''aggregate_id'', JStr (de_aggregate_id e)),
      (''schema_version'', JNum (show_int (de_schema_version e))),
      (''occurred_at'', JStr (time_text L (utc (de_occurred_at e)))),
      (''trace_id'', JStr (de_trace_id e))]"

definition envelope_text :: "'a golib_scheme \<Rightarrow> delivery_event \<Rightarrow> string" where
  "envelope_text L e =
     [CHR 0x7B] @ json_text_members (envelope_fields L e) @ [CHR '','']
     @ json_quote ''payload'' @ [CHR '':''] @ compact_json False (de_payload e) @ [CHR 0x7D]"

definition marshalEnvelope :: "'a golib_scheme \<Rightarrow> delivery_event \<Rightarrow> string result" where
  "marshalEnvelope L e =
     (case validateEvent e of
        Some err \<Rightarrow> Inl err
      | None \<Rightarrow>
          if time_marshals (utc (de_occurred_at e)) then Inr (envelope_text L e)
          else Inl (errorf ''encode event envelope'' marshal_time_error))"

section \<open>Publishing one event\<close>

text \<open>
  \<open>Worker.publish\<close>, with the producer as an argument: it gets the message and the state of the
  broker and returns only when the broker has acknowledged the record or an error is known.
\<close>

definition event_message :: "string \<Rightarrow> delivery_event \<Rightarrow> string \<Rightarrow> message" where
  "event_message topic e value =
     \<lparr>msg_topic = topic, msg_key = de_aggregate_id e, msg_value = value,
      msg_headers =
        [(''event_id'', de_id e), (''event_type'', de_event_type e),
         (''schema_version'', show_int (de_schema_version e)), (''trace_id'', de_trace_id e)]\<rparr>"

definition publish ::
    "'a golib_scheme \<Rightarrow> string \<Rightarrow> (message \<Rightarrow> 'k \<Rightarrow> go_error option \<times> 'k) \<Rightarrow> delivery_event
     \<Rightarrow> 'k \<Rightarrow> go_error option \<times> 'k" where
  "publish L topic produce e k =
     (if de_event_type e \<noteq> paymentsCreatedEventType
      then (Some (PermanentDeliveryError (Msg (''unsupported event_type '' @ go_quote L (de_event_type e)))), k)
      else (case marshalEnvelope L e of
              Inl err \<Rightarrow> (Some (PermanentDeliveryError err), k)
            | Inr value \<Rightarrow> produce (event_message topic e value) k))"

section \<open>Valid events\<close>

definition wellformed_event :: "delivery_event \<Rightarrow> bool" where
  "wellformed_event e \<longleftrightarrow>
     trim_space (de_id e) \<noteq> [] \<and> trim_space (de_event_type e) \<noteq> [] \<and> trim_space (de_aggregate_id e) \<noteq> []
     \<and> 1 \<le> de_schema_version e \<and> \<not> is_zero_time (de_occurred_at e) \<and> trim_space (de_trace_id e) \<noteq> []
     \<and> json_object (de_payload e)"

lemma validatePayload_None: "validatePayload eid p = None \<longleftrightarrow> json_object p"
  by (auto simp: validatePayload_def json_object_def json_parse_def split: option.splits json.splits prod.splits)

lemma validateEvent_None: "validateEvent e = None \<longleftrightarrow> wellformed_event e"
  by (auto simp: validateEvent_def wellformed_event_def validatePayload_None Let_def)

lemma validateEvent_Msg: "validateEvent e = Some err \<Longrightarrow> foreign err"
  by (auto simp: validateEvent_def validatePayload_def invalid_outbox_def Let_def
      split: if_splits option.splits json.splits prod.splits)

text \<open>An event that can be written: well formed, at a time that \<open>json.Marshal\<close> accepts.\<close>

definition writable_event :: "delivery_event \<Rightarrow> bool" where
  "writable_event e \<longleftrightarrow> wellformed_event e \<and> time_marshals (utc (de_occurred_at e))"

lemma marshalEnvelope_eq:
  "writable_event e \<Longrightarrow> marshalEnvelope L e = Inr (envelope_text L e)"
  "\<not> writable_event e \<Longrightarrow> \<exists>err. marshalEnvelope L e = Inl err"
  using validateEvent_None [of e] by (auto simp: marshalEnvelope_def writable_event_def split: option.splits)

text \<open>
  \<open>publish\<close> hands exactly one message to the producer when the event has the supported type
  and can be written (all six fields present, the payload one JSON object, the year 0 to 9999), and returns
  the producer's answer unchanged; the message goes to the configured topic with the
  aggregate ID as its key.  Every other event is answered with a permanent error without
  contacting the broker.
\<close>

theorem publish_spec:
  "if de_event_type e = ''payments.created'' \<and> writable_event e
   then publish L topic produce e k = produce (event_message topic e (envelope_text L e)) k
   else (\<exists>err. publish L topic produce e k = (Some err, k) \<and> is_permanent err)"
  using marshalEnvelope_eq [of e L]
  by (cases "writable_event e") (auto simp: publish_def paymentsCreatedEventType_def)

end
