(* ===== verification/Outbox_Store.thy ===== *)
theory Outbox_Store
  imports Outbox_Event "HOL-Library.Signed_Division" "HOL-Library.Product_Lexorder" "HOL-Library.List_Lexorder"
begin

text \<open>
  outbox/postgres_store.go: \<open>ProcessNext\<close> claims the next due event under a row lock, publishes
  it while the lock is held, and records success, a retry time, or quarantine in the same
  transaction; the retry delays of \<open>nextBackoff\<close> and \<open>deliveryBackoff\<close> are kept at the width
  of \<open>time.Duration\<close>.  \<open>outbox_store\<close> is the \<open>Store\<close> interface of outbox/postgres_store.go.
\<close>

section \<open>Retry delays\<close>

definition half :: "duration \<Rightarrow> duration" where
  "half d = word_of_int (sint d sdiv 2)"

definition nextBackoff :: "duration \<Rightarrow> duration \<Rightarrow> duration" where
  "nextBackoff current maximum =
     (if maximum \<le>s current \<or> half maximum <s current then maximum else current * 2)"

text \<open>The loop of \<open>deliveryBackoff\<close>: \<open>n\<close> is the number of iterations that \<open>attempt\<close> allows.\<close>

fun backoff_loop :: "nat \<Rightarrow> duration \<Rightarrow> duration \<Rightarrow> duration" where
  "backoff_loop 0 delay maximum = delay"
| "backoff_loop (Suc n) delay maximum =
     (if delay <s maximum then backoff_loop n (nextBackoff delay maximum) maximum else delay)"

definition deliveryBackoff :: "int \<Rightarrow> duration \<Rightarrow> duration \<Rightarrow> duration" where
  "deliveryBackoff attempt minimum maximum = backoff_loop (nat (attempt - 1)) minimum maximum"

record retry_config =
  retry_min :: duration
  retry_max :: duration

text \<open>What \<open>NewPostgresStore\<close> and \<open>NewWorker\<close> check.\<close>

definition valid_retry :: "retry_config \<Rightarrow> bool" where
  "valid_retry c \<longleftrightarrow> 0 <s retry_min c \<and> retry_min c \<le>s retry_max c"

lemma sint_bounds: "- (2 ^ 63) \<le> sint (d :: duration)" "sint (d :: duration) < 2 ^ 63"
  using sint_ge [of d] sint_lt [of d] by simp_all

lemma sint_int64: "in_int64 i \<Longrightarrow> sint (word_of_int i :: duration) = i"
  by (simp add: in_int64_def signed_take_bit_int_eq_self sint_sbintrunc')

lemma sint_half:
  assumes "0 \<le> sint d" shows "sint (half d) = sint d div 2"
proof -
  have "sint d sdiv 2 = sint d div 2"
    using assms by (cases "sint d = 0") (auto simp: signed_divide_int_def)
  moreover have "in_int64 (sint d div 2)"
    using assms sint_bounds(2) [of d] by (auto simp: in_int64_def)
  ultimately show ?thesis by (simp only: half_def sint_int64)
qed

lemma sint_double:
  fixes d :: duration
  assumes d: "0 \<le> sint d" "sint d < 2 ^ 62"
  shows "sint (d * 2) = 2 * sint d"
proof -
  have e: "d * 2 = word_of_int (sint d * 2)" by simp
  have "in_int64 (sint d * 2)" using d by (simp add: in_int64_def)
  from sint_int64 [OF this] show ?thesis unfolding e by (simp only: mult.commute)
qed

text \<open>The doubling never overflows: it is the minimum of twice the delay and the maximum.\<close>

lemma sint_nextBackoff:
  assumes "0 < sint c" and "sint c \<le> sint m"
  shows "sint (nextBackoff c m) = min (2 * sint c) (sint m)"
proof (cases "sint m div 2 < sint c")
  case True
  then show ?thesis using assms by (simp add: nextBackoff_def word_sless_alt word_sle_eq sint_half)
next
  case False
  have "2 * (sint m div 2) \<le> sint m" by simp
  with False have "sint c < 2 ^ 62" using sint_bounds [of m] by simp
  with False assms show ?thesis
    by (auto simp: nextBackoff_def word_sless_alt word_sle_eq sint_half sint_double)
qed

lemma sint_backoff_loop:
  assumes "0 < sint d" and "sint d \<le> sint m"
  shows "sint (backoff_loop n d m) = min (2 ^ n * sint d) (sint m)"
  using assms
proof (induction n arbitrary: d)
  case (Suc n)
  show ?case
  proof (cases "sint d < sint m")
    case True
    have nb: "0 < sint (nextBackoff d m)" "sint (nextBackoff d m) \<le> sint m"
      using sint_nextBackoff [OF Suc.prems] Suc.prems by auto
    from Suc.IH [OF nb] True sint_nextBackoff [OF Suc.prems] Suc.prems
    have "sint (backoff_loop (Suc n) d m) = min (2 ^ n * min (2 * sint d) (sint m)) (sint m)"
      by (simp add: word_sless_alt)
    also have "\<dots> = min (2 ^ Suc n * sint d) (sint m)"
    proof (cases "2 * sint d \<le> sint m")
      case False
      have p: "sint m \<le> 2 ^ n * sint m" using Suc.prems mult_right_mono [of 1 "2 ^ n" "sint m"] by simp
      have "2 ^ n * sint m \<le> 2 ^ n * (2 * sint d)" using False by (intro mult_left_mono) auto
      with p have "sint m \<le> 2 ^ n * (2 * sint d)" by (rule order_trans)
      moreover have "2 ^ Suc n * sint d = 2 ^ n * (2 * sint d)" by simp
      ultimately have "sint m \<le> 2 ^ Suc n * sint d" by (simp only:)
      with p False show ?thesis by (simp only: min_absorb2 linorder_not_le less_imp_le)
    qed (simp add: mult.assoc mult.left_commute)
    finally show ?thesis .
  next
    case False
    then have e: "sint d = sint m" using Suc.prems by simp
    have p: "(1 :: int) \<le> 2 ^ Suc n" by (rule one_le_power) simp
    have "sint m \<le> 2 ^ Suc n * sint m"
      using mult_right_mono [OF p, of "sint m"] Suc.prems by (simp only: mult_1)
    then have "min (2 ^ Suc n * sint d) (sint m) = sint m" by (simp only: e min_absorb2)
    then show ?thesis using False e by (simp only: backoff_loop.simps word_sless_alt if_False)
  qed
qed simp

text \<open>
  C38: the retry delay of the \<open>n\<close>-th failed attempt is the configured minimum doubled \<open>n - 1\<close>
  times and capped at the configured maximum, in exact arithmetic: no 64-bit duration
  overflows on the way, however large the configured maximum and the number of attempts are.
\<close>

theorem deliveryBackoff_exact:
  assumes "valid_retry c" and "1 \<le> attempt"
  shows "sint (deliveryBackoff attempt (retry_min c) (retry_max c)) =
     min (2 ^ nat (attempt - 1) * sint (retry_min c)) (sint (retry_max c))"
  using assms sint_backoff_loop [of "retry_min c" "retry_max c"]
  by (simp add: deliveryBackoff_def valid_retry_def word_sless_alt word_sle_eq)

theorem deliveryBackoff_exact_witness:
  "sint (deliveryBackoff 4 second (2 ^ 63 - 1)) = 8000000000"
  using deliveryBackoff_exact [of "\<lparr>retry_min = second, retry_max = 2 ^ 63 - 1\<rparr>" 4]
  by (simp add: valid_retry_def second_def word_sless_alt word_sle_eq)

section \<open>Claiming\<close>

definition open_event :: "outbox_row \<Rightarrow> bool" where
  "open_event r \<longleftrightarrow> ev_published_at r = None \<and> ev_dead_lettered_at r = None"

definition due :: "gtime \<Rightarrow> (string \<Rightarrow> bool) \<Rightarrow> outbox_row \<Rightarrow> bool" where
  "due now locked r \<longleftrightarrow> open_event r \<and> wall (ev_next_attempt_at r) \<le> wall now \<and> \<not> locked (ev_id r)"

text \<open>\<open>ORDER BY next_attempt_at, created_at, id\<close>\<close>

definition claim_key :: "outbox_row \<Rightarrow> int \<times> int \<times> nat list" where
  "claim_key r = (wall (ev_next_attempt_at r), wall (ev_created_at r), map byte (ev_id r))"

text \<open>
  \<open>selectNextEventSQL\<close>; \<open>locked\<close> are the rows that other transactions hold, which
  \<open>FOR UPDATE SKIP LOCKED\<close> passes over.
\<close>

definition next_due :: "gtime \<Rightarrow> (string \<Rightarrow> bool) \<Rightarrow> db \<Rightarrow> outbox_row option" where
  "next_due now locked d =
     (let rows = filter (due now locked) (t_outbox d) in
      if rows = [] then None else Some (arg_min_list claim_key rows))"

definition scanNextEvent :: "outbox_row \<Rightarrow> delivery_event" where
  "scanNextEvent r =
     \<lparr>de_id = ev_id r, de_event_type = ev_event_type r, de_aggregate_id = ev_aggregate_id r,
      de_schema_version = ev_schema_version r, de_occurred_at = utc (ev_occurred_at r),
      de_trace_id = ev_trace_id r, de_payload = ev_payload r,
      de_delivery_attempts = ev_delivery_attempts r\<rparr>"

section \<open>Completing\<close>

definition open_row :: "string \<Rightarrow> outbox_row \<Rightarrow> bool" where
  "open_row eid r \<longleftrightarrow> ev_id r = eid \<and> open_event r"

definition update_outbox :: "string \<Rightarrow> (outbox_row \<Rightarrow> outbox_row) \<Rightarrow> db \<Rightarrow> db" where
  "update_outbox eid f d = d\<lparr>t_outbox := update_rows (open_row eid) f (t_outbox d)\<rparr>"

text \<open>\<open>delivery_attempts + 1\<close> must fit its INTEGER column.\<close>

definition attempts_fit :: "string \<Rightarrow> db \<Rightarrow> bool" where
  "attempts_fit eid d \<longleftrightarrow> (\<forall>r \<in> set (t_outbox d). open_row eid r \<longrightarrow> int4 (ev_delivery_attempts r + 1))"

definition published_row :: "gtime \<Rightarrow> gtime \<Rightarrow> outbox_row \<Rightarrow> outbox_row" where
  "published_row now1 now2 r =
     r\<lparr>ev_published_at := Some (timestamptz now1), ev_last_attempt_at := Some (timestamptz now2),
       ev_delivery_attempts := ev_delivery_attempts r + 1\<rparr>"

definition markEventPublished :: "string \<Rightarrow> gtime \<Rightarrow> gtime \<Rightarrow> db \<Rightarrow> (nat \<times> db) result" where
  "markEventPublished eid now1 now2 d =
     (if \<not> attempts_fit eid d then Inl (constraint_error ''delivery_attempts'')
      else Inr (affected (open_row eid) (t_outbox d), update_outbox eid (published_row now1 now2) d))"

definition failed_row :: "gtime \<Rightarrow> string \<Rightarrow> bool \<Rightarrow> gtime \<Rightarrow> gtime \<Rightarrow> outbox_row \<Rightarrow> outbox_row" where
  "failed_row nextAttemptAt text permanent now1 now2 r =
     r\<lparr>ev_delivery_attempts := ev_delivery_attempts r + 1,
       ev_last_attempt_at := Some (timestamptz now1),
       ev_next_attempt_at := timestamptz nextAttemptAt,
       ev_last_error := Some (left_chars 2000 text),
       ev_dead_lettered_at := (if permanent then Some (timestamptz now2) else None)\<rparr>"

definition recordEventFailure ::
    "string \<Rightarrow> gtime \<Rightarrow> string \<Rightarrow> bool \<Rightarrow> gtime \<Rightarrow> gtime \<Rightarrow> db \<Rightarrow> (nat \<times> db) result" where
  "recordEventFailure eid nextAttemptAt text permanent now1 now2 d =
     (if \<not> pg_text text then Inl (constraint_error ''last_error'')
      else if \<not> attempts_fit eid d then Inl (constraint_error ''delivery_attempts'')
      else Inr (affected (open_row eid) (t_outbox d),
                update_outbox eid (failed_row nextAttemptAt text permanent now1 now2) d))"

text \<open>
  The clock readings of one transaction: 0 the claim, 1 and 2 the two \<open>clock_timestamp()\<close> of the
  update, 3 the process's \<open>time.Now()\<close>.
\<close>

definition recordFailure ::
    "retry_config \<Rightarrow> pg_env \<Rightarrow> delivery_event \<Rightarrow> go_error \<Rightarrow> db \<Rightarrow> unit result \<times> db" where
  "recordFailure cfg env event publishErr d =
     (let failedAttempt = de_delivery_attempts event + 1;
          delay = deliveryBackoff failedAttempt (retry_min cfg) (retry_max cfg);
          nextAttemptAt = time_add (utc (pg_clock env 3)) delay;
          permanent = is_permanent publishErr;
          what = ''record outbox event '' @ de_id event @ '' failure''
      in case statement env 1 (recordEventFailure (de_id event) nextAttemptAt (error_text publishErr)
                permanent (pg_clock env 1) (pg_clock env 2) d) of
           Inl e \<Rightarrow> (Inl (errorf what e), d)
         | Inr (n, d1) \<Rightarrow>
             if n \<noteq> 1 then (Inl (Msg (what @ '': expected one updated row'')), d)
             else commit_tx env (''commit outbox event '' @ de_id event @ '' failure'') d d1 ())"

definition ProcessNext ::
    "retry_config \<Rightarrow> (string \<Rightarrow> bool) \<Rightarrow> pg_env \<Rightarrow> (delivery_event \<Rightarrow> 'k \<Rightarrow> go_error option \<times> 'k)
     \<Rightarrow> db \<times> 'k \<Rightarrow> (bool \<times> go_error option) \<times> (db \<times> 'k)" where
  "ProcessNext cfg locked env deliver st =
     (let (d, k) = st in
      case pg_begin env of
        Some e \<Rightarrow> ((False, Some (errorf ''begin outbox transaction'' e)), (d, k))
      | None \<Rightarrow>
     (case statement env 0 (Inr (next_due (pg_clock env 0) locked d)) of
        Inl e \<Rightarrow> ((False, Some (errorf ''claim outbox event'' e)), (d, k))
      | Inr None \<Rightarrow> ((False, None), (d, k))
      | Inr (Some row) \<Rightarrow>
          let event = scanNextEvent row in
          (case deliver event k of
             (Some publishErr, k1) \<Rightarrow>
               let perr = errorf (''publish outbox event '' @ de_id event) publishErr in
               (case recordFailure cfg env event publishErr d of
                  (Inl err, d1) \<Rightarrow> ((True, Some (Joined [perr, err])), (d1, k1))
                | (Inr _, d1) \<Rightarrow> ((True, Some perr), (d1, k1)))
           | (None, k1) \<Rightarrow>
               let what = ''mark outbox event '' @ de_id event @ '' published'' in
               (case statement env 1 (markEventPublished (de_id event) (pg_clock env 1) (pg_clock env 2) d) of
                  Inl e \<Rightarrow> ((True, Some (errorf what e)), (d, k1))
                | Inr (n, d1) \<Rightarrow>
                    if n \<noteq> 1 then ((True, Some (Msg (what @ '': expected one updated row''))), (d, k1))
                    else (case commit_tx env (''commit outbox event '' @ de_id event) d d1 () of
                            (Inl e, d2) \<Rightarrow> ((True, Some e), (d2, k1))
                          | (Inr _, d2) \<Rightarrow> ((True, None), (d2, k1)))))))"

section \<open>What a claim and its completion do\<close>

lemma next_due_Some:
  assumes "next_due now locked d = Some r"
  shows "r \<in> set (t_outbox d)" "due now locked r"
    "\<And>r'. r' \<in> set (t_outbox d) \<Longrightarrow> due now locked r' \<Longrightarrow> claim_key r \<le> claim_key r'"
proof -
  let ?rows = "filter (due now locked) (t_outbox d)"
  have ne: "?rows \<noteq> []" and r: "r = arg_min_list claim_key ?rows"
    using assms by (auto simp: next_due_def Let_def split: if_splits)
  from arg_min_list_in [OF ne, of claim_key] r show "r \<in> set (t_outbox d)" "due now locked r" by auto
  show "claim_key r \<le> claim_key r'" if "r' \<in> set (t_outbox d)" "due now locked r'" for r'
    using that f_arg_min_list_f [OF ne, of claim_key] r by simp
qed

lemma next_due_None:
  "next_due now locked d = None \<longleftrightarrow> (\<forall>r \<in> set (t_outbox d). \<not> due now locked r)"
  by (auto simp: next_due_def Let_def filter_empty_conv)

text \<open>The changes that a completed attempt may make to the claimed row.\<close>

definition completion :: "gtime \<Rightarrow> gtime \<Rightarrow> gtime \<Rightarrow> go_error option \<Rightarrow> outbox_row \<Rightarrow> outbox_row" where
  "completion next now1 now2 outcome =
     (case outcome of None \<Rightarrow> published_row now1 now2
      | Some e \<Rightarrow> failed_row next (error_text e) (is_permanent e) now1 now2)"

definition retry_time :: "retry_config \<Rightarrow> pg_env \<Rightarrow> outbox_row \<Rightarrow> gtime" where
  "retry_time cfg env r =
     time_add (utc (pg_clock env 3))
       (deliveryBackoff (ev_delivery_attempts r + 1) (retry_min cfg) (retry_max cfg))"

definition completed_db :: "retry_config \<Rightarrow> pg_env \<Rightarrow> go_error option \<Rightarrow> outbox_row \<Rightarrow> db \<Rightarrow> db" where
  "completed_db cfg env outcome r d =
     update_outbox (ev_id r)
       (completion (retry_time cfg env r) (pg_clock env 1) (pg_clock env 2) outcome) d"

lemma recordFailure_cases:
  assumes "recordFailure cfg env (scanNextEvent row) e d = (r, d')"
  shows "d' = d \<and> (\<exists>err. r = Inl err) \<or> d' = completed_db cfg env (Some e) row d"
  using assms
  by (auto simp: recordFailure_def Let_def statement_Inr recordEventFailure_def commit_tx_def
      completed_db_def completion_def retry_time_def scanNextEvent_def
      split: sum.splits if_splits commit_outcome.splits)

lemma ProcessNext_cases:
  assumes "ProcessNext cfg locked env deliver (d, k) = ((b, err), (d', k'))"
  obtains "\<not> b" "d' = d" "k' = k"
  | row outcome where "b" "next_due (pg_clock env 0) locked d = Some row"
      "deliver (scanNextEvent row) k = (outcome, k')"
      "d' = d \<and> err \<noteq> None \<or> d' = completed_db cfg env outcome row d"
      "outcome \<noteq> None \<Longrightarrow> err \<noteq> None"
proof -
  have "(\<not> b \<and> d' = d \<and> k' = k)
    \<or> (\<exists>row outcome. b \<and> next_due (pg_clock env 0) locked d = Some row
        \<and> deliver (scanNextEvent row) k = (outcome, k')
        \<and> (d' = d \<and> err \<noteq> None \<or> d' = completed_db cfg env outcome row d)
        \<and> (outcome \<noteq> None \<longrightarrow> err \<noteq> None))"
  proof (cases "pg_begin env = None \<and> (\<exists>row. statement env 0 (Inr (next_due (pg_clock env 0) locked d)) = Inr (Some row))")
    case False
    then show ?thesis using assms
      by (auto simp: ProcessNext_def split: option.splits sum.splits)
  next
    case True
    then obtain row where row: "statement env 0 (Inr (next_due (pg_clock env 0) locked d)) = Inr (Some row)"
      and b: "pg_begin env = None" by auto
    from row have n: "next_due (pg_clock env 0) locked d = Some row" by (simp add: statement_Inr)
    obtain outcome k1 where k1: "deliver (scanNextEvent row) k = (outcome, k1)"
      by (cases "deliver (scanNextEvent row) k")
    show ?thesis
    proof (cases outcome)
      case None
      obtain m where m: "statement env 1 (markEventPublished (de_id (scanNextEvent row)) (pg_clock env 1)
          (pg_clock env 2) d) = m" by blast
      have fin: "d1 = completed_db cfg env None row d" if "m = Inr (j, d1)" for j d1
        using m that by (auto simp: statement_Inr markEventPublished_def completed_db_def completion_def
            scanNextEvent_def split: if_splits)
      show ?thesis using assms row b k1 n m None fin
        by (cases m) (auto simp: ProcessNext_def Let_def commit_tx_def
            split: if_splits commit_outcome.splits)
    next
      case (Some e)
      obtain rf d1 where rf: "recordFailure cfg env (scanNextEvent row) e d = (rf, d1)"
        by (cases "recordFailure cfg env (scanNextEvent row) e d")
      from recordFailure_cases [OF rf] show ?thesis
        using assms row b k1 n rf Some
        by (cases rf) (auto simp: ProcessNext_def Let_def)
    qed
  qed
  with that show thesis by metis
qed

lemma completion_fields [simp]:
  "ev_id (completion n a b o1 r) = ev_id r" "ev_aggregate_id (completion n a b o1 r) = ev_aggregate_id r"
  "ev_event_type (completion n a b o1 r) = ev_event_type r"
  "ev_schema_version (completion n a b o1 r) = ev_schema_version r"
  "ev_payload (completion n a b o1 r) = ev_payload r"
  "ev_trace_id (completion n a b o1 r) = ev_trace_id r"
  "ev_occurred_at (completion n a b o1 r) = ev_occurred_at r"
  "ev_created_at (completion n a b o1 r) = ev_created_at r"
  "ev_delivery_attempts (completion n a b o1 r) = ev_delivery_attempts r + 1"
  by (cases o1; simp add: completion_def published_row_def failed_row_def)+

lemma completion_marks:
  "ev_published_at r = None \<Longrightarrow> ev_published_at (completion n a b o1 r) \<noteq> None \<longleftrightarrow> o1 = None"
  "ev_dead_lettered_at r = None \<Longrightarrow>
   ev_dead_lettered_at (completion n a b o1 r) \<noteq> None \<longleftrightarrow> (\<exists>p. o1 = Some p \<and> is_permanent p)"
  by (cases o1; simp add: completion_def published_row_def failed_row_def)+

lemma completion_one:
  "ev_published_at r = None \<Longrightarrow> ev_dead_lettered_at r = None \<Longrightarrow>
   ev_dead_lettered_at (completion n a b o1 r) = Some y \<Longrightarrow> ev_published_at (completion n a b o1 r) = None"
  by (cases o1) (auto simp: completion_def published_row_def failed_row_def)

lemma valid_completed:
  assumes "valid_db d" shows "valid_db (completed_db cfg env o1 row d)"
proof -
  let ?d = "completed_db cfg env o1 row d"
  have rows: "t_outbox ?d = update_rows (open_row (ev_id row))
      (completion (retry_time cfg env row) (pg_clock env 1) (pg_clock env 2) o1) (t_outbox d)"
    by (simp add: completed_db_def update_outbox_def)
  have e: "extends d ?d" by (simp add: completed_db_def update_outbox_def)
  have "holds (outbox_checks ?d (completion n a b o1 r)) \<longleftrightarrow> holds (outbox_checks d r)" for n a b r
    by (simp add: outbox_checks_def completed_db_def update_outbox_def)
  moreover have "holds (outbox_checks ?d r) \<longleftrightarrow> holds (outbox_checks d r)" for r
    by (simp add: outbox_checks_def completed_db_def update_outbox_def)
  ultimately have "valid_outbox ?d"
    using assms
    by (auto simp: valid_db_def valid_outbox_def rows unique_by_update_rows set_update_rows open_row_def
        open_event_def intro: completion_one)
  with assms valid_extends [OF e] show ?thesis
    by (simp add: valid_db_def valid_payments_def completed_db_def update_outbox_def)
qed

definition is_published :: "db \<Rightarrow> string \<Rightarrow> bool" where
  "is_published d x \<longleftrightarrow> (\<exists>r \<in> set (t_outbox d). ev_id r = x \<and> ev_published_at r \<noteq> None)"

definition is_quarantined :: "db \<Rightarrow> string \<Rightarrow> bool" where
  "is_quarantined d x \<longleftrightarrow> (\<exists>r \<in> set (t_outbox d). ev_id r = x \<and> ev_dead_lettered_at r \<noteq> None)"

definition is_waiting :: "db \<Rightarrow> delivery_event \<Rightarrow> bool" where
  "is_waiting d ev \<longleftrightarrow> (\<exists>r \<in> set (t_outbox d). open_event r \<and> ev = scanNextEvent r)"

lemma set_completed:
  "set (t_outbox (completed_db cfg env o1 row d)) =
     (\<lambda>r. if open_row (ev_id row) r
          then completion (retry_time cfg env row) (pg_clock env 1) (pg_clock env 2) o1 r else r)
     ` set (t_outbox d)"
  by (simp add: completed_db_def update_outbox_def set_update_rows)

lemma completed_marks:
  fixes o1 :: "go_error option"
  defines "g i n a b \<equiv> \<lambda>r. if open_row i r then completion n a b o1 r else r"
  shows "ev_id (g i n a b r) = ev_id r"
    and "ev_published_at (g i n a b r) \<noteq> None \<longleftrightarrow> (if open_row i r then o1 = None else ev_published_at r \<noteq> None)"
    and "ev_dead_lettered_at (g i n a b r) \<noteq> None \<longleftrightarrow>
      (if open_row i r then \<exists>p. o1 = Some p \<and> is_permanent p else ev_dead_lettered_at r \<noteq> None)"
  using completion_marks by (simp_all add: g_def open_row_def open_event_def)

lemma completed_published:
  assumes "row \<in> set (t_outbox d)" and "open_event row"
  shows "is_published (completed_db cfg env o1 row d) x \<longleftrightarrow> is_published d x \<or> (x = ev_id row \<and> o1 = None)"
proof -
  have "is_published (completed_db cfg env o1 row d) x \<longleftrightarrow>
      (\<exists>r \<in> set (t_outbox d). ev_id r = x
         \<and> (if open_row (ev_id row) r then o1 = None else ev_published_at r \<noteq> None))"
    unfolding is_published_def set_completed bex_simps(7) completed_marks ..
  also have "\<dots> \<longleftrightarrow> is_published d x \<or> (x = ev_id row \<and> o1 = None)"
    using assms unfolding is_published_def open_row_def open_event_def by (metis (no_types, lifting))
  finally show ?thesis .
qed

lemma completed_quarantined:
  assumes "row \<in> set (t_outbox d)" and "open_event row"
  shows "is_quarantined (completed_db cfg env o1 row d) x \<longleftrightarrow>
     is_quarantined d x \<or> (x = ev_id row \<and> (\<exists>p. o1 = Some p \<and> is_permanent p))"
proof -
  define q where "q \<longleftrightarrow> (\<exists>p. o1 = Some p \<and> is_permanent p)"
  have "is_quarantined (completed_db cfg env o1 row d) x \<longleftrightarrow>
      (\<exists>r \<in> set (t_outbox d). ev_id r = x
         \<and> (if open_row (ev_id row) r then q else ev_dead_lettered_at r \<noteq> None))"
    unfolding is_quarantined_def set_completed bex_simps(7) completed_marks q_def ..
  also have "\<dots> \<longleftrightarrow> is_quarantined d x \<or> (x = ev_id row \<and> q)"
    using assms unfolding is_quarantined_def open_row_def open_event_def by (metis (no_types, lifting))
  finally show ?thesis unfolding q_def .
qed

section \<open>The interface\<close>

locale outbox_store =
  fixes process :: "'e \<Rightarrow> (delivery_event \<Rightarrow> 'k \<Rightarrow> go_error option \<times> 'k) \<Rightarrow> 's \<times> 'k
      \<Rightarrow> (bool \<times> go_error option) \<times> ('s \<times> 'k)"
    and inv :: "'s \<Rightarrow> bool"
    and waiting :: "'s \<Rightarrow> delivery_event \<Rightarrow> bool"
    and published :: "'s \<Rightarrow> string \<Rightarrow> bool"
    and quarantined :: "'s \<Rightarrow> string \<Rightarrow> bool"
  assumes keeps: "inv s \<Longrightarrow> inv (fst (snd (process e f (s, k))))"
    and idle: "process e f (s, k) = ((False, err), (s', k')) \<Longrightarrow> s' = s \<and> k' = k"
    and busy: "inv s \<Longrightarrow> process e f (s, k) = ((True, err), (s', k')) \<Longrightarrow>
       \<exists>ev outcome. waiting s ev \<and> f ev k = (outcome, k')
         \<and> (\<forall>x. published s' x \<longrightarrow> published s x \<or> x = de_id ev \<and> outcome = None)
         \<and> (\<forall>x. quarantined s' x \<longrightarrow> quarantined s x
               \<or> x = de_id ev \<and> (\<exists>p. outcome = Some p \<and> is_permanent p))
         \<and> (\<forall>x. published s x \<longrightarrow> published s' x) \<and> (\<forall>x. quarantined s x \<longrightarrow> quarantined s' x)
         \<and> (err = None \<longrightarrow> outcome = None \<and> published s' (de_id ev))"
    and waiting_open: "inv s \<Longrightarrow> waiting s ev \<Longrightarrow> \<not> published s (de_id ev) \<and> \<not> quarantined s (de_id ev)"
    and exclusive: "inv s \<Longrightarrow> \<not> (published s x \<and> quarantined s x)"
    and same_events: "process e f (s, k) = (res, (s', k')) \<Longrightarrow> waiting s' ev' \<Longrightarrow>
       \<exists>ev n. waiting s ev \<and> ev' = ev\<lparr>de_delivery_attempts := n\<rparr>"

lemma waiting_not_done:
  assumes "valid_db d" and "is_waiting d ev"
  shows "\<not> is_published d (de_id ev) \<and> \<not> is_quarantined d (de_id ev)"
proof -
  from assms(2) obtain r where r: "r \<in> set (t_outbox d)" "open_event r" "ev = scanNextEvent r"
    by (auto simp: is_waiting_def)
  have u: "unique_by ev_id (t_outbox d)" using assms(1) by (simp add: valid_db_def valid_outbox_def)
  have "r' = r" if "r' \<in> set (t_outbox d)" "ev_id r' = de_id ev" for r'
    using unique_byD [OF u that(1) r(1)] that(2) r(3) by (simp add: scanNextEvent_def)
  with r(2) show ?thesis by (auto simp: is_published_def is_quarantined_def open_event_def)
qed

lemma published_not_quarantined: "valid_db d \<Longrightarrow> \<not> (is_published d x \<and> is_quarantined d x)"
  using unique_byD [of ev_id "t_outbox d"]
  by (fastforce simp: valid_db_def valid_outbox_def is_published_def is_quarantined_def)

lemma completed_waiting:
  assumes "is_waiting (completed_db cfg env o1 row d) ev'"
  shows "\<exists>ev n. is_waiting d ev \<and> ev' = ev\<lparr>de_delivery_attempts := n\<rparr>"
proof -
  let ?f = "completion (retry_time cfg env row) (pg_clock env 1) (pg_clock env 2) o1"
  from assms obtain r where r: "r \<in> set (t_outbox d)" and o: "open_event (if open_row (ev_id row) r then ?f r else r)"
    and ev': "ev' = scanNextEvent (if open_row (ev_id row) r then ?f r else r)"
    by (auto simp only: is_waiting_def set_completed image_iff)
  have "scanNextEvent (?f r) = scanNextEvent r\<lparr>de_delivery_attempts := ev_delivery_attempts r + 1\<rparr>"
    by (simp add: scanNextEvent_def)
  moreover have "scanNextEvent r = scanNextEvent r\<lparr>de_delivery_attempts := ev_delivery_attempts r\<rparr>"
    by (simp add: scanNextEvent_def)
  moreover have "open_event r"
  proof (cases "open_row (ev_id row) r")
    case False
    with o show ?thesis by (simp only: if_False)
  qed (simp add: open_row_def)
  then have "is_waiting d (scanNextEvent r)" using r by (auto simp: is_waiting_def)
  ultimately show ?thesis using ev' by metis
qed

lemma ProcessNext_valid: "valid_db d \<Longrightarrow> valid_db (fst (snd (ProcessNext cfg locked env f (d, k))))"
proof -
  assume v: "valid_db d"
  obtain b err d' k' where r: "ProcessNext cfg locked env f (d, k) = ((b, err), (d', k'))"
    by (metis prod.collapse)
  from ProcessNext_cases [OF r] have "d' = d \<or> (\<exists>o1 row. d' = completed_db cfg env o1 row d)" by metis
  with v r valid_completed show ?thesis by auto
qed

lemma ProcessNext_state:
  assumes "ProcessNext cfg locked env f (d, k) = (x, (d', k'))"
  shows "d' = d \<or> (\<exists>o1 row. d' = completed_db cfg env o1 row d)"
proof -
  obtain b err where "x = (b, err)" by (cases x)
  with assms show ?thesis by (auto elim: ProcessNext_cases)
qed

lemma ProcessNext_same_events:
  assumes "ProcessNext cfg locked env f (d, k) = (x, (d', k'))" and "is_waiting d' ev'"
  shows "\<exists>ev n. is_waiting d ev \<and> ev' = ev\<lparr>de_delivery_attempts := n\<rparr>"
  using ProcessNext_state [OF assms(1)]
proof
  assume "d' = d"
  moreover have "ev' = ev'\<lparr>de_delivery_attempts := de_delivery_attempts ev'\<rparr>" by simp
  ultimately show ?thesis using assms(2) by metis
qed (use completed_waiting assms(2) in blast)

lemma ProcessNext_busy:
  assumes "ProcessNext cfg locked env f (d, k) = ((True, err), (d', k'))"
  shows "\<exists>ev outcome. is_waiting d ev \<and> f ev k = (outcome, k')
         \<and> (\<forall>x. is_published d' x \<longrightarrow> is_published d x \<or> x = de_id ev \<and> outcome = None)
         \<and> (\<forall>x. is_quarantined d' x \<longrightarrow> is_quarantined d x
               \<or> x = de_id ev \<and> (\<exists>p. outcome = Some p \<and> is_permanent p))
         \<and> (\<forall>x. is_published d x \<longrightarrow> is_published d' x) \<and> (\<forall>x. is_quarantined d x \<longrightarrow> is_quarantined d' x)
         \<and> (err = None \<longrightarrow> outcome = None \<and> is_published d' (de_id ev))"
  using assms
proof (cases rule: ProcessNext_cases)
  case (2 row outcome)
  have row: "row \<in> set (t_outbox d)" "open_event row"
    using next_due_Some(1,2) [OF 2(2)] by (simp_all add: due_def)
  then have w: "is_waiting d (scanNextEvent row)" by (auto simp: is_waiting_def)
  have i: "de_id (scanNextEvent row) = ev_id row" by (simp add: scanNextEvent_def)
  from 2(4) consider "d' = d" "err \<noteq> None" | "d' = completed_db cfg env outcome row d" by blast
  then show ?thesis
  proof cases
    case 1
    with w 2(3) show ?thesis by blast
  next
    case c: 2
    have "is_published d' x \<longleftrightarrow> is_published d x \<or> (x = ev_id row \<and> outcome = None)"
      "is_quarantined d' x \<longleftrightarrow> is_quarantined d x
         \<or> (x = ev_id row \<and> (\<exists>p. outcome = Some p \<and> is_permanent p))" for x
      unfolding c by (rule completed_published [OF row], rule completed_quarantined [OF row])
    moreover have "err = None \<longrightarrow> outcome = None" using 2(5) by blast
    ultimately show ?thesis using w 2(3) i by (intro exI [of _ "scanNextEvent row"] exI [of _ outcome]) auto
  qed
qed simp

interpretation pg_outbox: outbox_store "\<lambda>(locked, env). ProcessNext cfg locked env" valid_db is_waiting
    is_published is_quarantined
  for cfg :: retry_config
proof
  show "s' = s \<and> k' = k"
    if "(case e of (locked, env) \<Rightarrow> ProcessNext cfg locked env) f (s, k) = ((False, err), (s', k'))"
    for e f s and k :: 'k and err s' k'
    using that by (cases e) (auto elim: ProcessNext_cases)
next
  show "\<exists>ev n. is_waiting s ev \<and> ev' = ev\<lparr>de_delivery_attempts := n\<rparr>"
    if "(case e of (locked, env) \<Rightarrow> ProcessNext cfg locked env) f (s, k) = (res, (s', k'))"
      and "is_waiting s' ev'" for e f s and k :: 'k and res s' k' ev'
  proof -
    obtain locked env where "e = (locked, env)" by (cases e)
    with that(1) have "ProcessNext cfg locked env f (s, k) = (res, (s', k'))" by simp
    from ProcessNext_same_events [OF this that(2)] show ?thesis .
  qed
qed (auto simp: ProcessNext_valid waiting_not_done published_not_quarantined split: prod.splits
    dest!: ProcessNext_busy)

section \<open>Properties\<close>

text \<open>
  C39: one call of \<open>ProcessNext\<close> delivers at most one event, the due and unlocked one with the
  least (next attempt, creation, ID), and changes at most that event: it is marked published
  exactly as the delivery succeeded, or its retry time and attempt count are set (and it is
  quarantined for a permanent error), or, when the database fails, nothing is changed.
\<close>

theorem ProcessNext_effect:
  "case ProcessNext cfg locked env deliver (d, k) of ((b, err), (d', k')) \<Rightarrow>
     (\<not> b \<and> d' = d \<and> k' = k)
     \<or> (b \<and> (\<exists>row outcome.
           row \<in> set (t_outbox d) \<and> due (pg_clock env 0) locked row
           \<and> Ball (set (filter (due (pg_clock env 0) locked) (t_outbox d))) (\<lambda>r. claim_key row \<le> claim_key r)
           \<and> deliver (scanNextEvent row) k = (outcome, k')
           \<and> ((d' = d \<and> err \<noteq> None)
              \<or> (d' = update_outbox (ev_id row)
                    (case outcome of
                       None \<Rightarrow> published_row (pg_clock env 1) (pg_clock env 2)
                     | Some e \<Rightarrow> failed_row (retry_time cfg env row) (error_text e) (is_permanent e)
                                 (pg_clock env 1) (pg_clock env 2)) d
                  \<and> (outcome = None \<or> err \<noteq> None)))))"
proof -
  obtain b err d' k' where r: "ProcessNext cfg locked env deliver (d, k) = ((b, err), (d', k'))"
    by (metis prod.collapse)
  from r show ?thesis
  proof (cases rule: ProcessNext_cases)
    case (2 row outcome)
    have row: "row \<in> set (t_outbox d)" "due (pg_clock env 0) locked row"
      "Ball (set (filter (due (pg_clock env 0) locked) (t_outbox d))) (\<lambda>r. claim_key row \<le> claim_key r)"
      using next_due_Some [OF 2(2)] by auto
    from 2(4,5) have "(d' = d \<and> err \<noteq> None)
        \<or> (d' = update_outbox (ev_id row)
              (case outcome of
                 None \<Rightarrow> published_row (pg_clock env 1) (pg_clock env 2)
               | Some e \<Rightarrow> failed_row (retry_time cfg env row) (error_text e) (is_permanent e)
                           (pg_clock env 1) (pg_clock env 2)) d
            \<and> (outcome = None \<or> err \<noteq> None))"
      unfolding completed_db_def completion_def by blast
    with row 2(1,3) show ?thesis unfolding r prod.case by blast
  qed (simp add: r)
qed

lemma affected_open:
  assumes "unique_by ev_id rows" and "row \<in> set rows" and "open_event row"
  shows "affected (open_row (ev_id row)) rows = 1"
  using affected_key [OF assms(1), of "ev_id row" open_event] fetch_unique [OF assms(1,2)] assms(3)
  by (simp add: open_row_def [abs_def])

lemma fetch_completed:
  assumes "unique_by ev_id (t_outbox d)" and "row \<in> set (t_outbox d)" and "open_event row"
  shows "fetch ev_id (ev_id row) (t_outbox (completed_db cfg env o1 row d)) =
    Some (completion (retry_time cfg env row) (pg_clock env 1) (pg_clock env 2) o1 row)"
  using fetch_unique [OF assms(1,2)] assms(3)
  by (simp add: completed_db_def update_outbox_def fetch_update_rows open_row_def)

lemma fits_row:
  "unique_by ev_id (t_outbox d) \<Longrightarrow> row \<in> set (t_outbox d) \<Longrightarrow> int4 (ev_delivery_attempts row + 1) \<Longrightarrow>
   attempts_fit (ev_id row) d"
  unfolding attempts_fit_def open_row_def using unique_byD by metis

lemma ProcessNext_eq:
  assumes "valid_db d" and "no_fault env"
    and "next_due (pg_clock env 0) locked d = Some row" and "int4 (ev_delivery_attempts row + 1)"
    and "deliver (scanNextEvent row) k = (outcome, k')"
    and "case outcome of None \<Rightarrow> True | Some e \<Rightarrow> pg_text (error_text e)"
  shows "ProcessNext cfg locked env deliver (d, k) =
       ((True, map_option (errorf (''publish outbox event '' @ ev_id row)) outcome),
        (completed_db cfg env outcome row d, k'))"
proof -
  have row: "row \<in> set (t_outbox d)" "open_event row"
    using next_due_Some(1,2) [OF assms(3)] by (simp_all add: due_def)
  have u: "unique_by ev_id (t_outbox d)"
    using assms(1) by (simp add: valid_db_def valid_outbox_def)
  note fit = fits_row [OF u row(1) assms(4)] and aff = affected_open [OF u row]
  show ?thesis
  proof (cases outcome)
    case None
    then show ?thesis
      using assms(2,3,5) fit aff
      by (simp add: ProcessNext_def no_faultD statement_no_fault Let_def markEventPublished_def
          scanNextEvent_def completed_db_def completion_def commit_no_fault)
  next
    case (Some e)
    then have "recordFailure cfg env (scanNextEvent row) e d = (Inr (), completed_db cfg env outcome row d)"
      using assms(2,6) fit aff
      by (simp add: recordFailure_def no_faultD statement_no_fault Let_def recordEventFailure_def
          scanNextEvent_def completed_db_def completion_def retry_time_def commit_no_fault)
    then show ?thesis
      using assms(2,3,5) Some
      by (simp add: ProcessNext_def no_faultD statement_no_fault Let_def) (simp add: scanNextEvent_def)
  qed
qed

text \<open>
  when the database does not fail, a call of \<open>ProcessNext\<close> with a due event always completes
  it: after a successful delivery the event is published; after a failed one its attempt is
  counted, the next attempt is due after a positive delay of at most the configured maximum,
  and it is quarantined exactly when the error is permanent.  The caller gets the delivery
  error, wrapped so that it keeps its classification.
\<close>

theorem ProcessNext_completes:
  assumes "valid_db d" and "no_fault env" and "valid_retry cfg"
    and "next_due (pg_clock env 0) locked d = Some row" and "int4 (ev_delivery_attempts row + 1)"
    and "deliver (scanNextEvent row) k = (outcome, k')"
    and "case outcome of None \<Rightarrow> True | Some e \<Rightarrow> pg_text (error_text e)"
  shows "\<exists>d' r. ProcessNext cfg locked env deliver (d, k) =
       ((True, map_option (errorf (''publish outbox event '' @ ev_id row)) outcome), (d', k'))
     \<and> fetch ev_id (ev_id row) (t_outbox d') = Some r
     \<and> ev_delivery_attempts r = ev_delivery_attempts row + 1
     \<and> (ev_published_at r \<noteq> None \<longleftrightarrow> outcome = None)
     \<and> (ev_dead_lettered_at r \<noteq> None \<longleftrightarrow> (\<exists>e. outcome = Some e \<and> is_permanent e))
     \<and> (outcome = None
        \<or> (\<exists>delay. 0 < delay \<and> delay \<le> sint (retry_max cfg)
             \<and> wall (ev_next_attempt_at r) = (wall (pg_clock env 3) + delay) div 1000 * 1000))"
proof -
  have row: "row \<in> set (t_outbox d)" "open_event row"
    using next_due_Some(1,2) [OF assms(4)] by (simp_all add: due_def)
  have u: "unique_by ev_id (t_outbox d)" and a0: "0 \<le> ev_delivery_attempts row"
    using assms(1) row(1) by (auto simp: valid_db_def valid_outbox_def)
  let ?d = "completed_db cfg env outcome row d"
  let ?r = "completion (retry_time cfg env row) (pg_clock env 1) (pg_clock env 2) outcome row"
  note P = ProcessNext_eq [where deliver = deliver and cfg = cfg, OF assms(1,2,4-7)]
  let ?delay = "sint (deliveryBackoff (ev_delivery_attempts row + 1) (retry_min cfg) (retry_max cfg))"
  have "?delay = min (2 ^ nat (ev_delivery_attempts row) * sint (retry_min cfg)) (sint (retry_max cfg))"
    using sint_backoff_loop [of "retry_min cfg" "retry_max cfg"] assms(3)
    by (simp add: deliveryBackoff_def valid_retry_def word_sless_alt word_sle_eq)
  then have "0 < ?delay" "?delay \<le> sint (retry_max cfg)"
    using assms(3) by (auto simp: valid_retry_def word_sless_alt word_sle_eq)
  moreover have "wall (ev_next_attempt_at ?r) = (wall (pg_clock env 3) + ?delay) div 1000 * 1000"
    if "outcome \<noteq> None"
    using that by (auto simp: completion_def failed_row_def retry_time_def timestamptz_def time_add_def)
  ultimately have d3: "outcome = None
      \<or> (\<exists>delay. 0 < delay \<and> delay \<le> sint (retry_max cfg)
             \<and> wall (ev_next_attempt_at ?r) = (wall (pg_clock env 3) + delay) div 1000 * 1000)"
    by blast
  have d1: "ev_published_at ?r \<noteq> None \<longleftrightarrow> outcome = None"
    and d2: "ev_dead_lettered_at ?r \<noteq> None \<longleftrightarrow> (\<exists>e. outcome = Some e \<and> is_permanent e)"
    using row(2) completion_marks [of row] by (simp_all only: open_event_def)
  show ?thesis
    by (intro exI conjI) (rule P, rule fetch_completed [OF u row], simp, rule d1, rule d2, rule d3)
qed

lemma completed_ids: "map ev_id (t_outbox (completed_db cfg env o1 row d)) = map ev_id (t_outbox d)"
  unfolding completed_db_def update_outbox_def by (simp add: map_update_rows)

lemma completed_frozen:
  "r \<in> set (t_outbox d) \<Longrightarrow> \<not> open_event r \<Longrightarrow> r \<in> set (t_outbox (completed_db cfg env o1 row d))"
  unfolding set_completed by (rule image_eqI [of _ _ r]) (simp_all add: open_row_def)

lemma completed_tables [simp]:
  "t_payments (completed_db cfg env o1 row d) = t_payments d"
  "t_decisions (completed_db cfg env o1 row d) = t_decisions d"
  "t_receipts (completed_db cfg env o1 row d) = t_receipts d"
  "t_audits (completed_db cfg env o1 row d) = t_audits d"
  "t_reviews (completed_db cfg env o1 row d) = t_reviews d"
  by (simp_all add: completed_db_def update_outbox_def)

text \<open>
  \<open>ProcessNext\<close> keeps every constraint of the schema (in particular no event is both published
  and quarantined), never adds, removes or renames an event, and never touches an event that
  is already published or quarantined, whatever the delivery or the database does.
\<close>

theorem ProcessNext_keeps:
  assumes "valid_db d"
  shows "valid_db (fst (snd (ProcessNext cfg locked env deliver (d, k))))
    \<and> map ev_id (t_outbox (fst (snd (ProcessNext cfg locked env deliver (d, k))))) = map ev_id (t_outbox d)
    \<and> {r \<in> set (t_outbox d). \<not> open_event r}
        \<subseteq> set (t_outbox (fst (snd (ProcessNext cfg locked env deliver (d, k)))))
    \<and> t_payments (fst (snd (ProcessNext cfg locked env deliver (d, k)))) = t_payments d"
proof -
  obtain x d' k' where r: "ProcessNext cfg locked env deliver (d, k) = (x, (d', k'))"
    by (metis prod.collapse)
  have "valid_db d'" using ProcessNext_valid [OF assms, of cfg locked env deliver k] r by simp
  moreover from ProcessNext_state [OF r] have "map ev_id (t_outbox d') = map ev_id (t_outbox d)
      \<and> {r \<in> set (t_outbox d). \<not> open_event r} \<subseteq> set (t_outbox d') \<and> t_payments d' = t_payments d"
    using completed_ids completed_frozen by auto
  ultimately show ?thesis using r by simp
qed

section \<open>Examples\<close>

definition sample_row :: outbox_row where
  "sample_row =
     \<lparr>ev_id = sample_uuid, ev_aggregate_id = sample_uuid, ev_event_type = PaymentCreated,
      ev_schema_version = 1, ev_occurred_at = \<lparr>wall = 5000000, zone = 0\<rparr>, ev_trace_id = sample_uuid,
      ev_payload = [CHR 0x7B, CHR 0x7D], ev_created_at = \<lparr>wall = 5000000, zone = 0\<rparr>,
      ev_published_at = None, ev_delivery_attempts = 0,
      ev_next_attempt_at = \<lparr>wall = 5000000, zone = 0\<rparr>, ev_last_attempt_at = None,
      ev_last_error = None, ev_dead_lettered_at = None\<rparr>"

definition sample_db :: db where
  "sample_db = empty_db\<lparr>t_payments := [as_stored sample_payment], t_outbox := [sample_row]\<rparr>"

definition sample_retry :: retry_config where
  "sample_retry = \<lparr>retry_min = second, retry_max = 30 * second\<rparr>"

lemma sample_db_valid: "valid_db sample_db"
proof -
  have "valid_payments sample_db"
    using sample_payment_checks
    by (simp add: valid_payments_def sample_db_def unique_by_def sample_payment_fields sample_uuid_canonical)
       (simp add: as_stored_def)
  moreover have "valid_outbox sample_db"
    by (simp add: valid_outbox_def sample_db_def unique_by_def outbox_checks_def sample_row_def
        PaymentCreated_def plain_varchar plain_text_def byte_def int4_def sample_object
        payment_exists_def fetch_Cons sample_payment_fields)
  ultimately show ?thesis
    by (simp add: valid_db_def valid_decisions_def valid_receipts_def valid_audits_def valid_reviews_def
        sample_db_def empty_db_def)
qed

lemma sample_retry_valid: "valid_retry sample_retry"
  by (simp add: valid_retry_def sample_retry_def second_def word_sless_alt word_sle_eq)

lemma sample_due: "next_due \<lparr>wall = 6000000, zone = 0\<rparr> (\<lambda>_. False) sample_db = Some sample_row"
  by (simp add: next_due_def Let_def sample_db_def due_def open_event_def sample_row_def)

theorem ProcessNext_effect_witness:
  "snd (snd (ProcessNext sample_retry (\<lambda>_. False) (healthy \<lparr>wall = 6000000, zone = 0\<rparr>)
      (\<lambda>e k. (None, Suc k)) (sample_db, 0))) \<le> 1"
  using ProcessNext_effect [where cfg = sample_retry and locked = "\<lambda>_. False"
      and env = "healthy \<lparr>wall = 6000000, zone = 0\<rparr>" and deliver = "\<lambda>e k. (None, Suc k)" and d = sample_db and k = 0]
  by (auto split: prod.splits)

theorem ProcessNext_completes_witness:
  "\<exists>d' r. ProcessNext sample_retry (\<lambda>_. False) (healthy \<lparr>wall = 6000000, zone = 0\<rparr>)
        (\<lambda>e k. (Some (Msg ''down''), k)) (sample_db, ()) =
       ((True, Some (errorf (''publish outbox event '' @ sample_uuid) (Msg ''down''))), (d', ()))
     \<and> fetch ev_id sample_uuid (t_outbox d') = Some r \<and> ev_published_at r = None"
proof -
  let ?env = "healthy \<lparr>wall = 6000000, zone = 0\<rparr>"
  have c: "next_due (pg_clock ?env 0) (\<lambda>_. False) sample_db = Some sample_row"
    using sample_due by (simp add: healthy_def)
  have i: "int4 (ev_delivery_attempts sample_row + 1)" "ev_id sample_row = sample_uuid"
    by (simp_all add: sample_row_def int4_def)
  have t: "case Some (Msg ''down'') of None \<Rightarrow> True | Some e \<Rightarrow> pg_text (error_text e)"
    by (simp add: plain_pg_text plain_text_def byte_def)
  from ProcessNext_completes [OF sample_db_valid no_fault_healthy sample_retry_valid c i(1) _ t,
      of "\<lambda>e k. (Some (Msg ''down''), k)" "()"]
  show ?thesis unfolding i(2) by (auto simp del: error_text.simps)
qed

theorem ProcessNext_keeps_witness:
  "valid_db (fst (snd (ProcessNext sample_retry (\<lambda>_. False) (healthy zero_time)
     (\<lambda>e k. (None, k)) (sample_db, ()))))"
  by (rule ProcessNext_keeps [OF sample_db_valid, THEN conjunct1])

end
