(* ===== verification/Outbox_Worker.thy ===== *)
theory Outbox_Worker
  imports Outbox_Store
begin

text \<open>
  outbox/worker.go: \<open>NewWorker\<close> checks the configuration and \<open>Run\<close> processes events until it is
  cancelled.  The store and the producer are arguments; the theorems about delivery are proved
  for every store that satisfies \<open>outbox_store\<close> and then stated for the PostgreSQL store.
\<close>

section \<open>Configuration\<close>

record worker_config =
  wc_topic :: string
  wc_poll_interval :: duration
  wc_publish_timeout :: duration
  wc_retry_min :: duration
  wc_retry_max :: duration

record ('s, 'p, 'm) outbox_worker =
  ow_store :: 's
  ow_publisher :: 'p
  ow_config :: worker_config
  ow_metrics :: "'m option"

definition NewWorker ::
    "'s option \<Rightarrow> 'p option \<Rightarrow> worker_config \<Rightarrow> 'm option list \<Rightarrow> ('s, 'p, 'm) outbox_worker result" where
  "NewWorker store publisher c metricSets =
     required ''outbox store is required'' store (\<lambda>st.
     required ''outbox publisher is required'' publisher (\<lambda>pub.
       if wc_topic c = [] then Inl (Msg ''outbox topic is required'')
       else if wc_poll_interval c \<le>s 0 \<or> wc_publish_timeout c \<le>s 0 \<or> wc_retry_min c \<le>s 0
               \<or> wc_retry_max c <s wc_retry_min c
         then Inl (Msg ''outbox timing configuration is invalid'')
       else Inr \<lparr>ow_store = st, ow_publisher = pub, ow_config = c, ow_metrics = first_metrics metricSets\<rparr>))"

text \<open>\<open>NewPostgresStore\<close>\<close>

definition NewOutboxStore :: "'pool option \<Rightarrow> duration \<Rightarrow> duration \<Rightarrow> ('pool \<times> retry_config) result" where
  "NewOutboxStore pool retryMin retryMax =
     required ''PostgreSQL pool is required'' pool (\<lambda>p.
       if retryMin \<le>s 0 \<or> retryMax <s retryMin then Inl (Msg ''outbox retry timing is invalid'')
       else Inr (p, \<lparr>retry_min = retryMin, retry_max = retryMax\<rparr>))"

lemma NewOutboxStore_Inr: "NewOutboxStore pool a b = Inr s \<Longrightarrow> valid_retry (snd s)"
  by (auto simp: NewOutboxStore_def required_Inr valid_retry_def word_sless_alt word_sle_eq split: if_splits)

lemma NewWorker_Inr:
  "NewWorker store publisher c metricSets = Inr w \<Longrightarrow>
     ow_config w = c \<and> 0 < sint (wc_poll_interval c) \<and> 0 < sint (wc_retry_min c)
     \<and> sint (wc_retry_min c) \<le> sint (wc_retry_max c)"
  by (auto simp: NewWorker_def required_Inr word_sless_alt word_sle_eq split: if_splits)

section \<open>The loop\<close>

text \<open>
  What one iteration meets: whether the context is cancelled at its head, the environment of the
  store, the producer, whether the context is cancelled when the attempt has failed, and
  whether the sleep that follows ends before a cancellation.
\<close>

record ('e, 'k) tick =
  tk_stop :: bool
  tk_env :: 'e
  tk_produce :: "message \<Rightarrow> 'k \<Rightarrow> go_error option \<times> 'k"
  tk_stop_after :: bool
  tk_slept :: bool

text \<open>What the loop shows to the outside: its log and metrics, and the sleeps it asks for.\<close>

datatype worker_act = LogRetry go_error | LogQuarantine go_error | Sleep duration

fun run_worker ::
    "('e \<Rightarrow> (delivery_event \<Rightarrow> 'k \<Rightarrow> go_error option \<times> 'k) \<Rightarrow> 's \<times> 'k
        \<Rightarrow> (bool \<times> go_error option) \<times> ('s \<times> 'k))
     \<Rightarrow> 'a golib_scheme \<Rightarrow> worker_config \<Rightarrow> duration \<Rightarrow> ('e, 'k) tick list \<Rightarrow> 's \<times> 'k
     \<Rightarrow> worker_act list \<times> ('s \<times> 'k)" where
  "run_worker process L c retryDelay [] st = ([], st)"
| "run_worker process L c retryDelay (tk # tks) st =
     (if tk_stop tk then ([], st)
      else
        let ((processed, err), st1) = process (tk_env tk) (publish L (wc_topic c) (tk_produce tk)) st in
        case err of
          Some e \<Rightarrow>
            if tk_stop_after tk then ([], st1)
            else
              let act = (if is_permanent e then LogQuarantine e else LogRetry e) in
              if \<not> tk_slept tk then ([act, Sleep retryDelay], st1)
              else let (acts, st2) = run_worker process L c (nextBackoff retryDelay (wc_retry_max c)) tks st1
                   in (act # Sleep retryDelay # acts, st2)
        | None \<Rightarrow>
            if \<not> processed then
              if \<not> tk_slept tk then ([Sleep (wc_poll_interval c)], st1)
              else let (acts, st2) = run_worker process L c (wc_retry_min c) tks st1
                   in (Sleep (wc_poll_interval c) # acts, st2)
            else run_worker process L c (wc_retry_min c) tks st1)"

text \<open>The states that a run passes through keep whatever every attempt keeps.\<close>

lemma run_worker_invariant:
  assumes "P st"
    and "\<And>tk st. tk \<in> set tks \<Longrightarrow> P st \<Longrightarrow>
           P (snd (process (tk_env tk) (publish L (wc_topic c) (tk_produce tk)) st))"
  shows "P (snd (run_worker process L c delay tks st))"
  using assms
proof (induction tks arbitrary: delay st)
  case (Cons tk tks)
  obtain b err st1 where r: "process (tk_env tk) (publish L (wc_topic c) (tk_produce tk)) st = ((b, err), st1)"
    by (metis prod.collapse)
  have "P st1" using Cons.prems(2) [of tk st] Cons.prems(1) r by simp
  then have "P (snd (run_worker process L c dl tks st1))" for dl
    by (rule Cons.IH) (use Cons.prems(2) in auto)
  then show ?case using Cons.prems(1) \<open>P st1\<close> r by (simp add: Let_def split_beta split: option.splits)
qed simp

section \<open>Sleeps\<close>

definition sleep_ok :: "worker_config \<Rightarrow> worker_act \<Rightarrow> bool" where
  "sleep_ok c act =
     (case act of
        Sleep d \<Rightarrow> d = wc_poll_interval c
          \<or> (sint (wc_retry_min c) \<le> sint d \<and> sint d \<le> sint (wc_retry_max c))
      | _ \<Rightarrow> True)"

lemma run_worker_sleeps:
  assumes "NewWorker store publisher c metricSets = Inr w" and "sint (wc_retry_min c) \<le> sint delay" and "sint delay \<le> sint (wc_retry_max c)"
  shows "list_all (sleep_ok c) (fst (run_worker process L c delay tks st))"
  using assms(2,3)
proof (induction tks arbitrary: delay st)
  case (Cons tk tks)
  have m: "0 < sint (wc_retry_min c)" "sint (wc_retry_min c) \<le> sint (wc_retry_max c)"
    using NewWorker_Inr [OF assms(1)] by simp_all
  then have "sint (nextBackoff delay (wc_retry_max c)) = min (2 * sint delay) (sint (wc_retry_max c))"
    using Cons.prems by (intro sint_nextBackoff) auto
  then have n: "sint (wc_retry_min c) \<le> sint (nextBackoff delay (wc_retry_max c))"
    "sint (nextBackoff delay (wc_retry_max c)) \<le> sint (wc_retry_max c)"
    using m Cons.prems by auto
  obtain b err st1 where r: "process (tk_env tk) (publish L (wc_topic c) (tk_produce tk)) st = ((b, err), st1)"
    by (metis prod.collapse)
  show ?case
    using r Cons.IH [OF n, of st1] Cons.IH [of "wc_retry_min c" st1] m Cons.prems
    by (simp add: Let_def split_beta sleep_ok_def split: option.splits)
qed simp

text \<open>
  However long the worker runs and whatever fails, every time it sleeps it sleeps for the
  poll interval or for a retry delay between the configured minimum and maximum; all these
  durations are positive, so a failing broker or database is never retried in a busy loop.
\<close>

theorem worker_sleeps_bounded:
  assumes "NewWorker store publisher c metricSets = Inr w"
  shows "0 < sint (wc_poll_interval c) \<and> 0 < sint (wc_retry_min c)
    \<and> list_all (sleep_ok c) (fst (run_worker process L c (wc_retry_min c) tks st))"
  using assms NewWorker_Inr [OF assms] run_worker_sleeps [OF assms, of "wc_retry_min c"] by simp

theorem worker_sleeps_bounded_witness:
  "0 < sint (wc_poll_interval \<lparr>wc_topic = ''payments'', wc_poll_interval = second,
      wc_publish_timeout = second, wc_retry_min = second, wc_retry_max = 30 * second\<rparr>)"
  by (rule worker_sleeps_bounded [of "Some ()" "Some ()" _ "[]", THEN conjunct1])
     (simp add: NewWorker_def second_def word_sless_alt word_sle_eq)

section \<open>Delivery\<close>

text \<open>
  What the worker relies on from the Kafka client: \<open>ProduceSync\<close> with acknowledgements from all
  in-sync replicas returns without an error only when the record is stored, and stored records
  stay stored.
\<close>

definition acknowledging ::
    "(message \<Rightarrow> 'k \<Rightarrow> go_error option \<times> 'k) \<Rightarrow> ('k \<Rightarrow> message \<Rightarrow> bool) \<Rightarrow> bool" where
  "acknowledging produce stored \<longleftrightarrow>
     (\<forall>m k k'. produce m k = (None, k') \<longrightarrow> stored k' m)
     \<and> (\<forall>m k m'. stored k m \<longrightarrow> stored (snd (produce m' k)) m)"

text \<open>The client's errors are its own: none is a permanent delivery error.\<close>

definition never_permanent :: "(message \<Rightarrow> 'k \<Rightarrow> go_error option \<times> 'k) \<Rightarrow> bool" where
  "never_permanent produce \<longleftrightarrow>
     (\<forall>m k. case fst (produce m k) of None \<Rightarrow> True | Some e \<Rightarrow> \<not> is_permanent e)"

text \<open>A message of the topic with the identity of an event.\<close>

definition carries :: "string \<Rightarrow> string \<Rightarrow> message \<Rightarrow> bool" where
  "carries topic eid m \<longleftrightarrow> msg_topic m = topic \<and> (''event_id'', eid) \<in> set (msg_headers m)"

definition deliverable :: "delivery_event \<Rightarrow> bool" where
  "deliverable ev \<longleftrightarrow> de_event_type ev = ''payments.created'' \<and> writable_event ev"

lemma publish_delivers:
  "acknowledging produce stored \<Longrightarrow> publish L topic produce ev k = (None, k') \<Longrightarrow>
   stored k' (event_message topic ev (envelope_text L ev)) \<and> carries topic (de_id ev) (event_message topic ev (envelope_text L ev))"
  using marshalEnvelope_eq [of ev L]
  by (cases "writable_event ev")
     (auto simp: publish_def acknowledging_def carries_def event_message_def split: if_splits)

lemma publish_keeps_stored:
  "acknowledging produce stored \<Longrightarrow> stored k m \<Longrightarrow> publish L topic produce ev k = (o1, k') \<Longrightarrow> stored k' m"
  by (auto simp: publish_def acknowledging_def split: if_splits sum.splits) (metis snd_conv)

lemma publish_permanent:
  assumes "never_permanent produce" and "publish L topic produce ev k = (Some p, k')" and "is_permanent p"
  shows "\<not> deliverable ev"
proof
  assume "deliverable ev"
  then have "produce (event_message topic ev (envelope_text L ev)) k = (Some p, k')"
    using assms(2) marshalEnvelope_eq(1) [of ev L]
    by (simp add: deliverable_def publish_def paymentsCreatedEventType_def)
  then have "case fst (produce (event_message topic ev (envelope_text L ev)) k) of
      None \<Rightarrow> True | Some e \<Rightarrow> \<not> is_permanent e \<longleftrightarrow> False" using assms(3) by simp
  moreover have "case fst (produce (event_message topic ev (envelope_text L ev)) k) of
      None \<Rightarrow> True | Some e \<Rightarrow> \<not> is_permanent e" using assms(1) unfolding never_permanent_def by blast
  ultimately show False
    using \<open>produce (event_message topic ev (envelope_text L ev)) k = (Some p, k')\<close> by simp
qed

context outbox_store
begin

text \<open>Every event marked published is stored at the broker.\<close>

definition covered :: "string \<Rightarrow> ('k \<Rightarrow> message \<Rightarrow> bool) \<Rightarrow> 's \<times> 'k \<Rightarrow> bool" where
  "covered topic stored st \<longleftrightarrow>
     inv (fst st) \<and> (\<forall>x. published (fst st) x \<longrightarrow> (\<exists>m. stored (snd st) m \<and> carries topic x m))"

lemma attempt_covered:
  assumes "acknowledging produce stored" and "covered topic stored st"
  shows "covered topic stored (snd (process e (publish L topic produce) st))"
proof -
  obtain s k where st: "st = (s, k)" by (cases st)
  obtain b err s' k' where r: "process e (publish L topic produce) (s, k) = ((b, err), (s', k'))"
    by (metis prod.collapse)
  have i: "inv s" and c: "\<And>x. published s x \<Longrightarrow> \<exists>m. stored k m \<and> carries topic x m"
    using assms(2) by (auto simp: covered_def st)
  have i': "inv s'" using keeps [OF i, of e "publish L topic produce" k] r by simp
  have "\<exists>m. stored k' m \<and> carries topic x m" if x: "published s' x" for x
  proof (cases b)
    case False
    with r idle [of e "publish L topic produce" s k err s' k'] c x show ?thesis by auto
  next
    case True
    with r have "process e (publish L topic produce) (s, k) = ((True, err), (s', k'))" by simp
    from busy [OF i this] obtain ev o1 where
      p: "publish L topic produce ev k = (o1, k')"
      and o: "published s x \<or> x = de_id ev \<and> o1 = None" using x by blast
    from o show ?thesis
    proof
      assume "published s x"
      with c publish_keeps_stored [OF assms(1) _ p] show ?thesis by blast
    next
      assume "x = de_id ev \<and> o1 = None"
      with publish_delivers [OF assms(1)] p show ?thesis by blast
    qed
  qed
  with i' show ?thesis by (simp add: covered_def st r)
qed

lemma run_covered:
  assumes "covered topic stored st" and "topic = wc_topic c"
    and "\<forall>tk \<in> set tks. acknowledging (tk_produce tk) stored"
  shows "covered topic stored (snd (run_worker process L c delay tks st))"
proof (rule run_worker_invariant [where P = "covered topic stored"])
  show "covered topic stored (snd (process (tk_env tk) (publish L (wc_topic c) (tk_produce tk)) st))"
    if "tk \<in> set tks" "covered topic stored st" for tk st
    using attempt_covered [of "tk_produce tk" stored topic st] that assms(2,3) by blast
qed (rule assms(1))

text \<open>Deliverable events are never quarantined, and stay deliverable.\<close>

definition unharmed :: "string set \<Rightarrow> 's \<times> 'k \<Rightarrow> bool" where
  "unharmed Q st \<longleftrightarrow>
     inv (fst st) \<and> (\<forall>ev. waiting (fst st) ev \<longrightarrow> deliverable ev) \<and> (\<forall>x. quarantined (fst st) x \<longrightarrow> x \<in> Q)"

lemma attempt_unharmed:
  assumes "never_permanent produce" and "unharmed Q st"
  shows "unharmed Q (snd (process e (publish L topic produce) st))"
proof -
  obtain s k where st: "st = (s, k)" by (cases st)
  obtain b err s' k' where r: "process e (publish L topic produce) (s, k) = ((b, err), (s', k'))"
    by (metis prod.collapse)
  have i: "inv s" and w: "\<And>ev. waiting s ev \<Longrightarrow> deliverable ev" and q: "\<And>x. quarantined s x \<Longrightarrow> x \<in> Q"
    using assms(2) by (auto simp: unharmed_def st)
  have i': "inv s'" using keeps [OF i, of e "publish L topic produce" k] r by simp
  have w': "deliverable ev'" if "waiting s' ev'" for ev'
    using same_events [OF r that] w by (fastforce simp: deliverable_def writable_event_def wellformed_event_def)
  have q': "x \<in> Q" if x: "quarantined s' x" for x
  proof (cases b)
    case False
    with r idle [of e "publish L topic produce" s k err s' k'] q x show ?thesis by auto
  next
    case True
    with r have "process e (publish L topic produce) (s, k) = ((True, err), (s', k'))" by simp
    from busy [OF i this] obtain ev o1 where
      p: "publish L topic produce ev k = (o1, k')" "waiting s ev"
      and o: "quarantined s x \<or> x = de_id ev \<and> (\<exists>p. o1 = Some p \<and> is_permanent p)" using x by blast
    with publish_permanent [OF assms(1)] w q show ?thesis by blast
  qed
  from i' w' q' show ?thesis by (simp add: unharmed_def st r)
qed

lemma run_unharmed:
  assumes "unharmed Q st" and "\<forall>tk \<in> set tks. never_permanent (tk_produce tk)"
  shows "unharmed Q (snd (run_worker process L c delay tks st))"
proof (rule run_worker_invariant [where P = "unharmed Q"])
  show "unharmed Q (snd (process (tk_env tk) (publish L (wc_topic c) (tk_produce tk)) st))"
    if "tk \<in> set tks" "unharmed Q st" for tk st
    using attempt_unharmed [of "tk_produce tk" Q st] that assms(2) by blast
qed (rule assms(1))

end

section \<open>The worker on the PostgreSQL store\<close>

definition outbox_attempt ::
    "retry_config \<Rightarrow> (string \<Rightarrow> bool) \<times> pg_env \<Rightarrow> (delivery_event \<Rightarrow> 'k \<Rightarrow> go_error option \<times> 'k)
     \<Rightarrow> db \<times> 'k \<Rightarrow> (bool \<times> go_error option) \<times> (db \<times> 'k)" where
  "outbox_attempt cfg = (\<lambda>(locked, env). ProcessNext cfg locked env)"

text \<open>
  C2: at-least-once delivery.  Whatever fails in whichever order during a run of the worker
  (database, broker, lost answers to commits, cancellation), an event is marked published only
  when a message with its ID is stored in the topic; so no event is lost between the database
  and Kafka.
\<close>

theorem outbox_at_least_once:
  assumes "valid_db d" and "\<forall>tk \<in> set tks. acknowledging (tk_produce tk) stored"
    and "\<forall>x. is_published d x \<longrightarrow> (\<exists>m. stored k m \<and> carries (wc_topic c) x m)"
    and "run_worker (outbox_attempt cfg) L c delay tks (d, k) = (acts, (d', k'))"
  shows "valid_db d' \<and> (\<forall>x. is_published d' x \<longrightarrow> (\<exists>m. stored k' m \<and> carries (wc_topic c) x m))"
proof -
  have "pg_outbox.covered (wc_topic c) stored (d, k)"
    using assms(1,3) by (simp add: pg_outbox.covered_def)
  from pg_outbox.run_covered [OF this refl assms(2), of cfg L delay] show ?thesis
    unfolding assms(4) [unfolded outbox_attempt_def] by (simp add: pg_outbox.covered_def)
qed

text \<open>
  when the broker client never reports a permanent error, the worker quarantines no event
  of the type and shape that the payment API writes, however often deliveries fail.
\<close>

theorem outbox_no_quarantine:
  assumes "valid_db d" and "\<forall>tk \<in> set tks. never_permanent (tk_produce tk)"
    and "\<forall>ev. is_waiting d ev \<longrightarrow> deliverable ev"
    and "run_worker (outbox_attempt cfg) L c delay tks (d, k) = (acts, (d', k'))"
  shows "(\<forall>x. is_quarantined d' x \<longrightarrow> is_quarantined d x) \<and> (\<forall>ev. is_waiting d' ev \<longrightarrow> deliverable ev)"
proof -
  have "pg_outbox.unharmed {x. is_quarantined d x} (d, k)"
    using assms(1,3) by (simp add: pg_outbox.unharmed_def)
  from pg_outbox.run_unharmed [OF this assms(2), of cfg L c delay] show ?thesis
    unfolding assms(4) [unfolded outbox_attempt_def] by (simp add: pg_outbox.unharmed_def)
qed

section \<open>Draining the outbox\<close>

definition open_count :: "db \<Rightarrow> nat" where
  "open_count d = length (filter open_event (t_outbox d))"

text \<open>Every open event is due, deliverable, and its attempts still fit their column.\<close>

definition ready :: "gtime \<Rightarrow> db \<Rightarrow> bool" where
  "ready now d \<longleftrightarrow>
     (\<forall>r \<in> set (t_outbox d). open_event r \<longrightarrow>
        wall (ev_next_attempt_at r) \<le> wall now \<and> deliverable (scanNextEvent r)
        \<and> int4 (ev_delivery_attempts r + 1))"

definition healthy_tick :: "gtime \<Rightarrow> ((string \<Rightarrow> bool) \<times> pg_env, 'k) tick \<Rightarrow> bool" where
  "healthy_tick now tk \<longleftrightarrow>
     \<not> tk_stop tk \<and> tk_slept tk \<and> tk_env tk = (\<lambda>_. False, healthy now)
     \<and> (\<forall>m k. fst (tk_produce tk m k) = None)"

lemma length_filter_drop:
  "x \<in> set xs \<Longrightarrow> p x \<Longrightarrow> length (filter (\<lambda>r. p r \<and> key r \<noteq> key x) xs) < length (filter p xs)"
proof (induction xs)
  case (Cons a xs)
  have "length (filter (\<lambda>r. p r \<and> key r \<noteq> key x) xs) \<le> length (filter p xs)"
    by (induction xs) auto
  with Cons show ?case by (auto simp: less_Suc_eq_le)
qed simp

lemma completed_open:
  assumes "unique_by ev_id (t_outbox d)" and "row \<in> set (t_outbox d)" and "open_event row"
  shows "open_count (completed_db cfg env None row d) < open_count d"
    and "\<And>r. r \<in> set (t_outbox (completed_db cfg env None row d)) \<Longrightarrow> open_event r \<Longrightarrow> r \<in> set (t_outbox d)"
proof -
  let ?c = "completion (retry_time cfg env row) (pg_clock env 1) (pg_clock env 2) None"
  let ?g = "\<lambda>r. if open_row (ev_id row) r then ?c r else r"
  have o: "open_event (?g r) \<longleftrightarrow> open_event r \<and> ev_id r \<noteq> ev_id row" for r
    by (auto simp: open_row_def open_event_def completion_def published_row_def)
  have t: "t_outbox (completed_db cfg env None row d) = map ?g (t_outbox d)"
    by (simp add: completed_db_def update_outbox_def update_rows_def)
  have "filter open_event (t_outbox (completed_db cfg env None row d))
      = map ?g (filter (\<lambda>r. open_event r \<and> ev_id r \<noteq> ev_id row) (t_outbox d))"
    unfolding t by (simp only: filter_map comp_def o)
  then have "open_count (completed_db cfg env None row d)
      = length (filter (\<lambda>r. open_event r \<and> ev_id r \<noteq> ev_id row) (t_outbox d))"
    by (simp add: open_count_def)
  also have "\<dots> < open_count d" unfolding open_count_def
    using assms(2,3) by (rule length_filter_drop)
  finally show "open_count (completed_db cfg env None row d) < open_count d" .
  show "r \<in> set (t_outbox d)" if r: "r \<in> set (t_outbox (completed_db cfg env None row d))" "open_event r" for r
  proof -
    from r(1) obtain r0 where r0: "r0 \<in> set (t_outbox d)" "r = ?g r0" unfolding set_completed by blast
    have "open_event r0 \<and> ev_id r0 \<noteq> ev_id row" using r(2) o [of r0] unfolding r0(2) by blast
    then have "\<not> open_row (ev_id row) r0" by (simp add: open_row_def)
    then have "r = r0" unfolding r0(2) by (simp only: if_False)
    with r0(1) show ?thesis by simp
  qed
qed

text \<open>What a run may not lose: an open event is still open or has been published, and no event enters quarantine.\<close>

definition drained_so_far :: "db \<Rightarrow> db \<Rightarrow> bool" where
  "drained_so_far d d' \<longleftrightarrow>
     (\<forall>r \<in> set (t_outbox d). open_event r \<longrightarrow> r \<in> set (t_outbox d') \<or> is_published d' (ev_id r))
     \<and> (\<forall>x. is_published d x \<longrightarrow> is_published d' x) \<and> (\<forall>x. is_quarantined d' x \<longrightarrow> is_quarantined d x)"

lemma drained_refl: "drained_so_far d d"
  by (simp add: drained_so_far_def)

lemma drained_trans: "drained_so_far a b \<Longrightarrow> drained_so_far b c \<Longrightarrow> drained_so_far a c"
  unfolding drained_so_far_def by blast

lemma completed_drained: "drained_so_far d (completed_db cfg env None row d)"
proof -
  let ?d = "completed_db cfg env None row d"
  let ?c = "completion (retry_time cfg env row) (pg_clock env 1) (pg_clock env 2) None"
  let ?g = "\<lambda>r. if open_row (ev_id row) r then ?c r else r"
  have c: "ev_id (?c r) = ev_id r" "ev_published_at (?c r) \<noteq> None"
    "ev_dead_lettered_at (?c r) = ev_dead_lettered_at r" for r
    by (simp_all add: completion_def published_row_def)
  have s: "set (t_outbox ?d) = ?g ` set (t_outbox d)" by (rule set_completed)
  have m: "?g r \<in> set (t_outbox ?d)" if "r \<in> set (t_outbox d)" for r
    unfolding s by (rule imageI [OF that])
  have "r \<in> set (t_outbox ?d) \<or> is_published ?d (ev_id r)" if r: "r \<in> set (t_outbox d)" for r
  proof (cases "open_row (ev_id row) r")
    case True
    then have "?c r \<in> set (t_outbox ?d)" using m [OF r] by (simp only: if_True)
    then have "is_published ?d (ev_id r)" unfolding is_published_def using c(1,2) [of r] by (intro bexI conjI)
    then show ?thesis ..
  next
    case False
    then have "r \<in> set (t_outbox ?d)" using m [OF r] by (simp only: if_False)
    then show ?thesis ..
  qed
  moreover have "is_published ?d x" if "is_published d x" for x
  proof -
    obtain r where r: "r \<in> set (t_outbox d)" "ev_id r = x" "ev_published_at r \<noteq> None"
      using \<open>is_published d x\<close> unfolding is_published_def by blast
    then have "\<not> open_row (ev_id row) r" by (simp add: open_row_def open_event_def)
    then have "r \<in> set (t_outbox ?d)" using m [OF r(1)] by (simp only: if_False)
    then show ?thesis unfolding is_published_def using r(2,3) by (intro bexI conjI)
  qed
  moreover have "is_quarantined d x" if "is_quarantined ?d x" for x
  proof -
    obtain r where r: "r \<in> set (t_outbox ?d)" "ev_id r = x" "ev_dead_lettered_at r \<noteq> None"
      using \<open>is_quarantined ?d x\<close> unfolding is_quarantined_def by blast
    then obtain r0 where r0: "r0 \<in> set (t_outbox d)" "r = ?g r0" unfolding s by blast
    then have "ev_id r0 = x" "ev_dead_lettered_at r0 \<noteq> None" using r(2,3) c(1,3) [of r0] by (simp_all split: if_splits)
    then show ?thesis unfolding is_quarantined_def using r0(1) by (intro bexI conjI)
  qed
  ultimately show ?thesis unfolding drained_so_far_def by blast
qed

lemma drain_step:
  assumes "valid_db d" and "ready now d" and "healthy_tick now tk" and "open_count d \<noteq> 0"
  obtains d' k' where "outbox_attempt cfg (tk_env tk) (publish L topic (tk_produce tk)) (d, k) = ((True, None), (d', k'))"
    and "valid_db d'" and "ready now d'" and "open_count d' < open_count d" and "drained_so_far d d'"
proof -
  let ?env = "healthy now"
  have env: "tk_env tk = (\<lambda>_. False, ?env)" and ok: "\<And>m k. fst (tk_produce tk m k) = None"
    using assms(3) by (simp_all add: healthy_tick_def)
  obtain r where r: "r \<in> set (t_outbox d)" "open_event r"
    using assms(4) by (auto simp: open_count_def filter_empty_conv)
  then have "due (pg_clock ?env 0) (\<lambda>_. False) r" using assms(2) by (simp add: ready_def due_def healthy_def)
  then obtain row where row: "next_due (pg_clock ?env 0) (\<lambda>_. False) d = Some row"
    using r(1) next_due_None [of "pg_clock ?env 0" "\<lambda>_. False" d] by auto
  then have w: "row \<in> set (t_outbox d)" "open_event row" using next_due_Some [OF row] by (simp_all add: due_def)
  then have g: "deliverable (scanNextEvent row)" "int4 (ev_delivery_attempts row + 1)"
    using assms(2) by (simp_all add: ready_def)
  let ?m = "event_message topic (scanNextEvent row) (envelope_text L (scanNextEvent row))"
  obtain o1 k' where e: "tk_produce tk ?m k = (o1, k')" by (cases "tk_produce tk ?m k")
  with ok [of ?m k] have "tk_produce tk ?m k = (None, k')" by simp
  then have p: "publish L topic (tk_produce tk) (scanNextEvent row) k = (None, k')"
    using g(1) marshalEnvelope_eq(1) [of "scanNextEvent row" L]
    by (simp add: deliverable_def publish_def paymentsCreatedEventType_def)
  let ?d = "completed_db cfg ?env None row d"
  have u: "unique_by ev_id (t_outbox d)" using assms(1) by (simp add: valid_db_def valid_outbox_def)
  have "ready now ?d" using completed_open(2) [OF u w] assms(2) unfolding ready_def by blast
  moreover have "outbox_attempt cfg (tk_env tk) (publish L topic (tk_produce tk)) (d, k) = ((True, None), (?d, k'))"
    using ProcessNext_eq [OF assms(1) no_fault_healthy row g(2), where deliver = "publish L topic (tk_produce tk)"
        and k = k and outcome = None and k' = k' and cfg = cfg] p
    by (simp add: outbox_attempt_def env)
  ultimately show thesis
    using that valid_completed [OF assms(1)] completed_open(1) [OF u w] completed_drained by blast
qed

lemma idle_tick:
  assumes "healthy_tick now tk" and "open_count d = 0"
  shows "outbox_attempt cfg (tk_env tk) (publish L topic (tk_produce tk)) (d, k) = ((False, None), (d, k))"
proof -
  have "next_due now (\<lambda>_. False) d = None"
    using assms(2) by (auto simp: next_due_None open_count_def filter_empty_conv due_def)
  with assms(1) show ?thesis
    by (simp add: outbox_attempt_def healthy_tick_def ProcessNext_def healthy_def statement_def)
qed

lemma run_drains:
  assumes "valid_db d" and "ready now d" and "\<forall>tk \<in> set tks. healthy_tick now tk"
    and "open_count d \<le> length tks"
    and "run_worker (outbox_attempt cfg) L c delay tks (d, k) = (acts, (d', k'))"
  shows "open_count d' = 0 \<and> drained_so_far d d'"
  using assms
proof (induction tks arbitrary: d delay k acts)
  case Nil
  then show ?case by (simp add: open_count_def drained_refl)
next
  case (Cons tk tks)
  have tk: "healthy_tick now tk" "\<not> tk_stop tk" "tk_slept tk"
    using Cons.prems(3) by (auto simp: healthy_tick_def)
  show ?case
  proof (cases "open_count d = 0")
    case False
    obtain d1 k1 where s: "outbox_attempt cfg (tk_env tk) (publish L (wc_topic c) (tk_produce tk)) (d, k)
        = ((True, None), (d1, k1))" and d1: "valid_db d1" "ready now d1" "open_count d1 < open_count d" "drained_so_far d d1"
      by (rule drain_step [OF Cons.prems(1,2) tk(1) False])
    have "run_worker (outbox_attempt cfg) L c (wc_retry_min c) tks (d1, k1) = (acts, (d', k'))"
      using Cons.prems(5) s tk(2) by simp
    from Cons.IH [OF d1(1,2) _ _ this] Cons.prems(3,4) d1(3) drained_trans [OF d1(4)] show ?thesis by simp
  next
    case True
    note s = idle_tick [OF tk(1) True, of cfg L "wc_topic c" k]
    obtain acts' st where rw: "run_worker (outbox_attempt cfg) L c (wc_retry_min c) tks (d, k) = (acts', st)"
      by (cases "run_worker (outbox_attempt cfg) L c (wc_retry_min c) tks (d, k)")
    then have "st = (d', k')" using Cons.prems(5) tk(2,3) s by simp
    with rw have "run_worker (outbox_attempt cfg) L c (wc_retry_min c) tks (d, k) = (acts', (d', k'))" by simp
    from Cons.IH [OF Cons.prems(1,2) _ _ this] Cons.prems(3) True show ?thesis by simp
  qed
qed

text \<open>
  C21: liveness.  When database and broker do not fail, a run of the worker with at least as many
  iterations as there are open events publishes every event: each event that was open is marked
  published, none is left open, and none has gone to quarantine instead.
\<close>

theorem outbox_drains:
  assumes "valid_db d" and "ready now d" and "\<forall>tk \<in> set tks. healthy_tick now tk"
    and "open_count d \<le> length tks"
    and "run_worker (outbox_attempt cfg) L c delay tks (d, k) = (acts, (d', k'))"
  shows "(\<forall>r \<in> set (t_outbox d). open_event r \<longrightarrow> is_published d' (ev_id r))
    \<and> open_count d' = 0 \<and> (\<forall>x. is_quarantined d' x \<longrightarrow> is_quarantined d x)"
proof -
  have n: "open_count d' = 0" and s: "drained_so_far d d'" using run_drains [OF assms] by simp_all
  have "is_published d' (ev_id r)" if "r \<in> set (t_outbox d)" "open_event r" for r
    using s n that by (auto simp: drained_so_far_def open_count_def filter_empty_conv)
  with n s show ?thesis by (simp add: drained_so_far_def)
qed

section \<open>The events of the payment API\<close>

lemma deliverable_row:
  assumes "ev_event_type r = PaymentCreated" and "canonical_uuid (ev_id r)" "canonical_uuid (ev_aggregate_id r)"
    and "canonical_uuid (ev_trace_id r)" and "ev_schema_version r = 1" and "wall (ev_occurred_at r) \<noteq> 0"
    and "json_object (ev_payload r)" and "json_year (wall (ev_occurred_at r))"
  shows "deliverable (scanNextEvent r)"
proof -
  have "trim_space ''payments.created'' = ''payments.created''"
    by (rule trim_space_plain) (simp_all add: plain_byte_def ascii_def is_space_def byte_def)
  with assms show ?thesis
    by (simp add: deliverable_def writable_event_def wellformed_event_def time_marshals_utc scanNextEvent_def PaymentCreated_def
        trim_space_canonical canonical_nonempty is_zero_time_def)
qed

text \<open>
  Every event that \<open>Service.Create\<close> adds to the outbox is deliverable: the publisher accepts
  its type, its fields and its payload.  So if all waiting events were deliverable before a
  call, they are after it, whatever the call meets.
\<close>

theorem created_events_deliverable:
  assumes "valid_db d" and "good_attempt a" and "1000 \<le> wall (se_now (at_service a))"
    and "\<forall>ev. is_waiting d ev \<longrightarrow> deliverable ev"
  shows "\<forall>ev. is_waiting (snd (run_attempt L a d)) ev \<longrightarrow> deliverable ev"
proof (intro allI impI)
  fix ev assume w: "is_waiting (snd (run_attempt L a d)) ev"
  obtain r d' where r: "run_attempt L a d = (r, d')" by (cases "run_attempt L a d")
  with w have w': "is_waiting d' ev" by simp
  have g: "good_random (at_service a)" "good_context (at_context a)"
    using assms(2) by (simp_all add: good_attempt_def)
  from r show "deliverable ev"
  proof (cases rule: run_attempt_cases)
    case (2 p oe)
    show ?thesis
    proof (cases "d' = d")
      case False
      note f = prepare_create_fields [OF 2(1) g]
      from create_payment_rows [OF 2(2) False] obtain row orow
        where d': "d' = d\<lparr>t_payments := t_payments d @ [row], t_outbox := t_outbox d @ [orow]\<rparr>"
          and e: "event_of oe orow" by blast
      from w' d' have "is_waiting d ev \<or> ev = scanNextEvent orow" by (auto simp: is_waiting_def)
      then show ?thesis
      proof
        assume "ev = scanNextEvent orow"
        moreover have "valid_db d'" using run_attempt_valid [OF assms(1), of L a] r by simp
        then have "json_object (ev_payload orow)"
          by (auto simp: valid_db_def valid_outbox_def outbox_checks_def d')
        moreover have "ev_occurred_at orow = timestamptz (utc (se_now (at_service a)))"
          using e 2(1) f(14) by (auto simp: event_of_def prepare_create_Inr created_event_def)
        then have "wall (ev_occurred_at orow) \<noteq> 0" "json_year (wall (ev_occurred_at orow))"
          using assms(3) 2(1) json_year_timestamptz [of "utc (se_now (at_service a))"]
          by (auto simp: timestamptz_def prepare_create_Inr time_marshals_utc)
        moreover have "canonical_uuid (ev_id orow)" "canonical_uuid (ev_aggregate_id orow)"
          "canonical_uuid (ev_trace_id orow)"
          using e uuid_in_canonical by (auto simp: event_of_def)
        moreover have "ev_event_type orow = PaymentCreated" "ev_schema_version orow = 1"
          using e f(9,10) by (simp_all add: event_of_def)
        ultimately show ?thesis using deliverable_row by blast
      qed (use assms(4) in blast)
    qed (use w' assms(4) in blast)
  qed (use w' assms(4) in blast)
qed

section \<open>Examples\<close>

definition sample_now :: gtime where "sample_now = \<lparr>wall = 6000000, zone = 0\<rparr>"

definition sample_tick :: "((string \<Rightarrow> bool) \<times> pg_env, message list) tick" where
  "sample_tick =
     \<lparr>tk_stop = False, tk_env = (\<lambda>_. False, healthy sample_now), tk_produce = (\<lambda>m k. (None, k @ [m])),
      tk_stop_after = False, tk_slept = True\<rparr>"

definition sample_worker :: worker_config where
  "sample_worker =
     \<lparr>wc_topic = ''payments.created'', wc_poll_interval = second, wc_publish_timeout = second,
      wc_retry_min = second, wc_retry_max = 30 * second\<rparr>"

lemma sample_deliverable: "deliverable (scanNextEvent sample_row)"
  by (rule deliverable_row) (simp_all add: sample_row_def sample_uuid_canonical sample_object json_year_def)

lemma sample_waiting: "is_waiting sample_db ev \<longleftrightarrow> ev = scanNextEvent sample_row"
  by (auto simp: is_waiting_def sample_db_def open_event_def) (simp_all add: sample_row_def)

lemma sample_acknowledging: "acknowledging (\<lambda>m k. (None, k @ [m])) (\<lambda>k m. m \<in> set k)"
  by (auto simp: acknowledging_def)

theorem outbox_drains_witness:
  "is_published (fst (snd (run_worker (outbox_attempt sample_retry) sample_lib sample_worker second
     [sample_tick] (sample_db, [])))) sample_uuid"
proof -
  obtain acts d' k' where r: "run_worker (outbox_attempt sample_retry) sample_lib sample_worker second
     [sample_tick] (sample_db, []) = (acts, (d', k'))" by (metis prod.collapse)
  have "ready sample_now sample_db"
    using sample_deliverable
    by (simp add: ready_def sample_db_def sample_now_def) (simp add: sample_row_def int4_def)
  moreover have "\<forall>tk \<in> set [sample_tick]. healthy_tick sample_now tk"
    by (simp add: healthy_tick_def sample_tick_def)
  moreover have "open_count sample_db \<le> length [sample_tick]"
    by (simp add: open_count_def sample_db_def)
  ultimately have "\<forall>r \<in> set (t_outbox sample_db). open_event r \<longrightarrow> is_published d' (ev_id r)"
    using outbox_drains [OF sample_db_valid _ _ _ r] by blast
  moreover have "sample_row \<in> set (t_outbox sample_db)" "open_event sample_row" "ev_id sample_row = sample_uuid"
    by (simp_all add: sample_db_def open_event_def) (simp_all add: sample_row_def)
  ultimately have "is_published d' sample_uuid" by metis
  with r show ?thesis by simp
qed

theorem outbox_at_least_once_witness:
  "valid_db (fst (snd (run_worker (outbox_attempt sample_retry) sample_lib sample_worker second
     [sample_tick] (sample_db, []))))"
proof -
  obtain acts d' k' where r: "run_worker (outbox_attempt sample_retry) sample_lib sample_worker second
     [sample_tick] (sample_db, []) = (acts, (d', k'))" by (metis prod.collapse)
  have a: "\<forall>tk \<in> set [sample_tick]. acknowledging (tk_produce tk) (\<lambda>k m. m \<in> set k)"
    using sample_acknowledging by (simp add: sample_tick_def)
  have "\<forall>x. is_published sample_db x \<longrightarrow> (\<exists>m. m \<in> set [] \<and> carries (wc_topic sample_worker) x m)"
    by (simp add: is_published_def sample_db_def) (simp add: sample_row_def)
  from outbox_at_least_once [OF sample_db_valid a this r] r show ?thesis by simp
qed

theorem outbox_no_quarantine_witness:
  "\<not> is_quarantined (fst (snd (run_worker (outbox_attempt sample_retry) sample_lib sample_worker second
     [sample_tick] (sample_db, [])))) sample_uuid"
proof -
  obtain acts d' k' where r: "run_worker (outbox_attempt sample_retry) sample_lib sample_worker second
     [sample_tick] (sample_db, []) = (acts, (d', k'))" by (metis prod.collapse)
  have n: "\<forall>tk \<in> set [sample_tick]. never_permanent (tk_produce tk)"
    by (simp add: sample_tick_def never_permanent_def)
  have "\<forall>ev. is_waiting sample_db ev \<longrightarrow> deliverable ev"
    using sample_deliverable by (simp add: sample_waiting)
  from outbox_no_quarantine [OF sample_db_valid n this r] r show ?thesis
    by (auto simp: is_quarantined_def sample_db_def) (simp add: sample_row_def)
qed

theorem created_events_deliverable_witness:
  "\<forall>ev. is_waiting (snd (run_attempt sample_lib sample_attempt empty_db)) ev \<longrightarrow> deliverable ev"
  by (rule created_events_deliverable [OF valid_empty sample_good_attempt])
     (simp_all add: sample_attempt_def sample_service_def is_waiting_def empty_db_def)

end
