(* ===== verification/Decision_Event.thy ===== *)
theory Decision_Event
  imports Outbox_Worker
begin

text \<open>
  decision/event.go: the schema-v2 risk decision read from Kafka.  \<open>ParseEvent\<close> requires every
  field, decodes strictly, normalises and validates; \<open>event_contract\<close> states what an accepted
  event satisfies.  \<open>DecisionFingerprint\<close> is the digest that tells a replay from a conflict.
\<close>

section \<open>Data\<close>

record feature_snapshot =
  fs_velocity_5m :: int
  fs_new_device :: bool
  fs_cross_border :: bool
  fs_baseline_country :: string
  fs_decision_at :: gtime

record decision_payload =
  dp_decision_id :: string
  dp_payment_id :: string
  dp_source_event_id :: string
  dp_decision :: string
  dp_risk_score :: int
  dp_rule_score :: int
  dp_model_score :: int
  dp_model_probability :: float64
  dp_model_review_threshold :: float64
  dp_reason_codes :: "string list"
  dp_rule_version :: string
  dp_model_version :: string
  dp_decision_at :: gtime
  dp_features :: feature_snapshot

record decision_event =
  dv_event_id :: string
  dv_event_type :: string
  dv_aggregate_id :: string
  dv_schema_version :: int
  dv_occurred_at :: gtime
  dv_trace_id :: string
  dv_payload :: decision_payload

definition EventTypeRiskDecisionCompleted :: string where
  "EventTypeRiskDecisionCompleted = ''risk.decision.completed''"
definition DecisionSchemaVersion :: int where "DecisionSchemaVersion = 2"
definition DecisionAllow :: string where "DecisionAllow = ''ALLOW''"
definition DecisionReview :: string where "DecisionReview = ''REVIEW''"
definition DecisionBlock :: string where "DecisionBlock = ''BLOCK''"

section \<open>Required fields\<close>

text \<open>The argument is the map that \<open>json.Unmarshal\<close> fills: nil for the value \<open>null\<close>.\<close>

definition requireFields ::
    "(string \<times> json) list option \<Rightarrow> string \<Rightarrow> string list \<Rightarrow> go_error option" where
  "requireFields obj objectName names =
     (case obj of
        None \<Rightarrow> Some (Msg (objectName @ '' must be an object''))
      | Some ms \<Rightarrow>
          (case List.find (\<lambda>name. json_get ms name = None \<or> json_get ms name = Some JNull) names of
             None \<Rightarrow> None
           | Some name \<Rightarrow> Some (Msg (objectName @ ''.'' @ name @ '' is required''))))"

text \<open>\<open>json.Unmarshal\<close> into a map: an object, \<open>null\<close>, or a type error\<close>

fun as_map :: "json \<Rightarrow> (string \<times> json) list option option" where
  "as_map (JObj ms) = Some (Some ms)"
| "as_map JNull = Some None"
| "as_map _ = None"

definition envelope_names :: "string list" where
  "envelope_names =
     [''event_id'', ''event_type'', ''aggregate_id'', ''schema_version'', ''occurred_at'', ''trace_id'',
      ''payload'']"

definition payload_names :: "string list" where
  "payload_names =
     [''decision_id'', ''payment_id'', ''source_event_id'', ''decision'', ''risk_score'', ''rule_score'',
      ''model_score'', ''model_probability'', ''model_review_threshold'', ''reason_codes'',
      ''rule_version'', ''model_version'', ''decision_at'', ''features'']"

definition feature_names :: "string list" where
  "feature_names = [''velocity_5m'', ''new_device'', ''cross_border'', ''baseline_country'', ''decision_at'']"

definition member :: "(string \<times> json) list option \<Rightarrow> string \<Rightarrow> json" where
  "member obj k = (case obj of None \<Rightarrow> JNull | Some ms \<Rightarrow> (case json_get ms k of None \<Rightarrow> JNull | Some v \<Rightarrow> v))"

definition requireEventFields :: "'a golib_scheme \<Rightarrow> string \<Rightarrow> go_error option" where
  "requireEventFields L value =
     (case Option.bind (json_parse value) as_map of
        None \<Rightarrow> Some (Wrapf ''decode required fields: '' (Msg (json_error L value)) [])
      | Some envelope \<Rightarrow>
     (case requireFields envelope ''envelope'' envelope_names of
        Some e \<Rightarrow> Some e
      | None \<Rightarrow>
     (case as_map (member envelope ''payload'') of
        None \<Rightarrow> Some (Wrapf ''payload must be an object: '' (Msg (json_error L value)) [])
      | Some payload \<Rightarrow>
     (case requireFields payload ''payload'' payload_names of
        Some e \<Rightarrow> Some e
      | None \<Rightarrow>
     (case as_map (member payload ''features'') of
        None \<Rightarrow> Some (Wrapf ''payload.features must be an object: '' (Msg (json_error L value)) [])
      | Some features \<Rightarrow> requireFields features ''payload.features'' feature_names)))))"

section \<open>Strict decoding\<close>

text \<open>
  The objects that successive members of one name contribute to one struct: each decodes on top
  of the previous one, so that their members simply follow each other.
\<close>

fun merge_objects :: "json list \<Rightarrow> (string \<times> json) list option" where
  "merge_objects [] = Some []"
| "merge_objects (JNull # vs) = merge_objects vs"
| "merge_objects (JObj ms # vs) = map_option (\<lambda>ns. ms @ ns) (merge_objects vs)"
| "merge_objects (_ # vs) = None"

definition field :: "(json \<Rightarrow> 'a option) \<Rightarrow> 'a \<Rightarrow> (string \<times> json) list \<Rightarrow> string \<Rightarrow> 'a option" where
  "field f zero ms name = decode_field f zero (members_for ms name)"

definition decode_features ::
    "'a golib_scheme \<Rightarrow> (string \<times> json) list \<Rightarrow> feature_snapshot option" where
  "decode_features L ms =
     (if \<not> known_members ms feature_names then None
      else (case (field as_int 0 ms ''velocity_5m'', field as_bool False ms ''new_device'',
                  field as_bool False ms ''cross_border'', field as_string [] ms ''baseline_country'',
                  field (as_time L) zero_time ms ''decision_at'') of
              (Some v, Some n, Some x, Some b, Some t) \<Rightarrow>
                Some \<lparr>fs_velocity_5m = v, fs_new_device = n, fs_cross_border = x,
                      fs_baseline_country = b, fs_decision_at = t\<rparr>
            | _ \<Rightarrow> None))"

definition decode_payload ::
    "'a golib_scheme \<Rightarrow> (string \<times> json) list \<Rightarrow> decision_payload option" where
  "decode_payload L ms =
     (if \<not> known_members ms payload_names then None
      else (case (field as_string [] ms ''decision_id'', field as_string [] ms ''payment_id'',
                  field as_string [] ms ''source_event_id'', field as_string [] ms ''decision'',
                  field as_int 0 ms ''risk_score'', field as_int 0 ms ''rule_score'',
                  field as_int 0 ms ''model_score'') of
              (Some i, Some p, Some s, Some d, Some r1, Some r2, Some r3) \<Rightarrow>
           (case (field (as_float L) (Finite 0) ms ''model_probability'',
                  field (as_float L) (Finite 0) ms ''model_review_threshold'',
                  decode_strings [] [] (members_for ms ''reason_codes''),
                  field as_string [] ms ''rule_version'', field as_string [] ms ''model_version'',
                  field (as_time L) zero_time ms ''decision_at'',
                  Option.bind (merge_objects (members_for ms ''features'')) (decode_features L)) of
              (Some mp, Some mt, Some rc, Some rv, Some mv, Some t, Some f) \<Rightarrow>
                Some \<lparr>dp_decision_id = i, dp_payment_id = p, dp_source_event_id = s, dp_decision = d,
                      dp_risk_score = r1, dp_rule_score = r2, dp_model_score = r3,
                      dp_model_probability = mp, dp_model_review_threshold = mt,
                      dp_reason_codes = rc, dp_rule_version = rv, dp_model_version = mv,
                      dp_decision_at = t, dp_features = f\<rparr>
            | _ \<Rightarrow> None)
            | _ \<Rightarrow> None))"

definition decode_event :: "'a golib_scheme \<Rightarrow> string \<Rightarrow> decision_event option" where
  "decode_event L value =
     (case Option.bind (json_parse value) (\<lambda>v. merge_objects [v]) of
        None \<Rightarrow> None
      | Some ms \<Rightarrow>
          if \<not> known_members ms envelope_names then None
          else (case (field as_string [] ms ''event_id'', field as_string [] ms ''event_type'',
                      field as_string [] ms ''aggregate_id'', field as_int 0 ms ''schema_version'',
                      field (as_time L) zero_time ms ''occurred_at'', field as_string [] ms ''trace_id'',
                      Option.bind (merge_objects (members_for ms ''payload'')) (decode_payload L)) of
                  (Some i, Some t, Some a, Some s, Some o1, Some tr, Some p) \<Rightarrow>
                    Some \<lparr>dv_event_id = i, dv_event_type = t, dv_aggregate_id = a,
                          dv_schema_version = s, dv_occurred_at = o1, dv_trace_id = tr, dv_payload = p\<rparr>
                | _ \<Rightarrow> None))"

section \<open>Normalisation and validation\<close>

text \<open>
  \<open>normalizeUUID\<close>: unlike \<open>payment.NormalizeID\<close> it does not count the digits that remain when the
  hyphens are dropped.
\<close>

definition normalizeUUID :: "string \<Rightarrow> string result" where
  "normalizeUUID raw0 =
     (let raw = trim_space raw0 in
      if \<not> hyphens_at raw then Inl (Msg ''must be a UUID'')
      else if \<not> hex_decodes (filter (\<lambda>c. c \<noteq> CHR ''-'') raw) then Inl (Msg ''must be a UUID'')
      else Inr (map ascii_lower raw))"

definition validDecision :: "string \<Rightarrow> bool" where
  "validDecision v \<longleftrightarrow> v = DecisionAllow \<or> v = DecisionReview \<or> v = DecisionBlock"

definition validScore :: "int \<Rightarrow> bool" where
  "validScore v \<longleftrightarrow> 0 \<le> v \<and> v \<le> 100"

definition validCountry :: "string \<Rightarrow> bool" where
  "validCountry v \<longleftrightarrow> length v = 2 \<and> 65 \<le> byte (v ! 0) \<and> byte (v ! 0) \<le> 90
     \<and> 65 \<le> byte (v ! 1) \<and> byte (v ! 1) \<le> 90"

definition reason_rune :: "rune \<Rightarrow> bool" where
  "reason_rune r \<longleftrightarrow> (65 \<le> r \<and> r \<le> 90) \<or> (48 \<le> r \<and> r \<le> 57) \<or> r = 95"

definition validReasonCode :: "string \<Rightarrow> bool" where
  "validReasonCode v \<longleftrightarrow> v \<noteq> [] \<and> length v \<le> 100 \<and> list_all reason_rune (runes v)"

text \<open>
  The assignments of \<open>normalizeAndValidate\<close> to the event: the identifiers in the order in which
  they are checked, then the trimmed texts.
\<close>

definition labelled :: "string \<Rightarrow> string result \<Rightarrow> string result" where
  "labelled name r = (case r of Inl e \<Rightarrow> Inl (errorf name e) | Inr x \<Rightarrow> Inr x)"

definition normalizeIdentifiers :: "decision_event \<Rightarrow> decision_event result" where
  "normalizeIdentifiers ev =
     (let p = dv_payload ev in
      case labelled ''event_id'' (normalizeUUID (dv_event_id ev)) of Inl e \<Rightarrow> Inl e | Inr i \<Rightarrow>
     (case labelled ''aggregate_id'' (normalizeUUID (dv_aggregate_id ev)) of Inl e \<Rightarrow> Inl e | Inr a \<Rightarrow>
     (case labelled ''trace_id'' (normalizeUUID (dv_trace_id ev)) of Inl e \<Rightarrow> Inl e | Inr t \<Rightarrow>
     (case labelled ''payload.decision_id'' (normalizeUUID (dp_decision_id p)) of Inl e \<Rightarrow> Inl e | Inr d \<Rightarrow>
     (case labelled ''payload.payment_id'' (normalizeUUID (dp_payment_id p)) of Inl e \<Rightarrow> Inl e | Inr q \<Rightarrow>
     (case labelled ''payload.source_event_id'' (normalizeUUID (dp_source_event_id p)) of
        Inl e \<Rightarrow> Inl e
      | Inr s \<Rightarrow>
          Inr (ev\<lparr>dv_event_id := i, dv_aggregate_id := a, dv_trace_id := t,
                  dv_payload := p\<lparr>dp_decision_id := d, dp_payment_id := q, dp_source_event_id := s\<rparr>\<rparr>)))))))"

definition trimEvent :: "decision_event \<Rightarrow> decision_event" where
  "trimEvent ev =
     (let p = dv_payload ev; f = dp_features p in
      ev\<lparr>dv_event_type := trim_space (dv_event_type ev),
         dv_payload := p\<lparr>dp_decision := trim_space (dp_decision p),
                         dp_rule_version := trim_space (dp_rule_version p),
                         dp_model_version := trim_space (dp_model_version p),
                         dp_features := f\<lparr>fs_baseline_country := trim_space (fs_baseline_country f)\<rparr>,
                         dp_reason_codes := map trim_space (dp_reason_codes p)\<rparr>\<rparr>)"

text \<open>The cases of the \<open>switch\<close>, in order: the first one that holds is the error.\<close>

definition event_failures :: "decision_event \<Rightarrow> (bool \<times> string) list" where
  "event_failures ev =
     (let p = dv_payload ev; f = dp_features p in
      [(dv_event_type ev \<noteq> EventTypeRiskDecisionCompleted,
          ''event_type must be '' @ [CHR 0x22] @ EventTypeRiskDecisionCompleted @ [CHR 0x22]),
       (dv_schema_version ev \<noteq> DecisionSchemaVersion,
          ''schema_version must be '' @ show_int DecisionSchemaVersion),
       (dv_event_id ev \<noteq> dp_decision_id p, ''event_id must match payload.decision_id''),
       (dv_aggregate_id ev \<noteq> dp_payment_id p, ''aggregate_id must match payload.payment_id''),
       (is_zero_time (dv_occurred_at ev) \<or> is_zero_time (dp_decision_at p)
          \<or> is_zero_time (fs_decision_at f), ''decision timestamps are required''),
       (\<not> time_equal (dv_occurred_at ev) (dp_decision_at p), ''occurred_at must match payload.decision_at''),
       (\<not> time_equal (dp_decision_at p) (fs_decision_at f),
          ''payload.decision_at must match features.decision_at''),
       (\<not> validDecision (dp_decision p), ''decision must be ALLOW, REVIEW, or BLOCK''),
       (\<not> validScore (dp_risk_score p) \<or> \<not> validScore (dp_rule_score p) \<or> \<not> validScore (dp_model_score p),
          ''risk, rule, and model scores must be between 0 and 100''),
       (\<not> unit_interval (dp_model_probability p), ''model_probability must be between 0 and 1''),
       (\<not> open_interval (dp_model_review_threshold p),
          ''model_review_threshold must be between 0 and 1 exclusively''),
       (dp_reason_codes p = [], ''reason_codes must contain at least one value''),
       (dp_rule_version p = [] \<or> 255 < length (dp_rule_version p),
          ''rule_version must contain 1-255 characters''),
       (dp_model_version p = [] \<or> 255 < length (dp_model_version p),
          ''model_version must contain 1-255 characters''),
       (fs_velocity_5m f < 1, ''velocity_5m must be at least 1''),
       (\<not> validCountry (fs_baseline_country f), ''baseline_country must contain two uppercase letters'')])"

definition utcEvent :: "decision_event \<Rightarrow> decision_event" where
  "utcEvent ev =
     (let p = dv_payload ev; f = dp_features p in
      ev\<lparr>dv_occurred_at := utc (dv_occurred_at ev),
         dv_payload := p\<lparr>dp_decision_at := utc (dp_decision_at p),
                         dp_features := f\<lparr>fs_decision_at := utc (fs_decision_at f)\<rparr>\<rparr>\<rparr>)"

definition normalizeAndValidate :: "'a golib_scheme \<Rightarrow> decision_event \<Rightarrow> decision_event result" where
  "normalizeAndValidate L ev0 =
     (case normalizeIdentifiers ev0 of
        Inl e \<Rightarrow> Inl e
      | Inr ev1 \<Rightarrow>
          let ev = trimEvent ev1 in
          case List.find fst (event_failures ev) of
            Some (_, what) \<Rightarrow> Inl (Msg what)
          | None \<Rightarrow>
              (case List.find (\<lambda>r. \<not> validReasonCode r) (dp_reason_codes (dv_payload ev)) of
                 Some r \<Rightarrow> Inl (Msg (''invalid reason_code '' @ go_quote L r))
               | None \<Rightarrow> Inr (utcEvent ev)))"

text \<open>\<open>fmt.Errorf("%w: %v", ErrInvalidEvent, err)\<close>\<close>

definition invalid_event :: "string \<Rightarrow> go_error" where
  "invalid_event text = Wrapf [] (Sentinel ErrInvalidEvent) ('': '' @ text)"

definition ParseEvent :: "'a golib_scheme \<Rightarrow> string \<Rightarrow> decision_event result" where
  "ParseEvent L value =
     (case requireEventFields L value of
        Some e \<Rightarrow> Inl (invalid_event (error_text e))
      | None \<Rightarrow>
     (case decode_event L value of
        None \<Rightarrow> Inl (invalid_event (''decode: '' @ json_error L value))
      | Some raw \<Rightarrow>
     (case normalizeAndValidate L raw of
        Inl e \<Rightarrow> Inl (invalid_event (error_text e))
      | Inr ev \<Rightarrow> Inr ev)))"

section \<open>The fingerprint\<close>

definition features_json :: "'a golib_scheme \<Rightarrow> feature_snapshot \<Rightarrow> json" where
  "features_json L f =
     JObj [(''velocity_5m'', JNum (show_int (fs_velocity_5m f))), (''new_device'', JBool (fs_new_device f)),
           (''cross_border'', JBool (fs_cross_border f)),
           (''baseline_country'', JStr (fs_baseline_country f)),
           (''decision_at'', JStr (time_text L (fs_decision_at f)))]"

definition payload_json :: "'a golib_scheme \<Rightarrow> decision_payload \<Rightarrow> json" where
  "payload_json L p =
     JObj [(''decision_id'', JStr (dp_decision_id p)), (''payment_id'', JStr (dp_payment_id p)),
           (''source_event_id'', JStr (dp_source_event_id p)), (''decision'', JStr (dp_decision p)),
           (''risk_score'', JNum (show_int (dp_risk_score p))),
           (''rule_score'', JNum (show_int (dp_rule_score p))),
           (''model_score'', JNum (show_int (dp_model_score p))),
           (''model_probability'', JNum (float_text L (dp_model_probability p))),
           (''model_review_threshold'', JNum (float_text L (dp_model_review_threshold p))),
           (''reason_codes'', JArr (map JStr (dp_reason_codes p))),
           (''rule_version'', JStr (dp_rule_version p)), (''model_version'', JStr (dp_model_version p)),
           (''decision_at'', JStr (time_text L (dp_decision_at p))),
           (''features'', features_json L (dp_features p))]"

definition event_json :: "'a golib_scheme \<Rightarrow> decision_event \<Rightarrow> json" where
  "event_json L ev =
     JObj [(''event_id'', JStr (dv_event_id ev)), (''event_type'', JStr (dv_event_type ev)),
           (''aggregate_id'', JStr (dv_aggregate_id ev)),
           (''schema_version'', JNum (show_int (dv_schema_version ev))),
           (''occurred_at'', JStr (time_text L (dv_occurred_at ev))),
           (''trace_id'', JStr (dv_trace_id ev)), (''payload'', payload_json L (dv_payload ev))]"

text \<open>
  \<open>json.Marshal\<close> writes the fields in their order and refuses the floats that are no numbers and the
  times whose year in UTC is outside 0 to 9999.
\<close>

definition is_finite :: "float64 \<Rightarrow> bool" where
  "is_finite f = (case f of Finite q \<Rightarrow> True | _ \<Rightarrow> False)"

definition DecisionFingerprint :: "'a golib_scheme \<Rightarrow> decision_event \<Rightarrow> string result" where
  "DecisionFingerprint L ev0 =
     (let ev = utcEvent ev0; p = dv_payload ev in
      if \<not> time_marshals (dv_occurred_at ev)
      then Inl (errorf ''encode normalized decision event'' marshal_time_error)
      else if \<not> is_finite (dp_model_probability p) \<or> \<not> is_finite (dp_model_review_threshold p)
      then Inl (errorf ''encode normalized decision event'' (Msg ''json: unsupported value''))
      else if \<not> time_marshals (dp_decision_at p) \<or> \<not> time_marshals (fs_decision_at (dp_features p))
      then Inl (errorf ''encode normalized decision event'' marshal_time_error)
      else Inr (digest_hex (sha256 L (json_text (event_json L ev)))))"

section \<open>What an accepted event satisfies\<close>

definition decision_uuid :: "string \<Rightarrow> bool" where
  "decision_uuid s \<longleftrightarrow> hyphens_at s \<and> hex_decodes (filter (\<lambda>c. c \<noteq> CHR ''-'') s) \<and> map ascii_lower s = s"

definition event_uuids :: "decision_event \<Rightarrow> string list" where
  "event_uuids ev =
     [dv_event_id ev, dv_aggregate_id ev, dv_trace_id ev, dp_decision_id (dv_payload ev),
      dp_payment_id (dv_payload ev), dp_source_event_id (dv_payload ev)]"

definition valid_version :: "string \<Rightarrow> bool" where
  "valid_version s \<longleftrightarrow> s \<noteq> [] \<and> length s \<le> 255"

definition event_contract :: "decision_event \<Rightarrow> bool" where
  "event_contract ev \<longleftrightarrow>
     (let p = dv_payload ev; f = dp_features p in
      list_all decision_uuid (event_uuids ev)
      \<and> dv_event_type ev = ''risk.decision.completed'' \<and> dv_schema_version ev = 2
      \<and> dv_event_id ev = dp_decision_id p \<and> dv_aggregate_id ev = dp_payment_id p
      \<and> \<not> is_zero_time (dv_occurred_at ev) \<and> zone (dv_occurred_at ev) = 0
      \<and> dp_decision_at p = dv_occurred_at ev \<and> fs_decision_at f = dv_occurred_at ev
      \<and> dp_decision p \<in> {''ALLOW'', ''REVIEW'', ''BLOCK''}
      \<and> score (dp_risk_score p) \<and> score (dp_rule_score p) \<and> score (dp_model_score p)
      \<and> unit_interval (dp_model_probability p) \<and> open_interval (dp_model_review_threshold p)
      \<and> dp_reason_codes p \<noteq> [] \<and> list_all validReasonCode (dp_reason_codes p)
      \<and> valid_version (dp_rule_version p) \<and> valid_version (dp_model_version p)
      \<and> 1 \<le> fs_velocity_5m f \<and> upper_letters 2 (fs_baseline_country f))"

text \<open>The fields after the identifiers are normalised.\<close>

definition lower_trimmed :: "string \<Rightarrow> string" where
  "lower_trimmed s = map ascii_lower (trim_space s)"

definition normalForm :: "decision_event \<Rightarrow> decision_event" where
  "normalForm ev =
     (let p = dv_payload ev in
      utcEvent (trimEvent
        (ev\<lparr>dv_event_id := lower_trimmed (dv_event_id ev),
            dv_aggregate_id := lower_trimmed (dv_aggregate_id ev),
            dv_trace_id := lower_trimmed (dv_trace_id ev),
            dv_payload := p\<lparr>dp_decision_id := lower_trimmed (dp_decision_id p),
                            dp_payment_id := lower_trimmed (dp_payment_id p),
                            dp_source_event_id := lower_trimmed (dp_source_event_id p)\<rparr>\<rparr>)))"

lemma ascii_lower_idem [simp]: "ascii_lower (ascii_lower c) = ascii_lower c"
  by (auto simp: ascii_lower_def byte_def)

lemma ascii_lower_hyphen: "ascii_lower c = CHR ''-'' \<longleftrightarrow> c = CHR ''-''"
proof -
  have "byte (ascii_lower c) = 45 \<longleftrightarrow> byte c = 45"
    by (auto simp: ascii_lower_def byte_def)
  moreover have "byte x = 45 \<longleftrightarrow> x = CHR ''-''" for x
  proof -
    have "byte CHR ''-'' = 45" by (simp add: byte_def)
    then show ?thesis by (metis byte_def char_of_char)
  qed
  ultimately show ?thesis by simp
qed

lemma is_hex_lower: "is_hex (ascii_lower c) \<longleftrightarrow> is_hex c"
  by (auto simp: is_hex_def ascii_lower_def byte_def)

lemma filter_hyphen_lower:
  "filter (\<lambda>c. c \<noteq> CHR ''-'') (map ascii_lower s) = map ascii_lower (filter (\<lambda>c. c \<noteq> CHR ''-'') s)"
  by (induction s) (simp_all add: ascii_lower_hyphen)

lemma hyphens_lower: "hyphens_at (map ascii_lower s) \<longleftrightarrow> hyphens_at s"
  by (auto simp: hyphens_at_def ascii_lower_hyphen)

lemma hex_decodes_lower: "hex_decodes (map ascii_lower s) \<longleftrightarrow> hex_decodes s"
  by (simp add: hex_decodes_def list_all_iff is_hex_lower)

lemma normalizeUUID_eq:
  "normalizeUUID raw =
     (if decision_uuid (lower_trimmed raw) then Inr (lower_trimmed raw) else Inl (Msg ''must be a UUID''))"
  by (auto simp: normalizeUUID_def decision_uuid_def lower_trimmed_def Let_def hyphens_lower
      filter_hyphen_lower hex_decodes_lower)

lemma labelled_Inr: "labelled name r = Inr x \<longleftrightarrow> r = Inr x"
  by (auto simp: labelled_def split: sum.splits)

lemma normalizeUUID_Inr: "normalizeUUID raw = Inr u \<longleftrightarrow> u = lower_trimmed raw \<and> decision_uuid u"
  by (auto simp: normalizeUUID_eq)

lemma validCountry_iff: "validCountry v \<longleftrightarrow> upper_letters 2 v"
proof (cases "length v = 2")
  case True
  then obtain a b where "v = [a, b]" by (auto simp: length_Suc_conv numeral_2_eq_2)
  then show ?thesis by (simp add: validCountry_def upper_letters_def)
qed (simp add: validCountry_def upper_letters_def)

lemma find_fst_None: "List.find fst xs = None \<longleftrightarrow> (\<forall>x \<in> set xs. \<not> fst x)"
  by (induction xs) auto

lemma find_None_all: "List.find (\<lambda>r. \<not> p r) xs = None \<longleftrightarrow> list_all p xs"
  by (induction xs) auto

lemma normalizeIdentifiers_Inr:
  "normalizeIdentifiers ev = Inr ev1 \<longleftrightarrow>
     list_all decision_uuid (map lower_trimmed (event_uuids ev))
     \<and> ev1 = ev\<lparr>dv_event_id := lower_trimmed (dv_event_id ev),
            dv_aggregate_id := lower_trimmed (dv_aggregate_id ev),
            dv_trace_id := lower_trimmed (dv_trace_id ev),
            dv_payload := (dv_payload ev)\<lparr>dp_decision_id := lower_trimmed (dp_decision_id (dv_payload ev)),
                            dp_payment_id := lower_trimmed (dp_payment_id (dv_payload ev)),
                            dp_source_event_id := lower_trimmed (dp_source_event_id (dv_payload ev))\<rparr>\<rparr>"
  by (auto simp: normalizeIdentifiers_def Let_def labelled_def normalizeUUID_eq event_uuids_def
      split: sum.splits if_splits)

lemma normalForm_fields [simp]:
  "event_uuids (normalForm ev) = map lower_trimmed (event_uuids ev)"
  "dv_event_id (normalForm ev) = lower_trimmed (dv_event_id ev)"
  "dv_event_type (normalForm ev) = trim_space (dv_event_type ev)"
  "dv_aggregate_id (normalForm ev) = lower_trimmed (dv_aggregate_id ev)"
  "dv_schema_version (normalForm ev) = dv_schema_version ev"
  "dv_occurred_at (normalForm ev) = utc (dv_occurred_at ev)"
  "dp_decision_at (dv_payload (normalForm ev)) = utc (dp_decision_at (dv_payload ev))"
  "fs_decision_at (dp_features (dv_payload (normalForm ev))) = utc (fs_decision_at (dp_features (dv_payload ev)))"
  by (simp_all add: normalForm_def event_uuids_def utcEvent_def trimEvent_def Let_def)

lemma no_failures_iff:
  "List.find fst (event_failures ev) = None
   \<and> List.find (\<lambda>r. \<not> validReasonCode r) (dp_reason_codes (dv_payload ev)) = None
   \<and> list_all decision_uuid (event_uuids ev)
   \<longleftrightarrow> event_contract (utcEvent ev)"
proof -
  have u: "event_uuids (utcEvent ev) = event_uuids ev"
    by (simp add: event_uuids_def utcEvent_def Let_def)
  have t: "utc a = utc b \<longleftrightarrow> time_equal b a" for a b :: gtime
    by (auto simp: utc_eq_iff time_equal_def)
  show ?thesis
    unfolding find_fst_None find_None_all event_contract_def Let_def u
    by (auto simp: event_failures_def Let_def utcEvent_def t is_zero_time_def time_equal_def
        EventTypeRiskDecisionCompleted_def DecisionSchemaVersion_def validDecision_def DecisionAllow_def
        DecisionReview_def DecisionBlock_def validScore_def score_def valid_version_def validCountry_iff)
qed

lemma normalizeAndValidate_Inr:
  "normalizeAndValidate L ev0 = Inr ev \<longleftrightarrow> ev = normalForm ev0 \<and> event_contract ev"
proof (cases "normalizeIdentifiers ev0")
  case (Inl e)
  then have "\<not> list_all decision_uuid (map lower_trimmed (event_uuids ev0))"
    using normalizeIdentifiers_Inr [of ev0] by (metis sum.distinct(1))
  then have "\<not> event_contract (normalForm ev0)" by (simp add: event_contract_def Let_def)
  with Inl show ?thesis by (auto simp: normalizeAndValidate_def)
next
  case (Inr ev1)
  then have e: "normalForm ev0 = utcEvent (trimEvent ev1)"
    and u: "list_all decision_uuid (map lower_trimmed (event_uuids ev0))"
    unfolding normalizeIdentifiers_Inr by (simp_all add: normalForm_def Let_def)
  have "event_uuids (trimEvent ev1) = map lower_trimmed (event_uuids ev0)"
    using Inr unfolding normalizeIdentifiers_Inr by (simp add: event_uuids_def trimEvent_def Let_def)
  with u have "list_all decision_uuid (event_uuids (trimEvent ev1))" by simp
  with no_failures_iff [of "trimEvent ev1"] show ?thesis
    unfolding e using Inr
    by (auto simp: normalizeAndValidate_def Let_def split: option.splits)
qed

section \<open>Properties\<close>

text \<open>
  C22: \<open>ParseEvent\<close> on every input.  It accepts a record exactly when all required fields are
  present, the strict decoder accepts it, and the normal form of the decoded event satisfies
  the contract of schema version 2; it then returns that normal form.  Every refusal is an
  error that \<open>errors.Is\<close> recognises as \<open>ErrInvalidEvent\<close> and as nothing else.
\<close>

theorem ParseEvent_spec:
  "case ParseEvent L value of
     Inr ev \<Rightarrow> requireEventFields L value = None
        \<and> (\<exists>raw. decode_event L value = Some raw \<and> ev = normalForm raw) \<and> event_contract ev
   | Inl e \<Rightarrow> (\<forall>s. errors_is e s \<longleftrightarrow> s = ErrInvalidEvent)
        \<and> \<not> (requireEventFields L value = None
             \<and> (\<exists>raw. decode_event L value = Some raw \<and> event_contract (normalForm raw)))"
proof (cases "requireEventFields L value")
  case None
  show ?thesis
  proof (cases "decode_event L value")
    case (Some raw)
    show ?thesis
    proof (cases "normalizeAndValidate L raw")
      case (Inl e)
      then have "\<not> event_contract (normalForm raw)"
        using normalizeAndValidate_Inr [of L raw "normalForm raw"] by simp
      with Inl show ?thesis using None Some by (auto simp: ParseEvent_def invalid_event_def)
    next
      case (Inr ev)
      then have e: "ev = normalForm raw" "event_contract ev" using normalizeAndValidate_Inr by blast+
      from Inr have "ParseEvent L value = Inr ev" using None Some by (simp add: ParseEvent_def)
      then show ?thesis using None Some e by (simp only: sum.case) blast
    qed
  qed (use None in \<open>auto simp: ParseEvent_def invalid_event_def\<close>)
qed (auto simp: ParseEvent_def invalid_event_def)

text \<open>
  \<open>normalizeUUID\<close> returns the trimmed lowercase text when it has hyphens in the four UUID
  positions and an even number of hexadecimal digits besides hyphens; that text is a UUID for
  PostgreSQL exactly when 32 digits remain, which \<open>normalizeUUID\<close> does not check.
\<close>

theorem normalizeUUID_spec:
  "case normalizeUUID raw of
     Inr u \<Rightarrow> u = map ascii_lower (trim_space raw) \<and> hyphens_at u
       \<and> (uuid_in u = Some u \<longleftrightarrow> length (filter (\<lambda>c. c \<noteq> CHR ''-'') u) = 32)
       \<and> (uuid_in u = None \<longleftrightarrow> length (filter (\<lambda>c. c \<noteq> CHR ''-'') u) \<noteq> 32)
   | Inl e \<Rightarrow> uuid_in (trim_space raw) = None"
proof (cases "decision_uuid (lower_trimmed raw)")
  case True
  let ?u = "lower_trimmed raw"
  have u: "hyphens_at ?u" "list_all is_hex (filter (\<lambda>c. c \<noteq> CHR ''-'') ?u)" "map ascii_lower ?u = ?u"
    using True by (simp_all add: decision_uuid_def hex_decodes_def)
  have "length (filter (\<lambda>c. c \<noteq> CHR ''-'') ?u) = 32 \<longleftrightarrow> list_all is_hex (uuid_hex ?u)"
    using compact_hex_iff [OF u(1)] u(2) by simp
  with u True show ?thesis
    by (auto simp: normalizeUUID_eq uuid_in_def lower_trimmed_def)
next
  case False
  have "uuid_in (trim_space raw) = None"
  proof (rule ccontr)
    let ?t = "trim_space raw"
    assume "uuid_in ?t \<noteq> None"
    then have h: "hyphens_at ?t" "list_all is_hex (uuid_hex ?t)" by (auto simp: uuid_in_def split: if_splits)
    with compact_hex_iff [OF h(1)] have "hex_decodes (filter (\<lambda>c. c \<noteq> CHR ''-'') ?t)"
      by (simp add: hex_decodes_def)
    with h(1) have "decision_uuid (lower_trimmed raw)"
      by (simp add: decision_uuid_def lower_trimmed_def hyphens_lower filter_hyphen_lower hex_decodes_lower)
    with False show False by simp
  qed
  with False show ?thesis by (simp add: normalizeUUID_eq)
qed

end
