(* ===== verification/Decision_Store.thy ===== *)
theory Decision_Store
  imports Decision_Event
begin

text \<open>
  decision/postgres_store.go and decision/store.go: \<open>Apply\<close> makes a decision, the payment's
  status, the audit event, the review queue entry and the Kafka ingestion receipt one
  transaction; \<open>Reject\<close> records a refused record.  Statements are numbered in program order.
\<close>

section \<open>Data\<close>

text \<open>A record from Kafka; a value that is nil (a tombstone) is \<open>None\<close>.\<close>

record source_record =
  sr_topic :: string
  sr_partition :: int
  sr_offset :: int
  sr_leader_epoch :: int
  sr_lag :: int
  sr_value :: "string option"

record apply_result =
  ar_applied :: bool
  ar_replayed :: bool

definition record_value :: "source_record \<Rightarrow> string" where
  "record_value r = (case sr_value r of None \<Rightarrow> [] | Some v \<Rightarrow> v)"

definition dispositionApplied :: string where "dispositionApplied = ''APPLIED''"
definition dispositionReplayed :: string where "dispositionReplayed = ''REPLAYED''"
definition dispositionRejected :: string where "dispositionRejected = ''REJECTED''"

definition validateSourceRecord :: "source_record \<Rightarrow> go_error option" where
  "validateSourceRecord r =
     (let topic = trim_space (sr_topic r) in
      if topic = [] \<or> 249 < length topic
        then Some (Msg ''Kafka source topic must contain 1-249 characters'')
      else if sr_partition r < 0 then Some (Msg ''Kafka source partition must be non-negative'')
      else if sr_offset r < 0 then Some (Msg ''Kafka source offset must be non-negative'')
      else None)"

definition recordSHA256 :: "'a golib_scheme \<Rightarrow> string \<Rightarrow> string" where
  "recordSHA256 L v = digest_hex (sha256 L v)"

definition paymentStatusForDecision :: "'a golib_scheme \<Rightarrow> string \<Rightarrow> string result" where
  "paymentStatusForDecision L v =
     (if v = DecisionAllow then Inr ''ALLOWED''
      else if v = DecisionReview then Inr ''REVIEW''
      else if v = DecisionBlock then Inr ''BLOCKED''
      else Inl (Wrapf [] (Sentinel ErrInvalidEvent) ('': unsupported decision '' @ go_quote L v)))"

definition validRejectionCode :: "string \<Rightarrow> bool" where
  "validRejectionCode v \<longleftrightarrow>
     v \<in> {''invalid_event'', ''payment_not_found'', ''decision_conflict'', ''payment_state_conflict''}"

section \<open>Receipts\<close>

definition record_coordinate :: "source_record \<Rightarrow> string \<times> int \<times> int" where
  "record_coordinate r = (sr_topic r, sr_partition r, sr_offset r)"

text \<open>\<open>existingReceipt\<close>: the disposition, or \<open>None\<close> where no receipt was found.\<close>

definition existingReceipt ::
    "'a golib_scheme \<Rightarrow> pg_env \<Rightarrow> nat \<Rightarrow> source_record \<Rightarrow> string \<Rightarrow> db \<Rightarrow> string option result" where
  "existingReceipt L env k r digest d =
     (case statement env k
             (if pg_text (sr_topic r) then Inr (fetch coordinate (record_coordinate r) (t_receipts d))
              else Inl (constraint_error ''source_topic'')) of
        Inl e \<Rightarrow> Inl (errorf ''load decision ingestion receipt'' e)
      | Inr None \<Rightarrow> Inr None
      | Inr (Some row) \<Rightarrow>
          if ir_record_sha256 row \<noteq> digest
          then Inl (Wrapf [] (Sentinel ErrSourceRecordConflict)
                      '': coordinate already contains a different value'')
          else if ir_disposition row \<noteq> dispositionApplied \<and> ir_disposition row \<noteq> dispositionReplayed
                  \<and> ir_disposition row \<noteq> dispositionRejected
          then Inl (Wrapf [] (Sentinel ErrSourceRecordConflict)
                      ('': unsupported stored disposition '' @ go_quote L (ir_disposition row)))
          else Inr (Some (ir_disposition row)))"

definition receipt_row_of ::
    "gtime \<Rightarrow> source_record \<Rightarrow> string \<Rightarrow> string \<Rightarrow> string \<Rightarrow> string \<Rightarrow> receipt_row" where
  "receipt_row_of now r digest eid pid disposition =
     \<lparr>ir_topic = sr_topic r, ir_partition = sr_partition r, ir_offset = sr_offset r,
      ir_record_sha256 = digest, ir_event_id = Some eid, ir_payment_id = Some pid,
      ir_disposition = disposition, ir_error_code = None, ir_error_message = None,
      ir_rejected_value = None, ir_recorded_at = timestamptz now\<rparr>"

definition insertReceipt ::
    "'a golib_scheme \<Rightarrow> pg_env \<Rightarrow> nat \<Rightarrow> source_record \<Rightarrow> string \<Rightarrow> decision_event \<Rightarrow> string
     \<Rightarrow> db \<Rightarrow> db result" where
  "insertReceipt L env k r digest ev disposition d =
     (case statement env k
             (case (uuid_in (dv_event_id ev), uuid_in (dp_payment_id (dv_payload ev))) of
                (Some eid, Some pid) \<Rightarrow>
                  insert_receipt_or_skip (receipt_row_of (pg_clock env k) r digest eid pid disposition) d
              | _ \<Rightarrow> Inl (constraint_error ''event_id'')) of
        Inl e \<Rightarrow> Inl (errorf ''insert decision ingestion receipt'' e)
      | Inr (n, d1) \<Rightarrow>
          if n = 1 then Inr d1
          else (case existingReceipt L env (Suc k) r digest d1 of
                  Inl e \<Rightarrow> Inl e
                | Inr None \<Rightarrow> Inl (Msg ''decision ingestion receipt conflict was not visible'')
                | Inr (Some disp) \<Rightarrow>
                    if disp = dispositionRejected
                    then Inl (Wrapf [] (Sentinel ErrSourceRecordConflict)
                                '': source record was already rejected'')
                    else Inr d1))"

section \<open>Apply\<close>

definition decision_row_of ::
    "gtime \<Rightarrow> decision_event \<Rightarrow> string \<Rightarrow> decision_row option" where
  "decision_row_of now ev fingerprint =
     (let p = dv_payload ev; f = dp_features p in
      case (uuid_in (dp_decision_id p), uuid_in (dp_payment_id p), uuid_in (dp_source_event_id p),
            uuid_in (dv_trace_id ev)) of
        (Some di, Some pd, Some si, Some ti) \<Rightarrow>
          Some \<lparr>dr_decision_id = di, dr_payment_id = pd, dr_source_event_id = si, dr_trace_id = ti,
                dr_schema_version = dv_schema_version ev, dr_decision = dp_decision p,
                dr_risk_score = dp_risk_score p, dr_rule_score = dp_rule_score p,
                dr_model_score = dp_model_score p, dr_model_probability = dp_model_probability p,
                dr_model_review_threshold = dp_model_review_threshold p,
                dr_reason_codes = dp_reason_codes p, dr_rule_version = dp_rule_version p,
                dr_model_version = dp_model_version p, dr_velocity_5m = fs_velocity_5m f,
                dr_new_device = fs_new_device f, dr_cross_border = fs_cross_border f,
                dr_baseline_country = fs_baseline_country f,
                dr_decision_at = timestamptz (dp_decision_at p), dr_event_fingerprint = fingerprint,
                dr_recorded_at = timestamptz now\<rparr>
      | _ \<Rightarrow> None)"

text \<open>The audit details: \<open>json.Marshal\<close> of a map writes the keys in order.\<close>

definition decision_details :: "decision_event \<Rightarrow> string" where
  "decision_details ev =
     (let p = dv_payload ev in
      json_text (JObj
        [(''decision'', JStr (dp_decision p)), (''model_version'', JStr (dp_model_version p)),
         (''reason_codes'', JArr (map JStr (dp_reason_codes p))),
         (''risk_score'', JNum (show_int (dp_risk_score p))),
         (''rule_version'', JStr (dp_rule_version p)),
         (''source_event_id'', JStr (dp_source_event_id p)), (''trace_id'', JStr (dv_trace_id ev))]))"

definition insert_decision_audit ::
    "'a pglib_scheme \<Rightarrow> gtime \<Rightarrow> decision_event \<Rightarrow> db \<Rightarrow> db result" where
  "insert_decision_audit L now ev d =
     (let p = dv_payload ev in
      case (uuid_in (dp_decision_id p), uuid_in (dp_payment_id p), jsonb_column L (decision_details ev)) of
        (Some di, Some pd, Some j) \<Rightarrow>
          insert_audit
            \<lparr>au_id = di, au_aggregate_type = ''payment'', au_aggregate_id = pd,
             au_event_type = ''RISK_DECISION_RECORDED'', au_actor_type = ''SYSTEM'',
             au_actor_id = ''risk-decision-consumer'', au_decision_id = di,
             au_occurred_at = timestamptz (dp_decision_at p), au_details = j,
             au_recorded_at = timestamptz now\<rparr> d
      | _ \<Rightarrow> Inl (constraint_error ''audit_events''))"

definition enqueue_review :: "decision_event \<Rightarrow> db \<Rightarrow> db result" where
  "enqueue_review ev d =
     (let p = dv_payload ev in
      case (uuid_in (dp_payment_id p), uuid_in (dp_decision_id p)) of
        (Some pd, Some di) \<Rightarrow>
          insert_review
            \<lparr>rv_payment_id = pd, rv_decision_id = di, rv_status = ''PENDING'', rv_version = 1,
             rv_enqueued_at = timestamptz (dp_decision_at p), rv_resolved_at = None,
             rv_reviewer_id = None, rv_resolution_reason = None\<rparr> d
      | _ \<Rightarrow> Inl (constraint_error ''manual_review_queue''))"

text \<open>The part of \<open>Apply\<close> that writes a new decision, from the insert to the receipt.\<close>

definition write_decision ::
    "'a pglib_scheme \<Rightarrow> pg_env \<Rightarrow> decision_event \<Rightarrow> string \<Rightarrow> source_record \<Rightarrow> string \<Rightarrow> db \<Rightarrow> db result" where
  "write_decision L env ev fingerprint r digest d =
     (let p = dv_payload ev in
      case statement env 6
             (case decision_row_of (pg_clock env 6) ev fingerprint of
                None \<Rightarrow> Inl (constraint_error ''payment_decisions'')
              | Some row \<Rightarrow> insert_decision row d) of
        Inl e \<Rightarrow> Inl (errorf ''insert payment decision'' e)
      | Inr d1 \<Rightarrow>
     (case paymentStatusForDecision L (dp_decision p) of
        Inl e \<Rightarrow> Inl e
      | Inr status \<Rightarrow>
     (case statement env 7
             (case uuid_in (dp_payment_id p) of
                None \<Rightarrow> Inl (constraint_error ''payments'')
              | Some pid \<Rightarrow> Inr (set_payment_status pid ''PENDING_RISK'' status (pg_clock env 7) d1)) of
        Inl e \<Rightarrow> Inl (errorf ''update payment decision status'' e)
      | Inr (n, d2) \<Rightarrow>
          if n \<noteq> 1 then Inl (Sentinel ErrPaymentStateConflict)
          else
     (case statement env 8 (insert_decision_audit L (pg_clock env 8) ev d2) of
        Inl e \<Rightarrow> Inl (errorf ''insert decision audit event'' e)
      | Inr d3 \<Rightarrow>
     (case (if dp_decision p = DecisionReview then statement env 9 (enqueue_review ev d3) else Inr d3) of
        Inl e \<Rightarrow> Inl (errorf ''enqueue manual review'' e)
      | Inr d4 \<Rightarrow> insertReceipt L env 10 r digest ev dispositionApplied d4)))))"

definition applied :: apply_result where "applied = \<lparr>ar_applied = True, ar_replayed = False\<rparr>"
definition replayed :: apply_result where "replayed = \<lparr>ar_applied = False, ar_replayed = True\<rparr>"

definition Apply ::
    "'a pglib_scheme \<Rightarrow> pg_env \<Rightarrow> decision_event \<Rightarrow> source_record \<Rightarrow> db \<Rightarrow> apply_result result \<times> db" where
  "Apply L env ev r d =
     (case validateSourceRecord r of Some e \<Rightarrow> (Inl e, d) | None \<Rightarrow>
     (case DecisionFingerprint L ev of Inl e \<Rightarrow> (Inl e, d) | Inr fingerprint \<Rightarrow>
     (let digest = recordSHA256 L (record_value r); p = dv_payload ev in
      case pg_begin env of
        Some e \<Rightarrow> (Inl (errorf ''begin decision transaction'' e), d)
      | None \<Rightarrow>
     (case existingReceipt L env 0 r digest d of
        Inl e \<Rightarrow> (Inl e, d)
      | Inr (Some disposition) \<Rightarrow>
          if disposition = dispositionRejected
          then (Inl (Wrapf [] (Sentinel ErrSourceRecordConflict) '': source record was already rejected''), d)
          else commit_tx env ''commit replayed ingestion receipt'' d d replayed
      | Inr None \<Rightarrow>
     (case statement env 1
             (case uuid_in (dp_payment_id p) of None \<Rightarrow> Inl (constraint_error ''id'')
              | Some pid \<Rightarrow> Inr (fetch pay_id pid (t_payments d))) of
        Inl e \<Rightarrow> (Inl (errorf ''lock decision payment'' e), d)
      | Inr None \<Rightarrow> (Inl (Sentinel ErrDecisionPaymentNotFound), d)
      | Inr (Some pay) \<Rightarrow>
     (case statement env 2
             (case uuid_in (dp_decision_id p) of None \<Rightarrow> Inl (constraint_error ''decision_id'')
              | Some did \<Rightarrow> Inr (fetch dr_decision_id did (t_decisions d))) of
        Inl e \<Rightarrow> (Inl (errorf ''load existing decision'' e), d)
      | Inr (Some stored) \<Rightarrow>
          if dr_event_fingerprint stored \<noteq> fingerprint then (Inl (Sentinel ErrDecisionConflict), d)
          else (case insertReceipt L env 3 r digest ev dispositionReplayed d of
                  Inl e \<Rightarrow> (Inl e, d)
                | Inr d1 \<Rightarrow> commit_tx env ''commit decision replay receipt'' d d1 replayed)
      | Inr None \<Rightarrow>
     (case statement env 5
             (case uuid_in (dp_source_event_id p) of None \<Rightarrow> Inl (constraint_error ''source_event_id'')
              | Some sid \<Rightarrow> Inr (fetch dr_source_event_id sid (t_decisions d))) of
        Inl e \<Rightarrow> (Inl (errorf ''check source event decision'' e), d)
      | Inr (Some other) \<Rightarrow>
          (Inl (Wrapf [] (Sentinel ErrDecisionConflict)
                 ('': source event already belongs to decision '' @ dr_decision_id other)), d)
      | Inr None \<Rightarrow>
          if pay_status pay \<noteq> ''PENDING_RISK''
          then (Inl (Wrapf [] (Sentinel ErrPaymentStateConflict) ('': current status is '' @ pay_status pay)), d)
          else (case write_decision L env ev fingerprint r digest d of
                  Inl e \<Rightarrow> (Inl e, d)
                | Inr d1 \<Rightarrow> commit_tx env ''commit payment decision'' d d1 applied))))))))"

text \<open>
  The same transaction in two parts, for the interleavings of Decision\<open>_\<close>Concurrent: up to the
  answer of \<open>existingReceipt\<close>, and from SELECT ... FOR UPDATE on, which waits for the row lock of
  the payment.  The first part ends the call, or leaves the fingerprint for the second.
\<close>

definition apply_check ::
    "'a pglib_scheme \<Rightarrow> pg_env \<Rightarrow> decision_event \<Rightarrow> source_record \<Rightarrow> db
     \<Rightarrow> (apply_result result \<times> db) + string" where
  "apply_check L env ev r d =
     (case validateSourceRecord r of Some e \<Rightarrow> Inl (Inl e, d) | None \<Rightarrow>
     (case DecisionFingerprint L ev of Inl e \<Rightarrow> Inl (Inl e, d) | Inr fingerprint \<Rightarrow>
     (let digest = recordSHA256 L (record_value r) in
      case pg_begin env of
        Some e \<Rightarrow> Inl (Inl (errorf ''begin decision transaction'' e), d)
      | None \<Rightarrow>
     (case existingReceipt L env 0 r digest d of
        Inl e \<Rightarrow> Inl (Inl e, d)
      | Inr (Some disposition) \<Rightarrow>
          if disposition = dispositionRejected
          then Inl (Inl (Wrapf [] (Sentinel ErrSourceRecordConflict) '': source record was already rejected''), d)
          else Inl (commit_tx env ''commit replayed ingestion receipt'' d d replayed)
      | Inr None \<Rightarrow> Inr fingerprint))))"

definition apply_locked ::
    "'a pglib_scheme \<Rightarrow> pg_env \<Rightarrow> decision_event \<Rightarrow> string \<Rightarrow> source_record \<Rightarrow> db
     \<Rightarrow> apply_result result \<times> db" where
  "apply_locked L env ev fingerprint r d =
     (let digest = recordSHA256 L (record_value r); p = dv_payload ev in
      case statement env 1
             (case uuid_in (dp_payment_id p) of None \<Rightarrow> Inl (constraint_error ''id'')
              | Some pid \<Rightarrow> Inr (fetch pay_id pid (t_payments d))) of
        Inl e \<Rightarrow> (Inl (errorf ''lock decision payment'' e), d)
      | Inr None \<Rightarrow> (Inl (Sentinel ErrDecisionPaymentNotFound), d)
      | Inr (Some pay) \<Rightarrow>
     (case statement env 2
             (case uuid_in (dp_decision_id p) of None \<Rightarrow> Inl (constraint_error ''decision_id'')
              | Some did \<Rightarrow> Inr (fetch dr_decision_id did (t_decisions d))) of
        Inl e \<Rightarrow> (Inl (errorf ''load existing decision'' e), d)
      | Inr (Some stored) \<Rightarrow>
          if dr_event_fingerprint stored \<noteq> fingerprint then (Inl (Sentinel ErrDecisionConflict), d)
          else (case insertReceipt L env 3 r digest ev dispositionReplayed d of
                  Inl e \<Rightarrow> (Inl e, d)
                | Inr d1 \<Rightarrow> commit_tx env ''commit decision replay receipt'' d d1 replayed)
      | Inr None \<Rightarrow>
     (case statement env 5
             (case uuid_in (dp_source_event_id p) of None \<Rightarrow> Inl (constraint_error ''source_event_id'')
              | Some sid \<Rightarrow> Inr (fetch dr_source_event_id sid (t_decisions d))) of
        Inl e \<Rightarrow> (Inl (errorf ''check source event decision'' e), d)
      | Inr (Some other) \<Rightarrow>
          (Inl (Wrapf [] (Sentinel ErrDecisionConflict)
                 ('': source event already belongs to decision '' @ dr_decision_id other)), d)
      | Inr None \<Rightarrow>
          if pay_status pay \<noteq> ''PENDING_RISK''
          then (Inl (Wrapf [] (Sentinel ErrPaymentStateConflict) ('': current status is '' @ pay_status pay)), d)
          else (case write_decision L env ev fingerprint r digest d of
                  Inl e \<Rightarrow> (Inl e, d)
                | Inr d1 \<Rightarrow> commit_tx env ''commit payment decision'' d d1 applied))))"

lemma Apply_parts:
  "Apply L env ev r d =
     (case apply_check L env ev r d of Inl x \<Rightarrow> x | Inr fingerprint \<Rightarrow> apply_locked L env ev fingerprint r d)"
  by (simp add: Apply_def apply_check_def apply_locked_def Let_def split: option.split sum.split)

section \<open>Reject\<close>

text \<open>\<open>strings.ToValidUTF8(s, "?")\<close>: a run of invalid bytes becomes one question mark.\<close>

function to_valid_utf8 :: "bool \<Rightarrow> string \<Rightarrow> string" where
  "to_valid_utf8 bad [] = []"
| "to_valid_utf8 bad (c # cs) =
     (let (r, w) = decode_rune (c # cs) in
      if r = rune_error \<and> w = 1
      then (if bad then [] else ''?'') @ to_valid_utf8 True cs
      else take w (c # cs) @ to_valid_utf8 False (drop (w - 1) cs))"
  by pat_completeness auto
termination
  by (relation "measure (length \<circ> snd)") auto

definition rejection_message :: "go_error \<Rightarrow> string" where
  "rejection_message e = left_chars 2000 (to_valid_utf8 False (error_text e))"

definition rejected_row ::
    "gtime \<Rightarrow> source_record \<Rightarrow> string \<Rightarrow> string \<Rightarrow> string \<Rightarrow> receipt_row" where
  "rejected_row now r digest code message =
     \<lparr>ir_topic = sr_topic r, ir_partition = sr_partition r, ir_offset = sr_offset r,
      ir_record_sha256 = digest, ir_event_id = None, ir_payment_id = None,
      ir_disposition = ''REJECTED'', ir_error_code = Some code, ir_error_message = Some message,
      ir_rejected_value = sr_value r, ir_recorded_at = timestamptz now\<rparr>"

definition Reject ::
    "'a golib_scheme \<Rightarrow> pg_env \<Rightarrow> source_record \<Rightarrow> string \<Rightarrow> go_error \<Rightarrow> db \<Rightarrow> unit result \<times> db" where
  "Reject L env r code rejection d =
     (case validateSourceRecord r of Some e \<Rightarrow> (Inl e, d) | None \<Rightarrow>
      if \<not> validRejectionCode code then (Inl (Msg ''unsupported decision rejection code''), d)
      else
     (let digest = recordSHA256 L (record_value r); message = rejection_message rejection in
      case pg_begin env of
        Some e \<Rightarrow> (Inl (errorf ''begin rejected decision transaction'' e), d)
      | None \<Rightarrow>
     (case existingReceipt L env 0 r digest d of
        Inl e \<Rightarrow> (Inl e, d)
      | Inr (Some disposition) \<Rightarrow>
          if disposition \<noteq> dispositionRejected
          then (Inl (Wrapf [] (Sentinel ErrSourceRecordConflict) '': source record was already accepted''), d)
          else commit_tx env ''commit rejected decision record'' d d ()
      | Inr None \<Rightarrow>
          (case statement env 1 (insert_receipt_row (rejected_row (pg_clock env 1) r digest code message) d) of
             Inl e \<Rightarrow> (Inl (errorf ''insert rejected decision record'' e), d)
           | Inr d1 \<Rightarrow> commit_tx env ''commit rejected decision record'' d d1 ()))))"

text \<open>\<open>Reject\<close> in two parts: up to the answer of \<open>existingReceipt\<close>, and the insert with COMMIT.\<close>

definition reject_check ::
    "'a golib_scheme \<Rightarrow> pg_env \<Rightarrow> source_record \<Rightarrow> string \<Rightarrow> db \<Rightarrow> (unit result \<times> db) option" where
  "reject_check L env r code d =
     (case validateSourceRecord r of Some e \<Rightarrow> Some (Inl e, d) | None \<Rightarrow>
      if \<not> validRejectionCode code then Some (Inl (Msg ''unsupported decision rejection code''), d)
      else
     (case pg_begin env of
        Some e \<Rightarrow> Some (Inl (errorf ''begin rejected decision transaction'' e), d)
      | None \<Rightarrow>
     (case existingReceipt L env 0 r (recordSHA256 L (record_value r)) d of
        Inl e \<Rightarrow> Some (Inl e, d)
      | Inr (Some disposition) \<Rightarrow>
          Some (if disposition \<noteq> dispositionRejected
                then (Inl (Wrapf [] (Sentinel ErrSourceRecordConflict) '': source record was already accepted''), d)
                else commit_tx env ''commit rejected decision record'' d d ())
      | Inr None \<Rightarrow> None)))"

definition reject_insert ::
    "'a golib_scheme \<Rightarrow> pg_env \<Rightarrow> source_record \<Rightarrow> string \<Rightarrow> go_error \<Rightarrow> db \<Rightarrow> unit result \<times> db" where
  "reject_insert L env r code rejection d =
     (case statement env 1
             (insert_receipt_row
               (rejected_row (pg_clock env 1) r (recordSHA256 L (record_value r)) code (rejection_message rejection)) d) of
        Inl e \<Rightarrow> (Inl (errorf ''insert rejected decision record'' e), d)
      | Inr d1 \<Rightarrow> commit_tx env ''commit rejected decision record'' d d1 ())"

lemma Reject_parts:
  "Reject L env r code rejection d =
     (case reject_check L env r code d of Some x \<Rightarrow> x | None \<Rightarrow> reject_insert L env r code rejection d)"
  by (simp add: Reject_def reject_check_def reject_insert_def Let_def split: option.split sum.split)

section \<open>Receipts\<close>

lemma existingReceipt_Some:
  "existingReceipt L env k r digest d = Inr (Some disp) \<Longrightarrow>
   \<exists>row. fetch coordinate (record_coordinate r) (t_receipts d) = Some row
     \<and> ir_record_sha256 row = digest \<and> ir_disposition row = disp"
  by (auto simp: existingReceipt_def statement_Inr split: sum.splits option.splits if_splits)

lemma existingReceipt_None:
  "existingReceipt L env k r digest d = Inr None \<Longrightarrow>
   fetch coordinate (record_coordinate r) (t_receipts d) = None"
  by (auto simp: existingReceipt_def statement_Inr split: sum.splits option.splits if_splits)

lemma coordinate_receipt [simp]:
  "coordinate (receipt_row_of now r digest eid pid disp) = record_coordinate r"
  "coordinate (rejected_row now r digest code message) = record_coordinate r"
  by (simp_all add: coordinate_def record_coordinate_def receipt_row_of_def rejected_row_def)

lemma insertReceipt_Inr:
  assumes "insertReceipt L env k r digest ev disp d = Inr d'"
    and "fetch coordinate (record_coordinate r) (t_receipts d) = None"
  obtains eid pid where "uuid_in (dv_event_id ev) = Some eid"
    and "uuid_in (dp_payment_id (dv_payload ev)) = Some pid"
    and "d' = d\<lparr>t_receipts := t_receipts d @ [receipt_row_of (pg_clock env k) r digest eid pid disp]\<rparr>"
    and "holds (receipt_checks d (receipt_row_of (pg_clock env k) r digest eid pid disp))"
proof -
  from assms(1) obtain n d1 where s: "statement env k
             (case (uuid_in (dv_event_id ev), uuid_in (dp_payment_id (dv_payload ev))) of
                (Some eid, Some pid) \<Rightarrow>
                  insert_receipt_or_skip (receipt_row_of (pg_clock env k) r digest eid pid disp) d
              | _ \<Rightarrow> Inl (constraint_error ''event_id'')) = Inr (n, d1)" (is "statement env k ?x = _")
    by (auto simp: insertReceipt_def split: sum.splits)
  then have x: "?x = Inr (n, d1)" by (simp add: statement_Inr)
  then obtain eid pid where u: "uuid_in (dv_event_id ev) = Some eid"
    "uuid_in (dp_payment_id (dv_payload ev)) = Some pid"
    and i: "insert_receipt_or_skip (receipt_row_of (pg_clock env k) r digest eid pid disp) d = Inr (n, d1)"
    by (auto split: option.splits)
  from i assms(2) have n: "n = 1"
    and d1: "d1 = d\<lparr>t_receipts := t_receipts d @ [receipt_row_of (pg_clock env k) r digest eid pid disp]\<rparr>"
    and h: "holds (receipt_checks d (receipt_row_of (pg_clock env k) r digest eid pid disp))"
    by (auto simp: insert_receipt_or_skip_def check_all_holds)
  have "d' = d1" using assms(1) s n by (auto simp: insertReceipt_def)
  with that u d1 h show thesis by blast
qed

text \<open>A receipt that another transaction has stored meanwhile is left as it is.\<close>

lemma insertReceipt_either:
  assumes "insertReceipt L env k r digest ev disp d = Inr d'"
  obtains (fresh) "fetch coordinate (record_coordinate r) (t_receipts d) = None"
  | (skipped) row where "fetch coordinate (record_coordinate r) (t_receipts d) = Some row"
      "ir_record_sha256 row = digest" "ir_disposition row \<noteq> ''REJECTED''" "d' = d"
proof (cases "fetch coordinate (record_coordinate r) (t_receipts d)")
  case (Some row0)
  from assms obtain n d1 where s: "statement env k
             (case (uuid_in (dv_event_id ev), uuid_in (dp_payment_id (dv_payload ev))) of
                (Some eid, Some pid) \<Rightarrow>
                  insert_receipt_or_skip (receipt_row_of (pg_clock env k) r digest eid pid disp) d
              | _ \<Rightarrow> Inl (constraint_error ''event_id'')) = Inr (n, d1)"
    by (auto simp: insertReceipt_def split: sum.splits)
  then have n: "n \<noteq> 1" "d1 = d"
    using Some by (auto simp: statement_Inr insert_receipt_or_skip_def check_all_holds split: option.splits if_splits)
  with assms s obtain disp' where e: "existingReceipt L env (Suc k) r digest d = Inr (Some disp')"
    and d': "disp' \<noteq> dispositionRejected" "d' = d"
    by (auto simp: insertReceipt_def split: sum.splits option.splits if_splits)
  from existingReceipt_Some [OF e] obtain row where
    "fetch coordinate (record_coordinate r) (t_receipts d) = Some row" "ir_record_sha256 row = digest"
    "ir_disposition row = disp'" by blast
  with d' skipped show thesis by (simp add: dispositionRejected_def)
qed (rule fresh)

lemma valid_insertReceipt:
  assumes "insertReceipt L env k r digest ev disp d = Inr d'"
    and "fetch coordinate (record_coordinate r) (t_receipts d) = None" and "valid_db d"
  shows "valid_db d'"
  using insertReceipt_Inr [OF assms(1,2)] valid_add_receipt assms(2,3) by (metis coordinate_receipt(1))

lemma insertReceipt_receipts:
  assumes "insertReceipt L env k r digest ev disp d = Inr d'"
  shows "(\<exists>new. d' = d\<lparr>t_receipts := t_receipts d @ new\<rparr>) \<and> (valid_db d \<longrightarrow> valid_db d')"
  using assms
proof (cases rule: insertReceipt_either)
  case fresh
  from insertReceipt_Inr [OF assms fresh] valid_insertReceipt [OF assms fresh] show ?thesis by metis
next
  case (skipped row)
  then show ?thesis by (auto intro: exI [of _ "[]"])
qed

section \<open>The effect of a new decision\<close>

definition pending_payment :: "string \<Rightarrow> payment \<Rightarrow> bool" where
  "pending_payment pid p \<longleftrightarrow> pay_id p = pid \<and> pay_status p = ''PENDING_RISK''"

text \<open>The statements of \<open>write_decision\<close>, each by what it adds.\<close>

lemma decision_row_uuids:
  "decision_row_of now ev fp = Some drow \<Longrightarrow>
     uuid_in (dp_payment_id (dv_payload ev)) = Some (dr_payment_id drow)
     \<and> uuid_in (dp_decision_id (dv_payload ev)) = Some (dr_decision_id drow)
     \<and> dr_decision_at drow = timestamptz (dp_decision_at (dv_payload ev))"
  by (auto simp: decision_row_of_def Let_def split: option.splits)

lemma insert_decision_Inr:
  "insert_decision drow d = Inr d1 \<Longrightarrow>
     d1 = d\<lparr>t_decisions := t_decisions d @ [drow]\<rparr> \<and> \<not> decision_exists d (dr_decision_id drow)"
  by (auto simp: insert_decision_def check_all_holds)

lemma set_status_pending:
  "set_payment_status pid ''PENDING_RISK'' status now d =
     (affected (pending_payment pid) (t_payments d),
      d\<lparr>t_payments := update_rows (pending_payment pid)
          (\<lambda>p. p\<lparr>pay_status := status, updated_at := timestamptz now\<rparr>) (t_payments d)\<rparr>)"
  by (simp add: set_payment_status_def Let_def pending_payment_def [abs_def])

lemma insert_decision_audit_Inr:
  assumes "insert_decision_audit L now ev d = Inr d1" and "uuid_in (dp_payment_id (dv_payload ev)) = Some pid"
    and "uuid_in (dp_decision_id (dv_payload ev)) = Some did"
  obtains arow where "insert_audit arow d = Inr d1" "d1 = d\<lparr>t_audits := t_audits d @ [arow]\<rparr>"
    "au_decision_id arow = did" "au_event_type arow = ''RISK_DECISION_RECORDED''" "au_aggregate_id arow = pid"
proof -
  from assms obtain arow where a: "insert_audit arow d = Inr d1" "au_decision_id arow = did"
      "au_event_type arow = ''RISK_DECISION_RECORDED''" "au_aggregate_id arow = pid"
    by (auto simp: insert_decision_audit_def Let_def split: option.splits)
  then have "d1 = d\<lparr>t_audits := t_audits d @ [arow]\<rparr>" by (simp add: insert_audit_def check_all_holds)
  from that [OF a(1) this a(2-4)] show thesis .
qed

definition queue_rows :: "decision_event \<Rightarrow> decision_row \<Rightarrow> review_row list" where
  "queue_rows ev drow =
     (if dp_decision (dv_payload ev) = ''REVIEW''
      then [\<lparr>rv_payment_id = dr_payment_id drow, rv_decision_id = dr_decision_id drow,
             rv_status = ''PENDING'', rv_version = 1,
             rv_enqueued_at = dr_decision_at drow, rv_resolved_at = None,
             rv_reviewer_id = None, rv_resolution_reason = None\<rparr>] else [])"

lemma enqueue_review_Inr:
  assumes "(if dp_decision (dv_payload ev) = DecisionReview then statement env 9 (enqueue_review ev d) else Inr d) = Inr d1"
    and "decision_row_of now ev fp = Some drow"
  shows "d1 = d\<lparr>t_reviews := t_reviews d @ queue_rows ev drow\<rparr> \<and> (valid_db d \<longrightarrow> valid_db d1)"
proof (cases "dp_decision (dv_payload ev) = ''REVIEW''")
  case True
  with assms(1) have "enqueue_review ev d = Inr d1" by (simp add: DecisionReview_def statement_Inr)
  with decision_row_uuids [OF assms(2)] obtain rv where "insert_review rv d = Inr d1" "queue_rows ev drow = [rv]"
    using True by (auto simp: enqueue_review_def Let_def queue_rows_def)
  then show ?thesis using valid_insert_review [of rv d d1] by (auto simp: insert_review_def check_all_holds)
next
  case False
  with assms(1) show ?thesis by (simp add: DecisionReview_def queue_rows_def)
qed

text \<open>Everything that \<open>write_decision\<close> does before the receipt.\<close>

lemma write_decision_tables:
  assumes "write_decision L env ev fp r digest d = Inr d'"
  obtains drow arow status d4 where
    "decision_row_of (pg_clock env 6) ev fp = Some drow"
    "paymentStatusForDecision L (dp_decision (dv_payload ev)) = Inr status"
    "affected (pending_payment (dr_payment_id drow)) (t_payments d) = 1"
    "\<not> decision_exists d (dr_decision_id drow)"
    "au_decision_id arow = dr_decision_id drow" "au_event_type arow = ''RISK_DECISION_RECORDED''"
    "au_aggregate_id arow = dr_payment_id drow"
    "d4 = d\<lparr>t_payments := update_rows (pending_payment (dr_payment_id drow))
               (\<lambda>p. p\<lparr>pay_status := status, updated_at := timestamptz (pg_clock env 7)\<rparr>) (t_payments d),
            t_decisions := t_decisions d @ [drow], t_audits := t_audits d @ [arow],
            t_reviews := t_reviews d @ queue_rows ev drow\<rparr>"
    "valid_db d \<Longrightarrow> valid_db d4"
    "insertReceipt L env 10 r digest ev dispositionApplied d4 = Inr d'"
proof -
  let ?p = "dv_payload ev"
  from assms obtain d1 status n d2 d3 d4 where
    1: "statement env 6 (case decision_row_of (pg_clock env 6) ev fp of
                None \<Rightarrow> Inl (constraint_error ''payment_decisions'')
              | Some row \<Rightarrow> insert_decision row d) = Inr d1"
    and st: "paymentStatusForDecision L (dp_decision ?p) = Inr status"
    and 2: "statement env 7 (case uuid_in (dp_payment_id ?p) of
                None \<Rightarrow> Inl (constraint_error ''payments'')
              | Some pid \<Rightarrow> Inr (set_payment_status pid ''PENDING_RISK'' status (pg_clock env 7) d1)) = Inr (n, d2)"
    and n: "n = 1"
    and 3: "statement env 8 (insert_decision_audit L (pg_clock env 8) ev d2) = Inr d3"
    and 4: "(if dp_decision ?p = DecisionReview then statement env 9 (enqueue_review ev d3) else Inr d3) = Inr d4"
    and 5: "insertReceipt L env 10 r digest ev dispositionApplied d4 = Inr d'"
    by (auto simp: write_decision_def Let_def split: sum.splits prod.splits if_splits)
  from 1 obtain drow where drow: "decision_row_of (pg_clock env 6) ev fp = Some drow"
    and i1: "insert_decision drow d = Inr d1" by (auto simp: statement_Inr split: option.splits)
  note u = decision_row_uuids [OF drow] and d1 = insert_decision_Inr [OF i1]
  from 2 u have s2: "set_payment_status (dr_payment_id drow) ''PENDING_RISK'' status (pg_clock env 7) d1 = (n, d2)"
    by (simp add: statement_Inr)
  with n d1 have aff: "affected (pending_payment (dr_payment_id drow)) (t_payments d) = 1"
    and d2: "d2 = d1\<lparr>t_payments := update_rows (pending_payment (dr_payment_id drow))
               (\<lambda>p. p\<lparr>pay_status := status, updated_at := timestamptz (pg_clock env 7)\<rparr>) (t_payments d)\<rparr>"
    by (auto simp: set_status_pending)
  have a3: "insert_decision_audit L (pg_clock env 8) ev d2 = Inr d3" using 3 by (simp add: statement_Inr)
  obtain arow where i3: "insert_audit arow d2 = Inr d3" and d3: "d3 = d2\<lparr>t_audits := t_audits d2 @ [arow]\<rparr>"
    and arow: "au_decision_id arow = dr_decision_id drow" "au_event_type arow = ''RISK_DECISION_RECORDED''"
      "au_aggregate_id arow = dr_payment_id drow"
    by (rule insert_decision_audit_Inr [OF a3 conjunct1 [OF u] conjunct1 [OF conjunct2 [OF u]]])
  note d4 = enqueue_review_Inr [OF 4 drow]
  have v: "valid_db d4" if v: "valid_db d"
  proof -
    have s: "status \<in> set payment_statuses"
      using st by (auto simp: paymentStatusForDecision_def payment_statuses_def split: if_splits)
    have "valid_db d2"
      using valid_set_payment_status [OF s valid_insert_decision [OF i1 v],
          of "dr_payment_id drow" "''PENDING_RISK''" "pg_clock env 7"] s2 by simp
    then show "valid_db d4" using d4 valid_insert_audit [OF i3] by blast
  qed
  show thesis
    by (rule that [OF drow st aff conjunct2 [OF d1] arow _ v 5]) (use d4 d1 in \<open>simp add: d3 d2\<close>)
qed

lemma write_decision_Inr:
  assumes "write_decision L env ev fp r digest d = Inr d'"
    and "fetch coordinate (record_coordinate r) (t_receipts d) = None"
  obtains drow arow rrow status revs where
    "decision_row_of (pg_clock env 6) ev fp = Some drow"
    "paymentStatusForDecision L (dp_decision (dv_payload ev)) = Inr status"
    "affected (pending_payment (dr_payment_id drow)) (t_payments d) = 1"
    "\<not> decision_exists d (dr_decision_id drow)"
    "revs = (if dp_decision (dv_payload ev) = ''REVIEW''
             then [\<lparr>rv_payment_id = dr_payment_id drow, rv_decision_id = dr_decision_id drow,
                    rv_status = ''PENDING'', rv_version = 1,
                    rv_enqueued_at = dr_decision_at drow, rv_resolved_at = None,
                    rv_reviewer_id = None, rv_resolution_reason = None\<rparr>] else [])"
    "au_decision_id arow = dr_decision_id drow" "au_event_type arow = ''RISK_DECISION_RECORDED''"
    "au_aggregate_id arow = dr_payment_id drow"
    "ir_disposition rrow = ''APPLIED''" "ir_event_id rrow = uuid_in (dv_event_id ev)"
    "coordinate rrow = record_coordinate r" "ir_record_sha256 rrow = digest"
    "d' = d\<lparr>t_payments := update_rows (pending_payment (dr_payment_id drow))
               (\<lambda>p. p\<lparr>pay_status := status, updated_at := timestamptz (pg_clock env 7)\<rparr>) (t_payments d),
            t_decisions := t_decisions d @ [drow], t_receipts := t_receipts d @ [rrow],
            t_audits := t_audits d @ [arow], t_reviews := t_reviews d @ revs\<rparr>"
    "valid_db d \<Longrightarrow> valid_db d'"
proof (rule write_decision_tables [OF assms(1)])
  fix drow arow status d4
  assume x: "decision_row_of (pg_clock env 6) ev fp = Some drow"
      "paymentStatusForDecision L (dp_decision (dv_payload ev)) = Inr status"
      "affected (pending_payment (dr_payment_id drow)) (t_payments d) = 1"
      "\<not> decision_exists d (dr_decision_id drow)"
      "au_decision_id arow = dr_decision_id drow" "au_event_type arow = ''RISK_DECISION_RECORDED''"
      "au_aggregate_id arow = dr_payment_id drow"
    and d4: "d4 = d\<lparr>t_payments := update_rows (pending_payment (dr_payment_id drow))
               (\<lambda>p. p\<lparr>pay_status := status, updated_at := timestamptz (pg_clock env 7)\<rparr>) (t_payments d),
            t_decisions := t_decisions d @ [drow], t_audits := t_audits d @ [arow],
            t_reviews := t_reviews d @ queue_rows ev drow\<rparr>"
    and v4: "valid_db d \<Longrightarrow> valid_db d4"
    and i: "insertReceipt L env 10 r digest ev dispositionApplied d4 = Inr d'"
  have fresh: "fetch coordinate (record_coordinate r) (t_receipts d4) = None" using assms(2) by (simp add: d4)
  from insertReceipt_Inr [OF i fresh] obtain eid pid where
    r5: "uuid_in (dv_event_id ev) = Some eid"
      "d' = d4\<lparr>t_receipts := t_receipts d4 @ [receipt_row_of (pg_clock env 10) r digest eid pid dispositionApplied]\<rparr>"
    by blast
  let ?rrow = "receipt_row_of (pg_clock env 10) r digest eid pid dispositionApplied"
  have "ir_disposition ?rrow = ''APPLIED''" "ir_event_id ?rrow = uuid_in (dv_event_id ev)"
    "coordinate ?rrow = record_coordinate r" "ir_record_sha256 ?rrow = digest"
    using r5(1) by (simp_all add: receipt_row_of_def dispositionApplied_def record_coordinate_def coordinate_def)
  from that [OF x(1-4) queue_rows_def x(5-7) this] show thesis
    using r5(2) v4 valid_insertReceipt [OF i fresh] by (simp add: d4)
qed

section \<open>What Apply does\<close>

lemma commit_same: "commit_tx env msg d d x = (res, d') \<Longrightarrow> d' = d \<and> (res = Inr x \<or> (\<exists>e. res = Inl e))"
  by (auto simp: commit_tx_def split: commit_outcome.splits)

lemma commit_cases:
  "commit_tx env msg d w x = (res, d') \<Longrightarrow>
   (d' = d \<and> (\<exists>e. res = Inl e)) \<or> (d' = w \<and> (res = Inr x \<or> (\<exists>e. res = Inl e)))"
  by (auto simp: commit_tx_def split: commit_outcome.splits)

text \<open>The two parts of \<open>Apply\<close>, by how they end.\<close>

lemma apply_check_cases:
  obtains (failed) e where "apply_check L env ev r d = Inl (Inl e, d)"
  | (seen) row res where "fetch coordinate (record_coordinate r) (t_receipts d) = Some row"
      "ir_record_sha256 row = recordSHA256 L (record_value r)" "ir_disposition row \<noteq> ''REJECTED''"
      "apply_check L env ev r d = Inl (res, d)" "res = Inr replayed \<or> (\<exists>e. res = Inl e)"
  | (free) fp where "fetch coordinate (record_coordinate r) (t_receipts d) = None"
      "DecisionFingerprint L ev = Inr fp" "apply_check L env ev r d = Inr fp"
proof (cases "validateSourceRecord r = None \<and> pg_begin env = None \<and> (\<exists>fp. DecisionFingerprint L ev = Inr fp)")
  case False
  then have "\<exists>e. apply_check L env ev r d = Inl (Inl e, d)"
    by (auto simp: apply_check_def Let_def split: option.splits sum.splits)
  with failed show thesis by blast
next
  case True
  then obtain fp where v: "validateSourceRecord r = None" "pg_begin env = None"
    and fp: "DecisionFingerprint L ev = Inr fp" by blast
  let ?dg = "recordSHA256 L (record_value r)"
  consider (bad) e where "existingReceipt L env 0 r ?dg d = Inl e"
    | (none) "existingReceipt L env 0 r ?dg d = Inr None"
    | (some) disp where "existingReceipt L env 0 r ?dg d = Inr (Some disp)"
    by (metis not_None_eq old.sum.exhaust)
  then show thesis
  proof cases
    case bad
    then show thesis using failed v fp by (simp add: apply_check_def Let_def)
  next
    case none
    from existingReceipt_None [OF none] show thesis
      using free [OF _ fp] v fp none by (simp add: apply_check_def Let_def)
  next
    case some
    from existingReceipt_Some [OF some] obtain row where
      row: "fetch coordinate (record_coordinate r) (t_receipts d) = Some row"
      "ir_record_sha256 row = ?dg" "ir_disposition row = disp" by blast
    obtain res d1 where c: "commit_tx env ''commit replayed ingestion receipt'' d d replayed = (res, d1)"
      by (cases "commit_tx env ''commit replayed ingestion receipt'' d d replayed")
    show thesis
    proof (cases "disp = dispositionRejected")
      case False
      with commit_same [OF c] row(3) seen [OF row(1,2), of res] show thesis
        using v fp some c by (simp add: apply_check_def Let_def dispositionRejected_def)
    qed (use failed v fp some in \<open>simp add: apply_check_def Let_def\<close>)
  qed
qed

lemma apply_locked_cases:
  assumes "apply_locked L env ev fp r d = (res, d')"
  obtains (failed) e where "res = Inl e" "d' = d"
  | (replay) did stored where "uuid_in (dp_decision_id (dv_payload ev)) = Some did"
      "fetch dr_decision_id did (t_decisions d) = Some stored" "dr_event_fingerprint stored = fp"
      "insertReceipt L env 3 r (recordSHA256 L (record_value r)) ev ''REPLAYED'' d = Inr d'"
      "res = Inr replayed \<or> (\<exists>e. res = Inl e)"
  | (new) "write_decision L env ev fp r (recordSHA256 L (record_value r)) d = Inr d'"
      "res = Inr applied \<or> (\<exists>e. res = Inl e)"
proof -
  let ?dg = "recordSHA256 L (record_value r)" and ?p = "dv_payload ev"
  obtain x1 where x1: "statement env 1 (case uuid_in (dp_payment_id ?p) of None \<Rightarrow> Inl (constraint_error ''id'')
          | Some pid \<Rightarrow> Inr (fetch pay_id pid (t_payments d))) = x1" by blast
  obtain x2 where x2: "statement env 2 (case uuid_in (dp_decision_id ?p) of None \<Rightarrow> Inl (constraint_error ''decision_id'')
          | Some did \<Rightarrow> Inr (fetch dr_decision_id did (t_decisions d))) = x2" by blast
  obtain x5 where x5: "statement env 5 (case uuid_in (dp_source_event_id ?p) of
            None \<Rightarrow> Inl (constraint_error ''source_event_id'')
          | Some sid \<Rightarrow> Inr (fetch dr_source_event_id sid (t_decisions d))) = x5" by blast
  note eq = assms [unfolded apply_locked_def Let_def x1 x2 x5]
  consider (stop) "\<exists>e. res = Inl e" "d' = d"
    | (stored) pay stored d1 where "x1 = Inr (Some pay)" "x2 = Inr (Some stored)" "dr_event_fingerprint stored = fp"
        "insertReceipt L env 3 r ?dg ev dispositionReplayed d = Inr d1"
        "commit_tx env ''commit decision replay receipt'' d d1 replayed = (res, d')"
    | (fresh) d1 where "write_decision L env ev fp r ?dg d = Inr d1"
        "commit_tx env ''commit payment decision'' d d1 applied = (res, d')"
    using eq by (auto split: option.splits sum.splits if_splits)
  then show thesis
  proof cases
    case stored
    from stored(2) x2 obtain did where did: "uuid_in (dp_decision_id ?p) = Some did"
      "fetch dr_decision_id did (t_decisions d) = Some stored" by (auto simp: statement_Inr split: option.splits)
    from commit_cases [OF stored(5)] show thesis
      using failed replay [OF did stored(3)] stored(4) by (auto simp: dispositionReplayed_def)
  next
    case fresh
    from commit_cases [OF fresh(2)] show thesis using failed new fresh(1) by auto
  qed (use failed in blast)
qed

lemma Apply_cases:
  assumes "Apply L env ev r d = (res, d')"
  obtains (failed) e where "res = Inl e" "d' = d"
  | (seen) row where "fetch coordinate (record_coordinate r) (t_receipts d) = Some row"
      "ir_record_sha256 row = recordSHA256 L (record_value r)" "ir_disposition row \<noteq> ''REJECTED''"
      "d' = d" "res = Inr replayed \<or> (\<exists>e. res = Inl e)"
  | (replay) did stored fp where "fetch coordinate (record_coordinate r) (t_receipts d) = None"
      "DecisionFingerprint L ev = Inr fp" "uuid_in (dp_decision_id (dv_payload ev)) = Some did"
      "fetch dr_decision_id did (t_decisions d) = Some stored" "dr_event_fingerprint stored = fp"
      "insertReceipt L env 3 r (recordSHA256 L (record_value r)) ev ''REPLAYED'' d = Inr d'"
      "res = Inr replayed \<or> (\<exists>e. res = Inl e)"
  | (new) fp where "fetch coordinate (record_coordinate r) (t_receipts d) = None"
      "DecisionFingerprint L ev = Inr fp"
      "write_decision L env ev fp r (recordSHA256 L (record_value r)) d = Inr d'"
      "res = Inr applied \<or> (\<exists>e. res = Inl e)"
proof (cases rule: apply_check_cases [of L env ev r d])
  case (failed e)
  with assms have "res = Inl e" "d' = d" by (simp_all add: Apply_parts)
  then show thesis by (rule that(1))
next
  case (seen row res0)
  then show thesis using assms that(2) [OF seen(1-3)] by (simp add: Apply_parts)
next
  case (free fp)
  with assms have "apply_locked L env ev fp r d = (res, d')" by (simp add: Apply_parts)
  then show thesis
    by (cases rule: apply_locked_cases) (use that(1) that(3) [OF free(1,2)] that(4) [OF free(1,2)] in blast)+
qed

lemma Apply_valid: "valid_db d \<Longrightarrow> valid_db (snd (Apply L env ev r d))"
proof -
  assume v: "valid_db d"
  obtain res d' where a: "Apply L env ev r d = (res, d')" by (cases "Apply L env ev r d")
  from a have "valid_db d'"
  proof (cases rule: Apply_cases)
    case (replay did stored fp)
    from valid_insertReceipt [OF replay(6,1) v] show ?thesis .
  next
    case (new fp)
    from write_decision_Inr [OF new(3,1)] v show ?thesis by metis
  qed (use v in simp_all)
  with a show ?thesis by simp
qed

section \<open>Events that the schema accepts\<close>

text \<open>
  What is asked for beyond the contract of \<open>ParseEvent\<close>: proper UUIDs, a velocity that fits an
  INTEGER, versions without a NUL character, and a time whose year in UTC is one that
  \<open>json.Marshal\<close> can write, 0 to 9999 (\<open>unwritable_time_blocks\<close> is about the others).
\<close>

definition storable_decision :: "decision_event \<Rightarrow> bool" where
  "storable_decision ev \<longleftrightarrow>
     event_contract ev \<and> time_marshals (dv_occurred_at ev) \<and> list_all canonical_uuid (event_uuids ev)
     \<and> int4 (fs_velocity_5m (dp_features (dv_payload ev)))
     \<and> pg_text (dp_rule_version (dv_payload ev)) \<and> not_blank (dp_rule_version (dv_payload ev))
     \<and> pg_text (dp_model_version (dv_payload ev)) \<and> not_blank (dp_model_version (dv_payload ev))"

lemma reason_byte: "reason_rune n \<Longrightarrow> 0 < n \<and> n < 128"
  by (auto simp: reason_rune_def)

lemma reason_plain: "validReasonCode s \<Longrightarrow> plain_text s"
proof -
  assume "validReasonCode s"
  then have "list_all (\<lambda>c. reason_rune (byte c)) s"
    using list_all_runes [of reason_rune s] reason_byte by (auto simp: validReasonCode_def)
  then show ?thesis using reason_byte by (auto simp: plain_text_def list_all_iff)
qed

lemma storable_uuids:
  assumes "storable_decision ev"
  shows "uuid_in (dv_event_id ev) = Some (dv_event_id ev)"
    "uuid_in (dv_trace_id ev) = Some (dv_trace_id ev)"
    "uuid_in (dp_decision_id (dv_payload ev)) = Some (dp_decision_id (dv_payload ev))"
    "uuid_in (dp_payment_id (dv_payload ev)) = Some (dp_payment_id (dv_payload ev))"
    "uuid_in (dp_source_event_id (dv_payload ev)) = Some (dp_source_event_id (dv_payload ev))"
  using assms by (simp_all add: storable_decision_def event_uuids_def uuid_in_of_canonical)

lemma storable_row:
  assumes "storable_decision ev"
  obtains row where "decision_row_of now ev fp = Some row"
    "dr_decision_id row = dp_decision_id (dv_payload ev)" "dr_payment_id row = dp_payment_id (dv_payload ev)"
    "dr_source_event_id row = dp_source_event_id (dv_payload ev)"
    "dr_decision row = dp_decision (dv_payload ev)" "dr_event_fingerprint row = fp"
    "payment_exists d (dp_payment_id (dv_payload ev)) \<Longrightarrow> hex64 fp \<Longrightarrow> holds (decision_checks d row)"
proof -
  let ?p = "dv_payload ev"
  obtain row where row: "decision_row_of now ev fp = Some row"
    using storable_uuids [OF assms] by (simp add: decision_row_of_def Let_def)
  have v: "varchar 255 s" if "pg_text s" "valid_version s" for s
    using that length_runes [of s] by (simp add: varchar_def valid_version_def rune_count_def)
  have c: "event_contract ev" using assms by (simp add: storable_decision_def)
  have "list_all pg_text (dp_reason_codes ?p)"
    using c by (auto simp: event_contract_def Let_def list_all_iff intro: plain_pg_text reason_plain)
  then have "holds (decision_checks d row)" if "payment_exists d (dp_payment_id ?p)" "hex64 fp"
    using assms row storable_uuids [OF assms] v that
    by (auto simp: storable_decision_def event_contract_def Let_def decision_row_of_def decision_checks_def)
  moreover have "dr_decision_id row = dp_decision_id ?p" "dr_payment_id row = dp_payment_id ?p"
    "dr_source_event_id row = dp_source_event_id ?p" "dr_decision row = dp_decision ?p"
    "dr_event_fingerprint row = fp"
    using row storable_uuids [OF assms] by (auto simp: decision_row_of_def Let_def)
  ultimately show thesis using that [OF row] by blast
qed

lemma details_accepted:
  assumes "storable_decision ev" and "jsonb_accepts L"
  shows "case jsonb_column L (decision_details ev) of None \<Rightarrow> False | Some t \<Rightarrow> json_object t"
proof -
  let ?p = "dv_payload ev"
  let ?ms = "[(''decision'', JStr (dp_decision ?p)), (''model_version'', JStr (dp_model_version ?p)),
         (''reason_codes'', JArr (map JStr (dp_reason_codes ?p))),
         (''risk_score'', JNum (show_int (dp_risk_score ?p))),
         (''rule_version'', JStr (dp_rule_version ?p)),
         (''source_event_id'', JStr (dp_source_event_id ?p)), (''trace_id'', JStr (dv_trace_id ev))]"
  have c: "event_contract ev" and u: "list_all canonical_uuid (event_uuids ev)"
    using assms(1) by (simp_all add: storable_decision_def)
  have k: "pg_text ''decision''" "pg_text ''model_version''" "pg_text ''reason_codes''"
    "pg_text ''risk_score''" "pg_text ''rule_version''" "pg_text ''source_event_id''" "pg_text ''trace_id''"
    by (simp_all add: plain_pg_text plain_text_def byte_def)
  have r: "plain_json (JArr (map JStr (dp_reason_codes ?p)))"
    using c by (auto simp: event_contract_def Let_def list_all_iff intro: plain_pg_text reason_plain)
  have t: "pg_text (dp_source_event_id ?p)" "pg_text (dv_trace_id ev)"
    using u by (auto simp: event_uuids_def intro: plain_pg_text canonical_plain)
  have d: "pg_text (dp_decision ?p)"
    using c by (auto simp: event_contract_def Let_def plain_pg_text plain_text_def byte_def)
  have i: "in_int64 (dp_risk_score ?p)"
    using c by (simp add: event_contract_def Let_def score_def in_int64_def)
  have v: "pg_text (dp_rule_version ?p)" "pg_text (dp_model_version ?p)"
    using assms(1) by (simp_all add: storable_decision_def)
  have "list_all (\<lambda>(k, v). pg_text k \<and> plain_json v) ?ms"
    using k r t d i v by (simp only: list.pred_inject case_prod_conv plain_json.simps parse_show_int option.case simp_thms)
  with assms(2) show ?thesis unfolding jsonb_accepts_def decision_details_def Let_def by blast
qed

text \<open>A topic, partition and offset that Kafka can deliver.\<close>

definition kafka_record :: "source_record \<Rightarrow> bool" where
  "kafka_record r \<longleftrightarrow>
     sr_topic r \<noteq> [] \<and> varchar 249 (sr_topic r) \<and> validateSourceRecord r = None
     \<and> int4 (sr_partition r) \<and> in_int64 (sr_offset r)"

lemma kafka_recordD:
  "kafka_record r \<Longrightarrow> pg_text (sr_topic r) \<and> 0 \<le> sr_partition r \<and> 0 \<le> sr_offset r"
  by (auto simp: kafka_record_def varchar_def validateSourceRecord_def Let_def split: if_splits)

lemma recordSHA256_hex: "digest_32 L \<Longrightarrow> hex64 (recordSHA256 L v)"
  by (simp add: recordSHA256_def digest_32_def digest_hex64)

lemma fingerprint_ok:
  "event_contract ev \<Longrightarrow> time_marshals (dv_occurred_at ev) \<Longrightarrow> digest_32 L \<Longrightarrow>
     \<exists>fp. DecisionFingerprint L ev = Inr fp \<and> hex64 fp"
  by (auto simp: DecisionFingerprint_def Let_def event_contract_def unit_interval_def open_interval_def
      is_finite_def utcEvent_def time_marshals_def digest_32_def digest_hex64 split: float64.splits)

lemma receipt_ok:
  assumes "kafka_record r" and "digest_32 L" and "payment_exists d pid"
    and "disp = ''APPLIED'' \<or> disp = ''REPLAYED''"
  shows "holds (receipt_checks d (receipt_row_of now r (recordSHA256 L v) eid pid disp))"
  using assms kafka_recordD [OF assms(1)] recordSHA256_hex [OF assms(2)]
  by (auto simp: receipt_checks_def receipt_row_of_def receipt_shape_def opt_all_def kafka_record_def)

lemma insertReceipt_ok:
  assumes "no_fault env" and "storable_decision ev" and "kafka_record r" and "digest_32 L"
    and "payment_exists d (dp_payment_id (dv_payload ev))"
    and "fetch coordinate (record_coordinate r) (t_receipts d) = None"
    and "disp = ''APPLIED'' \<or> disp = ''REPLAYED''"
  shows "insertReceipt L env k r (recordSHA256 L v) ev disp d =
    Inr (d\<lparr>t_receipts := t_receipts d @
      [receipt_row_of (pg_clock env k) r (recordSHA256 L v) (dv_event_id ev) (dp_payment_id (dv_payload ev)) disp]\<rparr>)"
  using receipt_ok [OF assms(3,4,5,7), of "pg_clock env k" v "dv_event_id ev"] assms(1,6)
  by (simp add: insertReceipt_def statement_no_fault storable_uuids [OF assms(2)] insert_receipt_or_skip_def
      check_all_cases(1))

end
