(* ===== verification/Json_Roundtrip.thy ===== *)
theory Json_Roundtrip
  imports Go_Json
begin

text \<open>
  The parser reads back what the encoder writes: \<open>json_parse (json_text v) = Some v\<close> for every
  value whose strings are valid UTF-8, whose numbers are JSON literals and whose nesting stays
  below the bound of \<open>encoding/json\<close>.
\<close>

section \<open>UTF-8\<close>

text \<open>A rune that decodes without an error is encoded by the bytes it was decoded from.\<close>

definition rune_ok :: "string \<Rightarrow> bool" where
  "rune_ok s \<longleftrightarrow> s \<noteq> [] \<and> \<not> (fst (decode_rune s) = rune_error \<and> snd (decode_rune s) = 1)"

lemma byte_bounds: "byte c < 256" by simp

lemma split_64: "b < 64 \<Longrightarrow> (a * 64 + b) div 64 = (a::nat)" "b < 64 \<Longrightarrow> (a * 64 + b) mod 64 = (b::nat)"
  by auto

lemma cont_byte_diff: "cont_byte b \<Longrightarrow> b - 0x80 < 64 \<and> 0x80 + (b - 0x80) = b"
  by (auto simp: cont_byte_def)

lemma second_ok_cont: "second_ok b0 b1 \<Longrightarrow> cont_byte b1"
  by (auto simp: second_ok_def cont_byte_def split: if_splits)

lemma encode_rune_3:
  assumes "0x800 \<le> r" "r < 0x10000" "\<not> (0xD800 \<le> r \<and> r \<le> 0xDFFF)"
    and "r div 4096 = x" "r div 64 mod 64 = y" "r mod 64 = z"
  shows "encode_rune r = [char_of (0xE0 + x), char_of (0x80 + y), char_of (0x80 + z)]"
proof -
  have "\<not> ((0xD800 \<le> r \<and> r \<le> 0xDFFF) \<or> 0x10FFFF < r)" using assms(2,3) by linarith
  moreover have "\<not> r < 0x80" "\<not> r < 0x800" using assms(1) by linarith+
  ultimately show ?thesis using assms(2,4-6) by (simp only: encode_rune_def Let_def if_False if_True)
qed

lemma encode_rune_4:
  assumes "0x10000 \<le> r" "r \<le> 0x10FFFF"
    and "r div 262144 = v" "r div 4096 mod 64 = x" "r div 64 mod 64 = y" "r mod 64 = z"
  shows "encode_rune r = [char_of (0xF0 + v), char_of (0x80 + x), char_of (0x80 + y), char_of (0x80 + z)]"
proof -
  have "\<not> ((0xD800 \<le> r \<and> r \<le> 0xDFFF) \<or> 0x10FFFF < r)" using assms(1,2) by linarith
  moreover have "\<not> r < 0x80" "\<not> r < 0x800" "\<not> r < 0x10000" using assms(1) by linarith+
  ultimately show ?thesis using assms(3-6) by (simp only: encode_rune_def Let_def if_False if_True)
qed

lemma encode_two:
  assumes "0xC2 \<le> b0" "b0 < 0xE0" "cont_byte b1"
  shows "encode_rune ((b0 - 0xC0) * 64 + (b1 - 0x80)) = [char_of b0, char_of b1]"
proof -
  let ?r = "(b0 - 0xC0) * 64 + (b1 - 0x80)"
  have b1: "b1 - 0x80 < 64" "0x80 + (b1 - 0x80) = b1" using cont_byte_diff [OF assms(3)] by auto
  have r: "0x80 \<le> ?r" "?r < 0x800" using assms(1,2) b1 by linarith+
  have "?r div 64 = b0 - 0xC0" "?r mod 64 = b1 - 0x80" using split_64 [OF b1(1)] by blast+
  with r b1 assms(1) show ?thesis by (simp add: encode_rune_def Let_def)
qed

lemma encode_three:
  assumes "0xE0 \<le> b0" "b0 < 0xF0" "second_ok b0 b1" "cont_byte b2"
  shows "encode_rune ((b0 - 0xE0) * 4096 + (b1 - 0x80) * 64 + (b2 - 0x80))
    = [char_of b0, char_of b1, char_of b2]"
proof -
  let ?r = "(b0 - 0xE0) * 4096 + (b1 - 0x80) * 64 + (b2 - 0x80)"
  have b1: "b1 - 0x80 < 64" "0x80 + (b1 - 0x80) = b1" using cont_byte_diff [OF second_ok_cont [OF assms(3)]] by auto
  have b2: "b2 - 0x80 < 64" "0x80 + (b2 - 0x80) = b2" using cont_byte_diff [OF assms(4)] by auto
  have e: "?r = ((b0 - 0xE0) * 64 + (b1 - 0x80)) * 64 + (b2 - 0x80)" by (simp add: algebra_simps)
  have lo: "0x800 \<le> ?r" using assms(1,3) by (cases "b0 = 0xE0") (auto simp: second_ok_def)
  have hi: "?r < 0x10000" using assms(1,2) b1 b2 by linarith
  have "\<not> (0xD800 \<le> ?r \<and> ?r \<le> 0xDFFF)"
  proof (cases "b0 = 0xED")
    case True
    then show ?thesis using assms(3) b2 by (auto simp: second_ok_def)
  next
    case False
    then consider "b0 \<le> 0xEC" | "0xEE \<le> b0" by linarith
    then show ?thesis using b1 b2 by cases linarith+
  qed
  moreover have "?r div 64 = (b0 - 0xE0) * 64 + (b1 - 0x80)" "?r mod 64 = b2 - 0x80"
    unfolding e using split_64 [OF b2(1)] by blast+
  moreover have "?r div 4096 = b0 - 0xE0"
  proof -
    have "?r div 4096 = ?r div 64 div 64" by (simp add: div_mult2_eq [symmetric])
    then show ?thesis by (simp only: \<open>?r div 64 = _\<close> split_64(1) [OF b1(1)])
  qed
  moreover have "?r div 64 mod 64 = b1 - 0x80" 
    by (simp only: \<open>?r div 64 = _\<close> split_64(2) [OF b1(1)])
  ultimately have "encode_rune ?r = [char_of (0xE0 + (b0 - 0xE0)), char_of (0x80 + (b1 - 0x80)), char_of (0x80 + (b2 - 0x80))]"
    using lo hi by (intro encode_rune_3) assumption+
  moreover have "0xE0 + (b0 - 0xE0) = b0" using assms(1) by simp
  ultimately show ?thesis by (simp only: b1(2) b2(2))
qed

lemma encode_four:
  assumes "0xF0 \<le> b0" "b0 \<le> 0xF4" "second_ok b0 b1" "cont_byte b2" "cont_byte b3"
  shows "encode_rune ((b0 - 0xF0) * 262144 + (b1 - 0x80) * 4096 + (b2 - 0x80) * 64 + (b3 - 0x80))
    = [char_of b0, char_of b1, char_of b2, char_of b3]"
proof -
  let ?h = "((b0 - 0xF0) * 64 + (b1 - 0x80)) * 64 + (b2 - 0x80)"
  let ?r = "(b0 - 0xF0) * 262144 + (b1 - 0x80) * 4096 + (b2 - 0x80) * 64 + (b3 - 0x80)"
  have b1: "b1 - 0x80 < 64" "0x80 + (b1 - 0x80) = b1" using cont_byte_diff [OF second_ok_cont [OF assms(3)]] by auto
  have b2: "b2 - 0x80 < 64" "0x80 + (b2 - 0x80) = b2" using cont_byte_diff [OF assms(4)] by auto
  have b3: "b3 - 0x80 < 64" "0x80 + (b3 - 0x80) = b3" using cont_byte_diff [OF assms(5)] by auto
  have e: "?r = ?h * 64 + (b3 - 0x80)" by (simp add: algebra_simps)
  have lo: "0x10000 \<le> ?r" using assms(1,3) by (cases "b0 = 0xF0") (auto simp: second_ok_def)
  have hi: "?r \<le> 0x10FFFF"
  proof (cases "b0 = 0xF4")
    case True
    then show ?thesis using assms(3) b2 b3 by (auto simp: second_ok_def)
  next
    case False
    then have "b0 - 0xF0 \<le> 3" using assms(2) by linarith
    then show ?thesis using b1(1) b2(1) b3(1) by linarith
  qed
  have d1: "?r div 64 = ?h" "?r mod 64 = b3 - 0x80" unfolding e using split_64 [OF b3(1)] by blast+
  have d2: "?h div 64 = (b0 - 0xF0) * 64 + (b1 - 0x80)" "?h mod 64 = b2 - 0x80" using split_64 [OF b2(1)] by blast+
  have d3: "((b0 - 0xF0) * 64 + (b1 - 0x80)) div 64 = b0 - 0xF0" "((b0 - 0xF0) * 64 + (b1 - 0x80)) mod 64 = b1 - 0x80"
    using split_64 [OF b1(1)] by blast+
  have "?r div 4096 = ?r div 64 div 64" "?r div 262144 = ?r div 64 div 64 div 64"
    by (simp_all add: div_mult2_eq [symmetric])
  then have "?r div 4096 mod 64 = b1 - 0x80" "?r div 262144 = b0 - 0xF0" "?r div 64 mod 64 = b2 - 0x80"
    by (simp_all only: d1 d2 d3)
  with lo hi d1(2) have "encode_rune ?r = [char_of (0xF0 + (b0 - 0xF0)), char_of (0x80 + (b1 - 0x80)),
      char_of (0x80 + (b2 - 0x80)), char_of (0x80 + (b3 - 0x80))]"
    by (intro encode_rune_4) assumption+
  moreover have "0xF0 + (b0 - 0xF0) = b0" using assms(1) by simp
  ultimately show ?thesis by (simp only: b1(2) b2(2) b3(2))
qed

text \<open>The bytes of a rune that decodes properly determine it, whatever follows.\<close>

lemma decode_rune_local:
  assumes "rune_ok (c # cs)" and "decode_rune (c # cs) = (r, w)"
  shows "encode_rune r = take w (c # cs) \<and> decode_rune (encode_rune r @ t) = (r, w)
     \<and> length (encode_rune r) = w"
proof -
  have "(\<exists>b0. c = char_of b0 \<and> b0 < 0x80 \<and> r = b0 \<and> w = 1)
      \<or> (\<exists>c1 cs1. cs = c1 # cs1 \<and> 0xC2 \<le> byte c \<and> byte c < 0xE0 \<and> second_ok (byte c) (byte c1)
          \<and> r = (byte c - 0xC0) * 64 + (byte c1 - 0x80) \<and> w = 2)
      \<or> (\<exists>c1 c2 cs2. cs = c1 # c2 # cs2 \<and> 0xE0 \<le> byte c \<and> byte c < 0xF0 \<and> second_ok (byte c) (byte c1)
          \<and> cont_byte (byte c2)
          \<and> r = (byte c - 0xE0) * 4096 + (byte c1 - 0x80) * 64 + (byte c2 - 0x80) \<and> w = 3)
      \<or> (\<exists>c1 c2 c3 cs3. cs = c1 # c2 # c3 # cs3 \<and> 0xF0 \<le> byte c \<and> byte c \<le> 0xF4
          \<and> second_ok (byte c) (byte c1) \<and> cont_byte (byte c2) \<and> cont_byte (byte c3)
          \<and> r = (byte c - 0xF0) * 262144 + (byte c1 - 0x80) * 4096 + (byte c2 - 0x80) * 64 + (byte c3 - 0x80)
          \<and> w = 4)"
  proof (cases "byte c < 0x80")
    case True
    then have "c = char_of (byte c)" "r = byte c" "w = 1"
      using assms(2) by (simp, simp_all add: decode_rune.simps(2))
    with True show ?thesis by blast
  next
    case False
    with assms show ?thesis
      by (auto simp: rune_ok_def decode_rune.simps(2) Let_def split: if_splits list.splits)
  qed
  then show ?thesis
  proof (elim disjE exE conjE)
    fix b0 assume "c = char_of b0" "b0 < 0x80" "r = b0" "w = 1"
    then show ?thesis by (simp add: encode_rune_def decode_rune.simps(2))
  next
    fix c1 cs1 assume a: "cs = c1 # cs1" "0xC2 \<le> byte c" "byte c < 0xE0" "second_ok (byte c) (byte c1)"
      "r = (byte c - 0xC0) * 64 + (byte c1 - 0x80)" "w = 2"
    have "encode_rune r = [c, c1]"
      using encode_two [OF a(2,3) second_ok_cont [OF a(4)]] by (simp add: a(5))
    then show ?thesis using a by (simp add: decode_rune.simps(2) Let_def)
  next
    fix c1 c2 cs2 assume a: "cs = c1 # c2 # cs2" "0xE0 \<le> byte c" "byte c < 0xF0"
      "second_ok (byte c) (byte c1)" "cont_byte (byte c2)"
      "r = (byte c - 0xE0) * 4096 + (byte c1 - 0x80) * 64 + (byte c2 - 0x80)" "w = 3"
    have "encode_rune r = [c, c1, c2]" using encode_three [OF a(2-5)] by (simp add: a(6))
    then show ?thesis using a by (simp add: decode_rune.simps(2) Let_def)
  next
    fix c1 c2 c3 cs3 assume a: "cs = c1 # c2 # c3 # cs3" "0xF0 \<le> byte c" "byte c \<le> 0xF4"
      "second_ok (byte c) (byte c1)" "cont_byte (byte c2)" "cont_byte (byte c3)"
      "r = (byte c - 0xF0) * 262144 + (byte c1 - 0x80) * 4096 + (byte c2 - 0x80) * 64 + (byte c3 - 0x80)" "w = 4"
    have "encode_rune r = [c, c1, c2, c3]" using encode_four [OF a(2-6)] by (simp add: a(7))
    then show ?thesis using a by (simp add: decode_rune.simps(2) Let_def)
  qed
qed

lemma valid_utf8_Cons: "valid_utf8 (c # cs) \<Longrightarrow> rune_ok (c # cs)"
  by (auto simp: rune_ok_def split: prod.splits)

lemma valid_utf8_step:
  "valid_utf8 (c # cs) \<Longrightarrow> decode_rune (c # cs) = (r, w) \<Longrightarrow> valid_utf8 (drop (w - 1) cs)"
  by simp

text \<open>Induction over the runes of a valid text.\<close>

lemma utf8_induct [consumes 1, case_names Nil Rune]:
  assumes "valid_utf8 s"
    and "P []"
    and "\<And>c cs r w t. s = s \<Longrightarrow> decode_rune (c # cs) = (r, w) \<Longrightarrow> rune_ok (c # cs) \<Longrightarrow>
           c # cs = encode_rune r @ t \<Longrightarrow> t = drop (w - 1) cs \<Longrightarrow> valid_utf8 t \<Longrightarrow> P t \<Longrightarrow> P (c # cs)"
  shows "P s"
  using assms(1)
proof (induction s rule: length_induct)
  case (1 s)
  show ?case
  proof (cases s)
    case (Cons c cs)
    obtain r w where d: "decode_rune (c # cs) = (r, w)" by (cases "decode_rune (c # cs)")
    have ok: "rune_ok (c # cs)" using 1(2) valid_utf8_Cons Cons by simp
    have w: "1 \<le> w" using decode_rune_width_pos [of c cs] d by simp
    let ?t = "drop (w - 1) cs"
    have v: "valid_utf8 ?t" using 1(2) d Cons by simp
    have "c # cs = encode_rune r @ ?t"
      using decode_rune_local [OF ok d] w append_take_drop_id [of w "c # cs"] by (cases w) auto
    moreover have "P ?t" using 1(1) v Cons by simp
    ultimately show ?thesis using assms(3) [OF refl d ok _ refl v] Cons by simp
  qed (use assms(2) in simp)
qed

section \<open>String literals\<close>

lemma is_hex_digit [simp]: "d < 16 \<Longrightarrow> is_hex (hex_digit d)"
  by (simp add: lower_hex_is_hex)

lemma is_hex_zero: "is_hex CHR ''0''" "hex_value CHR ''0'' = 0" "is_hex CHR ''2''" "hex_value CHR ''2'' = 2"
  by (simp_all add: is_hex_def hex_value_def byte_def)

lemma take_hex4_byte:
  assumes "r < 256"
  shows "take_hex4 (CHR ''0'' # CHR ''0'' # hex_byte r @ s) = Some (r, s)"
    "take_hex4 (CHR ''2'' # CHR ''0'' # hex_byte r @ s) = Some (0x2000 + r, s)"
  using assms by (simp_all add: hex_byte_def is_hex_zero)

lemma json_chars_Suc:
  "json_chars (Suc n) (CHR 0x22 # s) = Some ([], s)"
  "json_chars (Suc n) (CHR 0x5C # s) =
     (case json_escape s of None \<Rightarrow> None
      | Some (x, s1) \<Rightarrow> map_option (\<lambda>(y, s2). (x @ y, s2)) (json_chars n s1))"
  by simp_all

lemma json_escape_u:
  "json_escape (CHR ''u'' # s) =
     (case take_hex4 s of
           None \<Rightarrow> None
         | Some (r, s1) \<Rightarrow>
             if high_surrogate r then
               (case s1 of
                  b # u # s2 \<Rightarrow>
                    if b = CHR 0x5C \<and> u = CHR ''u'' then
                      (case take_hex4 s2 of
                         Some (r2, s3) \<Rightarrow>
                           if low_surrogate r2
                           then Some (encode_rune (0x10000 + (r - 0xD800) * 1024 + (r2 - 0xDC00)), s3)
                           else Some (encode_rune rune_error, s1)
                       | None \<Rightarrow> Some (encode_rune rune_error, s1))
                    else Some (encode_rune rune_error, s1)
                | _ \<Rightarrow> Some (encode_rune rune_error, s1))
             else if low_surrogate r then Some (encode_rune rune_error, s1)
             else Some (encode_rune r, s1))"
  by simp

lemma json_chars_plain:
  assumes "c \<noteq> CHR 0x22" "c \<noteq> CHR 0x5C" "\<not> byte c < 32"
  shows "json_chars (Suc n) (c # s) =
    (let (r, w) = decode_rune (c # s) in
       map_option (\<lambda>(y, s2). (encode_rune r @ y, s2)) (json_chars n (drop (w - 1) s)))"
  using assms by simp

text \<open>One rune: whatever \<open>quote_rune\<close> writes for it is read back as its encoding.\<close>

lemma encode_rune_small: "r < 0x80 \<Longrightarrow> encode_rune r = [char_of r]"
  by (simp add: encode_rune_def)

lemma char_of_special: "char_of (34::nat) = CHR 0x22" "char_of (92::nat) = CHR 0x5C"
  "char_of (48::nat) = CHR ''0''"
  by (simp_all only: byte_inject [symmetric]) (simp_all add: byte_def)

lemma json_chars_rune:
  assumes "rune_ok (c # cs)" and "decode_rune (c # cs) = (r, w)"
  shows "json_chars (Suc n) (quote_rune r @ s) =
    map_option (\<lambda>(y, s2). (encode_rune r @ y, s2)) (json_chars n s)"
proof -
  note loc = decode_rune_local [OF assms]
  consider (special) "r = 34 \<or> r = 92 \<or> r = 8 \<or> r = 12 \<or> r = 10 \<or> r = 13 \<or> r = 9"
    | (u00) "\<not> (r = 34 \<or> r = 92 \<or> r = 8 \<or> r = 12 \<or> r = 10 \<or> r = 13 \<or> r = 9)"
        "r < 32 \<or> r = 60 \<or> r = 62 \<or> r = 38"
    | (u20) "r = 0x2028 \<or> r = 0x2029"
    | (plain) "r \<noteq> 34" "r \<noteq> 92" "\<not> r < 32" "r \<noteq> 60" "r \<noteq> 62" "r \<noteq> 38" "r \<noteq> 0x2028" "r \<noteq> 0x2029"
    by linarith
  then show ?thesis
  proof cases
    case special
    then show ?thesis by (auto simp: quote_rune_def encode_rune_small char_of_special)
  next
    case u00
    then have q: "quote_rune r = CHR 0x5C # CHR ''u'' # CHR ''0'' # CHR ''0'' # hex_byte r"
      by (auto simp: quote_rune_def)
    have "r < 256" "\<not> high_surrogate r" "\<not> low_surrogate r"
      using u00(2) by (auto simp: high_surrogate_def low_surrogate_def)
    then have "json_escape (CHR ''u'' # CHR ''0'' # CHR ''0'' # hex_byte r @ s) = Some (encode_rune r, s)"
      unfolding json_escape_u by (simp add: take_hex4_byte)
    then show ?thesis by (simp add: q json_chars_Suc del: json_escape.simps json_chars.simps)
  next
    case u20
    then have q: "quote_rune r = CHR 0x5C # CHR ''u'' # CHR ''2'' # CHR ''0'' # hex_byte (r - 0x2000)"
      by (auto simp: quote_rune_def)
    have "r - 0x2000 < 256" "\<not> high_surrogate r" "\<not> low_surrogate r" "0x2000 + (r - 0x2000) = r"
      using u20 by (auto simp: high_surrogate_def low_surrogate_def)
    then have "json_escape (CHR ''u'' # CHR ''2'' # CHR ''0'' # hex_byte (r - 0x2000) @ s) = Some (encode_rune r, s)"
      unfolding json_escape_u by (simp add: take_hex4_byte)
    then show ?thesis by (simp add: q json_chars_Suc del: json_escape.simps json_chars.simps)
  next
    case plain
    then have q: "quote_rune r = encode_rune r" by (simp add: quote_rune_def)
    have w: "1 \<le> w" using decode_rune_width_pos [of c cs] assms(2) by simp
    obtain k where k: "w = Suc k" using w by (cases w) auto
    have e: "encode_rune r = c # take k cs" using loc k by simp
    have c: "c \<noteq> CHR 0x22" "c \<noteq> CHR 0x5C" "\<not> byte c < 32"
    proof -
      have "byte c = r" if "ascii c" using that assms(2) by (simp add: decode_rune_ascii)
      moreover have "ascii c" if "byte c < 128" using that by (simp add: ascii_def)
      moreover have "byte CHR 0x22 = 34" "byte CHR 0x5C = 92" by (simp_all add: byte_def)
      ultimately show "c \<noteq> CHR 0x22" "c \<noteq> CHR 0x5C" "\<not> byte c < 32" using plain(1-3) by auto
    qed
    have d: "decode_rune (c # take k cs @ s) = (r, w)" using loc e by (metis append_Cons)
    have "length (take k cs) = k" using loc e k by simp
    then have "drop (w - 1) (take k cs @ s) = s" by (simp add: k)
    then show ?thesis unfolding q e append_Cons json_chars_plain [OF c] d Let_def prod.case
      by (simp only: e)
  qed
qed

lemma quote_body_Cons:
  assumes "rune_ok (c # cs)" and "decode_rune (c # cs) = (r, w)"
  shows "quote_body (c # cs) = quote_rune r @ quote_body (drop (w - 1) cs)"
  using assms by (auto simp: rune_ok_def)

lemma json_chars_quote:
  assumes "valid_utf8 s" and "length (quote_body s) < n"
  shows "json_chars n (quote_body s @ CHR 0x22 # rest) = Some (s, rest)"
  using assms
proof (induction s arbitrary: n rule: utf8_induct)
  case Nil
  then show ?case by (cases n) auto
next
  case (Rune c cs r w t)
  note q = quote_body_Cons [OF Rune(3,2), folded Rune(5)]
  have "quote_rune r \<noteq> []" by (auto simp: quote_rune_def encode_rune_def Let_def)
  with q Rune(8) obtain m where m: "n = Suc m" "length (quote_body t) < m" by (cases n) (auto simp: neq_Nil_conv)
  have "json_chars n (quote_body (c # cs) @ CHR 0x22 # rest)
      = map_option (\<lambda>(y, s2). (encode_rune r @ y, s2)) (json_chars m (quote_body t @ CHR 0x22 # rest))"
    unfolding q m(1) append_assoc by (rule json_chars_rune [OF Rune(3,2)])
  also have "\<dots> = Some (encode_rune r @ t, rest)" using Rune(7) [OF m(2)] by simp
  finally show ?case using Rune(4) by simp
qed

section \<open>Numbers\<close>

text \<open>What may follow a value in the encoder's output.\<close>

definition delimited :: "string \<Rightarrow> bool" where
  "delimited rest \<longleftrightarrow> rest = [] \<or> hd rest \<in> {CHR '','', CHR '']'', CHR 0x7D}"

definition number_literal :: "string \<Rightarrow> bool" where
  "number_literal n \<longleftrightarrow> json_number n = Some (n, [])"

lemma delimited_hd:
  assumes "delimited (c # rest)"
  shows "\<not> is_digit c" "c \<noteq> CHR ''-''" "c \<noteq> CHR ''+''" "c \<noteq> CHR ''.''" "c \<noteq> CHR ''e''" "c \<noteq> CHR ''E''"
    "c \<noteq> CHR ''0''" "\<not> json_space c"
  using assms by (auto simp: delimited_def is_digit_def json_space_def byte_def)

lemma digits_prefix_append:
  assumes "delimited rest"
  shows "digits_prefix (s @ rest) = (fst (digits_prefix s), snd (digits_prefix s) @ rest)"
proof -
  have "takeWhile is_digit rest = [] \<and> dropWhile is_digit rest = rest"
    using assms delimited_hd(1) by (cases rest) auto
  then show ?thesis by (induction s) (auto simp: digits_prefix_def)
qed

text \<open>The head of a text followed by a delimiter.\<close>

lemma hd_append_delimited:
  assumes "delimited rest" and "c \<in> {CHR ''-'', CHR ''+'', CHR ''.'', CHR ''e'', CHR ''E'', CHR ''0''}"
  shows "(s @ rest \<noteq> [] \<and> hd (s @ rest) = c) = (s \<noteq> [] \<and> hd s = c)"
proof (cases s)
  case Nil
  show ?thesis
  proof (cases rest)
    case (Cons x xs)
    with assms(1) have "delimited (x # xs)" by simp
    from delimited_hd [OF this] assms(2) show ?thesis by (auto simp: Nil Cons)
  qed (simp add: Nil)
qed simp

lemma json_number_append:
  assumes "number_literal n" and "delimited rest"
  shows "json_number (n @ rest) = Some (n, rest)"
proof -
  note h = hd_append_delimited [OF assms(2)] and d = digits_prefix_append [OF assms(2)]
  have t: "tl (s @ rest) = tl s @ rest" if "s \<noteq> []" for s :: string using that by simp
  obtain sign s1 where 1: "(if n \<noteq> [] \<and> hd n = CHR ''-'' then ([CHR ''-''], tl n) else ([], n)) = (sign, s1)"
    by fastforce
  then have f1: "(if n @ rest \<noteq> [] \<and> hd (n @ rest) = CHR ''-'' then ([CHR ''-''], tl (n @ rest)) else ([], n @ rest))
      = (sign, s1 @ rest)" using h [of "CHR ''-''" n] t by (auto split: if_splits)
  obtain i s2 where 2: "(if s1 \<noteq> [] \<and> hd s1 = CHR ''0'' then ([CHR ''0''], tl s1) else digits_prefix s1) = (i, s2)"
    by (cases "if s1 \<noteq> [] \<and> hd s1 = CHR ''0'' then ([CHR ''0''], tl s1) else digits_prefix s1") blast
  then have f2: "(if s1 @ rest \<noteq> [] \<and> hd (s1 @ rest) = CHR ''0'' then ([CHR ''0''], tl (s1 @ rest))
      else digits_prefix (s1 @ rest)) = (i, s2 @ rest)" using h [of "CHR ''0''" s1] t d by (auto split: if_splits)
  obtain fr s3 where 3: "(if s2 \<noteq> [] \<and> hd s2 = CHR ''.''
                      then (CHR ''.'' # fst (digits_prefix (tl s2)), snd (digits_prefix (tl s2)))
                      else ([], s2)) = (fr, s3)" by fastforce
  then have f3: "(if s2 @ rest \<noteq> [] \<and> hd (s2 @ rest) = CHR ''.''
                      then (CHR ''.'' # fst (digits_prefix (tl (s2 @ rest))), snd (digits_prefix (tl (s2 @ rest))))
                      else ([], s2 @ rest)) = (fr, s3 @ rest)"
    using h [of "CHR ''.''" s2] t d by (auto split: if_splits)
  let ?ex = "\<lambda>s3. if s3 \<noteq> [] \<and> (hd s3 = CHR ''e'' \<or> hd s3 = CHR ''E'')
             then (let (sg, t) = (if tl s3 \<noteq> [] \<and> (hd (tl s3) = CHR ''+'' \<or> hd (tl s3) = CHR ''-'')
                                  then ([hd (tl s3)], tl (tl s3)) else ([], tl s3))
                   in (hd s3 # sg @ fst (digits_prefix t), snd (digits_prefix t)))
             else ([], s3)"
  obtain ex s4 where 4: "?ex s3 = (ex, s4)" by (cases "?ex s3") blast
  have f4: "?ex (s3 @ rest) = (ex, s4 @ rest)"
  proof (cases "s3 \<noteq> [] \<and> (hd s3 = CHR ''e'' \<or> hd s3 = CHR ''E'')")
    case False
    then have neg: "\<not> (s3 @ rest \<noteq> [] \<and> (hd (s3 @ rest) = CHR ''e'' \<or> hd (s3 @ rest) = CHR ''E''))"
      using h [of "CHR ''e''" s3] h [of "CHR ''E''" s3] by auto
    show ?thesis using 4 unfolding if_not_P [OF neg] if_not_P [OF False] by simp
  next
    case True
    then obtain c u where s3: "s3 = c # u" "c = CHR ''e'' \<or> c = CHR ''E''" by (cases s3) auto
    have "(u @ rest \<noteq> [] \<and> (hd (u @ rest) = CHR ''+'' \<or> hd (u @ rest) = CHR ''-''))
        = (u \<noteq> [] \<and> (hd u = CHR ''+'' \<or> hd u = CHR ''-''))"
      using h [of "CHR ''+''" u] h [of "CHR ''-''" u] by auto
    with 4 s3 show ?thesis using t [of u] d d [of "[]"] by (cases "u = []") (auto split: if_splits)
  qed
  have "json_number n = (if i = [] \<or> (fr \<noteq> [] \<and> length fr < 2) \<or> (ex \<noteq> [] \<and> \<not> is_digit (last ex)) then None
         else Some (sign @ i @ fr @ ex, s4))"
    unfolding json_number_def 1 Let_def prod.case 2 3 4 [unfolded Let_def] ..
  moreover have "json_number (n @ rest) = (if i = [] \<or> (fr \<noteq> [] \<and> length fr < 2) \<or> (ex \<noteq> [] \<and> \<not> is_digit (last ex)) then None
         else Some (sign @ i @ fr @ ex, s4 @ rest))"
    unfolding json_number_def f1 Let_def prod.case f2 f3 f4 [unfolded Let_def] ..
  ultimately show ?thesis using assms(1) by (auto simp: number_literal_def split: if_splits)
qed

lemma number_literal_hd:
  assumes "number_literal n"
  shows "\<exists>c t. n = c # t \<and> (c = CHR ''-'' \<or> is_digit c)"
proof (cases n)
  case Nil
  with assms show ?thesis by (simp add: number_literal_def json_number_def digits_prefix_def)
next
  case (Cons c t)
  show ?thesis
  proof (cases "c = CHR ''-'' \<or> is_digit c")
    case False
    then have "c \<noteq> CHR ''0''" by (auto simp: is_digit_def byte_def)
    with False assms Cons show ?thesis
      by (auto simp: number_literal_def json_number_def digits_prefix_def Let_def split: prod.splits)
  qed (use Cons in simp)
qed

lemma number_literal_int: "number_literal (show_int i)"
proof -
  have z: "show_nat n \<noteq> [] \<and> hd (show_nat n) = CHR ''0'' \<longleftrightarrow> n = 0" for n
  proof (induction n rule: show_nat.induct)
    case (1 n)
    have "hd (show_nat (n div 10) @ [digit_char (n mod 10)]) = hd (show_nat (n div 10))" by simp
    moreover have "digit_char n = CHR ''0'' \<longleftrightarrow> n = 0" if "n < 10"
    proof -
      have "digit_char n = CHR ''0'' \<longleftrightarrow> byte (digit_char n) = byte CHR ''0''" by simp
      also have "\<dots> \<longleftrightarrow> n = 0" using that by (simp only: byte_digit_char) (simp add: byte_def)
      finally show ?thesis .
    qed
    ultimately show ?case using 1 by (subst (1 2) show_nat.simps) auto
  qed
  have d: "digits_prefix (show_nat n) = (show_nat n, [])" for n
    using show_nat_digits [of n] by (simp add: digits_prefix_def list_all_iff)
  have n: "json_number (show_nat n) = Some (show_nat n, [])" for n
  proof (cases "n = 0")
    case True
    have "show_nat 0 = ''0''" by (subst show_nat.simps) (simp add: digit_char_def char_of_special)
    with True show ?thesis by (simp add: json_number_def)
  next
    case False
    then show ?thesis using z [of n] d [of n] by (simp add: json_number_def)
  qed
  show ?thesis
  proof (cases "i < 0")
    case False
    then show ?thesis using n by (simp add: show_int_def number_literal_def)
  next
    case True
    then have "nat (- i) \<noteq> 0" by simp
    with True z [of "nat (- i)"] d [of "nat (- i)"] show ?thesis
      by (simp add: show_int_def number_literal_def json_number_def)
  qed
qed

section \<open>Values\<close>

text \<open>What the parser makes of the literal that the encoder writes for a text.\<close>

definition str_json :: "string \<Rightarrow> json" where
  "str_json s = string_value (quote_body s) s"

lemma str_json_cases: "str_json s = (if quote_body s = s then JStr s else JEsc s)"
  by (simp add: str_json_def string_value_def)

lemma str_json_simps [simp]:
  "as_string (str_json s) = Some s" "json_text (str_json s) = json_quote s" "str_json s \<noteq> JNull" "JNull \<noteq> str_json s"
  "fill_strings old (str_json s # vs) = map_option (\<lambda>xs. s # xs) (fill_strings (tl old) vs)"
  "decode_field f cur (str_json s # vs) = (case f (str_json s) of None \<Rightarrow> None | Some x \<Rightarrow> decode_field f x vs)"
  by (simp_all add: str_json_cases)

lemma as_time_str_json [simp]: "quote_body s = s \<Longrightarrow> as_time L (str_json s) = parse_time L s"
  by (simp add: str_json_cases)

fun json_wf :: "nat \<Rightarrow> json \<Rightarrow> bool" where
  "json_wf d JNull \<longleftrightarrow> True"
| "json_wf d (JBool b) \<longleftrightarrow> True"
| "json_wf d (JNum n) \<longleftrightarrow> number_literal n"
| "json_wf d (JStr s) \<longleftrightarrow> valid_utf8 s \<and> quote_body s = s"
| "json_wf d (JEsc s) \<longleftrightarrow> valid_utf8 s \<and> quote_body s \<noteq> s"
| "json_wf d (JArr xs) \<longleftrightarrow> d < 10000 \<and> list_all (json_wf (Suc d)) xs"
| "json_wf d (JObj ms) \<longleftrightarrow> d < 10000 \<and> list_all (\<lambda>(k, v). valid_utf8 k \<and> json_wf (Suc d) v) ms"

lemma json_wf_str_json [simp]: "json_wf d (str_json s) \<longleftrightarrow> valid_utf8 s"
  by (simp add: str_json_cases)

text \<open>A printable ASCII text without the characters that the encoder escapes is its own literal.\<close>

definition quote_plain :: "string \<Rightarrow> bool" where
  "quote_plain s \<longleftrightarrow>
     list_all (\<lambda>c. 32 \<le> byte c \<and> byte c < 128 \<and> byte c \<notin> {34, 38, 60, 62, 92}) s"

lemma quote_body_plain: "quote_plain s \<Longrightarrow> quote_body s = s"
proof (induction s)
  case (Cons c s)
  then have b: "32 \<le> byte c" "byte c < 128" "byte c \<notin> {34, 38, 60, 62, 92}" and i: "quote_body s = s"
    by (simp_all add: quote_plain_def)
  have "decode_rune (c # s) = (byte c, 1)" using b(2) by (simp add: decode_rune_ascii ascii_def)
  moreover have "quote_rune (byte c) = [c]"
    using b by (auto simp: quote_rune_def encode_rune_small byte_def)
  ultimately show ?case using i b(2) by (simp add: rune_error_def)
qed simp

lemma skip_space_hd: "\<not> json_space c \<Longrightarrow> skip_space (c # s) = c # s"
  by (simp add: skip_space_def)

lemma not_space_ge: "33 \<le> byte c \<Longrightarrow> \<not> json_space c"
  by (simp add: json_space_def)

lemma special_bytes:
  "byte CHR 0x22 = 34" "byte CHR 0x5C = 92" "byte CHR 0x7B = 123" "byte CHR 0x7D = 125" "byte CHR ''['' = 91"
  "byte CHR '']'' = 93" "byte CHR '','' = 44" "byte CHR '':'' = 58" "byte CHR ''-'' = 45" "byte CHR ''n'' = 110"
  "byte CHR ''t'' = 116" "byte CHR ''f'' = 102"
  by (simp_all add: byte_def)

lemma skip_special [simp]:
  "skip_space (CHR 0x22 # s) = CHR 0x22 # s" "skip_space (CHR 0x7B # s) = CHR 0x7B # s"
  "skip_space (CHR 0x7D # s) = CHR 0x7D # s" "skip_space (CHR ''['' # s) = CHR ''['' # s"
  "skip_space (CHR '']'' # s) = CHR '']'' # s" "skip_space (CHR '','' # s) = CHR '','' # s"
  "skip_space (CHR '':'' # s) = CHR '':'' # s" "skip_space (CHR ''n'' # s) = CHR ''n'' # s"
  "skip_space (CHR ''t'' # s) = CHR ''t'' # s" "skip_space (CHR ''f'' # s) = CHR ''f'' # s"
  by (simp_all add: skip_space_hd not_space_ge special_bytes)

text \<open>The first byte of a written value says which kind of value it is.\<close>

lemma json_text_hd:
  assumes "json_wf d v"
  obtains c t where "json_text v = c # t" "33 \<le> byte c" "c \<noteq> CHR '']''" "c \<noteq> CHR 0x7D"
proof (cases v)
  case (JNum n)
  then obtain c t where "n = c # t" "c = CHR ''-'' \<or> is_digit c" using assms number_literal_hd [of n] by auto
  moreover from this(2) have "33 \<le> byte c" "c \<noteq> CHR '']''" "c \<noteq> CHR 0x7D"
    by (auto simp: special_bytes is_digit_def)
  ultimately show thesis using that JNum by simp
next
  case (JBool b)
  then show thesis using that by (cases b) (simp_all add: special_bytes)
qed (auto simp: json_quote_def special_bytes intro: that)

lemma json_value_string:
  assumes "valid_utf8 s"
  shows "json_value (Suc n) d (json_quote s @ rest) = Some (str_json s, rest)"
  using json_chars_quote [OF assms, of "Suc (length (quote_body s @ CHR 0x22 # rest))" rest]
  by (simp add: json_quote_def str_json_def del: json_chars.simps)

lemma json_value_number:
  assumes "number_literal m" and "delimited rest"
  shows "json_value (Suc n) d (m @ rest) = Some (JNum m, rest)"
proof -
  obtain c t where m: "m = c # t" "c = CHR ''-'' \<or> is_digit c" using number_literal_hd [OF assms(1)] by blast
  have b: "33 \<le> byte c" "c \<noteq> CHR 0x7B" "c \<noteq> CHR ''[''" "c \<noteq> CHR 0x22" "c \<noteq> CHR ''n''" "c \<noteq> CHR ''t''"
    "c \<noteq> CHR ''f''" using m(2) by (auto simp: special_bytes is_digit_def)
  have "strip_prefix ''null'' (c # t @ rest) = None" "strip_prefix ''true'' (c # t @ rest) = None"
    "strip_prefix ''false'' (c # t @ rest) = None" using b by (simp_all add: strip_prefix_def)
  then show ?thesis
    using json_number_append [OF assms] b skip_space_hd [OF not_space_ge [OF b(1)]] by (simp add: m(1))
qed

lemma delimited_simps [simp]: "delimited []" "delimited (CHR '','' # s)" "delimited (CHR '']'' # s)" "delimited (CHR 0x7D # s)"
  by (simp_all add: delimited_def)

lemma json_items_step:
  assumes "json_value n d (u @ CHR '','' # w) = Some (x, CHR '','' # w)"
    and "json_items n d w = Some (xs, rest)"
  shows "json_items (Suc n) d (u @ CHR '','' # w) = Some (x # xs, rest)"
  using assms by simp

lemma json_items_last:
  assumes "json_value n d (u @ CHR '']'' # w) = Some (x, CHR '']'' # w)"
  shows "json_items (Suc n) d (u @ CHR '']'' # w) = Some ([x], w)"
  using assms by simp

lemma json_members_step:
  assumes "valid_utf8 k" and "json_value n d (u @ CHR '','' # w) = Some (v, CHR '','' # w)"
    and "json_members n d w = Some (ms, rest)"
  shows "json_members (Suc n) d (json_quote k @ CHR '':'' # u @ CHR '','' # w) = Some ((k, v) # ms, rest)"
  using assms(2,3) json_chars_quote [OF assms(1)] by (simp add: json_quote_def del: json_chars.simps)

lemma json_members_last:
  assumes "valid_utf8 k" and "json_value n d (u @ CHR 0x7D # w) = Some (v, CHR 0x7D # w)"
  shows "json_members (Suc n) d (json_quote k @ CHR '':'' # u @ CHR 0x7D # w) = Some ([(k, v)], w)"
  using assms(2) json_chars_quote [OF assms(1)] by (simp add: json_quote_def del: json_chars.simps)

lemma json_text_nonempty: "json_wf d v \<Longrightarrow> 1 \<le> length (json_text v)"
  by (erule json_text_hd) simp

lemma json_value_array:
  assumes "d < 10000" and "xs \<noteq> []" and "list_all (json_wf (Suc d)) xs"
  shows "json_value (Suc n) d (json_text (JArr xs) @ rest)
    = map_option (\<lambda>(xs, r). (JArr xs, r)) (json_items n (Suc d) (json_text_items xs @ CHR '']'' # rest))"
proof -
  obtain x xs' where xs: "xs = x # xs'" using assms(2) by (cases xs) auto
  obtain c t where c: "json_text x = c # t" "33 \<le> byte c" "c \<noteq> CHR '']''"
    by (rule json_text_hd [of "Suc d" x]) (use assms(3) xs in simp)
  then obtain t' where "json_text_items xs = c # t'" using xs by (cases xs') auto
  then show ?thesis using assms(1) c(3) skip_space_hd [OF not_space_ge [OF c(2)]] by simp
qed

lemma json_value_object:
  assumes "d < 10000" and "ms \<noteq> []"
  shows "json_value (Suc n) d (json_text (JObj ms) @ rest)
    = map_option (\<lambda>(ms, r). (JObj ms, r)) (json_members n (Suc d) (json_text_members ms @ CHR 0x7D # rest))"
proof -
  obtain t where "json_text_members ms = CHR 0x22 # t"
    using assms(2) by (cases ms rule: json_text_members.cases) (auto simp: json_quote_def)
  then show ?thesis using assms(1) by simp
qed

text \<open>The length of the text is enough fuel.\<close>

lemma json_value_text:
  "json_wf d v \<Longrightarrow> delimited rest \<Longrightarrow> length (json_text v) \<le> n \<Longrightarrow>
     json_value n d (json_text v @ rest) = Some (v, rest)"
  and "list_all (json_wf d) xs \<Longrightarrow> xs \<noteq> [] \<Longrightarrow> length (json_text_items xs) < n \<Longrightarrow>
     json_items n d (json_text_items xs @ CHR '']'' # rest) = Some (xs, rest)"
  and "list_all (\<lambda>(k, v). valid_utf8 k \<and> json_wf d v) ms \<Longrightarrow> ms \<noteq> [] \<Longrightarrow> length (json_text_members ms) < n \<Longrightarrow>
     json_members n d (json_text_members ms @ CHR 0x7D # rest) = Some (ms, rest)"
proof (induction v and xs and ms arbitrary: n d rest and n d rest and n d rest
    rule: json_text_json_text_items_json_text_members.induct)
  case 1
  then show ?case by (cases n) (simp_all add: strip_prefix_def)
next
  case (2 b)
  then show ?case by (cases n; cases b) (simp_all add: strip_prefix_def)
next
  case (3 m)
  then have "1 \<le> n" using json_text_nonempty [of d "JNum m"] by simp
  then obtain k where "n = Suc k" by (cases n) auto
  with 3 json_value_number show ?case by simp
next
  case (4 s)
  then obtain k where "n = Suc k" by (cases n) (auto simp: json_quote_def)
  with 4 json_value_string [of s k d rest] show ?case by (simp add: str_json_cases)
next
  case (5 s)
  then obtain k where "n = Suc k" by (cases n) (auto simp: json_quote_def)
  with 5 json_value_string [of s k d rest] show ?case by (simp add: str_json_cases)
next
  case (6 xs)
  then obtain k where k: "n = Suc k" by (cases n) auto
  show ?case
  proof (cases "xs = []")
    case True
    with 6 k show ?thesis by simp
  next
    case False
    have w: "d < 10000" "list_all (json_wf (Suc d)) xs" using 6(2) by simp_all
    from 6(1) [OF w(2) False, of k rest] 6(4) k show ?thesis
      unfolding k json_value_array [OF w(1) False w(2)] by simp
  qed
next
  case (7 ms)
  then obtain k where k: "n = Suc k" by (cases n) auto
  show ?case
  proof (cases "ms = []")
    case True
    with 7 k show ?thesis by simp
  next
    case False
    have w: "d < 10000" "list_all (\<lambda>(k, v). valid_utf8 k \<and> json_wf (Suc d) v) ms" using 7(2) by simp_all
    from 7(1) [OF w(2) False, of k rest] 7(4) k show ?thesis
      unfolding k json_value_object [OF w(1) False] by simp
  qed
next
  case 8
  then show ?case by simp
next
  case (9 x)
  then obtain k where k: "n = Suc k" by (cases n) auto
  from 9(1) [of d "CHR '']'' # rest" k] 9(2,4) k json_items_last show ?case by simp
next
  case (10 x y ys)
  then obtain k where k: "n = Suc k" by (cases n) auto
  let ?w = "json_text_items (y # ys) @ CHR '']'' # rest"
  have v: "json_value k d (json_text x @ CHR '','' # ?w) = Some (x, CHR '','' # ?w)"
    using 10(1) [of d "CHR '','' # ?w" k] 10(3,5) k by simp
  have i: "json_items k d ?w = Some (y # ys, rest)" using 10(2) [of d k rest] 10(3,5) k by simp
  from json_items_step [OF v i] show ?case by (simp add: k del: json_items.simps)
next
  case 11
  then show ?case by simp
next
  case (12 k v)
  then obtain m where m: "n = Suc m" by (cases n) auto
  have "json_value m d (json_text v @ CHR 0x7D # rest) = Some (v, CHR 0x7D # rest)"
    using 12(1) [of d "CHR 0x7D # rest" m] 12(2,4) m by simp
  with json_members_last [of k] 12(2) show ?case by (simp add: m del: json_members.simps)
next
  case (13 k v p ps)
  then obtain m where m: "n = Suc m" by (cases n) auto
  let ?w = "json_text_members (p # ps) @ CHR 0x7D # rest"
  have v: "json_value m d (json_text v @ CHR '','' # ?w) = Some (v, CHR '','' # ?w)"
    using 13(1) [of d "CHR '','' # ?w" m] 13(3,5) m by simp
  have i: "json_members m d ?w = Some (p # ps, rest)" using 13(2) [of d m rest] 13(3,5) m by simp
  from json_members_step [OF _ v i] 13(3) show ?case by (simp add: m del: json_members.simps)
qed

lemma json_parse_text:
  assumes "json_wf 0 v" shows "json_parse (json_text v) = Some v"
  using json_value_text(1) [OF assms delimited_simps(1), of "2 * length (json_text v) + 2"]
  by (simp add: json_parse_def skip_space_def del: json_value.simps)

lemma json_text_inject:
  "json_wf 0 v \<Longrightarrow> json_wf 0 w \<Longrightarrow> json_text v = json_text w \<Longrightarrow> v = w"
  using json_parse_text by (metis option.inject)

end
