(* ===== verification/Decision_Codec.thy ===== *)
theory Decision_Codec
  imports Decision_Event Json_Roundtrip Payment_Domain
begin

text \<open>
  The wire form of a risk decision: the bytes that \<open>Fingerprint\<close> hashes are the JSON text of the
  normalised event, and \<open>ParseEvent\<close> reads them back to that event.  So two events with the same
  fingerprint are the same event, up to collisions of SHA-256.
\<close>

definition wire_event :: "'a golib_scheme \<Rightarrow> decision_event \<Rightarrow> string" where
  "wire_event L ev = json_text (event_json L ev)"

text \<open>
  What is asked of the library at one event: its time can be written, times and floats have a text
  that is read back to them (a time without any character that JSON escapes); and of the event: texts are UTF-8 without white space at the ends, and numbers fit.
\<close>

definition time_reads_back :: "'a golib_scheme \<Rightarrow> gtime \<Rightarrow> bool" where
  "time_reads_back L t \<longleftrightarrow>
     time_marshals t \<and> parse_time L (time_text L t) = Some t \<and> valid_utf8 (time_text L t)
     \<and> quote_body (time_text L t) = time_text L t"

definition float_reads_back :: "'a golib_scheme \<Rightarrow> float64 \<Rightarrow> bool" where
  "float_reads_back L f \<longleftrightarrow> parse_float L (float_text L f) = Some f \<and> number_literal (float_text L f)"

definition writable :: "'a golib_scheme \<Rightarrow> decision_event \<Rightarrow> bool" where
  "writable L ev \<longleftrightarrow>
     (let p = dv_payload ev in
      event_contract ev \<and> time_reads_back L (dv_occurred_at ev)
      \<and> float_reads_back L (dp_model_probability p) \<and> float_reads_back L (dp_model_review_threshold p)
      \<and> in_int64 (fs_velocity_5m (dp_features p))
      \<and> valid_utf8 (dp_rule_version p) \<and> trim_space (dp_rule_version p) = dp_rule_version p
      \<and> valid_utf8 (dp_model_version p) \<and> trim_space (dp_model_version p) = dp_model_version p)"

section \<open>Names\<close>

text \<open>Names of lowercase letters, digits and underscores fold to themselves only.\<close>

definition wire_name :: "string \<Rightarrow> bool" where
  "wire_name s \<longleftrightarrow> list_all (\<lambda>c. (97 \<le> byte c \<and> byte c \<le> 122) \<or> (48 \<le> byte c \<and> byte c \<le> 57) \<or> byte c = 95) s"

lemma fold_wire_name: "wire_name s \<Longrightarrow> fold_name s = map byte s"
proof -
  assume a: "wire_name s"
  then have "runes s = map byte s"
    by (intro runes_ascii) (auto simp: wire_name_def list_all_iff ascii_def)
  with a show ?thesis by (auto simp: fold_name_def fold_rune_def wire_name_def list_all_iff)
qed

lemma fold_name_eq: "wire_name a \<Longrightarrow> wire_name b \<Longrightarrow> fold_name a = fold_name b \<longleftrightarrow> a = b"
  by (simp add: fold_wire_name inj_map_eq_map inj_def)

lemma members_for_wire:
  "list_all (\<lambda>m. wire_name (fst m)) ms \<Longrightarrow> wire_name k \<Longrightarrow>
   members_for ms k = map snd (filter (\<lambda>m. fst m = k) ms)"
  by (induction ms) (auto simp: members_for_def fold_name_eq)

lemma known_members_wire:
  "list_all (\<lambda>m. wire_name (fst m)) ms \<Longrightarrow> list_all wire_name ks \<Longrightarrow>
   list_all (\<lambda>m. fst m \<in> set ks) ms \<Longrightarrow> known_members ms ks"
  by (auto simp: known_members_def list_all_iff)

lemma wire_names:
  "list_all wire_name envelope_names" "list_all wire_name payload_names" "list_all wire_name feature_names"
  by (simp_all add: wire_name_def envelope_names_def payload_names_def feature_names_def byte_def)

lemma wire_namesD:
  "k \<in> set envelope_names \<union> set payload_names \<union> set feature_names \<Longrightarrow> wire_name k"
  using wire_names by (auto simp: list_all_iff)

lemma wire_name_utf8: "wire_name s \<Longrightarrow> valid_utf8 s"
  by (intro valid_utf8_ascii) (auto simp: wire_name_def list_all_iff ascii_def)

lemma wire_name_literal: "wire_name s \<Longrightarrow> quote_body s = s"
  by (rule quote_body_plain) (auto simp: wire_name_def quote_plain_def list_all_iff)

section \<open>Normal form\<close>

lemma trim_all_plain: "list_all plain_byte s \<Longrightarrow> trim_space s = s"
proof (cases "s = []")
  case False
  assume "list_all plain_byte s"
  with False show ?thesis by (intro trim_space_plain) (auto simp: list_all_iff)
qed simp

lemma hex_plain_byte: "is_hex c \<Longrightarrow> plain_byte c"
  by (auto simp: is_hex_def plain_byte_def ascii_def is_space_def)

lemma decision_uuid_plain: "decision_uuid s \<Longrightarrow> list_all plain_byte s"
proof -
  assume "decision_uuid s"
  then have h: "list_all is_hex (filter (\<lambda>c. c \<noteq> CHR ''-'') s)"
    by (simp add: decision_uuid_def hex_decodes_def)
  have "plain_byte CHR ''-''" by (simp add: plain_byte_def ascii_def is_space_def byte_def)
  with h hex_plain_byte show ?thesis by (auto simp: list_all_iff)
qed

lemma decision_uuid_trimmed: "decision_uuid s \<Longrightarrow> lower_trimmed s = s"
  using trim_all_plain [OF decision_uuid_plain] by (simp add: lower_trimmed_def decision_uuid_def)

lemma plain_byte_ascii: "list_all plain_byte s \<Longrightarrow> list_all ascii s"
  by (auto simp: list_all_iff plain_byte_def)

lemma plain_byte_utf8: "list_all plain_byte s \<Longrightarrow> valid_utf8 s"
  by (simp add: valid_utf8_ascii plain_byte_ascii)

lemma reason_rune_bound: "reason_rune r \<Longrightarrow> r < 128"
  by (auto simp: reason_rune_def)

lemma reason_plain_bytes: "validReasonCode s \<Longrightarrow> list_all plain_byte s"
proof -
  assume "validReasonCode s"
  then have "list_all (\<lambda>c. reason_rune (byte c)) s"
    using list_all_runes [of reason_rune s] reason_rune_bound by (simp add: validReasonCode_def)
  then show ?thesis by (auto simp: list_all_iff reason_rune_def plain_byte_def ascii_def is_space_def)
qed

lemma upper_plain_bytes: "upper_letters n s \<Longrightarrow> list_all plain_byte s"
  by (auto simp: upper_letters_def list_all_iff plain_byte_def ascii_def is_space_def)

lemma plain_bytes_literal:
  "s \<in> {''ALLOW'', ''REVIEW'', ''BLOCK'', ''risk.decision.completed''} \<Longrightarrow> list_all plain_byte s"
  by (elim insertE emptyE) (simp_all add: plain_byte_def ascii_def is_space_def byte_def)

lemma contract_texts:
  assumes "event_contract ev"
  shows "list_all plain_byte (dp_decision (dv_payload ev))" "list_all plain_byte (dv_event_type ev)"
    "list_all plain_byte (fs_baseline_country (dp_features (dv_payload ev)))"
    "list_all (list_all plain_byte) (event_uuids ev)"
    "list_all (list_all plain_byte) (dp_reason_codes (dv_payload ev))"
proof -
  have c: "dp_decision (dv_payload ev) \<in> {''ALLOW'', ''REVIEW'', ''BLOCK''}"
    "dv_event_type ev = ''risk.decision.completed''"
    "upper_letters 2 (fs_baseline_country (dp_features (dv_payload ev)))"
    "list_all decision_uuid (event_uuids ev)" "list_all validReasonCode (dp_reason_codes (dv_payload ev))"
    using assms by (simp_all add: event_contract_def Let_def)
  show "list_all plain_byte (dp_decision (dv_payload ev))"
    by (rule plain_bytes_literal) (use c(1) in blast)
  show "list_all plain_byte (dv_event_type ev)"
    by (rule plain_bytes_literal) (use c(2) in blast)
  show "list_all plain_byte (fs_baseline_country (dp_features (dv_payload ev)))"
    using c(3) by (rule upper_plain_bytes)
  show "list_all (list_all plain_byte) (event_uuids ev)"
    using c(4) decision_uuid_plain by (rule list.pred_mono_strong)
  show "list_all (list_all plain_byte) (dp_reason_codes (dv_payload ev))"
    using c(5) reason_plain_bytes by (rule list.pred_mono_strong)
qed

lemma normalForm_id:
  assumes "event_contract ev"
    and "trim_space (dp_rule_version (dv_payload ev)) = dp_rule_version (dv_payload ev)"
    and "trim_space (dp_model_version (dv_payload ev)) = dp_model_version (dv_payload ev)"
  shows "normalForm ev = ev"
proof -
  let ?p = "dv_payload ev" and ?f = "dp_features (dv_payload ev)"
  have "list_all decision_uuid (event_uuids ev)" using assms(1) by (simp add: event_contract_def Let_def)
  then have u: "list_all (\<lambda>s. lower_trimmed s = s) (event_uuids ev)"
    using decision_uuid_trimmed by (rule list.pred_mono_strong)
  have z: "utc (dv_occurred_at ev) = dv_occurred_at ev"
    using assms(1) by (simp add: event_contract_def Let_def utc_def)
  have t: "dp_decision_at ?p = dv_occurred_at ev" "fs_decision_at ?f = dv_occurred_at ev"
    using assms(1) by (simp_all add: event_contract_def Let_def)
  have r: "map trim_space (dp_reason_codes ?p) = dp_reason_codes ?p"
    using contract_texts(5) [OF assms(1)] trim_all_plain by (auto simp: list_all_iff intro: map_idI)
  have d: "trim_space (dp_decision ?p) = dp_decision ?p" "trim_space (dv_event_type ev) = dv_event_type ev"
    "trim_space (fs_baseline_country ?f) = fs_baseline_country ?f"
    using contract_texts(1-3) [OF assms(1)] by (blast intro: trim_all_plain)+
  show ?thesis
    using u [unfolded event_uuids_def list.pred_inject] z t r d assms(2,3)
    by (simp add: normalForm_def utcEvent_def trimEvent_def Let_def)
qed

section \<open>Reading an event back\<close>

lemma json_wf_object:
  "json_wf d (JObj ms) \<longleftrightarrow> d < 10000 \<and> list_all valid_utf8 (map fst ms) \<and> list_all (json_wf (Suc d)) (map snd ms)"
  by (auto simp: list_all_iff)

lemma names_utf8:
  "list_all valid_utf8 envelope_names" "list_all valid_utf8 payload_names" "list_all valid_utf8 feature_names"
  using wire_names by (blast intro: list.pred_mono_strong wire_name_utf8)+

lemma json_text_items_str: "json_text_items (map JStr xs) = json_text_items (map str_json xs)"
  by (induction xs rule: induct_list012) simp_all

definition features_members :: "'a golib_scheme \<Rightarrow> feature_snapshot \<Rightarrow> (string \<times> json) list" where
  "features_members L f =
     zip feature_names
       [JNum (show_int (fs_velocity_5m f)), JBool (fs_new_device f), JBool (fs_cross_border f),
        str_json (fs_baseline_country f), str_json (time_text L (fs_decision_at f))]"

definition payload_members :: "'a golib_scheme \<Rightarrow> decision_payload \<Rightarrow> (string \<times> json) list" where
  "payload_members L p =
     zip payload_names
       [str_json (dp_decision_id p), str_json (dp_payment_id p), str_json (dp_source_event_id p), str_json (dp_decision p),
        JNum (show_int (dp_risk_score p)), JNum (show_int (dp_rule_score p)),
        JNum (show_int (dp_model_score p)), JNum (float_text L (dp_model_probability p)),
        JNum (float_text L (dp_model_review_threshold p)), JArr (map str_json (dp_reason_codes p)),
        str_json (dp_rule_version p), str_json (dp_model_version p), str_json (time_text L (dp_decision_at p)),
        JObj (features_members L (dp_features p))]"

definition event_members :: "'a golib_scheme \<Rightarrow> decision_event \<Rightarrow> (string \<times> json) list" where
  "event_members L ev =
     zip envelope_names
       [str_json (dv_event_id ev), str_json (dv_event_type ev), str_json (dv_aggregate_id ev),
        JNum (show_int (dv_schema_version ev)), str_json (time_text L (dv_occurred_at ev)),
        str_json (dv_trace_id ev), JObj (payload_members L (dv_payload ev))]"

lemma event_json_members: "json_text (event_json L ev) = json_text (JObj (event_members L ev))"
  by (simp add: json_text_items_str event_json_def payload_json_def features_json_def event_members_def payload_members_def
      features_members_def envelope_names_def payload_names_def feature_names_def)

lemma members_fst:
  "map fst (features_members L f) = feature_names" "map fst (payload_members L p) = payload_names"
  "map fst (event_members L ev) = envelope_names"
  by (simp_all add: features_members_def payload_members_def event_members_def envelope_names_def
      payload_names_def feature_names_def)

lemma members_snd:
  "map snd (features_members L f) =
       [JNum (show_int (fs_velocity_5m f)), JBool (fs_new_device f), JBool (fs_cross_border f),
        str_json (fs_baseline_country f), str_json (time_text L (fs_decision_at f))]"
  "map snd (payload_members L p) =
       [str_json (dp_decision_id p), str_json (dp_payment_id p), str_json (dp_source_event_id p), str_json (dp_decision p),
        JNum (show_int (dp_risk_score p)), JNum (show_int (dp_rule_score p)),
        JNum (show_int (dp_model_score p)), JNum (float_text L (dp_model_probability p)),
        JNum (float_text L (dp_model_review_threshold p)), JArr (map str_json (dp_reason_codes p)),
        str_json (dp_rule_version p), str_json (dp_model_version p), str_json (time_text L (dp_decision_at p)),
        JObj (features_members L (dp_features p))]"
  "map snd (event_members L ev) =
       [str_json (dv_event_id ev), str_json (dv_event_type ev), str_json (dv_aggregate_id ev),
        JNum (show_int (dv_schema_version ev)), str_json (time_text L (dv_occurred_at ev)),
        str_json (dv_trace_id ev), JObj (payload_members L (dv_payload ev))]"
  by (simp_all add: features_members_def payload_members_def event_members_def envelope_names_def
      payload_names_def feature_names_def)

lemma event_members_wf:
  assumes "writable L ev"
  shows "json_wf 0 (JObj (event_members L ev))"
proof -
  let ?p = "dv_payload ev" and ?f = "dp_features (dv_payload ev)"
  have c: "event_contract ev" and tx: "valid_utf8 (time_text L (dv_occurred_at ev))"
    "valid_utf8 (dp_rule_version ?p)" "valid_utf8 (dp_model_version ?p)"
    "number_literal (float_text L (dp_model_probability ?p))"
    "number_literal (float_text L (dp_model_review_threshold ?p))"
    using assms by (simp_all add: writable_def Let_def time_reads_back_def float_reads_back_def)
  have t: "dp_decision_at ?p = dv_occurred_at ev" "fs_decision_at ?f = dv_occurred_at ev"
    using c by (simp_all add: event_contract_def Let_def)
  have "list_all valid_utf8 (event_uuids ev)"
    using contract_texts(4) [OF c] plain_byte_utf8 by (rule list.pred_mono_strong)
  note u = this [unfolded event_uuids_def list.pred_inject]
  note d = contract_texts(1-3) [OF c, THEN plain_byte_utf8]
  have r: "list_all (json_wf (Suc (Suc (Suc 0)))) (map str_json (dp_reason_codes ?p))"
    using contract_texts(5) [OF c] plain_byte_utf8 by (auto simp: list_all_iff)
  have f: "json_wf (Suc (Suc 0)) (JObj (features_members L ?f))"
    unfolding json_wf_object members_fst members_snd using names_utf8 d(3) tx(1)
    by (simp add: number_literal_int t)
  have "json_wf (Suc 0) (JObj (payload_members L ?p))"
    unfolding json_wf_object members_fst members_snd using names_utf8 d u r f tx
    by (simp add: number_literal_int t del: json_wf.simps(7))
  then show ?thesis
    unfolding json_wf_object [of 0] members_fst members_snd using names_utf8 d u tx
    by (simp add: number_literal_int del: json_wf.simps(7))
qed

section \<open>Decoding\<close>

text \<open>Looking up the \<open>i\<close>-th name of a list of distinct names.\<close>

lemma filter_zip_nth:
  "distinct ks \<Longrightarrow> length ks = length vs \<Longrightarrow> i < length ks \<Longrightarrow>
   map snd (filter (\<lambda>m. fst m = ks ! i) (zip ks vs)) = [vs ! i]"
proof (induction ks vs arbitrary: i rule: list_induct2')
  case (4 k ks v vs)
  show ?case
  proof (cases i)
    case 0
    have "filter (\<lambda>m. fst m = k) (zip ks vs) = []"
      using 4(2) by (auto simp: filter_empty_conv dest: set_zip_leftD)
    with 0 show ?thesis by simp
  next
    case (Suc j)
    with 4 show ?thesis by auto
  qed
qed simp_all

lemma get_zip_nth:
  "distinct ks \<Longrightarrow> length ks = length vs \<Longrightarrow> i < length ks \<Longrightarrow> json_get (zip ks vs) (ks ! i) = Some (vs ! i)"
  by (simp add: json_get_def map_of_eq_Some_iff rev_map [symmetric] distinct_map set_zip)
     (metis map_fst_zip distinct_rev rev_map)

lemma distinct_names: "distinct envelope_names" "distinct payload_names" "distinct feature_names"
  by (simp_all add: envelope_names_def payload_names_def feature_names_def)

lemma wire_fst: "list_all wire_name (map fst ms) \<Longrightarrow> list_all (\<lambda>m. wire_name (fst m)) ms"
  by (simp add: list_all_iff)

lemma members_for_zip:
  assumes "list_all wire_name ks" and "distinct ks" and "length ks = length vs" and "i < length ks"
  shows "members_for (zip ks vs) (ks ! i) = [vs ! i]"
proof -
  have "list_all (\<lambda>m. wire_name (fst m)) (zip ks vs)"
    using assms(1,3) by (intro wire_fst) (simp add: map_fst_zip)
  moreover have "wire_name (ks ! i)" using assms(1,4) by (simp add: list_all_length)
  ultimately show ?thesis using members_for_wire filter_zip_nth [OF assms(2-4)] by simp
qed

lemma known_zip:
  assumes "list_all wire_name ks" and "length ks = length vs"
  shows "known_members (zip ks vs) ks"
  using assms by (intro known_members_wire wire_fst) (auto simp: map_fst_zip list_all_iff dest: set_zip_leftD)

lemma members_for_all:
  assumes "list_all wire_name (map fst ms)" and "distinct (map fst ms)"
  shows "map (members_for ms) (map fst ms) = map (\<lambda>v. [v]) (map snd ms)"
    and "map (json_get ms) (map fst ms) = map Some (map snd ms)"
proof -
  have "members_for ms (map fst ms ! i) = [map snd ms ! i]" "json_get ms (map fst ms ! i) = Some (map snd ms ! i)"
    if "i < length ms" for i
    using members_for_zip [OF assms, of "map snd ms" i] get_zip_nth [OF assms(2), of "map snd ms" i] that
    by (simp_all add: zip_map_fst_snd)
  then show "map (members_for ms) (map fst ms) = map (\<lambda>v. [v]) (map snd ms)"
    "map (json_get ms) (map fst ms) = map Some (map snd ms)"
    unfolding list_eq_iff_nth_eq by simp_all
qed

text \<open>The fields of the three objects, one by one.\<close>

lemmas feature_fields =
  members_for_all(1) [of "features_members L f" for L f, unfolded members_fst, OF wire_names(3) distinct_names(3),
    unfolded members_snd, unfolded feature_names_def list.map list.inject]
lemmas payload_fields =
  members_for_all(1) [of "payload_members L p" for L p, unfolded members_fst, OF wire_names(2) distinct_names(2),
    unfolded members_snd, unfolded payload_names_def list.map list.inject]
lemmas event_fields =
  members_for_all(1) [of "event_members L ev" for L ev, unfolded members_fst, OF wire_names(1) distinct_names(1),
    unfolded members_snd, unfolded envelope_names_def list.map list.inject]

lemma known_members_all:
  "known_members (features_members L f) feature_names" "known_members (payload_members L p) payload_names"
  "known_members (event_members L ev) envelope_names"
  unfolding features_members_def payload_members_def event_members_def
  by (rule known_zip [OF wire_names(3)] known_zip [OF wire_names(2)] known_zip [OF wire_names(1)],
      simp add: feature_names_def payload_names_def envelope_names_def)+

lemma decode_features_members:
  assumes "time_reads_back L (fs_decision_at f)" and "in_int64 (fs_velocity_5m f)"
  shows "decode_features L (features_members L f) = Some f"
  using assms known_members_all(1) [of L f] feature_fields [of L f]
  by (simp add: decode_features_def field_def time_reads_back_def)

lemma fill_strings_map: "fill_strings old (map str_json xs) = Some xs"
  by (induction xs arbitrary: old) auto

lemma decode_payload_members:
  assumes "time_reads_back L (dp_decision_at p)" and "float_reads_back L (dp_model_probability p)"
    and "float_reads_back L (dp_model_review_threshold p)" and "dp_reason_codes p \<noteq> []"
    and "score (dp_risk_score p)" "score (dp_rule_score p)" "score (dp_model_score p)"
    and "time_reads_back L (fs_decision_at (dp_features p))" and "in_int64 (fs_velocity_5m (dp_features p))"
  shows "decode_payload L (payload_members L p) = Some p"
proof -
  have i: "in_int64 (dp_risk_score p)" "in_int64 (dp_rule_score p)" "in_int64 (dp_model_score p)"
    using assms(5-7) by (simp_all add: score_def in_int64_def)
  obtain x xs where rc: "dp_reason_codes p = x # xs" using assms(4) by (cases "dp_reason_codes p") auto
  have "decode_strings [] [] [JArr (map str_json (dp_reason_codes p))] = Some (dp_reason_codes p)"
    using fill_strings_map [of "[]" "dp_reason_codes p"] by (simp add: rc)
  with i assms known_members_all(2) [of L p] payload_fields [of L p] decode_features_members [OF assms(8,9)]
  show ?thesis
    by (simp add: decode_payload_def field_def time_reads_back_def float_reads_back_def)
qed

lemmas payload_gets =
  members_for_all(2) [of "payload_members L p" for L p, unfolded members_fst, OF wire_names(2) distinct_names(2),
    unfolded members_snd, unfolded payload_names_def list.map list.inject]
lemmas event_gets =
  members_for_all(2) [of "event_members L ev" for L ev, unfolded members_fst, OF wire_names(1) distinct_names(1),
    unfolded members_snd, unfolded envelope_names_def list.map list.inject]

lemma requireFields_all:
  assumes "map (json_get ms) ks = map Some vs" and "JNull \<notin> set vs"
  shows "requireFields (Some ms) what ks = None"
proof -
  have "\<exists>v \<in> set vs. json_get ms k = Some v" if "k \<in> set ks" for k
  proof -
    have "json_get ms k \<in> set (map (json_get ms) ks)" using that by simp
    then show ?thesis unfolding assms(1) by auto
  qed
  then have "List.find (\<lambda>name. json_get ms name = None \<or> json_get ms name = Some JNull) ks = None"
    using assms(2) by (force simp: find_None_iff)
  then show ?thesis by (simp add: requireFields_def)
qed

lemma members_required:
  "requireFields (Some (features_members L f)) what feature_names = None"
  "requireFields (Some (payload_members L p)) what payload_names = None"
  "requireFields (Some (event_members L ev)) what envelope_names = None"
proof -
  have g: "list_all wire_name (map fst ms) \<Longrightarrow> distinct (map fst ms) \<Longrightarrow> JNull \<notin> set (map snd ms) \<Longrightarrow>
      requireFields (Some ms) what (map fst ms) = None" for ms
    by (rule requireFields_all [OF members_for_all(2)]) simp_all
  show "requireFields (Some (features_members L f)) what feature_names = None"
    using g [of "features_members L f"] wire_names(3) distinct_names(3) by (simp add: members_fst members_snd)
  show "requireFields (Some (payload_members L p)) what payload_names = None"
    using g [of "payload_members L p"] wire_names(2) distinct_names(2) by (simp add: members_fst members_snd)
  show "requireFields (Some (event_members L ev)) what envelope_names = None"
    using g [of "event_members L ev"] wire_names(1) distinct_names(1) by (simp add: members_fst members_snd)
qed

lemma parse_wire:
  assumes "writable L ev"
  shows "json_parse (wire_event L ev) = Some (JObj (event_members L ev))"
  using json_parse_text [OF event_members_wf [OF assms]] by (simp add: wire_event_def event_json_members)

lemma decode_wire:
  assumes "writable L ev"
  shows "decode_event L (wire_event L ev) = Some ev"
proof -
  let ?p = "dv_payload ev"
  have c: "event_contract ev" and w: "time_reads_back L (dv_occurred_at ev)"
    "float_reads_back L (dp_model_probability ?p)" "float_reads_back L (dp_model_review_threshold ?p)"
    "in_int64 (fs_velocity_5m (dp_features ?p))"
    using assms by (simp_all add: writable_def Let_def)
  have t: "dp_decision_at ?p = dv_occurred_at ev" "fs_decision_at (dp_features ?p) = dv_occurred_at ev"
    "dp_reason_codes ?p \<noteq> []" "score (dp_risk_score ?p)" "score (dp_rule_score ?p)" "score (dp_model_score ?p)"
    "dv_schema_version ev = 2" using c by (simp_all add: event_contract_def Let_def)
  have "decode_payload L (payload_members L ?p) = Some ?p"
    using w t by (intro decode_payload_members) simp_all
  moreover have "in_int64 (dv_schema_version ev)" by (simp add: t(7) in_int64_def)
  ultimately show ?thesis
    using w(1) parse_wire [OF assms] known_members_all(3) [of L ev] event_fields [of L ev]
    by (simp add: decode_event_def field_def time_reads_back_def)
qed

lemma require_wire:
  assumes "writable L ev"
  shows "requireEventFields L (wire_event L ev) = None"
  using parse_wire [OF assms] event_gets [of L ev] payload_gets [of L "dv_payload ev"]
  by (simp add: requireEventFields_def member_def members_required)

lemma ParseEvent_wire_event:
  assumes "writable L ev"
  shows "ParseEvent L (wire_event L ev) = Inr ev"
proof -
  have "event_contract ev" "normalForm ev = ev"
    using assms normalForm_id by (simp_all add: writable_def Let_def)
  then have "normalizeAndValidate L ev = Inr ev" by (simp add: normalizeAndValidate_Inr)
  then show ?thesis using require_wire [OF assms] decode_wire [OF assms] by (simp add: ParseEvent_def)
qed

lemma fingerprint_wire:
  assumes "writable L ev"
  shows "DecisionFingerprint L ev = Inr (digest_hex (sha256 L (wire_event L ev)))"
proof -
  have "event_contract ev" using assms by (simp add: writable_def Let_def)
  then have "utcEvent ev = ev" "is_finite (dp_model_probability (dv_payload ev))"
    "is_finite (dp_model_review_threshold (dv_payload ev))"
    "dp_decision_at (dv_payload ev) = dv_occurred_at ev"
    "fs_decision_at (dp_features (dv_payload ev)) = dv_occurred_at ev"
    by (auto simp: event_contract_def Let_def utcEvent_def utc_def unit_interval_def open_interval_def
        is_finite_def split: float64.splits)
  moreover have "time_marshals (dv_occurred_at ev)"
    using assms by (simp add: writable_def Let_def time_reads_back_def)
  ultimately show ?thesis by (simp add: DecisionFingerprint_def Let_def wire_event_def)
qed

section \<open>An example\<close>

lemma quote_plain_int: "quote_plain (show_int i)"
proof -
  have "quote_plain (show_nat n)" for n
    using show_nat_digits [of n] by (auto simp: quote_plain_def list_all_iff is_digit_def)
  then show ?thesis by (simp add: show_int_def quote_plain_def special_bytes)
qed

definition sample_decision :: decision_event where
  "sample_decision =
     \<lparr>dv_event_id = sample_uuid, dv_event_type = ''risk.decision.completed'',
      dv_aggregate_id = sample_uuid, dv_schema_version = 2,
      dv_occurred_at = \<lparr>wall = 7000000, zone = 0\<rparr>, dv_trace_id = sample_uuid,
      dv_payload =
        \<lparr>dp_decision_id = sample_uuid, dp_payment_id = sample_uuid, dp_source_event_id = sample_uuid,
         dp_decision = ''REVIEW'', dp_risk_score = 55, dp_rule_score = 40, dp_model_score = 60,
         dp_model_probability = Finite (1/2), dp_model_review_threshold = Finite (1/2),
         dp_reason_codes = [''NEW_DEVICE''], dp_rule_version = ''r1'', dp_model_version = ''m1'',
         dp_decision_at = \<lparr>wall = 7000000, zone = 0\<rparr>,
         dp_features = \<lparr>fs_velocity_5m = 1, fs_new_device = True, fs_cross_border = False,
           fs_baseline_country = ''DE'', fs_decision_at = \<lparr>wall = 7000000, zone = 0\<rparr>\<rparr>\<rparr>\<rparr>"

lemma canonical_decision_uuid: "canonical_uuid s \<Longrightarrow> decision_uuid s"
  using uuid_in_of_canonical [of s] compact_hex_iff [of s] canonical_lower_id [of s]
  by (simp add: decision_uuid_def uuid_in_def hex_decodes_32 canonical_uuid_def split: if_splits)

lemma sample_contract: "event_contract sample_decision"
proof -
  have u: "decision_uuid sample_uuid" using sample_uuid_canonical canonical_decision_uuid by simp
  have r: "validReasonCode ''NEW_DEVICE''"
    by (simp add: validReasonCode_def plain_runes plain_text_def reason_rune_def byte_def del: runes.simps)
  show ?thesis
    by (simp add: event_contract_def Let_def sample_decision_def event_uuids_def u r
        is_zero_time_def score_def unit_interval_def open_interval_def valid_version_def upper_letters_def
        byte_def)
qed

lemma sample_writable: "writable sample_lib sample_decision"
proof -
  have "valid_utf8 ''r1''" "valid_utf8 ''m1''" "valid_utf8 (show_int 7000000)"
    using show_int_plain [of 7000000]
    by (simp_all add: valid_utf8_ascii ascii_def byte_def plain_text_ascii del: valid_utf8.simps)
  moreover have "quote_body (show_int 7000000) = show_int 7000000" by (rule quote_body_plain) (rule quote_plain_int)
  moreover have "trim_space ''r1'' = ''r1''" "trim_space ''m1'' = ''m1''"
    by (simp_all add: trim_all_plain plain_byte_def ascii_def is_space_def byte_def)
  moreover have "number_literal ''0.5''"
    by (simp add: number_literal_def json_number_def digits_prefix_def is_digit_def byte_def)
  ultimately show ?thesis using sample_contract
    by (simp add: writable_def Let_def del: valid_utf8.simps)
       (simp add: sample_decision_def time_reads_back_def float_reads_back_def sample_lib_def sample_float_def
          in_int64_def time_marshals_def json_year_def del: valid_utf8.simps quote_body.simps)
qed

section \<open>Properties\<close>

text \<open>
  C23: round trip.  The bytes that \<open>Fingerprint\<close> hashes are a record that \<open>ParseEvent\<close> accepts, and
  it returns the very event: parsing the canonical form is the identity on normalised events.
\<close>

theorem ParseEvent_wire:
  assumes "writable L ev"
  shows "ParseEvent L (wire_event L ev) = Inr ev"
  by (rule ParseEvent_wire_event [OF assms])

text \<open>
  C24: two normalised events with the same fingerprint are the same event, unless SHA-256 maps their
  two canonical forms to one digest.  So the replay check of \<open>Apply\<close>, which compares
  fingerprints only, never takes a changed decision for a replay.
\<close>

theorem DecisionFingerprint_injective:
  assumes "writable L a" and "writable L b"
    and "sha256 L (wire_event L a) = sha256 L (wire_event L b) \<Longrightarrow> wire_event L a = wire_event L b"
  shows "DecisionFingerprint L a = DecisionFingerprint L b \<longleftrightarrow> a = b"
proof
  assume e: "DecisionFingerprint L a = DecisionFingerprint L b"
  have "wire_event L a = wire_event L b"
    using e assms(3) fingerprint_wire [OF assms(1)] fingerprint_wire [OF assms(2)] digest_hex_inject by simp
  then have "Some a = Some b" using decode_wire [OF assms(1)] decode_wire [OF assms(2)] by metis
  then show "a = b" by simp
qed simp

theorem ParseEvent_wire_witness:
  "ParseEvent sample_lib (wire_event sample_lib sample_decision) = Inr sample_decision"
  by (rule ParseEvent_wire [OF sample_writable])

theorem DecisionFingerprint_injective_witness:
  "DecisionFingerprint (sample_lib\<lparr>sha256 := \<lambda>s. s\<rparr>) sample_decision
     \<noteq> DecisionFingerprint (sample_lib\<lparr>sha256 := \<lambda>s. s\<rparr>)
         (sample_decision\<lparr>dv_trace_id := ''1f8fad5b-d9cb-469f-a165-70867728950e''\<rparr>)"
proof -
  let ?L = "sample_lib\<lparr>sha256 := \<lambda>s. s\<rparr>" and ?t = "''1f8fad5b-d9cb-469f-a165-70867728950e''"
  have "canonical_uuid ?t"
    by (simp add: canonical_uuid_def hyphens_at_def uuid_hex_def lower_hex_def byte_def)
  then have "decision_uuid ?t" by (rule canonical_decision_uuid)
  with sample_contract have "event_contract (sample_decision\<lparr>dv_trace_id := ?t\<rparr>)"
    by (simp add: event_contract_def Let_def event_uuids_def)
  then have w: "writable ?L sample_decision" "writable ?L (sample_decision\<lparr>dv_trace_id := ?t\<rparr>)"
    using sample_writable by (simp_all add: writable_def Let_def time_reads_back_def float_reads_back_def)
  have "sample_uuid \<noteq> ?t" by (simp add: sample_uuid_def)
  then have "dv_trace_id sample_decision \<noteq> dv_trace_id (sample_decision\<lparr>dv_trace_id := ?t\<rparr>)"
    by (simp add: sample_decision_def)
  then have "sample_decision \<noteq> sample_decision\<lparr>dv_trace_id := ?t\<rparr>" by metis
  with DecisionFingerprint_injective [OF w] show ?thesis by simp
qed

end
