(* ===== verification/Lifecycle.thy ===== *)
theory Lifecycle
  imports Decision_Store Decision_Codec
begin

text \<open>
  The life of a payment across the components.  \<open>consistent\<close> says that a payment has at most one
  decision, that its status is the one that decision and its review entail, and that exactly
  the REVIEW decisions have a queue entry; every operation on the database preserves it.
\<close>

section \<open>The invariant\<close>

text \<open>The CASE expression of the reconciliation query; \<open>None\<close> is its NULL.\<close>

definition expected_status :: "string \<Rightarrow> string option \<Rightarrow> string option" where
  "expected_status dec q =
     (if dec = ''REVIEW'' \<and> q = Some ''APPROVED'' then Some ''ALLOWED''
      else if dec = ''REVIEW'' \<and> q = Some ''REJECTED'' then Some ''BLOCKED''
      else if dec = ''REVIEW'' then Some ''REVIEW''
      else if dec = ''ALLOW'' then Some ''ALLOWED''
      else if dec = ''BLOCK'' then Some ''BLOCKED''
      else None)"

definition review_status :: "db \<Rightarrow> string \<Rightarrow> string option" where
  "review_status d did = map_option rv_status (fetch rv_decision_id did (t_reviews d))"

definition status_agrees :: "db \<Rightarrow> payment \<Rightarrow> bool" where
  "status_agrees d p =
     (case fetch dr_payment_id (pay_id p) (t_decisions d) of
        None \<Rightarrow> pay_status p = ''PENDING_RISK''
      | Some r \<Rightarrow> expected_status (dr_decision r) (review_status d (dr_decision_id r)) = Some (pay_status p))"

definition reviews_agree :: "db \<Rightarrow> bool" where
  "reviews_agree d \<longleftrightarrow>
     (\<forall>r \<in> set (t_decisions d). dr_decision r = ''REVIEW'' \<longleftrightarrow> review_status d (dr_decision_id r) \<noteq> None)
     \<and> (\<forall>q \<in> set (t_reviews d). \<exists>r \<in> set (t_decisions d).
           dr_decision_id r = rv_decision_id q \<and> dr_payment_id r = rv_payment_id q)"

definition consistent :: "db \<Rightarrow> bool" where
  "consistent d \<longleftrightarrow>
     valid_db d \<and> unique_by dr_payment_id (t_decisions d)
     \<and> (\<forall>p \<in> set (t_payments d). status_agrees d p) \<and> reviews_agree d"

lemma consistent_empty: "consistent empty_db"
  by (simp add: consistent_def) (simp add: empty_db_def reviews_agree_def)

lemma expected_not_pending: "expected_status dec q \<noteq> Some ''PENDING_RISK''"
  by (simp add: expected_status_def)

lemma consistent_valid: "consistent d \<Longrightarrow> valid_db d"
  by (simp add: consistent_def)

text \<open>A pending payment has no decision, and a payment without a decision is pending.\<close>

lemma pending_iff:
  assumes "consistent d" and "p \<in> set (t_payments d)"
  shows "pay_status p = ''PENDING_RISK'' \<longleftrightarrow> fetch dr_payment_id (pay_id p) (t_decisions d) = None"
  using assms expected_not_pending
  by (auto simp: consistent_def status_agrees_def split: option.splits)

lemma no_review_without_decision:
  "reviews_agree d \<Longrightarrow> \<not> decision_exists d did \<Longrightarrow> fetch rv_decision_id did (t_reviews d) = None"
  by (force simp: reviews_agree_def decision_exists_def fetch_None_iff)

lemma review_status_cong: "t_reviews d' = t_reviews d \<Longrightarrow> review_status d' = review_status d"
  by (simp add: review_status_def fun_eq_iff)

text \<open>The tables the invariant reads: an operation that leaves them alone preserves it.\<close>

lemma consistent_frame:
  assumes "consistent d" and "valid_db d'" and "t_payments d' = t_payments d"
    and "t_decisions d' = t_decisions d" and "t_reviews d' = t_reviews d"
  shows "consistent d'"
proof -
  have rs: "review_status d' = review_status d" by (rule review_status_cong [OF assms(5)])
  show ?thesis
    using assms(1,2) unfolding consistent_def status_agrees_def reviews_agree_def rs assms(3-5) by blast
qed

section \<open>Creating payments and publishing events\<close>

lemma consistent_new_payment:
  assumes "consistent d" and "valid_db d'" and "pay_status row = ''PENDING_RISK''"
    and "\<not> payment_exists d (pay_id row)"
    and "d' = d\<lparr>t_payments := t_payments d @ [row], t_outbox := ob\<rparr>"
  shows "consistent d'"
proof -
  have "fetch dr_payment_id (pay_id row) (t_decisions d) = None"
  proof (rule ccontr)
    assume "fetch dr_payment_id (pay_id row) (t_decisions d) \<noteq> None"
    then obtain r where r: "r \<in> set (t_decisions d)" "dr_payment_id r = pay_id row"
      by (auto dest: fetch_SomeD)
    with assms(1) have "payment_exists d (pay_id row)"
      by (auto simp: consistent_def valid_db_def valid_decisions_def decision_checks_def)
    with assms(4) show False by simp
  qed
  then have new: "status_agrees d' row" using assms(3) by (simp add: status_agrees_def assms(5))
  have t: "t_decisions d' = t_decisions d" "t_reviews d' = t_reviews d" by (simp_all add: assms(5))
  have rs: "review_status d' = review_status d" by (rule review_status_cong [OF t(2)])
  have old: "status_agrees d' p \<longleftrightarrow> status_agrees d p" for p
    unfolding status_agrees_def rs t ..
  have "reviews_agree d'" using assms(1) unfolding consistent_def reviews_agree_def rs t by blast
  with assms(1,2) new old show ?thesis by (auto simp: consistent_def assms(5))
qed

lemma consistent_run_attempt:
  assumes "consistent d" and "good_attempt a" and "run_attempt L a d = (res, d')"
  shows "consistent d'"
  using assms(3)
proof (cases rule: run_attempt_cases)
  case (2 p ev)
  show ?thesis
  proof (cases "d' = d")
    case False
    have v: "valid_db d'" using run_attempt_valid [OF consistent_valid [OF assms(1)], of L a] assms(3) by simp
    from create_payment_rows [OF 2(2) False] obtain row orow
      where d': "d' = d\<lparr>t_payments := t_payments d @ [row], t_outbox := t_outbox d @ [orow]\<rparr>"
        and row: "as_stored (p\<lparr>pay_id := pay_id row\<rparr>) = row" by blast
    from row have "pay_status row = pay_status p" by (metis as_stored_fields(4) payment.select_convs(10)
          payment.surjective payment.update_convs(1))
    then have s: "pay_status row = ''PENDING_RISK''"
      using prepare_create_fields(7) [OF 2(1)] assms(2) by (simp add: good_attempt_def StatusPendingRisk_def)
    have "unique_by pay_id (t_payments d @ [row])"
      using v by (simp add: valid_db_def valid_payments_def d')
    then have "\<not> payment_exists d (pay_id row)" by (simp add: unique_by_append1 payment_exists_def)
    from consistent_new_payment [OF assms(1) v s this d'] show ?thesis .
  qed (use assms(1) in simp)
qed (use assms(1) in simp)

lemma consistent_ProcessNext:
  assumes "consistent d" shows "consistent (fst (snd (ProcessNext cfg locked env f (d, k))))"
proof -
  obtain x d' k' where r: "ProcessNext cfg locked env f (d, k) = (x, (d', k'))" by (metis prod.collapse)
  have v: "valid_db d'" using ProcessNext_valid [OF consistent_valid [OF assms], of cfg locked env f k] r by simp
  from ProcessNext_state [OF r] have "consistent d'"
    using assms consistent_frame [OF assms v] by (auto simp: completed_db_def update_outbox_def)
  with r show ?thesis by simp
qed

section \<open>Recording decisions\<close>

lemma affected_pending:
  assumes "unique_by pay_id ps" and "affected (pending_payment pid) ps = 1"
  obtains p where "p \<in> set ps" "pay_id p = pid" "pay_status p = ''PENDING_RISK''"
proof -
  have "\<exists>p \<in> set ps. pending_payment pid p"
  proof (rule ccontr)
    assume "\<not> (\<exists>p \<in> set ps. pending_payment pid p)"
    then have "affected (pending_payment pid) ps = 0" by (simp add: affected_def filter_empty_conv)
    with assms(2) show False by simp
  qed
  with that show thesis by (auto simp: pending_payment_def)
qed

lemma new_decision_id:
  "\<not> decision_exists d did \<Longrightarrow> r \<in> set (t_decisions d) \<Longrightarrow> dr_decision_id r \<noteq> did"
  unfolding decision_exists_def not_not fetch_None_iff by (metis imageI)

abbreviation waiting_entries :: "decision_row \<Rightarrow> gtime \<Rightarrow> review_row list" where
  "waiting_entries drow t1 \<equiv> (if dr_decision drow = ''REVIEW''
             then [\<lparr>rv_payment_id = dr_payment_id drow, rv_decision_id = dr_decision_id drow,
                    rv_status = ''PENDING'', rv_version = 1, rv_enqueued_at = t1, rv_resolved_at = None,
                    rv_reviewer_id = None, rv_resolution_reason = None\<rparr>] else [])"

text \<open>A new decision and, when it is REVIEW, its pending entry keep \<open>reviews_agree\<close>.\<close>

lemma review_status_new:
  assumes "reviews_agree d" and "\<not> decision_exists d (dr_decision_id drow)"
    and "t_reviews d' = t_reviews d @ revs"
    and "revs = waiting_entries drow t1"
  shows "review_status d' did = (if did = dr_decision_id drow
    then if dr_decision drow = ''REVIEW'' then Some ''PENDING'' else None else review_status d did)"
  using no_review_without_decision [OF assms(1,2)]
  by (simp add: review_status_def assms(3,4) fetch_append fetch_Cons split: option.splits)

lemma reviews_agree_new:
  assumes "reviews_agree d" and "\<not> decision_exists d (dr_decision_id drow)"
    and "t_decisions d' = t_decisions d @ [drow]" and "t_reviews d' = t_reviews d @ revs"
    and revs: "revs = waiting_entries drow t1"
  shows "reviews_agree d'"
proof -
  have "\<exists>r \<in> set (t_decisions d'). dr_decision_id r = rv_decision_id q \<and> dr_payment_id r = rv_payment_id q"
    if "q \<in> set (t_reviews d')" for q
    using that assms(1) by (auto simp: assms(3,4) reviews_agree_def revs split: if_splits)
  then show ?thesis using assms(1) new_decision_id [OF assms(2)]
    unfolding reviews_agree_def by (auto simp: review_status_new [OF assms(1,2,4) revs] assms(3))
qed

lemma status_agrees_other:
  assumes "status_agrees d p" and "pay_id p \<noteq> dr_payment_id drow" and "t_decisions d' = t_decisions d @ [drow]"
    and "\<And>r. r \<in> set (t_decisions d) \<Longrightarrow> review_status d' (dr_decision_id r) = review_status d (dr_decision_id r)"
  shows "status_agrees d' p"
  using assms
  by (auto simp: status_agrees_def fetch_append fetch_Cons split: option.splits dest: fetch_SomeD)

lemma consistent_new_decision:
  assumes c: "consistent d" and v: "valid_db d'"
    and aff: "affected (pending_payment (dr_payment_id drow)) (t_payments d) = 1"
    and new: "\<not> decision_exists d (dr_decision_id drow)"
    and revs: "revs = waiting_entries drow t1"
    and st: "expected_status (dr_decision drow) (if dr_decision drow = ''REVIEW'' then Some ''PENDING'' else None) = Some status"
    and d': "d' = d\<lparr>t_payments := update_rows (pending_payment (dr_payment_id drow))
               (\<lambda>p. p\<lparr>pay_status := status, updated_at := t2\<rparr>) (t_payments d),
            t_decisions := t_decisions d @ [drow], t_receipts := rs,
            t_audits := as, t_reviews := t_reviews d @ revs\<rparr>"
  shows "consistent d'"
proof -
  have t: "t_decisions d' = t_decisions d @ [drow]" "t_reviews d' = t_reviews d @ revs" by (simp_all add: d')
  have u: "unique_by pay_id (t_payments d)" and ra: "reviews_agree d"
    using c by (simp_all add: consistent_def valid_db_def valid_payments_def)
  obtain p where p: "p \<in> set (t_payments d)" "pay_id p = dr_payment_id drow" "pay_status p = ''PENDING_RISK''"
    by (rule affected_pending [OF u aff])
  have nod: "fetch dr_payment_id (dr_payment_id drow) (t_decisions d) = None"
    using pending_iff [OF c p(1)] p(2,3) by simp
  note r = review_status_new [OF ra new t(2) revs]
  have "status_agrees d' q" if q: "q \<in> set (t_payments d')" for q
  proof -
    from q obtain q0 where q0: "q0 \<in> set (t_payments d)"
      and qq: "q = (if pending_payment (dr_payment_id drow) q0 then q0\<lparr>pay_status := status, updated_at := t2\<rparr> else q0)"
      by (auto simp: d' set_update_rows)
    show ?thesis
    proof (cases "pay_id q0 = dr_payment_id drow")
      case True
      then have "q0 = p" using unique_byD [OF u q0 p(1)] p(2) by simp
      then have "pay_id q = dr_payment_id drow" "pay_status q = status" using qq p(2,3) by (simp_all add: pending_payment_def)
      then show ?thesis using st nod by (simp add: status_agrees_def r t fetch_append fetch_Cons)
    next
      case False
      then have "q = q0" by (simp add: qq pending_payment_def)
      moreover have "status_agrees d q0" using c q0 by (simp add: consistent_def)
      ultimately show ?thesis using False new_decision_id [OF new]
        by (intro status_agrees_other [OF _ _ t(1)]) (simp_all add: r)
    qed
  qed
  moreover have "unique_by dr_payment_id (t_decisions d')" using c nod by (simp add: t unique_by_append1 consistent_def)
  ultimately show ?thesis using v reviews_agree_new [OF ra new t revs] by (simp add: consistent_def)
qed

lemma decision_row_decision:
  "decision_row_of now ev fp = Some row \<Longrightarrow> dr_decision row = dp_decision (dv_payload ev)"
  by (auto simp: decision_row_of_def Let_def split: option.splits)

lemma status_for_decision:
  "paymentStatusForDecision L dec = Inr status \<Longrightarrow>
   expected_status dec (if dec = ''REVIEW'' then Some ''PENDING'' else None) = Some status"
  by (auto simp: paymentStatusForDecision_def expected_status_def DecisionAllow_def DecisionReview_def
      DecisionBlock_def split: if_splits)

lemma consistent_receipts:
  assumes "consistent d" and "insertReceipt L env k r digest ev disp d = Inr d'"
  shows "consistent d'"
proof -
  obtain new where d': "d' = d\<lparr>t_receipts := t_receipts d @ new\<rparr>"
    using insertReceipt_receipts [OF assms(2)] by blast
  have "valid_db d'" using insertReceipt_receipts [OF assms(2)] consistent_valid [OF assms(1)] by blast
  from consistent_frame [OF assms(1) this] show ?thesis by (simp add: d')
qed

lemma consistent_write_decision:
  assumes "consistent d" and "write_decision L env ev fp r digest d = Inr d'"
  shows "consistent d'"
proof (rule write_decision_tables [OF assms(2)])
  fix drow arow status d4
  assume a: "decision_row_of (pg_clock env 6) ev fp = Some drow"
      "paymentStatusForDecision L (dp_decision (dv_payload ev)) = Inr status"
      "affected (pending_payment (dr_payment_id drow)) (t_payments d) = 1"
      "\<not> decision_exists d (dr_decision_id drow)"
    and d4: "d4 = d\<lparr>t_payments := update_rows (pending_payment (dr_payment_id drow))
               (\<lambda>p. p\<lparr>pay_status := status, updated_at := timestamptz (pg_clock env 7)\<rparr>) (t_payments d),
            t_decisions := t_decisions d @ [drow], t_audits := t_audits d @ [arow],
            t_reviews := t_reviews d @ queue_rows ev drow\<rparr>"
    and v: "valid_db d \<Longrightarrow> valid_db d4"
    and i: "insertReceipt L env 10 r digest ev dispositionApplied d4 = Inr d'"
  note dec = decision_row_decision [OF a(1)]
  have e: "d4 = d\<lparr>t_payments := update_rows (pending_payment (dr_payment_id drow))
               (\<lambda>p. p\<lparr>pay_status := status, updated_at := timestamptz (pg_clock env 7)\<rparr>) (t_payments d),
            t_decisions := t_decisions d @ [drow], t_receipts := t_receipts d, t_audits := t_audits d @ [arow],
            t_reviews := t_reviews d @ queue_rows ev drow\<rparr>" by (simp add: d4)
  have st: "expected_status (dr_decision drow) (if dr_decision drow = ''REVIEW'' then Some ''PENDING'' else None)
      = Some status" using status_for_decision [OF a(2)] dec by simp
  have "consistent d4"
    by (rule consistent_new_decision [OF assms(1) v [OF consistent_valid [OF assms(1)]] a(3,4)
          queue_rows_def [of ev drow, folded dec] st e])
  from consistent_receipts [OF this i] show ?thesis .
qed

lemma consistent_apply_locked:
  assumes "consistent d" and "apply_locked L env ev fp r d = (res, d')"
  shows "consistent d'"
  using assms(2)
  by (cases rule: apply_locked_cases) (use assms(1) consistent_receipts consistent_write_decision in blast)+

lemma consistent_Apply:
  assumes "consistent d" and "Apply L env ev r d = (res, d')"
  shows "consistent d'"
  using assms(2)
  by (cases rule: Apply_cases) (use assms(1) consistent_receipts consistent_write_decision in blast)+

section \<open>Apply when nothing fails\<close>

lemma fresh_audit_key:
  assumes "valid_db d" and "\<not> decision_exists d did"
  shows "fetch audit_key (x, did) (t_audits d) = None"
proof (rule ccontr)
  assume "fetch audit_key (x, did) (t_audits d) \<noteq> None"
  then obtain a where "a \<in> set (t_audits d)" "au_decision_id a = did"
    by (auto dest!: fetch_SomeD simp: audit_key_def)
  with assms show False by (auto simp: valid_db_def valid_audits_def audit_checks_def)
qed

lemma fresh_review:
  assumes "reviews_agree d" and "fetch dr_payment_id pid (t_decisions d) = None"
  shows "fetch rv_payment_id pid (t_reviews d) = None"
proof (rule ccontr)
  assume "fetch rv_payment_id pid (t_reviews d) \<noteq> None"
  then obtain q where "q \<in> set (t_reviews d)" "rv_payment_id q = pid" by (auto dest!: fetch_SomeD)
  with assms show False by (force simp: reviews_agree_def fetch_None_iff)
qed

lemma pending_affected:
  assumes "unique_by pay_id ps" and "fetch pay_id pid ps = Some p" and "pay_status p = ''PENDING_RISK''"
  shows "affected (pending_payment pid) ps = 1"
  using affected_key [OF assms(1), of pid "\<lambda>p. pay_status p = ''PENDING_RISK''"] assms(2,3)
  by (simp add: pending_payment_def [abs_def])

lemma decision_audit_ok:
  assumes "valid_db d" and "jsonb_accepts L" and "storable_decision ev"
    and "\<not> decision_exists d (dp_decision_id (dv_payload ev))"
    and "fetch au_id (dp_decision_id (dv_payload ev)) (t_audits d) = None"
    and "t_audits d2 = t_audits d" and "decision_exists d2 (dp_decision_id (dv_payload ev))"
  shows "\<exists>as. insert_decision_audit L now ev d2 = Inr (d2\<lparr>t_audits := as\<rparr>)"
proof -
  obtain j where "jsonb_column L (decision_details ev) = Some j" "json_object j"
    using details_accepted [OF assms(3,2)] by (auto split: option.splits)
  then show ?thesis
    using storable_uuids [OF assms(3)] assms(5-7) fresh_audit_key [OF assms(1,4)]
    by (simp add: insert_decision_audit_def Let_def insert_audit_def audit_checks_def check_all_cases(1)
        plain_varchar plain_text_def byte_def audit_key_def exI)
qed

lemma enqueue_ok:
  assumes "reviews_agree d" and "storable_decision ev"
    and "fetch dr_payment_id (dp_payment_id (dv_payload ev)) (t_decisions d) = None"
    and "\<not> decision_exists d (dp_decision_id (dv_payload ev))"
    and "t_reviews d3 = t_reviews d" and "payment_exists d3 (dp_payment_id (dv_payload ev))"
    and "decision_exists d3 (dp_decision_id (dv_payload ev))"
  shows "\<exists>rs. enqueue_review ev d3 = Inr (d3\<lparr>t_reviews := rs\<rparr>)"
  using storable_uuids [OF assms(2)] assms(5-7) fresh_review [OF assms(1,3)] no_review_without_decision [OF assms(1,4)]
  by (simp add: enqueue_review_def Let_def insert_review_def review_checks_def check_all_cases(1)
      int4_def opt_all_def resolution_shape_def exI)

lemma write_decision_ok:
  assumes "consistent d" and "no_fault env" and "digest_32 L" and "jsonb_accepts L"
    and "storable_decision ev" and "kafka_record r"
    and "fetch coordinate (record_coordinate r) (t_receipts d) = None"
    and "fetch pay_id (dp_payment_id (dv_payload ev)) (t_payments d) = Some pay"
    and "pay_status pay = ''PENDING_RISK''"
    and "\<not> decision_exists d (dp_decision_id (dv_payload ev))"
    and "fetch dr_source_event_id (dp_source_event_id (dv_payload ev)) (t_decisions d) = None"
    and "fetch au_id (dp_decision_id (dv_payload ev)) (t_audits d) = None" and "hex64 fp"
  shows "\<exists>d'. write_decision L env ev fp r (recordSHA256 L v) d = Inr d'"
proof -
  let ?p = "dv_payload ev"
  let ?did = "dp_decision_id ?p" and ?pid = "dp_payment_id ?p"
  note u = storable_uuids [OF assms(5)]
  have v0: "valid_db d" and ra: "reviews_agree d" using assms(1) by (simp_all add: consistent_def)
  have pe: "payment_exists d ?pid" using assms(8) by (simp add: payment_exists_def)
  obtain row where row: "decision_row_of (pg_clock env 6) ev fp = Some row" "dr_decision_id row = ?did"
    "dr_source_event_id row = dp_source_event_id ?p" "holds (decision_checks d row)"
    by (rule storable_row [OF assms(5), of "pg_clock env 6" fp d]) (use pe assms(13) in blast)
  let ?d1 = "d\<lparr>t_decisions := t_decisions d @ [row]\<rparr>"
  have i1: "insert_decision row d = Inr ?d1"
    using row assms(10,11) by (simp add: insert_decision_def check_all_cases(1))
  obtain status where st: "paymentStatusForDecision L (dp_decision ?p) = Inr status"
    using assms(5) by (auto simp: storable_decision_def event_contract_def Let_def paymentStatusForDecision_def
        DecisionAllow_def DecisionReview_def DecisionBlock_def)
  have "affected (pending_payment ?pid) (t_payments d) = 1"
    using v0 by (intro pending_affected [OF _ assms(8,9)]) (simp add: valid_db_def valid_payments_def)
  then obtain ps where s2: "set_payment_status ?pid ''PENDING_RISK'' status (pg_clock env 7) ?d1
      = (1, ?d1\<lparr>t_payments := ps\<rparr>)" and ps: "fetch pay_id ?pid ps \<noteq> None"
    using pe by (simp add: set_payment_status_def Let_def payment_exists_def fetch_update_rows pending_payment_def [abs_def])
  let ?d2 = "?d1\<lparr>t_payments := ps\<rparr>"
  have de: "decision_exists ?d2 ?did"
    by (simp add: decision_exists_def fetch_append fetch_Cons row(2) split: option.splits)
  obtain as where i3: "insert_decision_audit L (pg_clock env 8) ev ?d2 = Inr (?d2\<lparr>t_audits := as\<rparr>)"
    using decision_audit_ok [OF v0 assms(4,5,10,12) _ de] by auto
  let ?d3 = "?d2\<lparr>t_audits := as\<rparr>"
  have "fetch dr_payment_id ?pid (t_decisions d) = None"
    using pending_iff [OF assms(1), of pay] assms(8,9) by (auto dest: fetch_SomeD)
  from enqueue_ok [OF ra assms(5) this assms(10), of ?d3] obtain rs where
    i4: "enqueue_review ev ?d3 = Inr (?d3\<lparr>t_reviews := rs\<rparr>)"
    using ps de by (auto simp: payment_exists_def decision_exists_def)
  define d4 where "d4 = (if dp_decision ?p = DecisionReview then ?d3\<lparr>t_reviews := rs\<rparr> else ?d3)"
  have d4: "(if dp_decision ?p = DecisionReview then statement env 9 (enqueue_review ev ?d3) else Inr ?d3) = Inr d4"
    using i4 assms(2) by (simp add: d4_def statement_no_fault)
  have "t_receipts d4 = t_receipts d" "payment_exists d4 ?pid" using ps by (simp_all add: d4_def payment_exists_def)
  with insertReceipt_ok [OF assms(2,5,6,3), of d4 "''APPLIED''" 10 v] assms(7)
  obtain d5 where "insertReceipt L env 10 r (recordSHA256 L v) ev ''APPLIED'' d4 = Inr d5" by simp
  then have "write_decision L env ev fp r (recordSHA256 L v) d = Inr d5"
    using row(1) i1 st s2 i3 d4 u assms(2)
    by (simp add: write_decision_def Let_def statement_no_fault dispositionApplied_def)
  then show ?thesis by blast
qed

lemma receipt_disposition:
  assumes "valid_db d" and "fetch coordinate k (t_receipts d) = Some row"
  shows "ir_disposition row \<in> {''APPLIED'', ''REPLAYED'', ''REJECTED''}"
proof -
  have "row \<in> set (t_receipts d)" using fetch_SomeD [OF assms(2)] by simp
  with assms(1) have "receipt_shape row" by (auto simp: valid_db_def valid_receipts_def receipt_checks_def)
  then show ?thesis by (auto simp: receipt_shape_def)
qed

lemma existingReceipt_ok:
  assumes "valid_db d" and "no_fault env" and "kafka_record r"
  shows "existingReceipt L env k r digest d =
    (case fetch coordinate (record_coordinate r) (t_receipts d) of
       None \<Rightarrow> Inr None
     | Some row \<Rightarrow>
         if ir_record_sha256 row \<noteq> digest
         then Inl (Wrapf [] (Sentinel ErrSourceRecordConflict)
                     '': coordinate already contains a different value'')
         else Inr (Some (ir_disposition row)))"
  using assms kafka_recordD [OF assms(3)] receipt_disposition [OF assms(1), of "record_coordinate r"]
  by (auto simp: existingReceipt_def statement_no_fault dispositionApplied_def dispositionReplayed_def
      dispositionRejected_def split: option.splits)

text \<open>What \<open>Apply\<close> answers when nothing fails, by what the database holds.\<close>

definition apply_answer :: "'a pglib_scheme \<Rightarrow> decision_event \<Rightarrow> source_record \<Rightarrow> db \<Rightarrow> apply_result result" where
  "apply_answer L ev r d =
     (let p = dv_payload ev in
      case fetch coordinate (record_coordinate r) (t_receipts d) of
        Some row \<Rightarrow>
          if ir_record_sha256 row \<noteq> recordSHA256 L (record_value r)
          then Inl (Wrapf [] (Sentinel ErrSourceRecordConflict)
                      '': coordinate already contains a different value'')
          else if ir_disposition row = ''REJECTED''
          then Inl (Wrapf [] (Sentinel ErrSourceRecordConflict) '': source record was already rejected'')
          else Inr replayed
      | None \<Rightarrow>
     (case fetch pay_id (dp_payment_id p) (t_payments d) of
        None \<Rightarrow> Inl (Sentinel ErrDecisionPaymentNotFound)
      | Some pay \<Rightarrow>
     (case fetch dr_decision_id (dp_decision_id p) (t_decisions d) of
        Some stored \<Rightarrow>
          if Inr (dr_event_fingerprint stored) \<noteq> DecisionFingerprint L ev
          then Inl (Sentinel ErrDecisionConflict) else Inr replayed
      | None \<Rightarrow>
     (case fetch dr_source_event_id (dp_source_event_id p) (t_decisions d) of
        Some other \<Rightarrow>
          Inl (Wrapf [] (Sentinel ErrDecisionConflict)
                 ('': source event already belongs to decision '' @ dr_decision_id other))
      | None \<Rightarrow>
          if pay_status pay \<noteq> ''PENDING_RISK''
          then Inl (Wrapf [] (Sentinel ErrPaymentStateConflict) ('': current status is '' @ pay_status pay))
          else Inr applied))))"

definition acceptable :: "'a pglib_scheme \<Rightarrow> decision_event \<Rightarrow> source_record \<Rightarrow> db \<Rightarrow> bool" where
  "acceptable L ev r d \<longleftrightarrow>
     digest_32 L \<and> jsonb_accepts L \<and> storable_decision ev \<and> kafka_record r
     \<and> (fetch au_id (dp_decision_id (dv_payload ev)) (t_audits d) = None
        \<or> decision_exists d (dp_decision_id (dv_payload ev)))"

lemma Apply_answer:
  assumes "consistent d" and "no_fault env" and "acceptable L ev r d"
  shows "fst (Apply L env ev r d) = apply_answer L ev r d"
proof -
  let ?p = "dv_payload ev" and ?dg = "recordSHA256 L (record_value r)"
  have a: "digest_32 L" "jsonb_accepts L" "storable_decision ev" "kafka_record r"
    using assms(3) by (simp_all add: acceptable_def)
  have v: "valid_db d" using assms(1) by (rule consistent_valid)
  have vs: "validateSourceRecord r = None" using a(4) by (simp add: kafka_record_def)
  have c: "event_contract ev" "time_marshals (dv_occurred_at ev)" using a(3) by (simp_all add: storable_decision_def)
  obtain fp where fp: "DecisionFingerprint L ev = Inr fp" "hex64 fp" using fingerprint_ok [OF c a(1)] by blast
  note u = storable_uuids [OF a(3)]
  note base = Apply_def Let_def vs fp(1) no_faultD [OF assms(2)] existingReceipt_ok [OF v assms(2) a(4)]
    statement_no_fault [OF assms(2)] u commit_no_fault [OF assms(2)]
  show ?thesis
  proof (cases "fetch coordinate (record_coordinate r) (t_receipts d)")
    case (Some row)
    then show ?thesis by (simp add: base apply_answer_def dispositionRejected_def)
  next
    case free: None
    show ?thesis
    proof (cases "fetch pay_id (dp_payment_id ?p) (t_payments d)")
      case None
      with free show ?thesis by (simp add: base apply_answer_def)
    next
      case pay: (Some pay)
      then have pe: "payment_exists d (dp_payment_id ?p)" by (simp add: payment_exists_def)
      show ?thesis
      proof (cases "fetch dr_decision_id (dp_decision_id ?p) (t_decisions d)")
        case (Some stored)
        with free pay insertReceipt_ok [OF assms(2) a(3,4,1) pe free, of "''REPLAYED''" 3 "record_value r"]
        show ?thesis by (simp add: base apply_answer_def dispositionReplayed_def)
      next
        case nod: None
        then have ne: "\<not> decision_exists d (dp_decision_id ?p)" by (simp add: decision_exists_def)
        then have au: "fetch au_id (dp_decision_id ?p) (t_audits d) = None"
          using assms(3) by (simp add: acceptable_def)
        show ?thesis
        proof (cases "fetch dr_source_event_id (dp_source_event_id ?p) (t_decisions d)")
          case (Some other)
          with free pay nod show ?thesis by (simp add: base apply_answer_def)
        next
          case src: None
          show ?thesis
          proof (cases "pay_status pay = ''PENDING_RISK''")
            case True
            from write_decision_ok [OF assms(1,2) a(1-4) free pay True ne src au fp(2), of "record_value r"]
            obtain d' where "write_decision L env ev fp r ?dg d = Inr d'" by blast
            with free pay nod src True show ?thesis by (simp add: base apply_answer_def)
          qed (use free pay nod src in \<open>simp add: base apply_answer_def\<close>)
        qed
      qed
    qed
  qed
qed

section \<open>Reject\<close>

lemma insert_receipt_row_state:
  "insert_receipt_row row d = Inr d' \<Longrightarrow> d' = d\<lparr>t_receipts := t_receipts d @ [row]\<rparr>"
  by (simp add: insert_receipt_row_def check_all_holds)

text \<open>The two parts of \<open>Reject\<close>, by how they end.\<close>

lemma reject_check_cases:
  obtains (ended) res where "reject_check L env r code d = Some (res, d)"
      "res = Inr () \<Longrightarrow> \<exists>row. fetch coordinate (record_coordinate r) (t_receipts d) = Some row
        \<and> ir_record_sha256 row = recordSHA256 L (record_value r) \<and> ir_disposition row = ''REJECTED''"
  | (free) "reject_check L env r code d = None" "fetch coordinate (record_coordinate r) (t_receipts d) = None"
      "validRejectionCode code"
proof (cases "validateSourceRecord r = None \<and> validRejectionCode code \<and> pg_begin env = None")
  case False
  then have "\<exists>e. reject_check L env r code d = Some (Inl e, d)"
    by (auto simp: reject_check_def split: option.splits)
  with ended show thesis by blast
next
  case v: True
  let ?dg = "recordSHA256 L (record_value r)"
  consider (bad) e where "existingReceipt L env 0 r ?dg d = Inl e"
    | (none) "existingReceipt L env 0 r ?dg d = Inr None"
    | (some) disp where "existingReceipt L env 0 r ?dg d = Inr (Some disp)"
    by (metis not_None_eq old.sum.exhaust)
  then show thesis
  proof cases
    case bad
    then show thesis using ended v by (simp add: reject_check_def)
  next
    case none
    from existingReceipt_None [OF none] show thesis using free v none by (simp add: reject_check_def)
  next
    case some
    from existingReceipt_Some [OF some] obtain row where
      row: "fetch coordinate (record_coordinate r) (t_receipts d) = Some row"
      "ir_record_sha256 row = ?dg" "ir_disposition row = disp" by blast
    obtain res where "reject_check L env r code d = Some (res, d)" "res = Inr () \<Longrightarrow> disp = ''REJECTED''"
      using v some by (fastforce simp: reject_check_def commit_tx_def dispositionRejected_def
          split: if_splits commit_outcome.splits)
    with row show thesis using ended by blast
  qed
qed

lemma reject_insert_cases:
  assumes "reject_insert L env r code e d = (res, d')"
  obtains (failed) x where "d' = d" "res = Inl x"
  | (stored) "insert_receipt_row (rejected_row (pg_clock env 1) r (recordSHA256 L (record_value r)) code
         (rejection_message e)) d = Inr d'"
proof (cases "statement env 1 (insert_receipt_row (rejected_row (pg_clock env 1) r (recordSHA256 L (record_value r))
    code (rejection_message e)) d)")
  case (Inl y)
  with assms failed show thesis by (auto simp: reject_insert_def)
next
  case (Inr d1)
  with assms have "commit_tx env ''commit rejected decision record'' d d1 () = (res, d')"
    by (simp add: reject_insert_def)
  from commit_cases [OF this] show thesis using failed stored Inr by (auto simp: statement_Inr)
qed

lemma Reject_cases:
  assumes "Reject L env r code e d = (res, d')"
  obtains (same) "d' = d" "res = Inr () \<Longrightarrow> \<exists>row. fetch coordinate (record_coordinate r) (t_receipts d) = Some row
        \<and> ir_record_sha256 row = recordSHA256 L (record_value r) \<and> ir_disposition row = ''REJECTED''"
  | (stored) "fetch coordinate (record_coordinate r) (t_receipts d) = None" "validRejectionCode code"
      "insert_receipt_row (rejected_row (pg_clock env 1) r (recordSHA256 L (record_value r)) code
         (rejection_message e)) d = Inr d'"
proof (cases rule: reject_check_cases [of L env r code d])
  case (ended res0)
  then have "res0 = res" "d' = d" using assms by (simp_all add: Reject_parts)
  with ended(2) same show thesis by blast
next
  case free
  then have "reject_insert L env r code e d = (res, d')" using assms by (simp add: Reject_parts)
  then show thesis by (cases rule: reject_insert_cases) (use same stored [OF free(2,3)] in blast)+
qed

lemma consistent_rejected:
  assumes "consistent d" and "insert_receipt_row row d = Inr d'"
  shows "consistent d'"
  using valid_insert_receipt_row [OF assms(2) consistent_valid [OF assms(1)]]
  by (rule consistent_frame [OF assms(1)]) (simp_all add: insert_receipt_row_state [OF assms(2)])

lemma consistent_Reject:
  assumes "consistent d" and "Reject L env r code e d = (res, d')"
  shows "consistent d'"
  using assms(2) by (cases rule: Reject_cases) (use assms(1) consistent_rejected in blast)+

lemma Reject_durable:
  assumes "Reject L env r code e d = (Inr (), d')"
  shows "\<exists>row. fetch coordinate (record_coordinate r) (t_receipts d') = Some row
    \<and> ir_record_sha256 row = recordSHA256 L (record_value r) \<and> ir_disposition row = ''REJECTED''"
  using assms
proof (cases rule: Reject_cases)
  case stored
  then show ?thesis
    by (simp add: insert_receipt_row_state [OF stored(3)] fetch_append fetch_Cons) (simp add: rejected_row_def)
qed simp

lemma Apply_durable:
  assumes "Apply L env ev r d = (Inr x, d')"
  shows "\<exists>row. fetch coordinate (record_coordinate r) (t_receipts d') = Some row
    \<and> ir_record_sha256 row = recordSHA256 L (record_value r) \<and> ir_disposition row \<noteq> ''REJECTED''"
  using assms
proof (cases rule: Apply_cases)
  case (replay did stored fp)
  obtain eid pid where "d' = d\<lparr>t_receipts := t_receipts d @
      [receipt_row_of (pg_clock env 3) r (recordSHA256 L (record_value r)) eid pid ''REPLAYED'']\<rparr>"
    by (rule insertReceipt_Inr [OF replay(6,1)]) blast
  then show ?thesis by (simp add: fetch_append fetch_Cons replay(1)) (simp add: receipt_row_of_def)
next
  case (new fp)
  show ?thesis
  proof (rule write_decision_Inr [OF new(3,1)])
    fix drow arow rrow status revs
    assume a: "ir_disposition rrow = ''APPLIED''" "coordinate rrow = record_coordinate r"
      "ir_record_sha256 rrow = recordSHA256 L (record_value r)"
      "d' = d\<lparr>t_payments := update_rows (pending_payment (dr_payment_id drow))
               (\<lambda>p. p\<lparr>pay_status := status, updated_at := timestamptz (pg_clock env 7)\<rparr>) (t_payments d),
            t_decisions := t_decisions d @ [drow], t_receipts := t_receipts d @ [rrow],
            t_audits := t_audits d @ [arow], t_reviews := t_reviews d @ revs\<rparr>"
    show ?thesis by (simp add: a fetch_append fetch_Cons new(1))
  qed
qed auto

section \<open>Examples\<close>

definition sample_record :: source_record where
  "sample_record = \<lparr>sr_topic = ''risk.decisions'', sr_partition = 0, sr_offset = 4,
     sr_leader_epoch = 1, sr_lag = 0, sr_value = Some ''x''\<rparr>"

lemma sample_decision_storable: "storable_decision sample_decision"
proof -
  have "pg_text ''r1''" "pg_text ''m1''" by (simp_all add: plain_pg_text plain_text_def byte_def)
  with sample_contract sample_uuid_canonical show ?thesis
    by (simp add: storable_decision_def) (simp add: sample_decision_def event_uuids_def int4_def not_blank_def
        time_marshals_def json_year_def)
qed

lemma sample_record_kafka: "kafka_record sample_record"
proof -
  have "trim_space ''risk.decisions'' = ''risk.decisions''"
    by (rule trim_space_plain) (simp_all add: plain_byte_def ascii_def is_space_def byte_def)
  then show ?thesis
    by (simp add: kafka_record_def sample_record_def plain_varchar plain_text_def byte_def int4_def
        in_int64_def validateSourceRecord_def)
qed

lemma sample_consistent: "consistent sample_db"
  using sample_db_valid
  by (simp add: consistent_def sample_db_def reviews_agree_def empty_db_def unique_by_def status_agrees_def
      as_stored_def sample_payment_def StatusPendingRisk_def)

lemma sample_acceptable: "acceptable sample_lib sample_decision sample_record sample_db"
  by (simp add: acceptable_def sample_environment sample_jsonb sample_decision_storable sample_record_kafka)
     (simp add: sample_db_def empty_db_def)

section \<open>The effects of Apply\<close>

text \<open>One REPLAYED receipt for a stored decision with the event's fingerprint.\<close>

definition replay_effect ::
    "'a golib_scheme \<Rightarrow> decision_event \<Rightarrow> source_record \<Rightarrow> db \<Rightarrow> db \<Rightarrow> bool" where
  "replay_effect L ev r d d' \<longleftrightarrow>
     (\<exists>row did stored.
        d' = d\<lparr>t_receipts := t_receipts d @ [row]\<rparr> \<and> coordinate row = record_coordinate r
        \<and> ir_record_sha256 row = recordSHA256 L (record_value r) \<and> ir_disposition row = ''REPLAYED''
        \<and> uuid_in (dp_decision_id (dv_payload ev)) = Some did
        \<and> fetch dr_decision_id did (t_decisions d) = Some stored
        \<and> DecisionFingerprint L ev = Inr (dr_event_fingerprint stored))"

text \<open>
  The decision, the new status of the one pending payment, the audit event, the queue entry of a
  REVIEW decision, and the APPLIED receipt.
\<close>

definition decision_effect ::
    "'a golib_scheme \<Rightarrow> pg_env \<Rightarrow> decision_event \<Rightarrow> source_record \<Rightarrow> db \<Rightarrow> db \<Rightarrow> bool" where
  "decision_effect L env ev r d d' \<longleftrightarrow>
     (\<exists>fp drow arow rrow revs status.
        DecisionFingerprint L ev = Inr fp \<and> decision_row_of (pg_clock env 6) ev fp = Some drow
        \<and> fetch dr_decision_id (dr_decision_id drow) (t_decisions d) = None
        \<and> affected (pending_payment (dr_payment_id drow)) (t_payments d) = 1
        \<and> paymentStatusForDecision L (dr_decision drow) = Inr status
        \<and> map rv_decision_id revs = (if dr_decision drow = ''REVIEW'' then [dr_decision_id drow] else [])
        \<and> (\<forall>q \<in> set revs. rv_status q = ''PENDING'')
        \<and> au_decision_id arow = dr_decision_id drow \<and> au_event_type arow = ''RISK_DECISION_RECORDED''
        \<and> coordinate rrow = record_coordinate r \<and> ir_disposition rrow = ''APPLIED''
        \<and> ir_record_sha256 rrow = recordSHA256 L (record_value r)
        \<and> d' = d\<lparr>t_payments := update_rows (pending_payment (dr_payment_id drow))
                   (\<lambda>p. p\<lparr>pay_status := status, updated_at := timestamptz (pg_clock env 7)\<rparr>) (t_payments d),
                t_decisions := t_decisions d @ [drow], t_receipts := t_receipts d @ [rrow],
                t_audits := t_audits d @ [arow], t_reviews := t_reviews d @ revs\<rparr>)"

lemma insertReceipt_effect:
  assumes "insertReceipt L env 3 r (recordSHA256 L (record_value r)) ev ''REPLAYED'' d = Inr d'"
    and "fetch coordinate (record_coordinate r) (t_receipts d) = None"
    and "DecisionFingerprint L ev = Inr (dr_event_fingerprint stored)"
    and "uuid_in (dp_decision_id (dv_payload ev)) = Some did"
    and "fetch dr_decision_id did (t_decisions d) = Some stored"
  shows "replay_effect L ev r d d'"
proof -
  let ?dg = "recordSHA256 L (record_value r)"
  obtain eid pid where d': "d' = d\<lparr>t_receipts := t_receipts d @
      [receipt_row_of (pg_clock env 3) r ?dg eid pid ''REPLAYED'']\<rparr>" (is "_ = d\<lparr>t_receipts := _ @ [?row]\<rparr>")
    by (rule insertReceipt_Inr [OF assms(1,2)]) blast
  have "coordinate ?row = record_coordinate r" "ir_record_sha256 ?row = ?dg" "ir_disposition ?row = ''REPLAYED''"
    by (simp, simp_all add: receipt_row_of_def)
  with d' assms(3-5) show ?thesis unfolding replay_effect_def by blast
qed

text \<open>
  \<open>write_decision\<close> has that effect.  When another transaction has stored a receipt of the record
  in between, its own receipt is missing and everything else is the same.
\<close>

lemma write_decision_effect:
  assumes "write_decision L env ev fp r (recordSHA256 L (record_value r)) d = Inr d'"
    and "DecisionFingerprint L ev = Inr fp"
  obtains d1 new where "decision_effect L env ev r d d1" "d' = d1\<lparr>t_receipts := t_receipts d @ new\<rparr>"
    "fetch coordinate (record_coordinate r) (t_receipts d) = None \<Longrightarrow> d' = d1"
proof (rule write_decision_tables [OF assms(1)])
  fix drow arow status d4
  assume x: "decision_row_of (pg_clock env 6) ev fp = Some drow"
      "paymentStatusForDecision L (dp_decision (dv_payload ev)) = Inr status"
      "affected (pending_payment (dr_payment_id drow)) (t_payments d) = 1"
      "\<not> decision_exists d (dr_decision_id drow)"
      "au_decision_id arow = dr_decision_id drow" "au_event_type arow = ''RISK_DECISION_RECORDED''"
    and d4: "d4 = d\<lparr>t_payments := update_rows (pending_payment (dr_payment_id drow))
               (\<lambda>p. p\<lparr>pay_status := status, updated_at := timestamptz (pg_clock env 7)\<rparr>) (t_payments d),
            t_decisions := t_decisions d @ [drow], t_audits := t_audits d @ [arow],
            t_reviews := t_reviews d @ queue_rows ev drow\<rparr>"
    and i: "insertReceipt L env 10 r (recordSHA256 L (record_value r)) ev dispositionApplied d4 = Inr d'"
  let ?dg = "recordSHA256 L (record_value r)"
  have effect: "decision_effect L env ev r d (d4\<lparr>t_receipts := t_receipts d @ [rrow]\<rparr>)"
    if "rrow = receipt_row_of (pg_clock env 10) r ?dg eid pid dispositionApplied" for rrow eid pid
  proof -
    have "coordinate rrow = record_coordinate r" "ir_disposition rrow = ''APPLIED''" "ir_record_sha256 rrow = ?dg"
      unfolding that by (simp, simp_all add: receipt_row_of_def dispositionApplied_def)
    moreover have "fetch dr_decision_id (dr_decision_id drow) (t_decisions d) = None"
      using x(4) by (simp add: decision_exists_def)
    moreover have "map rv_decision_id (queue_rows ev drow)
        = (if dr_decision drow = ''REVIEW'' then [dr_decision_id drow] else [])"
      "\<forall>q \<in> set (queue_rows ev drow). rv_status q = ''PENDING''"
      using decision_row_decision [OF x(1)] by (simp_all add: queue_rows_def)
    moreover have "paymentStatusForDecision L (dr_decision drow) = Inr status"
      using x(2) decision_row_decision [OF x(1)] by simp
    ultimately show ?thesis
      unfolding decision_effect_def using assms(2) x(1,3,5,6)
      by (intro exI [of _ fp] exI [of _ drow] exI [of _ arow] exI [of _ rrow] exI [of _ "queue_rows ev drow"]
          exI [of _ status]) (simp add: d4)
  qed
  have t4: "t_receipts d4 = t_receipts d" by (simp add: d4)
  from i show thesis
  proof (cases rule: insertReceipt_either)
    case fresh
    from insertReceipt_Inr [OF i fresh] obtain eid pid where
      d': "d' = d4\<lparr>t_receipts := t_receipts d @ [receipt_row_of (pg_clock env 10) r ?dg eid pid dispositionApplied]\<rparr>"
      unfolding t4 by blast
    let ?new = "[receipt_row_of (pg_clock env 10) r ?dg eid pid dispositionApplied]"
    have "d' = d'\<lparr>t_receipts := t_receipts d @ ?new\<rparr>" by (simp add: d')
    from that [OF effect [OF refl, of eid pid, folded d'] this refl] show thesis .
  next
    case (skipped row)
    have "d' = (d4\<lparr>t_receipts := t_receipts d @ [receipt_row_of (pg_clock env 10) r ?dg [] [] dispositionApplied]\<rparr>)
        \<lparr>t_receipts := t_receipts d @ []\<rparr>" using skipped(4) by (simp add: d4)
    from that [OF effect [OF refl] this] show thesis using skipped(1) by (simp add: t4)
  qed
qed

lemma Apply_effect:
  assumes "Apply L env ev r d = (res, d')"
  obtains (failed) e where "d' = d" "res = Inl e"
  | (seen) row where "d' = d" "res = Inr replayed"
      "fetch coordinate (record_coordinate r) (t_receipts d) = Some row"
      "ir_record_sha256 row = recordSHA256 L (record_value r)"
  | (replay) "replay_effect L ev r d d'" "res = Inr replayed \<or> (\<exists>e. res = Inl e)"
  | (new) "decision_effect L env ev r d d'" "res = Inr applied \<or> (\<exists>e. res = Inl e)"
  using assms
proof (cases rule: Apply_cases)
  case (replay did stored fp)
  then show thesis using that(3) insertReceipt_effect [OF replay(6,1) _ replay(3,4)] by simp
next
  case (new fp)
  obtain d1 n where "decision_effect L env ev r d d1" "d' = d1"
    by (rule write_decision_effect [OF new(3,2)]) (use new(1) in blast)
  then show thesis using that(4) new(4) by blast
qed (use that(1,2) in blast)+

text \<open>The second part of \<open>Apply\<close> on a database that has moved on since the first part.\<close>

lemma apply_locked_effect:
  assumes "apply_locked L env ev fp r d = (res, d')" and "DecisionFingerprint L ev = Inr fp"
  obtains (receipts) new where "d' = d\<lparr>t_receipts := t_receipts d @ new\<rparr>"
  | (decision) d1 new where "decision_effect L env ev r d d1" "d' = d1\<lparr>t_receipts := t_receipts d @ new\<rparr>"
  using assms(1)
proof (cases rule: apply_locked_cases)
  case (failed e)
  then have "d' = d\<lparr>t_receipts := t_receipts d @ []\<rparr>" by simp
  then show thesis by (rule receipts)
next
  case (replay did stored)
  with insertReceipt_receipts [OF replay(4)] receipts show thesis by blast
next
  case new
  show thesis by (rule write_decision_effect [OF new(1) assms(2)]) (rule decision)
qed

lemma decision_effect_exists:
  assumes "decision_effect L env ev r d d'" and "uuid_in (dp_decision_id (dv_payload ev)) = Some did"
  shows "\<not> decision_exists d did \<and> decision_exists d' did"
proof -
  from assms(1) obtain fp drow where r: "decision_row_of (pg_clock env 6) ev fp = Some drow"
    "fetch dr_decision_id (dr_decision_id drow) (t_decisions d) = None" "drow \<in> set (t_decisions d')"
    unfolding decision_effect_def by force
  from r(1) assms(2) have "dr_decision_id drow = did"
    by (auto simp: decision_row_of_def Let_def split: option.splits)
  with r(2,3) show ?thesis by (auto simp: decision_exists_def fetch_None_iff)
qed

section \<open>Properties\<close>

text \<open>
  C16: Whatever the driver does, \<open>Apply\<close> does one of three things: nothing; it adds one REPLAYED
  receipt for the record, when the decision is already stored with the fingerprint of the event;
  or it adds the decision, moves the one pending payment to the status of the decision, adds the
  audit event, a queue entry exactly for a REVIEW decision, and one APPLIED receipt with the
  record's digest, all of it in one transaction.  It never answers \<open>Applied\<close> without the decision,
  nor \<open>Replayed\<close> without a receipt of the record.
\<close>

theorem Apply_atomic:
  "case Apply L env ev r d of (res, d') \<Rightarrow>
     (d' = d \<and> (\<exists>e. res = Inl e))
     \<or> (d' = d \<and> res = Inr replayed
        \<and> (\<exists>row. fetch coordinate (record_coordinate r) (t_receipts d) = Some row
             \<and> ir_record_sha256 row = recordSHA256 L (record_value r)))
     \<or> (replay_effect L ev r d d' \<and> (res = Inr replayed \<or> (\<exists>e. res = Inl e)))
     \<or> (decision_effect L env ev r d d' \<and> (res = Inr applied \<or> (\<exists>e. res = Inl e)))"
proof -
  obtain res d' where a: "Apply L env ev r d = (res, d')" by (cases "Apply L env ev r d")
  show ?thesis unfolding a prod.case by (rule Apply_effect [OF a]) blast+
qed

text \<open>
  C18: In a consistent database and when nothing fails, \<open>Apply\<close> answers an acceptable event, which
  the columns can hold and whose time \<open>json.Marshal\<close> can write, exactly as \<open>apply_answer\<close> says: a record seen before is a replay, unless its value differs or it was rejected; an unknown
  payment, a decision identity with other content, a source event that has its decision already
  and a payment that is no longer pending are the four domain errors; everything else is applied.
\<close>

theorem Apply_decides:
  assumes "consistent d" and "no_fault env" and "acceptable L ev r d"
  shows "fst (Apply L env ev r d) = apply_answer L ev r d"
  by (rule Apply_answer [OF assms])

theorem Apply_decides_witness:
  "fst (Apply sample_lib (healthy zero_time) sample_decision sample_record sample_db) = Inr applied"
proof -
  have "apply_answer sample_lib sample_decision sample_record sample_db = Inr applied"
    by (simp add: apply_answer_def Let_def sample_db_def empty_db_def sample_decision_def fetch_Cons
        sample_payment_fields as_stored_def) (simp add: sample_payment_def StatusPendingRisk_def)
  with Apply_decides [OF sample_consistent no_fault_healthy sample_acceptable] show ?thesis by simp
qed

text \<open>
  A decision that is stored is final: delivering any event with its decision ID again, from
  any record and whatever the driver does, leaves the payments, the decisions, the audit events
  and the review queue exactly as they are; only a receipt may be added.
\<close>

theorem Apply_replay_harmless:
  assumes "uuid_in (dp_decision_id (dv_payload ev)) = Some did"
    and "decision_exists d did" and "Apply L env ev r d = (res, d')"
  shows "t_payments d' = t_payments d \<and> t_decisions d' = t_decisions d \<and> t_audits d' = t_audits d
     \<and> t_reviews d' = t_reviews d \<and> t_outbox d' = t_outbox d"
  using assms(3)
proof (cases rule: Apply_effect)
  case new
  with decision_effect_exists [OF new(1) assms(1)] assms(2) show ?thesis by simp
qed (auto simp: replay_effect_def)

lemma sample_applied:
  obtains d where "Apply sample_lib (healthy zero_time) sample_decision sample_record sample_db = (Inr applied, d)"
    and "consistent d" and "decision_exists d sample_uuid"
proof -
  obtain res d where a: "Apply sample_lib (healthy zero_time) sample_decision sample_record sample_db = (res, d)"
    by (cases "Apply sample_lib (healthy zero_time) sample_decision sample_record sample_db")
  have "apply_answer sample_lib sample_decision sample_record sample_db = Inr applied"
    by (simp add: apply_answer_def Let_def sample_db_def empty_db_def sample_decision_def fetch_Cons
        sample_payment_fields as_stored_def) (simp add: sample_payment_def StatusPendingRisk_def)
  with Apply_answer [OF sample_consistent no_fault_healthy sample_acceptable, of zero_time] a
  have r: "res = Inr applied" by simp
  have u: "uuid_in (dp_decision_id (dv_payload sample_decision)) = Some sample_uuid"
    using storable_uuids(3) [OF sample_decision_storable] by (simp add: sample_decision_def)
  from a have "decision_exists d sample_uuid"
  proof (cases rule: Apply_effect)
    case new
    from decision_effect_exists [OF new(1) u] show ?thesis by simp
  qed (use r in \<open>simp_all add: applied_def replayed_def\<close>)
  with a r consistent_Apply [OF sample_consistent a] that show thesis by simp
qed

theorem Apply_replay_harmless_witness:
  "\<exists>d. Apply sample_lib (healthy zero_time) sample_decision sample_record sample_db = (Inr applied, d)
     \<and> (\<forall>env r. t_payments (snd (Apply sample_lib env sample_decision r d)) = t_payments d)"
proof (rule sample_applied)
  fix d assume a: "Apply sample_lib (healthy zero_time) sample_decision sample_record sample_db = (Inr applied, d)"
    "decision_exists d sample_uuid"
  have u: "uuid_in (dp_decision_id (dv_payload sample_decision)) = Some sample_uuid"
    using storable_uuids(3) [OF sample_decision_storable] by (simp add: sample_decision_def)
  have "t_payments (snd (Apply sample_lib env sample_decision r d)) = t_payments d" for env r
    using Apply_replay_harmless [OF u a(2), of sample_lib env r] by (metis prod.collapse)
  with a(1) show ?thesis by blast
qed

end
