(* ===== verification/Review_Auth.thy ===== *)
theory Review_Auth
  imports Tables
begin

text \<open>
  review/auth.go: bearer tokens of reviewers.  After start-up only the digests of the tokens are
  kept; a request is authenticated by the digest of the token it presents.
\<close>

section \<open>Splitting a header\<close>

text \<open>\<open>strings.Fields\<close>: the maximal runs of runes that are not white space.\<close>

function fields_from :: "string \<Rightarrow> string \<Rightarrow> string list" where
  "fields_from cur [] = (if cur = [] then [] else [cur])"
| "fields_from cur (c # cs) =
     (let (r, w) = decode_rune (c # cs) in
      if is_space r then (if cur = [] then [] else [cur]) @ fields_from [] (drop (w - 1) cs)
      else fields_from (cur @ take w (c # cs)) (drop (w - 1) cs))"
  by pat_completeness auto
termination
  by (relation "measure (length \<circ> snd)") auto

definition string_fields :: "string \<Rightarrow> string list" where
  "string_fields s = fields_from [] s"

lemma fields_from_ascii:
  "ascii c \<Longrightarrow> fields_from cur (c # cs) =
     (if is_space (byte c) then (if cur = [] then [] else [cur]) @ fields_from [] cs
      else fields_from (cur @ [c]) cs)"
  by (simp add: decode_rune_ascii)

declare fields_from.simps(2) [simp del]

lemma fields_from_word:
  "list_all plain_byte w \<Longrightarrow> fields_from cur (w @ rest) = fields_from (cur @ w) rest"
  by (induction w arbitrary: cur) (simp_all add: fields_from_ascii plain_byte_def)

lemma fields_two:
  assumes "list_all plain_byte v" and "list_all plain_byte w" and "v \<noteq> []" and "w \<noteq> []"
  shows "string_fields (v @ '' '' @ w) = [v, w]"
proof -
  have "string_fields (v @ '' '' @ w) = v # fields_from [] (w @ [])"
    using assms(1,3) by (simp add: string_fields_def fields_from_word fields_from_ascii ascii_def is_space_def byte_def)
  then show ?thesis using fields_from_word [OF assms(2), of "[]" "[]"] assms(4) by simp
qed

text \<open>\<open>strings.EqualFold\<close> with an ASCII text\<close>

definition equal_fold :: "string \<Rightarrow> string \<Rightarrow> bool" where
  "equal_fold s t \<longleftrightarrow> fold_name s = fold_name t"

section \<open>Credentials\<close>

definition RoleRiskReviewer :: string where "RoleRiskReviewer = ''risk_reviewer''"
definition RoleRiskAuditor :: string where "RoleRiskAuditor = ''risk_auditor''"

record credential =
  cd_reviewer_id :: string
  cd_role :: string
  cd_token :: string

record principal =
  pr_reviewer_id :: string
  pr_role :: string

record token_credential =
  tc_principal :: principal
  tc_digest :: string

definition containsWhitespace :: "string \<Rightarrow> bool" where
  "containsWhitespace v = list_ex is_space (runes v)"

definition containsControl :: "string \<Rightarrow> bool" where
  "containsControl v = list_ex (\<lambda>r. r < 0x20 \<or> r = 0x7f) (runes v)"

text \<open>The loop of \<open>NewTokenAuthenticator\<close>; \<open>stored\<close> also stands for its two maps of seen values.\<close>

fun add_credentials ::
    "'a golib_scheme \<Rightarrow> token_credential list \<Rightarrow> credential list \<Rightarrow> token_credential list result" where
  "add_credentials L stored [] = Inr stored"
| "add_credentials L stored (c # cs) =
     (let reviewerID = trim_space (cd_reviewer_id c); role = trim_space (cd_role c);
          token = cd_token c; digest = sha256 L token in
      if reviewerID = [] \<or> 255 < length reviewerID \<or> containsControl reviewerID
        then Inl (Msg ''reviewer IDs must contain 1-255 characters without controls'')
      else if role \<noteq> RoleRiskReviewer \<and> role \<noteq> RoleRiskAuditor
        then Inl (Msg (''reviewer '' @ reviewerID @ '' has unsupported role '' @ go_quote L role))
      else if length token < 32 \<or> 512 < length token \<or> containsWhitespace token \<or> containsControl token
        then Inl (Msg (''reviewer '' @ reviewerID
               @ '' token must contain 32-512 characters without whitespace or controls''))
      else if reviewerID \<in> pr_reviewer_id ` tc_principal ` set stored
        then Inl (Msg (''duplicate reviewer ID '' @ go_quote L reviewerID))
      else if digest \<in> tc_digest ` set stored then Inl (Msg ''duplicate review token'')
      else add_credentials L
             (stored @ [\<lparr>tc_principal = \<lparr>pr_reviewer_id = reviewerID, pr_role = role\<rparr>, tc_digest = digest\<rparr>])
             cs)"

definition NewTokenAuthenticator :: "'a golib_scheme \<Rightarrow> credential list \<Rightarrow> token_credential list result" where
  "NewTokenAuthenticator L credentials =
     (if credentials = [] then Inl (Msg ''at least one review credential is required'')
      else add_credentials L [] credentials)"

section \<open>Authentication\<close>

text \<open>The loop over the credentials: the last one that matches, compared in full length.\<close>

fun match_token :: "string \<Rightarrow> principal option \<Rightarrow> token_credential list \<Rightarrow> principal option" where
  "match_token presented found [] = found"
| "match_token presented found (c # cs) =
     match_token presented (if tc_digest c = presented then Some (tc_principal c) else found) cs"

definition Authenticate ::
    "'a golib_scheme \<Rightarrow> token_credential list \<Rightarrow> string \<Rightarrow> principal result" where
  "Authenticate L credentials authorization =
     (case string_fields authorization of
        [scheme, token] \<Rightarrow>
          if \<not> equal_fold scheme ''Bearer'' then Inl (Sentinel ErrUnauthorized)
          else (case match_token (sha256 L token) None credentials of
                  None \<Rightarrow> Inl (Sentinel ErrUnauthorized)
                | Some p \<Rightarrow> Inr p)
      | _ \<Rightarrow> Inl (Sentinel ErrUnauthorized))"

section \<open>What the table of credentials satisfies\<close>

definition valid_credential :: "credential \<Rightarrow> bool" where
  "valid_credential c \<longleftrightarrow>
     trim_space (cd_reviewer_id c) \<noteq> [] \<and> length (trim_space (cd_reviewer_id c)) \<le> 255
     \<and> \<not> containsControl (trim_space (cd_reviewer_id c))
     \<and> trim_space (cd_role c) \<in> {''risk_reviewer'', ''risk_auditor''}
     \<and> 32 \<le> length (cd_token c) \<and> length (cd_token c) \<le> 512
     \<and> \<not> containsWhitespace (cd_token c) \<and> \<not> containsControl (cd_token c)"

definition principal_of :: "credential \<Rightarrow> principal" where
  "principal_of c = \<lparr>pr_reviewer_id = trim_space (cd_reviewer_id c), pr_role = trim_space (cd_role c)\<rparr>"

definition stored_credential :: "'a golib_scheme \<Rightarrow> credential \<Rightarrow> token_credential" where
  "stored_credential L c = \<lparr>tc_principal = principal_of c, tc_digest = sha256 L (cd_token c)\<rparr>"

definition holder :: "token_credential \<Rightarrow> string" where
  "holder c = pr_reviewer_id (tc_principal c)"

definition acceptable_credential :: "'a golib_scheme \<Rightarrow> token_credential list \<Rightarrow> credential \<Rightarrow> bool" where
  "acceptable_credential L stored c \<longleftrightarrow>
     valid_credential c \<and> holder (stored_credential L c) \<notin> set (map holder stored)
     \<and> tc_digest (stored_credential L c) \<notin> set (map tc_digest stored)"

lemma add_credentials_step:
  "add_credentials L stored (c # cs) = Inr auth \<longleftrightarrow>
     acceptable_credential L stored c \<and> add_credentials L (stored @ [stored_credential L c]) cs = Inr auth"
  (is "?l \<longleftrightarrow> ?r")
proof -
  have s: "stored_credential L c = \<lparr>tc_principal = \<lparr>pr_reviewer_id = trim_space (cd_reviewer_id c),
      pr_role = trim_space (cd_role c)\<rparr>, tc_digest = sha256 L (cd_token c)\<rparr>"
    by (simp add: stored_credential_def principal_of_def)
  have h: "set (map holder stored) = pr_reviewer_id ` tc_principal ` set stored"
    by (auto simp: holder_def)
  have a: "acceptable_credential L stored c \<longleftrightarrow>
      \<not> (trim_space (cd_reviewer_id c) = [] \<or> 255 < length (trim_space (cd_reviewer_id c))
         \<or> containsControl (trim_space (cd_reviewer_id c)))
      \<and> \<not> (trim_space (cd_role c) \<noteq> RoleRiskReviewer \<and> trim_space (cd_role c) \<noteq> RoleRiskAuditor)
      \<and> \<not> (length (cd_token c) < 32 \<or> 512 < length (cd_token c) \<or> containsWhitespace (cd_token c)
         \<or> containsControl (cd_token c))
      \<and> trim_space (cd_reviewer_id c) \<notin> pr_reviewer_id ` tc_principal ` set stored
      \<and> sha256 L (cd_token c) \<notin> tc_digest ` set stored"
    unfolding acceptable_credential_def valid_credential_def h set_map
    by (simp add: s holder_def RoleRiskReviewer_def RoleRiskAuditor_def not_less del: set_map) blast
  show ?thesis unfolding a add_credentials.simps(2) Let_def s by (simp split: if_split)
qed

lemma add_credentials_Inr:
  "add_credentials L stored cs = Inr auth \<longleftrightarrow>
     list_all valid_credential cs \<and> auth = stored @ map (stored_credential L) cs
     \<and> distinct (map holder (stored @ map (stored_credential L) cs))
     \<and> distinct (map tc_digest (stored @ map (stored_credential L) cs))"
  if "distinct (map holder stored)" "distinct (map tc_digest stored)"
  using that
proof (induction cs arbitrary: stored)
  case (Cons c cs)
  let ?s = "stored_credential L c"
  show ?case
  proof (cases "acceptable_credential L stored c")
    case True
    then have "distinct (map holder (stored @ [?s]))" "distinct (map tc_digest (stored @ [?s]))"
      and v: "valid_credential c" using Cons.prems by (simp_all add: acceptable_credential_def)
    from Cons.IH [OF this(1,2)] show ?thesis
      unfolding add_credentials_step using True v by simp
  next
    case False
    then have "\<not> (valid_credential c
        \<and> distinct (map holder (stored @ map (stored_credential L) (c # cs)))
        \<and> distinct (map tc_digest (stored @ map (stored_credential L) (c # cs))))"
      by (auto simp: acceptable_credential_def)
    with False show ?thesis unfolding add_credentials_step by auto
  qed
qed auto

lemma NewTokenAuthenticator_Inr:
  "NewTokenAuthenticator L cs = Inr auth \<longleftrightarrow>
     cs \<noteq> [] \<and> list_all valid_credential cs \<and> auth = map (stored_credential L) cs
     \<and> distinct (map holder auth) \<and> distinct (map tc_digest auth)"
  using add_credentials_Inr [of "[]" L cs auth] by (auto simp: NewTokenAuthenticator_def)

text \<open>With distinct digests the last match is the only one.\<close>

lemma match_token_unique:
  "unique_by tc_digest cs \<Longrightarrow>
   match_token dg found cs = (case fetch tc_digest dg cs of
      Some c \<Rightarrow> Some (tc_principal c) | None \<Rightarrow> found)"
proof (induction cs arbitrary: found)
  case (Cons c cs)
  have "fetch tc_digest dg cs = None" if "tc_digest c = dg"
    using Cons.prems that by (force simp: unique_by_def fetch_None_iff)
  with Cons show ?case by (auto simp: unique_by_def fetch_Cons)
qed simp

lemma match_token_Some:
  "unique_by tc_digest cs \<Longrightarrow>
   match_token dg None cs = Some p \<longleftrightarrow> (\<exists>c \<in> set cs. tc_digest c = dg \<and> tc_principal c = p)"
  by (auto simp: match_token_unique fetch_unique_iff split: option.splits)
    (metis fetch_unique option.distinct(1) option.inject)+

lemma Authenticate_Inr:
  assumes "NewTokenAuthenticator L cs = Inr auth"
  shows "Authenticate L auth h = Inr p \<longleftrightarrow>
        (\<exists>scheme token. string_fields h = [scheme, token] \<and> equal_fold scheme ''Bearer''
           \<and> (\<exists>c \<in> set cs. sha256 L (cd_token c) = sha256 L token \<and> p = principal_of c))"
proof -
  have cs: "auth = map (stored_credential L) cs" and u: "unique_by tc_digest auth"
    using assms by (auto simp: NewTokenAuthenticator_Inr unique_by_def)
  have m: "match_token dg None auth = Some q \<longleftrightarrow>
      (\<exists>c \<in> set cs. sha256 L (cd_token c) = dg \<and> q = principal_of c)" for dg q
    unfolding match_token_Some [OF u] by (auto simp: cs stored_credential_def)
  have "Authenticate L auth h = Inr p \<longleftrightarrow>
        (\<exists>scheme token. string_fields h = [scheme, token] \<and> equal_fold scheme ''Bearer''
           \<and> match_token (sha256 L token) None auth = Some p)"
    by (auto simp: Authenticate_def split: list.splits option.splits)
  then show ?thesis unfolding m .
qed

text \<open>
  C25:
  An authenticator can be built only from credentials that are each valid, with distinct reviewer
  IDs, and a request is then authenticated as a principal exactly when its header consists of the
  scheme Bearer, in any case, and one token whose SHA-256 digest is that of the token of one
  configured credential; the principal is the ID and role of that credential, never a value of the
  request.\<close>

theorem Authenticate_exact:
  assumes "NewTokenAuthenticator L cs = Inr auth"
  shows "list_all valid_credential cs \<and> distinct (map (trim_space \<circ> cd_reviewer_id) cs)
    \<and> (Authenticate L auth h = Inr p \<longleftrightarrow>
        (\<exists>scheme token. string_fields h = [scheme, token] \<and> equal_fold scheme ''Bearer''
           \<and> (\<exists>c \<in> set cs. sha256 L (cd_token c) = sha256 L token \<and> p = principal_of c)))
    \<and> ((\<exists>q. Authenticate L auth h = Inr q)
        \<or> Authenticate L auth h = Inl (Sentinel ErrUnauthorized))"
proof -
  have cs: "list_all valid_credential cs" "auth = map (stored_credential L) cs" "distinct (map holder auth)"
    using assms by (auto simp: NewTokenAuthenticator_Inr)
  have ids: "map holder auth = map (trim_space \<circ> cd_reviewer_id) cs"
    by (simp add: cs(2) holder_def stored_credential_def principal_of_def)
  have "(\<exists>q. Authenticate L auth h = Inr q) \<or> Authenticate L auth h = Inl (Sentinel ErrUnauthorized)"
    by (auto simp: Authenticate_def split: list.splits option.splits)
  with cs(1,3) ids show ?thesis unfolding Authenticate_Inr [OF assms] by metis
qed

definition sample_credential :: credential where
  "sample_credential = \<lparr>cd_reviewer_id = ''ann'', cd_role = ''risk_reviewer'',
     cd_token = replicate 32 CHR ''a''\<rparr>"

lemma sample_credential_ok:
  "NewTokenAuthenticator sample_lib [sample_credential] = Inr (map (stored_credential sample_lib) [sample_credential])"
  "string_fields (''bearer '' @ replicate 32 CHR ''a'') = [''bearer'', replicate 32 CHR ''a'']"
  "equal_fold ''bearer'' ''Bearer''"
  "principal_of sample_credential = \<lparr>pr_reviewer_id = ''ann'', pr_role = ''risk_reviewer''\<rparr>"
  "cd_token sample_credential = replicate 32 CHR ''a''"
proof -
  have runes: "runes (replicate 32 CHR ''a'') = map byte (replicate 32 CHR ''a'')" "runes ''ann'' = map byte ''ann''"
    by (rule runes_ascii, simp add: ascii_def byte_def list_all_iff)+
  have trim: "trim_space ''ann'' = ''ann''" "trim_space ''risk_reviewer'' = ''risk_reviewer''"
    by (rule trim_space_plain; simp add: plain_byte_def ascii_def is_space_def byte_def)+
  have "valid_credential sample_credential"
    by (simp add: valid_credential_def sample_credential_def containsControl_def containsWhitespace_def
        runes trim list_ex_iff byte_def is_space_def del: runes.simps)
  then have n: "NewTokenAuthenticator sample_lib [sample_credential]
      = Inr (map (stored_credential sample_lib) [sample_credential])" by (simp add: NewTokenAuthenticator_Inr)
  have w: "list_all plain_byte ''bearer''" "list_all plain_byte (replicate 32 CHR ''a'')"
    by (simp_all add: plain_byte_def ascii_def is_space_def byte_def list_all_iff)
  have "''bearer '' @ replicate 32 CHR ''a'' = ''bearer'' @ '' '' @ replicate 32 CHR ''a''"
    by (simp only: append.simps)
  with fields_two [OF w] have
    f: "string_fields (''bearer '' @ replicate 32 CHR ''a'') = [''bearer'', replicate 32 CHR ''a'']"
    by (simp only: list.distinct replicate_empty zero_neq_numeral not_False_eq_True simp_thms)
  have e: "equal_fold ''bearer'' ''Bearer''"
    by (simp add: equal_fold_def fold_name_def runes_ascii ascii_def byte_def fold_rune_def del: runes.simps)
  have p: "principal_of sample_credential = \<lparr>pr_reviewer_id = ''ann'', pr_role = ''risk_reviewer''\<rparr>"
    by (simp add: principal_of_def sample_credential_def trim)
  have t: "cd_token sample_credential = replicate 32 CHR ''a''" by (simp add: sample_credential_def)
  show "NewTokenAuthenticator sample_lib [sample_credential] = Inr (map (stored_credential sample_lib) [sample_credential])"
    "string_fields (''bearer '' @ replicate 32 CHR ''a'') = [''bearer'', replicate 32 CHR ''a'']"
    "equal_fold ''bearer'' ''Bearer''"
    "principal_of sample_credential = \<lparr>pr_reviewer_id = ''ann'', pr_role = ''risk_reviewer''\<rparr>"
    "cd_token sample_credential = replicate 32 CHR ''a''"
    using n f e p t by blast+
qed

theorem Authenticate_exact_witness:
  "Authenticate sample_lib (map (stored_credential sample_lib) [sample_credential])
     (''bearer '' @ replicate 32 CHR ''a'')
   = Inr \<lparr>pr_reviewer_id = ''ann'', pr_role = ''risk_reviewer''\<rparr>"
  unfolding sample_credential_ok(4) [symmetric]
  using Authenticate_exact [OF sample_credential_ok(1), of _ "principal_of sample_credential"] sample_credential_ok(2,3,5)
  by (metis list.set_intros(1))

end
