(* ===== verification/Review.thy ===== *)
theory Review
  imports Lifecycle Review_Auth
begin

text \<open>
  The manual review of payments: review/model.go, review/service.go and
  review/postgres_repository.go.  \<open>Resolve\<close> moves a queue entry from PENDING to APPROVED or
  REJECTED when the caller knows its version, moves the payment on and writes the audit event, in
  one transaction; \<open>ListPending\<close> shows the queue, oldest entry first.
\<close>

section \<open>Data\<close>

definition StatusPending :: string where "StatusPending = ''PENDING''"
definition StatusApproved :: string where "StatusApproved = ''APPROVED''"
definition StatusRejected :: string where "StatusRejected = ''REJECTED''"
definition ActionApprove :: string where "ActionApprove = ''APPROVE''"
definition ActionReject :: string where "ActionReject = ''REJECT''"

lemmas review_constants = StatusPending_def StatusApproved_def StatusRejected_def ActionApprove_def
  ActionReject_def RoleRiskReviewer_def

record item =
  it_payment_id :: string
  it_decision_id :: string
  it_customer_id :: string
  it_merchant_id :: string
  it_amount_minor :: int
  it_currency :: string
  it_country :: string
  it_payment_status :: string
  it_review_status :: string
  it_version :: int
  it_risk_score :: int
  it_reason_codes :: "string list"
  it_rule_version :: string
  it_model_version :: string
  it_enqueued_at :: gtime
  it_resolved_at :: "gtime option"
  it_reviewer_id :: string
  it_resolution_reason :: string

record resolve_request =
  rq_expected_version :: int
  rq_reason_code :: string

record resolve_command =
  rc_payment_id :: string
  rc_action :: string
  rc_expected_version :: int
  rc_reason_code :: string
  rc_principal :: principal
  rc_audit_id :: string
  rc_resolved_at :: gtime

section \<open>Reading the queue\<close>

definition coalesce :: "string option \<Rightarrow> string" where
  "coalesce x = (case x of None \<Rightarrow> [] | Some s \<Rightarrow> s)"

text \<open>A row of \<open>reviewItemColumns\<close> as \<open>scanItem\<close> returns it.\<close>

definition scanItem :: "review_row \<Rightarrow> payment \<Rightarrow> decision_row \<Rightarrow> item" where
  "scanItem q p r =
     \<lparr>it_payment_id = rv_payment_id q, it_decision_id = rv_decision_id q,
      it_customer_id = customer_id p, it_merchant_id = merchant_id p,
      it_amount_minor = amount_minor p, it_currency = trim_space (currency p),
      it_country = trim_space (country p), it_payment_status = pay_status p,
      it_review_status = rv_status q, it_version = rv_version q, it_risk_score = dr_risk_score r,
      it_reason_codes = dr_reason_codes r, it_rule_version = dr_rule_version r,
      it_model_version = dr_model_version r, it_enqueued_at = utc (rv_enqueued_at q),
      it_resolved_at = map_option utc (rv_resolved_at q),
      it_reviewer_id = coalesce (rv_reviewer_id q),
      it_resolution_reason = coalesce (rv_resolution_reason q)\<rparr>"

text \<open>The two joins of \<open>reviewItemJoins\<close>\<close>

definition review_item :: "db \<Rightarrow> review_row \<Rightarrow> item option" where
  "review_item d q =
     (case (fetch pay_id (rv_payment_id q) (t_payments d),
            fetch dr_decision_id (rv_decision_id q) (t_decisions d)) of
        (Some p, Some r) \<Rightarrow> Some (scanItem q p r)
      | _ \<Rightarrow> None)"

text \<open>uuid values are in the order of their canonical texts.\<close>

definition queue_key :: "review_row \<Rightarrow> int \<times> nat list" where
  "queue_key q = (wall (rv_enqueued_at q), map byte (rv_payment_id q))"

definition selectPendingReviews :: "nat \<Rightarrow> db \<Rightarrow> item list" where
  "selectPendingReviews limit d =
     take limit (List.map_filter (review_item d)
       (sort_key queue_key (filter (\<lambda>q. rv_status q = ''PENDING'') (t_reviews d))))"

definition ListPending :: "pg_env \<Rightarrow> int \<Rightarrow> db \<Rightarrow> item list result" where
  "ListPending env limit d =
     (case statement env 0 (if limit < 0 then Inl (constraint_error ''limit'')
                            else Inr (selectPendingReviews (nat limit) d)) of
        Inl e \<Rightarrow> Inl (errorf ''list pending manual reviews'' e)
      | Inr items \<Rightarrow>
     (case statement env 1 (Inr ()) of
        Inl e \<Rightarrow> Inl (errorf ''scan pending manual review'' e)
      | Inr _ \<Rightarrow>
     (case statement env 2 (Inr ()) of
        Inl e \<Rightarrow> Inl (errorf ''iterate pending manual reviews'' e)
      | Inr _ \<Rightarrow> Inr items)))"

section \<open>Resolving an entry\<close>

definition actionState :: "'a golib_scheme \<Rightarrow> string \<Rightarrow> (string \<times> string \<times> string) result" where
  "actionState L action =
     (if action = ActionApprove then Inr (StatusApproved, ''ALLOWED'', ''MANUAL_REVIEW_APPROVED'')
      else if action = ActionReject then Inr (StatusRejected, ''BLOCKED'', ''MANUAL_REVIEW_REJECTED'')
      else Inl (Msg (''unsupported manual review action '' @ go_quote L action)))"

definition resolve_row :: "string \<Rightarrow> resolve_command \<Rightarrow> review_row \<Rightarrow> review_row" where
  "resolve_row status c q =
     q\<lparr>rv_status := status, rv_version := rv_version q + 1,
       rv_resolved_at := Some (timestamptz (rc_resolved_at c)),
       rv_reviewer_id := Some (pr_reviewer_id (rc_principal c)),
       rv_resolution_reason := Some (rc_reason_code c)\<rparr>"

text \<open>\<open>resolveReviewSQL\<close>: the decision ID of the row it updates, or no row.\<close>

definition resolve_review :: "resolve_command \<Rightarrow> string \<Rightarrow> db \<Rightarrow> (string option \<times> db) result" where
  "resolve_review c status d =
     (case uuid_in (rc_payment_id c) of
        None \<Rightarrow> Inl (constraint_error ''payment_id'')
      | Some pid \<Rightarrow>
          if \<not> int4 (rc_expected_version c) \<or> \<not> pg_text (pr_reviewer_id (rc_principal c))
             \<or> \<not> pg_text (rc_reason_code c) then Inl (constraint_error ''parameters'')
          else
     (case fetch rv_payment_id pid (t_reviews d) of
        None \<Rightarrow> Inr (None, d)
      | Some q \<Rightarrow>
          if rv_status q \<noteq> ''PENDING'' \<or> rv_version q \<noteq> rc_expected_version c then Inr (None, d)
          else check_all (review_checks d (resolve_row status c q))
                 (Some (rv_decision_id q),
                  d\<lparr>t_reviews := update_rows (\<lambda>r. rv_payment_id r = pid) (resolve_row status c) (t_reviews d)\<rparr>)))"

definition review_details :: "resolve_command \<Rightarrow> string \<Rightarrow> string \<Rightarrow> string" where
  "review_details c reviewStatus paymentStatus =
     json_text (JObj
       [(''action'', JStr (rc_action c)), (''expected_version'', JNum (show_int (rc_expected_version c))),
        (''new_payment_status'', JStr paymentStatus), (''new_review_status'', JStr reviewStatus),
        (''new_version'', JNum (show_int (rc_expected_version c + 1))),
        (''previous_payment_status'', JStr ''REVIEW''), (''previous_review_status'', JStr StatusPending),
        (''reason_code'', JStr (rc_reason_code c)), (''reviewer_role'', JStr (pr_role (rc_principal c)))])"

text \<open>\<open>decisionID\<close> is the text of a stored uuid, which the server reads back as it is.\<close>

definition insert_manual_audit ::
    "'a pglib_scheme \<Rightarrow> gtime \<Rightarrow> resolve_command \<Rightarrow> string \<Rightarrow> string \<Rightarrow> string \<Rightarrow> db \<Rightarrow> db result" where
  "insert_manual_audit L now c eventType decisionID details d =
     (case (uuid_in (rc_audit_id c), uuid_in (rc_payment_id c), jsonb_column L details) of
        (Some ai, Some pd, Some j) \<Rightarrow>
          insert_audit
            \<lparr>au_id = ai, au_aggregate_type = ''PAYMENT'', au_aggregate_id = pd,
             au_event_type = eventType, au_actor_type = ''USER'',
             au_actor_id = pr_reviewer_id (rc_principal c), au_decision_id = decisionID,
             au_occurred_at = timestamptz (rc_resolved_at c), au_details = j,
             au_recorded_at = timestamptz now\<rparr> d
      | _ \<Rightarrow> Inl (constraint_error ''audit_events''))"

definition select_review :: "string \<Rightarrow> db \<Rightarrow> item result" where
  "select_review pid d =
     (case uuid_in pid of
        None \<Rightarrow> Inl (constraint_error ''payment_id'')
      | Some u \<Rightarrow>
     (case fetch rv_payment_id u (t_reviews d) of
        None \<Rightarrow> Inl (Msg ''no rows in result set'')
      | Some q \<Rightarrow>
     (case review_item d q of
        None \<Rightarrow> Inl (Msg ''no rows in result set'')
      | Some it \<Rightarrow> Inr it)))"

definition currentConflict :: "pg_env \<Rightarrow> nat \<Rightarrow> string \<Rightarrow> db \<Rightarrow> go_error" where
  "currentConflict env k pid d =
     (case statement env k (case uuid_in pid of None \<Rightarrow> Inl (constraint_error ''payment_id'')
                            | Some u \<Rightarrow> Inr (fetch rv_payment_id u (t_reviews d))) of
        Inl e \<Rightarrow> errorf ''load current manual review state'' e
      | Inr None \<Rightarrow> Sentinel ErrReviewNotFound
      | Inr (Some q) \<Rightarrow>
          ConflictError (Sentinel (if rv_status q \<noteq> StatusPending then ErrReviewAlreadyResolved
                                   else ErrReviewVersionConflict)) (rv_status q) (rv_version q))"

definition Resolve :: "'a pglib_scheme \<Rightarrow> pg_env \<Rightarrow> resolve_command \<Rightarrow> db \<Rightarrow> item result \<times> db" where
  "Resolve L env c d =
     (case actionState L (rc_action c) of Inl e \<Rightarrow> (Inl e, d)
      | Inr (reviewStatus, paymentStatus, eventType) \<Rightarrow>
     (case pg_begin env of
        Some e \<Rightarrow> (Inl (errorf ''begin manual review transaction'' e), d)
      | None \<Rightarrow>
     (case statement env 0 (resolve_review c reviewStatus d) of
        Inl e \<Rightarrow> (Inl (errorf ''resolve manual review queue item'' e), d)
      | Inr (None, _) \<Rightarrow> (Inl (currentConflict env 1 (rc_payment_id c) d), d)
      | Inr (Some decisionID, d1) \<Rightarrow>
     (case statement env 2
             (case uuid_in (rc_payment_id c) of None \<Rightarrow> Inl (constraint_error ''id'')
              | Some pid \<Rightarrow> Inr (set_payment_status pid ''REVIEW'' paymentStatus (rc_resolved_at c) d1)) of
        Inl e \<Rightarrow> (Inl (errorf ''update reviewed payment status'' e), d)
      | Inr (n, d2) \<Rightarrow>
          if n \<noteq> 1 then (Inl (Sentinel ErrReviewStateConflict), d)
          else
     (case statement env 3
             (insert_manual_audit L (pg_clock env 3) c eventType decisionID
                (review_details c reviewStatus paymentStatus) d2) of
        Inl e \<Rightarrow> (Inl (errorf ''insert manual review audit event'' e), d)
      | Inr d3 \<Rightarrow>
     (case statement env 4 (select_review (rc_payment_id c) d3) of
        Inl e \<Rightarrow> (Inl (errorf ''load resolved manual review'' e), d)
      | Inr it \<Rightarrow> commit_tx env ''commit manual review transaction'' d d3 it))))))"

section \<open>The service\<close>

definition service_list_pending :: "(int \<Rightarrow> 's \<Rightarrow> item list result) \<Rightarrow> int \<Rightarrow> 's \<Rightarrow> item list result" where
  "service_list_pending repository_list limit s =
     (if limit < 1 \<or> 100 < limit
      then Inl (ReviewValidationError [(''limit'', ''must be between 1 and 100'')])
      else repository_list limit s)"

definition validReviewReason :: "string \<Rightarrow> bool" where
  "validReviewReason v \<longleftrightarrow>
     v \<noteq> [] \<and> length v \<le> 100
     \<and> list_all (\<lambda>r. (65 \<le> r \<and> r \<le> 90) \<or> (48 \<le> r \<and> r \<le> 57) \<or> r = 95) (runes v)"

definition resolve_fields :: "string \<Rightarrow> resolve_request \<Rightarrow> principal \<Rightarrow> string \<Rightarrow> fields" where
  "resolve_fields action request who reasonCode =
     (if rq_expected_version request \<le> 0 then [(''expected_version'', ''must be greater than zero'')] else [])
     @ (if \<not> validReviewReason reasonCode
        then [(''reason_code'', ''must contain 1-100 uppercase letters, digits, or underscores'')] else [])
     @ (if pr_reviewer_id who = [] \<or> pr_role who \<noteq> RoleRiskReviewer
        then [(''principal'', ''must be an authenticated risk reviewer'')] else [])
     @ (if action \<noteq> ActionApprove \<and> action \<noteq> ActionReject
        then [(''action'', ''must be APPROVE or REJECT'')] else [])"

text \<open>\<open>newUUID\<close> of review/service.go is the one of payment/service.go again.\<close>

definition newReviewUUID :: "byte8 list result \<Rightarrow> string result" where
  "newReviewUUID random = (case random of Inl err \<Rightarrow> Inl err | Inr value \<Rightarrow> Inr (format_uuid (stamp_v4 value)))"

lemma newReviewUUID_new_uuid [simp]: "newReviewUUID random = new_uuid random"
  by (simp add: newReviewUUID_def new_uuid_def)

definition prepare_resolve ::
    "'a unicode_tables_scheme \<Rightarrow> service_env \<Rightarrow> string \<Rightarrow> string \<Rightarrow> resolve_request \<Rightarrow> principal
     \<Rightarrow> resolve_command result" where
  "prepare_resolve ut senv paymentID action request who =
     (case NormalizeID paymentID of
        Inl _ \<Rightarrow> Inl (Sentinel ErrReviewIDInvalid)
      | Inr normalizedID \<Rightarrow>
          let reasonCode = to_upper ut (trim_space (rq_reason_code request));
              fs = resolve_fields action request who reasonCode
          in if fs \<noteq> [] then Inl (ReviewValidationError fs)
             else (case newReviewUUID (se_random senv 0) of
                     Inl e \<Rightarrow> Inl (errorf ''generate manual review audit ID'' e)
                   | Inr auditID \<Rightarrow>
                       Inr \<lparr>rc_payment_id = normalizedID, rc_action = action,
                            rc_expected_version = rq_expected_version request,
                            rc_reason_code = reasonCode, rc_principal = who,
                            rc_audit_id = auditID, rc_resolved_at = utc (se_now senv)\<rparr>))"

definition service_resolve ::
    "'a unicode_tables_scheme \<Rightarrow> service_env \<Rightarrow> (resolve_command \<Rightarrow> 's \<Rightarrow> item result \<times> 's)
     \<Rightarrow> string \<Rightarrow> string \<Rightarrow> resolve_request \<Rightarrow> principal \<Rightarrow> 's \<Rightarrow> item result \<times> 's" where
  "service_resolve ut senv repository_resolve paymentID action request who s =
     (case prepare_resolve ut senv paymentID action request who of
        Inl e \<Rightarrow> (Inl e, s)
      | Inr c \<Rightarrow> repository_resolve c s)"

section \<open>What a resolution does\<close>

definition reviewed_payment :: "string \<Rightarrow> payment \<Rightarrow> bool" where
  "reviewed_payment pid p \<longleftrightarrow> pay_id p = pid \<and> pay_status p = ''REVIEW''"

text \<open>
  The pending entry with the expected version becomes resolved with its version increased, the one
  payment in status REVIEW moves on, and the audit event names the reviewer and the decision.
\<close>

definition resolve_effect :: "'a golib_scheme \<Rightarrow> resolve_command \<Rightarrow> db \<Rightarrow> db \<Rightarrow> bool" where
  "resolve_effect L c d d' \<longleftrightarrow>
     (\<exists>q reviewStatus paymentStatus eventType arow.
        actionState L (rc_action c) = Inr (reviewStatus, paymentStatus, eventType)
        \<and> uuid_in (rc_payment_id c) = Some (rv_payment_id q)
        \<and> fetch rv_payment_id (rv_payment_id q) (t_reviews d) = Some q
        \<and> rv_status q = ''PENDING'' \<and> rv_version q = rc_expected_version c
        \<and> affected (reviewed_payment (rv_payment_id q)) (t_payments d) = 1
        \<and> holds (review_checks d (resolve_row reviewStatus c q))
        \<and> au_decision_id arow = rv_decision_id q \<and> au_aggregate_id arow = rv_payment_id q
        \<and> au_event_type arow = eventType \<and> au_actor_type arow = ''USER''
        \<and> au_actor_id arow = pr_reviewer_id (rc_principal c)
        \<and> d' = d\<lparr>t_payments := update_rows (reviewed_payment (rv_payment_id q))
                   (\<lambda>p. p\<lparr>pay_status := paymentStatus, updated_at := timestamptz (rc_resolved_at c)\<rparr>) (t_payments d),
                t_audits := t_audits d @ [arow],
                t_reviews := update_rows (\<lambda>r. rv_payment_id r = rv_payment_id q) (resolve_row reviewStatus c)
                   (t_reviews d)\<rparr>)"

end
