(* ===== verification/Review_Lifecycle.thy ===== *)
theory Review_Lifecycle
  imports Review
begin

text \<open>
  What the manual review guarantees: a resolution is one atomic step that keeps the database
  consistent, an entry is resolved at most once whatever calls compete for it, and the answers
  of \<open>Resolve\<close> and \<open>ListPending\<close> are those the queue entails.  \<open>review_repository\<close> is the
  \<open>Repository\<close> interface of review/service.go with the law its callers rely on.
\<close>

section \<open>The statements of a resolution\<close>

lemma resolve_row_fields [simp]:
  "rv_payment_id (resolve_row st c q) = rv_payment_id q"
  "rv_decision_id (resolve_row st c q) = rv_decision_id q"
  "rv_status (resolve_row st c q) = st" "rv_version (resolve_row st c q) = rv_version q + 1"
  "rv_enqueued_at (resolve_row st c q) = rv_enqueued_at q"
  by (simp_all add: resolve_row_def)

lemma resolve_review_Some:
  assumes "resolve_review c st d = Inr (Some did, d1)"
  obtains q where "uuid_in (rc_payment_id c) = Some (rv_payment_id q)"
    "fetch rv_payment_id (rv_payment_id q) (t_reviews d) = Some q" "rv_status q = ''PENDING''"
    "rv_version q = rc_expected_version c" "did = rv_decision_id q"
    "holds (review_checks d (resolve_row st c q))"
    "d1 = d\<lparr>t_reviews := update_rows (\<lambda>r. rv_payment_id r = rv_payment_id q) (resolve_row st c) (t_reviews d)\<rparr>"
proof -
  from assms obtain pid q where q: "uuid_in (rc_payment_id c) = Some pid"
    "fetch rv_payment_id pid (t_reviews d) = Some q" "rv_status q = ''PENDING''"
    "rv_version q = rc_expected_version c"
    "check_all (review_checks d (resolve_row st c q)) (Some (rv_decision_id q),
       d\<lparr>t_reviews := update_rows (\<lambda>r. rv_payment_id r = pid) (resolve_row st c) (t_reviews d)\<rparr>) = Inr (Some did, d1)"
    by (auto simp: resolve_review_def split: option.splits if_splits)
  from q(2) have "pid = rv_payment_id q" by (auto dest: fetch_SomeD)
  with q that show thesis by (auto simp: check_all_holds)
qed

lemma valid_resolve:
  assumes "valid_db d" and "fetch rv_payment_id pid (t_reviews d) = Some q"
    and "holds (review_checks d (resolve_row st c q))"
  shows "valid_db (d\<lparr>t_reviews := update_rows (\<lambda>r. rv_payment_id r = pid) (resolve_row st c) (t_reviews d)\<rparr>)"
    (is "valid_db ?d")
proof -
  have e: "extends d ?d" by simp
  have u: "unique_by rv_payment_id (t_reviews d)" using assms(1) by (simp add: valid_db_def valid_reviews_def)
  have "holds (review_checks d r)" if "r \<in> set (t_reviews ?d)" for r
  proof -
    from that obtain r0 where r0: "r0 \<in> set (t_reviews d)"
      "r = (if rv_payment_id r0 = pid then resolve_row st c r0 else r0)" by (auto simp: set_update_rows)
    have "rv_payment_id r0 = pid \<Longrightarrow> r0 = q" using fetch_unique [OF u r0(1)] assms(2) by simp
    with r0 assms show ?thesis by (auto simp: valid_db_def valid_reviews_def)
  qed
  then have "valid_reviews ?d" using assms(1) checks_extends(5) [OF e]
    by (auto simp: valid_db_def valid_reviews_def unique_by_update_rows)
  with assms(1) valid_extends [OF e] show ?thesis by (simp add: valid_db_def valid_payments_def)
qed

lemma set_status_reviewed:
  "set_payment_status pid ''REVIEW'' st tm d =
     (affected (reviewed_payment pid) (t_payments d),
      d\<lparr>t_payments := update_rows (reviewed_payment pid) (\<lambda>p. p\<lparr>pay_status := st, updated_at := timestamptz tm\<rparr>)
          (t_payments d)\<rparr>)"
  by (simp add: set_payment_status_def Let_def reviewed_payment_def [abs_def])

lemma actionState_Inr:
  "actionState L a = Inr (st, pst, evt) \<Longrightarrow>
     (st, pst) = (''APPROVED'', ''ALLOWED'') \<or> (st, pst) = (''REJECTED'', ''BLOCKED'')"
  by (auto simp: actionState_def review_constants split: if_splits)

lemma insert_manual_audit_Inr:
  assumes "insert_manual_audit L now c evt did j d = Inr d'"
  obtains arow where "uuid_in (rc_payment_id c) = Some (au_aggregate_id arow)" "au_decision_id arow = did"
    "au_event_type arow = evt" "au_actor_type arow = ''USER''"
    "au_actor_id arow = pr_reviewer_id (rc_principal c)" "insert_audit arow d = Inr d'"
proof -
  from assms obtain ai pd j' where x: "uuid_in (rc_audit_id c) = Some ai" "uuid_in (rc_payment_id c) = Some pd"
    "jsonb_column L j = Some j'" by (auto simp: insert_manual_audit_def split: option.splits)
  from assms show thesis unfolding insert_manual_audit_def x option.case prod.case
    by (rule that [rotated -1]) (simp_all add: x)
qed

lemma insert_audit_state:
  "insert_audit r d = Inr d' \<Longrightarrow> d' = d\<lparr>t_audits := t_audits d @ [r]\<rparr>"
  by (simp add: insert_audit_def check_all_holds)

section \<open>The effect of Resolve\<close>

lemma Resolve_steps:
  assumes "Resolve L env c d = (res, d')"
  obtains (failed) e where "res = Inl e" "d' = d"
  | (wrote) st pst evt did d1 d2 d3 it where "actionState L (rc_action c) = Inr (st, pst, evt)"
      "resolve_review c st d = Inr (Some did, d1)"
      "\<exists>pid. uuid_in (rc_payment_id c) = Some pid
         \<and> set_payment_status pid ''REVIEW'' pst (rc_resolved_at c) d1 = (1, d2)"
      "insert_manual_audit L (pg_clock env 3) c evt did (review_details c st pst) d2 = Inr d3"
      "select_review (rc_payment_id c) d3 = Inr it"
      "d' = d3" "res = Inr it \<or> (\<exists>e. res = Inl e)"
proof (cases "actionState L (rc_action c)")
  case (Inl e)
  with assms have "res = Inl e" "d' = d" by (simp_all add: Resolve_def)
  then show thesis by (rule failed)
next
  case (Inr x)
  then obtain st pst evt where a: "actionState L (rc_action c) = Inr (st, pst, evt)" by (cases x) auto
  obtain x0 where x0: "statement env 0 (resolve_review c st d) = x0" by blast
  note eq = assms [unfolded Resolve_def a sum.case prod.case x0]
  show thesis
  proof (cases "pg_begin env = None \<and> (\<exists>did d1. x0 = Inr (Some did, d1))")
    case False
    with eq failed show thesis by (auto split: option.splits sum.splits prod.splits)
  next
    case True
    then obtain did d1 where d1: "x0 = Inr (Some did, d1)" and b: "pg_begin env = None" by blast
    obtain x2 where x2: "statement env 2
             (case uuid_in (rc_payment_id c) of None \<Rightarrow> Inl (constraint_error ''id'')
              | Some pid \<Rightarrow> Inr (set_payment_status pid ''REVIEW'' pst (rc_resolved_at c) d1)) = x2" by blast
    note eq = eq [unfolded b d1 option.case sum.case prod.case x2]
    show thesis
    proof (cases "\<exists>d2. x2 = Inr (1, d2)")
      case False
      with eq failed show thesis by (auto split: sum.splits if_splits)
    next
      case True
      then obtain d2 where d2: "x2 = Inr (1, d2)" by blast
      obtain x3 where x3: "statement env 3 (insert_manual_audit L (pg_clock env 3) c evt did
          (review_details c st pst) d2) = x3" by blast
      note eq = eq [unfolded d2 sum.case prod.case x3]
      show thesis
      proof (cases "\<exists>d3 it. x3 = Inr d3 \<and> statement env 4 (select_review (rc_payment_id c) d3) = Inr it")
        case False
        with eq failed show thesis by (auto split: sum.splits)
      next
        case True
        then obtain d3 it where d3: "x3 = Inr d3" "statement env 4 (select_review (rc_payment_id c) d3) = Inr it"
          by blast
        with eq have "commit_tx env ''commit manual review transaction'' d d3 it = (res, d')" by simp
        from commit_cases [OF this] show thesis
          using failed wrote [OF a, of did d1 d2 d3 it] x0 x2 x3 d1 d2 d3
          by (auto simp: statement_Inr split: option.splits)
      qed
    qed
  qed
qed

lemma Resolve_effect:
  assumes "Resolve L env c d = (res, d')"
  obtains (failed) e where "res = Inl e" "d' = d"
  | (resolved) it where "resolve_effect L c d d'" "select_review (rc_payment_id c) d' = Inr it"
      "res = Inr it \<or> (\<exists>e. res = Inl e)" "valid_db d \<Longrightarrow> valid_db d'"
  using assms
proof (cases rule: Resolve_steps)
  case (wrote st pst evt did d1 d2 d3 it)
  obtain q where q: "uuid_in (rc_payment_id c) = Some (rv_payment_id q)"
    "fetch rv_payment_id (rv_payment_id q) (t_reviews d) = Some q" "rv_status q = ''PENDING''"
    "rv_version q = rc_expected_version c" "did = rv_decision_id q"
    "holds (review_checks d (resolve_row st c q))"
    "d1 = d\<lparr>t_reviews := update_rows (\<lambda>r. rv_payment_id r = rv_payment_id q) (resolve_row st c) (t_reviews d)\<rparr>"
    by (rule resolve_review_Some [OF wrote(2)])
  have s: "set_payment_status (rv_payment_id q) ''REVIEW'' pst (rc_resolved_at c) d1 = (1, d2)"
    using wrote(3) q(1) by simp
  then have aff: "affected (reviewed_payment (rv_payment_id q)) (t_payments d) = 1"
    and d2: "d2 = d1\<lparr>t_payments := update_rows (reviewed_payment (rv_payment_id q))
        (\<lambda>p. p\<lparr>pay_status := pst, updated_at := timestamptz (rc_resolved_at c)\<rparr>) (t_payments d)\<rparr>"
    unfolding set_status_reviewed q(7) by auto
  obtain arow where a: "uuid_in (rc_payment_id c) = Some (au_aggregate_id arow)" "au_decision_id arow = did"
    "au_event_type arow = evt" "au_actor_type arow = ''USER''"
    "au_actor_id arow = pr_reviewer_id (rc_principal c)" "insert_audit arow d2 = Inr d3"
    by (rule insert_manual_audit_Inr [OF wrote(4)])
  have d': "d' = d\<lparr>t_payments := update_rows (reviewed_payment (rv_payment_id q))
          (\<lambda>p. p\<lparr>pay_status := pst, updated_at := timestamptz (rc_resolved_at c)\<rparr>) (t_payments d),
        t_audits := t_audits d @ [arow],
        t_reviews := update_rows (\<lambda>r. rv_payment_id r = rv_payment_id q) (resolve_row st c) (t_reviews d)\<rparr>"
    unfolding wrote(6) insert_audit_state [OF a(6)] d2 q(7) by simp
  have "resolve_effect L c d d'"
    unfolding resolve_effect_def
    by (rule exI [of _ q], rule exI [of _ st], rule exI [of _ pst], rule exI [of _ evt], rule exI [of _ arow])
       (use wrote(1) q a aff d' in simp)
  moreover have "valid_db d'" if v: "valid_db d"
  proof -
    have "valid_db d1" unfolding q(7) by (rule valid_resolve [OF v q(2,6)])
    moreover have "pst \<in> set payment_statuses"
      using actionState_Inr [OF wrote(1)] by (auto simp: payment_statuses_def)
    ultimately have "valid_db d2"
      using valid_set_payment_status [of pst d1 "rv_payment_id q" "''REVIEW''" "rc_resolved_at c"] s by simp
    with valid_insert_audit [OF a(6)] wrote(6) show ?thesis by simp
  qed
  ultimately show thesis using resolved wrote(5-7) by simp
qed blast

section \<open>A resolution keeps the database consistent\<close>

lemma affected_one:
  assumes "unique_by pay_id ps" and "affected (reviewed_payment pid) ps = 1"
  obtains p where "p \<in> set ps" "pay_id p = pid" "pay_status p = ''REVIEW''"
proof -
  have "\<exists>p \<in> set ps. reviewed_payment pid p"
  proof (rule ccontr)
    assume "\<not> (\<exists>p \<in> set ps. reviewed_payment pid p)"
    then have "affected (reviewed_payment pid) ps = 0" by (simp add: affected_def filter_empty_conv)
    with assms(2) show False by simp
  qed
  with that show thesis by (auto simp: reviewed_payment_def)
qed

text \<open>The decision behind a queue entry.\<close>

lemma review_decision:
  assumes "consistent d" and "q \<in> set (t_reviews d)"
  obtains r where "r \<in> set (t_decisions d)" "dr_decision_id r = rv_decision_id q"
    "dr_payment_id r = rv_payment_id q" "dr_decision r = ''REVIEW''"
    "fetch dr_payment_id (rv_payment_id q) (t_decisions d) = Some r"
    "fetch dr_decision_id (rv_decision_id q) (t_decisions d) = Some r"
proof -
  from assms obtain r where r: "r \<in> set (t_decisions d)" "dr_decision_id r = rv_decision_id q"
    "dr_payment_id r = rv_payment_id q" by (auto simp: consistent_def reviews_agree_def)
  have u: "unique_by dr_payment_id (t_decisions d)" "unique_by dr_decision_id (t_decisions d)"
    "unique_by rv_decision_id (t_reviews d)" and ra: "reviews_agree d"
    using assms(1) by (auto simp: consistent_def valid_db_def valid_decisions_def valid_reviews_def)
  have "review_status d (dr_decision_id r) = Some (rv_status q)"
    using fetch_unique [OF u(3) assms(2)] by (simp add: review_status_def r(2))
  with ra r(1) have "dr_decision r = ''REVIEW''" unfolding reviews_agree_def by blast
  with that r fetch_unique [OF u(1) r(1)] fetch_unique [OF u(2) r(1)] show thesis by simp
qed

lemma review_status_resolved:
  assumes "unique_by rv_payment_id (t_reviews d)" and "unique_by rv_decision_id (t_reviews d)"
    and "q \<in> set (t_reviews d)"
    and "t_reviews d' = update_rows (\<lambda>r. rv_payment_id r = rv_payment_id q) (resolve_row st c) (t_reviews d)"
  shows "review_status d' did = (if did = rv_decision_id q then Some st else review_status d did)"
proof (cases "fetch rv_decision_id did (t_reviews d)")
  case None
  then have "did \<noteq> rv_decision_id q" using assms(3) by (auto simp: fetch_None_iff)
  with None show ?thesis by (simp add: review_status_def assms(4) fetch_update_rows)
next
  case (Some x)
  then have x: "x \<in> set (t_reviews d)" "rv_decision_id x = did" using fetch_SomeD by metis+
  have "rv_payment_id x = rv_payment_id q \<longleftrightarrow> did = rv_decision_id q"
    using unique_byD [OF assms(1) x(1) assms(3)] unique_byD [OF assms(2) x(1) assms(3)] x(2) by auto
  with Some show ?thesis by (simp add: review_status_def assms(4) fetch_update_rows)
qed

lemma reviews_agree_resolved:
  assumes "reviews_agree d" and "t_decisions d' = t_decisions d"
    and "t_reviews d' = update_rows h (resolve_row st c) (t_reviews d)"
    and rs: "\<And>did. review_status d' did = (if did = x then Some st else review_status d did)"
    and old: "review_status d x \<noteq> None"
  shows "reviews_agree d'"
  unfolding reviews_agree_def
proof (intro conjI ballI)
  fix y assume "y \<in> set (t_decisions d')"
  then show "dr_decision y = ''REVIEW'' \<longleftrightarrow> review_status d' (dr_decision_id y) \<noteq> None"
    using assms(1,2) old unfolding reviews_agree_def rs by auto
next
  fix q assume "q \<in> set (t_reviews d')"
  then obtain q0 where "q0 \<in> set (t_reviews d)" "rv_decision_id q = rv_decision_id q0"
    "rv_payment_id q = rv_payment_id q0" by (auto simp: assms(3) set_update_rows split: if_splits)
  then show "\<exists>r \<in> set (t_decisions d'). dr_decision_id r = rv_decision_id q \<and> dr_payment_id r = rv_payment_id q"
    using assms(1,2) unfolding reviews_agree_def by auto
qed

lemma status_agrees_unresolved:
  assumes "status_agrees d p" and "t_decisions d' = t_decisions d"
    and "\<And>did. review_status d' did = (if did = x then Some st else review_status d did)"
    and "\<And>y. y \<in> set (t_decisions d) \<Longrightarrow> dr_payment_id y = pay_id p \<Longrightarrow> dr_decision_id y \<noteq> x"
  shows "status_agrees d' p"
  using assms by (auto simp: status_agrees_def split: option.splits dest: fetch_SomeD)

lemma consistent_resolve:
  assumes "consistent d" and "resolve_effect L c d d'" and "valid_db d'"
  shows "consistent d'"
proof -
  from assms(2) obtain q st pst arow evt where a: "actionState L (rc_action c) = Inr (st, pst, evt)"
    and q: "fetch rv_payment_id (rv_payment_id q) (t_reviews d) = Some q"
    and aff: "affected (reviewed_payment (rv_payment_id q)) (t_payments d) = 1"
    and d': "d' = d\<lparr>t_payments := update_rows (reviewed_payment (rv_payment_id q))
               (\<lambda>p. p\<lparr>pay_status := pst, updated_at := timestamptz (rc_resolved_at c)\<rparr>) (t_payments d),
            t_audits := t_audits d @ [arow],
            t_reviews := update_rows (\<lambda>r. rv_payment_id r = rv_payment_id q) (resolve_row st c) (t_reviews d)\<rparr>"
    unfolding resolve_effect_def by blast
  have qin: "q \<in> set (t_reviews d)" using q by (auto dest: fetch_SomeD)
  have u: "unique_by pay_id (t_payments d)" "unique_by rv_payment_id (t_reviews d)"
    "unique_by rv_decision_id (t_reviews d)" "unique_by dr_payment_id (t_decisions d)"
    and ra: "reviews_agree d" and sa: "\<And>p. p \<in> set (t_payments d) \<Longrightarrow> status_agrees d p"
    using assms(1) by (auto simp: consistent_def valid_db_def valid_payments_def valid_reviews_def)
  obtain p where p: "p \<in> set (t_payments d)" "pay_id p = rv_payment_id q" "pay_status p = ''REVIEW''"
    by (rule affected_one [OF u(1) aff])
  obtain r where r: "r \<in> set (t_decisions d)" "dr_decision_id r = rv_decision_id q"
    "dr_payment_id r = rv_payment_id q" "dr_decision r = ''REVIEW''"
    "fetch dr_payment_id (rv_payment_id q) (t_decisions d) = Some r"
    by (rule review_decision [OF assms(1) qin])
  have rs: "review_status d' did = (if did = rv_decision_id q then Some st else review_status d did)" for did
    by (rule review_status_resolved [OF u(2,3) qin]) (simp add: d')
  have td: "t_decisions d' = t_decisions d" by (simp add: d')
  have old: "review_status d (rv_decision_id q) \<noteq> None"
    using ra r(1,2,4) unfolding reviews_agree_def by metis
  have "status_agrees d' x" if x: "x \<in> set (t_payments d')" for x
  proof -
    from x obtain x0 where x0: "x0 \<in> set (t_payments d)"
      and xx: "x = (if reviewed_payment (rv_payment_id q) x0
        then x0\<lparr>pay_status := pst, updated_at := timestamptz (rc_resolved_at c)\<rparr> else x0)"
      by (auto simp: d' set_update_rows)
    show ?thesis
    proof (cases "pay_id x0 = rv_payment_id q")
      case True
      then have "x0 = p" using unique_byD [OF u(1) x0 p(1)] p(2) by simp
      with p xx have "pay_id x = rv_payment_id q" "pay_status x = pst" by (auto simp: reviewed_payment_def)
      then show ?thesis using r actionState_Inr [OF a] by (auto simp: status_agrees_def rs td expected_status_def)
    next
      case False
      then have "x = x0" by (simp add: xx reviewed_payment_def)
      moreover have "dr_decision_id y \<noteq> rv_decision_id q" if "y \<in> set (t_decisions d)" "dr_payment_id y = pay_id x0" for y
        using that False r(1,2,3) assms(1)
        by (auto simp: consistent_def valid_db_def valid_decisions_def dest: unique_byD)
      ultimately show ?thesis using status_agrees_unresolved [OF sa [OF x0] td rs] by blast
    qed
  qed
  moreover have "reviews_agree d'" by (rule reviews_agree_resolved [OF ra td _ rs old]) (simp add: d')
  ultimately show ?thesis using assms(3) u(4) by (simp add: consistent_def td)
qed

lemma consistent_Resolve:
  assumes "consistent d" and "Resolve L env c d = (res, d')"
  shows "consistent d'"
  using assms(2)
proof (cases rule: Resolve_effect)
  case (resolved it)
  show ?thesis by (rule consistent_resolve [OF assms(1) resolved(1) resolved(4) [OF consistent_valid [OF assms(1)]]])
qed (use assms(1) in simp)

section \<open>At most one resolution\<close>

definition settled :: "string \<Rightarrow> db \<Rightarrow> bool" where
  "settled pid d = (case fetch rv_payment_id pid (t_reviews d) of None \<Rightarrow> False | Some q \<Rightarrow> rv_status q \<noteq> ''PENDING'')"

text \<open>One call of the review API with everything that may differ between two calls.\<close>

record 'e review_attempt =
  ra_service :: service_env
  ra_repository :: 'e
  ra_payment_id :: string
  ra_action :: string
  ra_request :: resolve_request
  ra_principal :: principal

definition run_review ::
    "'a unicode_tables_scheme \<Rightarrow> ('e \<Rightarrow> resolve_command \<Rightarrow> 's \<Rightarrow> item result \<times> 's) \<Rightarrow> 'e review_attempt
     \<Rightarrow> 's \<Rightarrow> item result \<times> 's" where
  "run_review ut op a s =
     service_resolve ut (ra_service a) (op (ra_repository a)) (ra_payment_id a) (ra_action a)
       (ra_request a) (ra_principal a) s"

fun run_reviews ::
    "'a unicode_tables_scheme \<Rightarrow> ('e \<Rightarrow> resolve_command \<Rightarrow> 's \<Rightarrow> item result \<times> 's)
     \<Rightarrow> 'e review_attempt list \<Rightarrow> 's \<Rightarrow> item result list \<times> 's" where
  "run_reviews ut op [] s = ([], s)"
| "run_reviews ut op (a # as) s =
     (let (r, s1) = run_review ut op a s; (rs, s2) = run_reviews ut op as s1 in (r # rs, s2))"

definition succeeded :: "'a result \<Rightarrow> bool" where
  "succeeded r = (case r of Inl _ \<Rightarrow> False | Inr _ \<Rightarrow> True)"

text \<open>The attempts on one payment that were answered with an item.\<close>

definition winners :: "string \<Rightarrow> ('e review_attempt \<times> item result) list \<Rightarrow> 'e review_attempt list" where
  "winners pid xs = map fst (filter (\<lambda>(a, r). NormalizeID (ra_payment_id a) = Inr pid \<and> succeeded r) xs)"

locale review_repository =
  fixes resolve_op :: "'e \<Rightarrow> resolve_command \<Rightarrow> 's \<Rightarrow> item result \<times> 's"
    and resolved :: "string \<Rightarrow> 's \<Rightarrow> bool"
  assumes resolve_once: "resolve_op e c s = (Inr it, s') \<Longrightarrow> canonical_uuid (rc_payment_id c) \<Longrightarrow>
      \<not> resolved (rc_payment_id c) s \<and> resolved (rc_payment_id c) s'"
    and resolved_keeps: "resolve_op e c s = (res, s') \<Longrightarrow> resolved pid s \<Longrightarrow> resolved pid s'"
begin

lemma service_once:
  assumes "run_review ut resolve_op a s = (r, s')" and "NormalizeID (ra_payment_id a) = Inr pid"
  shows "(resolved pid s \<longrightarrow> resolved pid s') \<and> (succeeded r \<longrightarrow> \<not> resolved pid s \<and> resolved pid s')"
proof (cases "prepare_resolve ut (ra_service a) (ra_payment_id a) (ra_action a) (ra_request a) (ra_principal a)")
  case (Inl e)
  with assms(1) show ?thesis by (auto simp: run_review_def service_resolve_def succeeded_def)
next
  case (Inr c)
  with assms(1) have o: "resolve_op (ra_repository a) c s = (r, s')"
    by (simp add: run_review_def service_resolve_def)
  have "rc_payment_id c = pid" using Inr assms(2)
    by (auto simp: prepare_resolve_def Let_def split: if_splits sum.splits)
  moreover have "canonical_uuid pid" using assms(2) by (rule NormalizeID_canonical)
  ultimately show ?thesis using resolve_once [of "ra_repository a" c s _ s'] resolved_keeps [OF o, of pid] o
    by (auto simp: succeeded_def split: sum.splits)
qed

lemma other_keeps:
  assumes "run_review ut resolve_op a s = (r, s')" and "resolved pid s"
  shows "resolved pid s'"
  using assms resolved_keeps
  by (fastforce simp: run_review_def service_resolve_def split: sum.splits)

lemma at_most_one_winner:
  "run_reviews ut resolve_op as s = (rs, s') \<Longrightarrow>
   length (winners pid (zip as rs)) \<le> (if resolved pid s then 0 else 1)"
proof (induction as arbitrary: s rs s')
  case (Cons a as)
  obtain r s1 where r: "run_review ut resolve_op a s = (r, s1)" by (cases "run_review ut resolve_op a s")
  obtain rs1 s2 where rs1: "run_reviews ut resolve_op as s1 = (rs1, s2)" by (cases "run_reviews ut resolve_op as s1")
  have rs: "rs = r # rs1" using Cons.prems r rs1 by simp
  note ih = Cons.IH [OF rs1]
  show ?case
  proof (cases "NormalizeID (ra_payment_id a) = Inr pid \<and> succeeded r")
    case True
    with service_once [OF r, of pid] ih show ?thesis by (simp add: rs winners_def)
  next
    case False
    then have "winners pid (zip (a # as) rs) = winners pid (zip as rs1)" by (auto simp: rs winners_def)
    with ih other_keeps [OF r, of pid] show ?thesis by (auto split: if_splits)
  qed
qed (simp add: winners_def)

end

lemma settled_resolve:
  assumes "resolve_effect L c d d'"
  shows "settled pid d \<Longrightarrow> settled pid d'"
    and "uuid_in (rc_payment_id c) = Some k \<Longrightarrow> \<not> settled k d \<and> settled k d'"
proof -
  from assms obtain q st pst arow evt where a: "actionState L (rc_action c) = Inr (st, pst, evt)"
    and q: "uuid_in (rc_payment_id c) = Some (rv_payment_id q)"
      "fetch rv_payment_id (rv_payment_id q) (t_reviews d) = Some q" "rv_status q = ''PENDING''"
    and d': "t_reviews d' = update_rows (\<lambda>r. rv_payment_id r = rv_payment_id q) (resolve_row st c) (t_reviews d)"
    unfolding resolve_effect_def by force
  have st: "st \<noteq> ''PENDING''" using actionState_Inr [OF a] by auto
  have f: "fetch rv_payment_id k (t_reviews d') = map_option (\<lambda>r. if rv_payment_id r = rv_payment_id q
      then resolve_row st c r else r) (fetch rv_payment_id k (t_reviews d))" for k
    by (simp add: d' fetch_update_rows)
  show "settled pid d \<Longrightarrow> settled pid d'" using st by (auto simp: settled_def f split: option.splits)
  show "uuid_in (rc_payment_id c) = Some k \<Longrightarrow> \<not> settled k d \<and> settled k d'"
    using q st by (simp add: settled_def f)
qed

interpretation pg_reviews: review_repository "Resolve L" settled
proof
  fix e c s it s' assume r: "Resolve L e c s = (Inr it, s')" and u: "canonical_uuid (rc_payment_id c)"
  from r show "\<not> settled (rc_payment_id c) s \<and> settled (rc_payment_id c) s'"
  proof (cases rule: Resolve_effect)
    case (resolved it')
    from settled_resolve(2) [OF resolved(1) uuid_in_of_canonical [OF u]] show ?thesis .
  qed simp
next
  fix e c s res s' pid assume r: "Resolve L e c s = (res, s')" and p: "settled pid s"
  from r show "settled pid s'" 
  proof (cases rule: Resolve_effect)
    case (resolved it')
    from settled_resolve(1) [OF resolved(1) p] show ?thesis .
  qed (use p in simp)
qed

text \<open>
  C4:
  However many reviewers, or retries of one reviewer, try to resolve the review of a payment, in
  whatever order their requests reach the database and whatever the driver does to them, at most
  one of the attempts is answered with a resolved item.\<close>

theorem single_winner:
  "length (winners pid (zip as (fst (run_reviews ut (Resolve L) as d)))) \<le> 1"
proof -
  obtain rs d' where r: "run_reviews ut (Resolve L) as d = (rs, d')" by (cases "run_reviews ut (Resolve L) as d")
  from pg_reviews.at_most_one_winner [OF r, of pid] show ?thesis by (simp add: r split: if_splits)
qed

text \<open>
  C17:
  Whatever the driver does, \<open>Resolve\<close> either fails and changes nothing, or makes one atomic step:
  the pending queue entry with the expected version takes its final status and its version grows by
  one, the payment moves from REVIEW to the status of the action, and one audit event names the
  reviewer and the decision.  It never answers with an item without that step.\<close>

theorem Resolve_atomic:
  "case Resolve L env c d of (res, d') \<Rightarrow>
     (d' = d \<and> (\<exists>e. res = Inl e))
     \<or> (resolve_effect L c d d'
        \<and> (\<exists>it. select_review (rc_payment_id c) d' = Inr it \<and> (res = Inr it \<or> (\<exists>e. res = Inl e))))"
proof -
  obtain res d' where a: "Resolve L env c d = (res, d')" by (cases "Resolve L env c d")
  show ?thesis unfolding a prod.case by (rule Resolve_effect [OF a]) blast+
qed

section \<open>The answer of Resolve when nothing fails\<close>

text \<open>Commands whose texts the columns accept and whose versions fit an INTEGER.\<close>

definition storable_resolve :: "resolve_command \<Rightarrow> bool" where
  "storable_resolve c \<longleftrightarrow>
     canonical_uuid (rc_payment_id c) \<and> canonical_uuid (rc_audit_id c)
     \<and> rc_action c \<in> {''APPROVE'', ''REJECT''}
     \<and> int4 (rc_expected_version c) \<and> int4 (rc_expected_version c + 1) \<and> 0 < rc_expected_version c
     \<and> varchar 255 (pr_reviewer_id (rc_principal c)) \<and> not_blank (pr_reviewer_id (rc_principal c))
     \<and> pg_text (pr_role (rc_principal c))
     \<and> pg_text (rc_reason_code c) \<and> not_blank (rc_reason_code c)"

definition manual_event :: "string \<Rightarrow> string" where
  "manual_event action = (if action = ''APPROVE'' then ''MANUAL_REVIEW_APPROVED'' else ''MANUAL_REVIEW_REJECTED'')"

text \<open>The audit ID is new, and the review has no audit event of the action yet.\<close>

definition fresh_audit :: "resolve_command \<Rightarrow> db \<Rightarrow> bool" where
  "fresh_audit c d \<longleftrightarrow>
     fetch au_id (rc_audit_id c) (t_audits d) = None
     \<and> (\<forall>q. fetch rv_payment_id (rc_payment_id c) (t_reviews d) = Some q \<longrightarrow>
          fetch audit_key (manual_event (rc_action c), rv_decision_id q) (t_audits d) = None)"

definition resolve_answer :: "resolve_command \<Rightarrow> db \<Rightarrow> item result" where
  "resolve_answer c d =
     (let (st, pst) = (if rc_action c = ''APPROVE'' then (''APPROVED'', ''ALLOWED'') else (''REJECTED'', ''BLOCKED'')) in
      case fetch rv_payment_id (rc_payment_id c) (t_reviews d) of
        None \<Rightarrow> Inl (Sentinel ErrReviewNotFound)
      | Some q \<Rightarrow>
          if rv_status q \<noteq> ''PENDING''
          then Inl (ConflictError (Sentinel ErrReviewAlreadyResolved) (rv_status q) (rv_version q))
          else if rv_version q \<noteq> rc_expected_version c
          then Inl (ConflictError (Sentinel ErrReviewVersionConflict) (rv_status q) (rv_version q))
          else (case (fetch pay_id (rv_payment_id q) (t_payments d),
                      fetch dr_decision_id (rv_decision_id q) (t_decisions d)) of
                  (Some p, Some r) \<Rightarrow>
                    Inr (scanItem (resolve_row st c q)
                      (p\<lparr>pay_status := pst, updated_at := timestamptz (rc_resolved_at c)\<rparr>) r)
                | _ \<Rightarrow> Inl (Msg ''no rows in result set'')))"

text \<open>The payment under a pending review is in status REVIEW.\<close>

lemma pending_review_payment:
  assumes "consistent d" and "q \<in> set (t_reviews d)" and "rv_status q = ''PENDING''"
  obtains p r where "fetch pay_id (rv_payment_id q) (t_payments d) = Some p" "pay_status p = ''REVIEW''"
    "fetch dr_decision_id (rv_decision_id q) (t_decisions d) = Some r"
    "affected (reviewed_payment (rv_payment_id q)) (t_payments d) = 1"
proof -
  have v: "holds (review_checks d q)" "unique_by pay_id (t_payments d)" "unique_by rv_decision_id (t_reviews d)"
    using assms(1,2) by (auto simp: consistent_def valid_db_def valid_reviews_def valid_payments_def)
  then obtain p where p: "fetch pay_id (rv_payment_id q) (t_payments d) = Some p"
    by (auto simp: review_checks_def payment_exists_def)
  obtain r where r: "dr_decision_id r = rv_decision_id q" "dr_decision r = ''REVIEW''"
    "fetch dr_payment_id (rv_payment_id q) (t_decisions d) = Some r"
    "fetch dr_decision_id (rv_decision_id q) (t_decisions d) = Some r"
    by (rule review_decision [OF assms(1,2)])
  have "status_agrees d p" "pay_id p = rv_payment_id q"
    using assms(1) p by (auto simp: consistent_def dest: fetch_SomeD)
  then have s: "pay_status p = ''REVIEW''"
    using r fetch_unique [OF v(3) assms(2)] assms(3)
    by (simp add: status_agrees_def review_status_def expected_status_def)
  have "affected (reviewed_payment (rv_payment_id q)) (t_payments d) = 1"
    using affected_key [OF v(2), of "rv_payment_id q" "\<lambda>p. pay_status p = ''REVIEW''"] p s
    by (simp add: reviewed_payment_def [abs_def])
  with p s r(4) that show thesis by blast
qed

lemma review_details_accepted:
  assumes "storable_resolve c" and "jsonb_accepts L" and "actionState L' (rc_action c) = Inr (st, pst, evt)"
  shows "case jsonb_column L (review_details c st pst) of None \<Rightarrow> False | Some t \<Rightarrow> json_object t"
proof -
  let ?ms = "[(''action'', JStr (rc_action c)), (''expected_version'', JNum (show_int (rc_expected_version c))),
        (''new_payment_status'', JStr pst), (''new_review_status'', JStr st),
        (''new_version'', JNum (show_int (rc_expected_version c + 1))),
        (''previous_payment_status'', JStr ''REVIEW''), (''previous_review_status'', JStr StatusPending),
        (''reason_code'', JStr (rc_reason_code c)), (''reviewer_role'', JStr (pr_role (rc_principal c)))]"
  have k: "pg_text ''action''" "pg_text ''expected_version''" "pg_text ''new_payment_status''"
    "pg_text ''new_review_status''" "pg_text ''new_version''" "pg_text ''previous_payment_status''"
    "pg_text ''previous_review_status''" "pg_text ''reason_code''" "pg_text ''reviewer_role''"
    "pg_text ''REVIEW''" "pg_text StatusPending"
    by (simp_all add: plain_pg_text plain_text_def byte_def StatusPending_def)
  have a: "pg_text (rc_action c)" "pg_text st" "pg_text pst"
    using assms(1) actionState_Inr [OF assms(3)]
    by (auto simp: storable_resolve_def plain_pg_text plain_text_def byte_def)
  have i: "in_int64 (rc_expected_version c)" "in_int64 (rc_expected_version c + 1)"
    using assms(1) by (auto simp: storable_resolve_def int4_def in_int64_def)
  have t: "pg_text (rc_reason_code c)" "pg_text (pr_role (rc_principal c))"
    using assms(1) by (simp_all add: storable_resolve_def)
  have "list_all (\<lambda>(k, v). pg_text k \<and> plain_json v) ?ms"
    using k a i t by (simp only: list.pred_inject case_prod_conv plain_json.simps parse_show_int option.case simp_thms)
  with assms(2) show ?thesis unfolding jsonb_accepts_def review_details_def by blast
qed

lemma storable_review_checks:
  assumes "storable_resolve c" and "holds (review_checks d q)" and "rv_version q = rc_expected_version c"
    and "st \<in> {''APPROVED'', ''REJECTED''}"
  shows "holds (review_checks d (resolve_row st c q))"
  using assms by (auto simp: review_checks_def resolve_row_def storable_resolve_def opt_all_def resolution_shape_def)

lemma currentConflict_ok:
  assumes "no_fault env" and "canonical_uuid pid"
  shows "currentConflict env k pid d =
    (case fetch rv_payment_id pid (t_reviews d) of
       None \<Rightarrow> Sentinel ErrReviewNotFound
     | Some q \<Rightarrow> ConflictError (Sentinel (if rv_status q \<noteq> ''PENDING'' then ErrReviewAlreadyResolved
                                 else ErrReviewVersionConflict)) (rv_status q) (rv_version q))"
  by (simp add: currentConflict_def statement_no_fault [OF assms(1)] uuid_in_of_canonical [OF assms(2)]
      review_constants split: option.splits)

lemma resolve_success:
  assumes "consistent d" and "no_fault env" and "jsonb_accepts L" and "storable_resolve c" and "fresh_audit c d"
    and q: "fetch rv_payment_id (rc_payment_id c) (t_reviews d) = Some q" "rv_status q = ''PENDING''"
      "rv_version q = rc_expected_version c"
  shows "fst (Resolve L env c d) = resolve_answer c d"
proof -
  let ?pid = "rc_payment_id c"
  have u: "uuid_in ?pid = Some ?pid" "uuid_in (rc_audit_id c) = Some (rc_audit_id c)"
    using assms(4) by (simp_all add: storable_resolve_def uuid_in_of_canonical)
  have qin: "q \<in> set (t_reviews d)" and qp: "rv_payment_id q = ?pid" using q(1) by (auto dest: fetch_SomeD)
  obtain p r where p: "fetch pay_id ?pid (t_payments d) = Some p" "pay_status p = ''REVIEW''"
    and r: "fetch dr_decision_id (rv_decision_id q) (t_decisions d) = Some r"
    and aff: "affected (reviewed_payment ?pid) (t_payments d) = 1"
    using pending_review_payment [OF assms(1) qin q(2)] unfolding qp by blast
  obtain st pst evt where a: "actionState L (rc_action c) = Inr (st, pst, evt)"
    and sp: "(st, pst) = (if rc_action c = ''APPROVE'' then (''APPROVED'', ''ALLOWED'') else (''REJECTED'', ''BLOCKED''))"
    and evt: "evt = manual_event (rc_action c)"
    using assms(4) by (auto simp: storable_resolve_def actionState_def review_constants manual_event_def)
  have chk: "holds (review_checks d (resolve_row st c q))"
    using assms(1) qin sp by (intro storable_review_checks [OF assms(4) _ q(3)])
      (auto simp: consistent_def valid_db_def valid_reviews_def split: if_splits)
  define d1 where "d1 = d\<lparr>t_reviews := update_rows (\<lambda>r. rv_payment_id r = ?pid) (resolve_row st c) (t_reviews d)\<rparr>"
  have s1: "resolve_review c st d = Inr (Some (rv_decision_id q), d1)"
    using assms(4) u q chk
    by (simp add: resolve_review_def storable_resolve_def varchar_def check_all_cases(1) d1_def)
  define d2 where "d2 = d1\<lparr>t_payments := update_rows (reviewed_payment ?pid)
      (\<lambda>p. p\<lparr>pay_status := pst, updated_at := timestamptz (rc_resolved_at c)\<rparr>) (t_payments d)\<rparr>"
  have s2: "set_payment_status ?pid ''REVIEW'' pst (rc_resolved_at c) d1 = (1, d2)"
    using aff by (simp add: set_status_reviewed d1_def d2_def)
  obtain j where j: "jsonb_column L (review_details c st pst) = Some j" "json_object j"
    using review_details_accepted [OF assms(4,3) a] by (auto split: option.splits)
  have "varchar 100 evt" unfolding evt manual_event_def by (auto intro!: plain_varchar simp: plain_text_def byte_def)
  moreover have "decision_exists d2 (rv_decision_id q)" using r by (simp add: d2_def d1_def decision_exists_def)
  moreover have "t_audits d2 = t_audits d" by (simp add: d2_def d1_def)
  ultimately have "\<exists>as. insert_manual_audit L (pg_clock env 3) c evt (rv_decision_id q) (review_details c st pst) d2
      = Inr (d2\<lparr>t_audits := as\<rparr>)"
    using u j assms(4,5) q(1)
    by (simp add: insert_manual_audit_def insert_audit_def audit_checks_def check_all_cases(1) fresh_audit_def
        storable_resolve_def audit_key_def evt plain_varchar plain_text_def byte_def) blast
  then obtain as where s3: "insert_manual_audit L (pg_clock env 3) c evt (rv_decision_id q)
      (review_details c st pst) d2 = Inr (d2\<lparr>t_audits := as\<rparr>)" by blast
  let ?it = "scanItem (resolve_row st c q) (p\<lparr>pay_status := pst, updated_at := timestamptz (rc_resolved_at c)\<rparr>) r"
  have "pay_id p = ?pid" using p(1) by (auto dest: fetch_SomeD)
  then have s4: "select_review ?pid (d2\<lparr>t_audits := as\<rparr>) = Inr ?it"
    using u q(1) qp p r
    by (simp add: select_review_def review_item_def d2_def d1_def fetch_update_rows reviewed_payment_def)
  have "fst (Resolve L env c d) = Inr ?it"
    by (simp add: Resolve_def a no_faultD [OF assms(2)] statement_no_fault [OF assms(2)] s1 u s2 s3 s4
        commit_no_fault [OF assms(2)])
  moreover have "resolve_answer c d = Inr ?it"
    unfolding resolve_answer_def Let_def sp [symmetric] prod.case using q qp p(1) r by simp
  ultimately show ?thesis by simp
qed

lemma Resolve_answer:
  assumes "consistent d" and "no_fault env" and "jsonb_accepts L" and "storable_resolve c" and "fresh_audit c d"
  shows "fst (Resolve L env c d) = resolve_answer c d"
proof (cases "\<exists>q. fetch rv_payment_id (rc_payment_id c) (t_reviews d) = Some q \<and> rv_status q = ''PENDING''
    \<and> rv_version q = rc_expected_version c")
  case True
  then show ?thesis using resolve_success [OF assms] by blast
next
  case False
  have cu: "canonical_uuid (rc_payment_id c)" using assms(4) by (simp add: storable_resolve_def)
  obtain x where a: "actionState L (rc_action c) = Inr x"
    using assms(4) by (auto simp: storable_resolve_def actionState_def review_constants)
  obtain st pst evt where x: "x = (st, pst, evt)" by (cases x)
  have "resolve_review c st d = Inr (None, d)"
    using assms(4) False uuid_in_of_canonical [OF cu]
    by (auto simp: resolve_review_def storable_resolve_def varchar_def split: option.splits)
  then have "fst (Resolve L env c d) = Inl (currentConflict env 1 (rc_payment_id c) d)"
    by (simp add: Resolve_def a x no_faultD [OF assms(2)] statement_no_fault [OF assms(2)])
  with False show ?thesis
    by (auto simp: currentConflict_ok [OF assms(2) cu] resolve_answer_def Let_def split: option.splits)
qed

text \<open>
  C19:
  In a consistent database and when nothing fails, \<open>Resolve\<close> answers exactly as \<open>resolve_answer\<close>
  says: no entry is not found; an entry that is no longer pending is already resolved and one with
  another version is a version conflict, both with the current status and version; otherwise the
  answer is the item with the final status, the next version, the reviewer and reason, the payment
  in status ALLOWED or BLOCKED and the evidence of the decision.\<close>

theorem Resolve_decides:
  assumes "consistent d" and "no_fault env" and "jsonb_accepts L" and "storable_resolve c" and "fresh_audit c d"
  shows "fst (Resolve L env c d) = resolve_answer c d"
  by (rule Resolve_answer [OF assms])

definition sample_resolve :: resolve_command where
  "sample_resolve = \<lparr>rc_payment_id = sample_uuid, rc_action = ''APPROVE'', rc_expected_version = 1,
     rc_reason_code = ''OK'', rc_principal = \<lparr>pr_reviewer_id = ''ann'', pr_role = ''risk_reviewer''\<rparr>,
     rc_audit_id = sample_uuid, rc_resolved_at = zero_time\<rparr>"

lemma sample_resolve_storable: "storable_resolve sample_resolve"
  using sample_uuid_canonical
  by (auto simp: storable_resolve_def sample_resolve_def int4_def not_blank_def plain_text_def byte_def
      intro!: plain_varchar plain_pg_text)

definition sample_review_row :: review_row where
  "sample_review_row = \<lparr>rv_payment_id = sample_uuid, rv_decision_id = sample_uuid, rv_status = ''PENDING'',
     rv_version = 1, rv_enqueued_at = zero_time, rv_resolved_at = None, rv_reviewer_id = None,
     rv_resolution_reason = None\<rparr>"

definition sample_decision_row :: decision_row where
  "sample_decision_row = the (decision_row_of zero_time sample_decision (replicate 64 CHR ''0''))"

text \<open>One payment under review.\<close>

definition sample_review_db :: db where
  "sample_review_db = empty_db
     \<lparr>t_payments := [(as_stored sample_payment)\<lparr>pay_status := ''REVIEW''\<rparr>],
      t_decisions := [sample_decision_row], t_reviews := [sample_review_row]\<rparr>"

lemma sample_decision_row_ok:
  "dr_decision_id sample_decision_row = sample_uuid" "dr_payment_id sample_decision_row = sample_uuid"
  "dr_decision sample_decision_row = ''REVIEW''"
  "payment_exists d sample_uuid \<Longrightarrow> holds (decision_checks d sample_decision_row)"
proof -
  have h: "hex64 (replicate 64 CHR ''0'')" by (simp add: hex64_def lower_hex_def byte_def list_all_iff)
  obtain row where row: "decision_row_of zero_time sample_decision (replicate 64 CHR ''0'') = Some row"
    "dr_decision_id row = sample_uuid" "dr_payment_id row = sample_uuid" "dr_decision row = ''REVIEW''"
    "payment_exists d sample_uuid \<Longrightarrow> holds (decision_checks d row)"
    by (rule storable_row [OF sample_decision_storable, of zero_time "replicate 64 CHR ''0''" d])
       (simp add: sample_decision_def h)
  then show "dr_decision_id sample_decision_row = sample_uuid" "dr_payment_id sample_decision_row = sample_uuid"
    "dr_decision sample_decision_row = ''REVIEW''"
    "payment_exists d sample_uuid \<Longrightarrow> holds (decision_checks d sample_decision_row)"
    by (simp_all add: sample_decision_row_def)
qed

lemma sample_review_consistent: "consistent sample_review_db"
proof -
  have p: "holds (payment_checks ((as_stored sample_payment)\<lparr>pay_status := ''REVIEW''\<rparr>))"
    using sample_payment_checks by (simp add: payment_checks_def payment_statuses_def)
  have e: "payment_exists sample_review_db sample_uuid" "decision_exists sample_review_db sample_uuid"
    by (simp_all add: payment_exists_def decision_exists_def sample_review_db_def fetch_Cons
        sample_decision_row_ok as_stored_def sample_payment_fields)
  have "holds (review_checks sample_review_db sample_review_row)"
    using e by (simp add: review_checks_def sample_review_row_def int4_def opt_all_def resolution_shape_def)
  then have "valid_db sample_review_db"
    using p sample_decision_row_ok(4) [OF e(1)] sample_uuid_canonical
    by (simp add: valid_db_def valid_payments_def valid_outbox_def valid_decisions_def valid_receipts_def
        valid_audits_def valid_reviews_def sample_review_db_def empty_db_def unique_by_def as_stored_def
        sample_payment_fields)
  then show ?thesis
    by (simp add: consistent_def sample_review_db_def reviews_agree_def unique_by_def status_agrees_def
        fetch_Cons as_stored_def sample_payment_fields sample_decision_row_ok review_status_def
        sample_review_row_def expected_status_def)
qed

theorem Resolve_decides_witness:
  "\<exists>it. fst (Resolve sample_lib (healthy zero_time) sample_resolve sample_review_db) = Inr it
     \<and> it_payment_status it = ''ALLOWED'' \<and> it_review_status it = ''APPROVED'' \<and> it_version it = 2
     \<and> it_reviewer_id it = ''ann''"
proof -
  have "fresh_audit sample_resolve sample_review_db"
    by (simp add: fresh_audit_def sample_review_db_def empty_db_def)
  note r = Resolve_decides [OF sample_review_consistent no_fault_healthy [of zero_time] sample_jsonb
      sample_resolve_storable this]
  show ?thesis unfolding r
    by (simp add: resolve_answer_def Let_def sample_resolve_def sample_review_db_def sample_review_row_def
        fetch_Cons sample_decision_row_ok as_stored_def sample_payment_fields scanItem_def resolve_row_def coalesce_def)
qed

section \<open>The list of pending reviews\<close>

definition pending_reviews :: "db \<Rightarrow> review_row list" where
  "pending_reviews d = filter (\<lambda>q. rv_status q = ''PENDING'') (t_reviews d)"

lemma review_item_consistent:
  assumes "consistent d" and "q \<in> set (pending_reviews d)"
  shows "\<exists>it. review_item d q = Some it \<and> it_payment_id it = rv_payment_id q \<and> it_review_status it = ''PENDING''
    \<and> it_payment_status it = ''REVIEW'' \<and> it_version it = rv_version q \<and> it_enqueued_at it = utc (rv_enqueued_at q)"
proof -
  from assms(2) have q: "q \<in> set (t_reviews d)" "rv_status q = ''PENDING''" by (simp_all add: pending_reviews_def)
  obtain p r where "fetch pay_id (rv_payment_id q) (t_payments d) = Some p" "pay_status p = ''REVIEW''"
    "fetch dr_decision_id (rv_decision_id q) (t_decisions d) = Some r"
    by (rule pending_review_payment [OF assms(1) q])
  with q(2) show ?thesis by (simp add: review_item_def scanItem_def)
qed

lemma map_filter_total: "(\<And>x. x \<in> set xs \<Longrightarrow> f x \<noteq> None) \<Longrightarrow> List.map_filter f xs = map (\<lambda>x. the (f x)) xs"
  by (induction xs) (auto simp: List.map_filter_simps split: option.splits)

lemma take_sorted_least:
  assumes "sorted (map f xs)" and "x \<in> set (take n xs)" and "y \<in> set xs" and "y \<notin> set (take n xs)"
  shows "f x \<le> f y"
proof -
  have "set xs = set (take n xs) \<union> set (drop n xs)" by (metis append_take_drop_id set_append)
  with assms(3,4) have y: "y \<in> set (drop n xs)" by auto
  have "sorted (map f (take n xs) @ map f (drop n xs))" using assms(1) by (metis append_take_drop_id map_append)
  then have "\<forall>a \<in> set (map f (take n xs)). \<forall>b \<in> set (map f (drop n xs)). a \<le> b"
    unfolding sorted_append by blast
  with assms(2) y show ?thesis by auto
qed

lemma selectPending_items:
  assumes "consistent d"
  shows "selectPendingReviews n d = map (\<lambda>q. the (review_item d q)) (take n (sort_key queue_key (pending_reviews d)))"
proof -
  have "List.map_filter (review_item d) (sort_key queue_key (pending_reviews d))
      = map (\<lambda>q. the (review_item d q)) (sort_key queue_key (pending_reviews d))"
    using review_item_consistent [OF assms] by (intro map_filter_total) fastforce
  then show ?thesis by (simp add: selectPendingReviews_def pending_reviews_def take_map)
qed

text \<open>
  In a consistent database the list of pending reviews shows the oldest pending entries: as many as
  there are, up to the limit; each one with payment status REVIEW and its current version; and an
  entry that is left out was not enqueued before one that is shown, and only when the limit is
  reached.\<close>

theorem ListPending_oldest:
  assumes "consistent d" and "ListPending env limit d = Inr items"
  shows "length items = min (nat limit) (length (pending_reviews d))
    \<and> (\<forall>it \<in> set items. \<exists>q \<in> set (pending_reviews d). review_item d q = Some it
         \<and> it_payment_status it = ''REVIEW'' \<and> it_version it = rv_version q)
    \<and> (\<forall>q \<in> set (pending_reviews d). (\<exists>it \<in> set items. it_payment_id it = rv_payment_id q)
         \<or> (length items = nat limit \<and> (\<forall>it \<in> set items. wall (it_enqueued_at it) \<le> wall (rv_enqueued_at q))))"
proof -
  let ?qs = "sort_key queue_key (pending_reviews d)" and ?n = "nat limit"
  have items: "items = map (\<lambda>q. the (review_item d q)) (take ?n ?qs)"
    using assms(2) by (auto simp: ListPending_def statement_Inr selectPending_items [OF assms(1)]
        split: sum.splits if_splits)
  have len: "length items = min ?n (length (pending_reviews d))" by (simp add: items min.commute)
  have sub: "set (take ?n ?qs) \<subseteq> set (pending_reviews d)"
    using set_take_subset [of ?n ?qs] by (simp only: set_sort)
  have "\<exists>q \<in> set (pending_reviews d). review_item d q = Some it
         \<and> it_payment_status it = ''REVIEW'' \<and> it_version it = rv_version q" if it: "it \<in> set items" for it
  proof -
    from it obtain q where q: "q \<in> set (take ?n ?qs)" "it = the (review_item d q)"
      unfolding items set_map by blast
    with sub have "q \<in> set (pending_reviews d)" by blast
    with review_item_consistent [OF assms(1) this] q(2) show ?thesis by auto
  qed
  moreover have "(\<exists>it \<in> set items. it_payment_id it = rv_payment_id q)
         \<or> (length items = ?n \<and> (\<forall>it \<in> set items. wall (it_enqueued_at it) \<le> wall (rv_enqueued_at q)))"
    if q: "q \<in> set (pending_reviews d)" for q
  proof (cases "q \<in> set (take ?n ?qs)")
    case True
    then have "the (review_item d q) \<in> set items" by (simp add: items)
    with review_item_consistent [OF assms(1) q] show ?thesis by force
  next
    case False
    have "q \<in> set ?qs" using q by (simp only: set_sort)
    then have n: "?n < length ?qs" using False by (metis not_le_imp_less take_all)
    have "wall (it_enqueued_at it) \<le> wall (rv_enqueued_at q)" if it: "it \<in> set items" for it
    proof -
      from it obtain x where x: "x \<in> set (take ?n ?qs)" "it = the (review_item d x)" unfolding items set_map by blast
      have "queue_key x \<le> queue_key q"
        by (rule take_sorted_least [OF sorted_sort_key x(1) \<open>q \<in> set ?qs\<close> False])
      moreover have "it_enqueued_at it = utc (rv_enqueued_at x)"
        using review_item_consistent [OF assms(1) subsetD [OF sub x(1)]] x(2) by auto
      ultimately show ?thesis by (auto simp: queue_key_def less_eq_prod_def)
    qed
    with n len show ?thesis by simp
  qed
  ultimately show ?thesis using len by blast
qed

theorem ListPending_oldest_witness:
  "\<exists>it. ListPending (healthy zero_time) 5 sample_review_db = Inr [it] \<and> it_payment_status it = ''REVIEW''"
proof -
  obtain items where i: "ListPending (healthy zero_time) 5 sample_review_db = Inr items"
    by (simp add: ListPending_def statement_no_fault)
  have "length (pending_reviews sample_review_db) = 1"
    by (simp add: pending_reviews_def sample_review_db_def sample_review_row_def)
  with ListPending_oldest [OF sample_review_consistent i]
  have "length items = 1" "\<forall>it \<in> set items. it_payment_status it = ''REVIEW''" by auto
  then obtain it where "items = [it]" "it_payment_status it = ''REVIEW''" by (cases items) auto
  with i show ?thesis by auto
qed

section \<open>The service's checks\<close>

text \<open>The requests that reach the repository.\<close>

definition resolvable :: "'a unicode_tables_scheme \<Rightarrow> string \<Rightarrow> resolve_request \<Rightarrow> principal \<Rightarrow> bool" where
  "resolvable ut action request who \<longleftrightarrow>
     0 < rq_expected_version request
     \<and> validReviewReason (to_upper ut (trim_space (rq_reason_code request)))
     \<and> pr_reviewer_id who \<noteq> [] \<and> pr_role who = ''risk_reviewer'' \<and> action \<in> {''APPROVE'', ''REJECT''}"

text \<open>
  Only an authenticated risk reviewer can change anything through the review service (an auditor is
  refused), and the audit event added names the caller.
\<close>

lemma service_resolve_caller:
  assumes "service_resolve ut senv (Resolve L env) paymentID action request who d = (res, d')" and "d' \<noteq> d"
  shows "resolvable ut action request who
    \<and> (\<exists>arow. t_audits d' = t_audits d @ [arow] \<and> au_actor_type arow = ''USER''
         \<and> au_actor_id arow = pr_reviewer_id who \<and> au_event_type arow = manual_event action
         \<and> NormalizeID paymentID = Inr (au_aggregate_id arow))"
proof -
  obtain c where c: "prepare_resolve ut senv paymentID action request who = Inr c"
    and r: "Resolve L env c d = (res, d')"
    using assms by (auto simp: service_resolve_def split: sum.splits)
  from c obtain pid where pid: "NormalizeID paymentID = Inr pid" and cc: "rc_payment_id c = pid"
    "rc_principal c = who" "rc_action c = action"
    and f: "resolve_fields action request who (to_upper ut (trim_space (rq_reason_code request))) = []"
    by (auto simp: prepare_resolve_def Let_def split: sum.splits if_splits)
  have ok: "resolvable ut action request who"
    using f by (auto simp: resolve_fields_def resolvable_def review_constants split: if_splits)
  from r have "resolve_effect L c d d'" by (cases rule: Resolve_effect) (use assms(2) in auto)
  then obtain arow rs ps where a: "uuid_in (rc_payment_id c) = Some (au_aggregate_id arow)" "au_actor_type arow = ''USER''"
    "au_actor_id arow = pr_reviewer_id (rc_principal c)" "t_audits d' = t_audits d @ [arow]"
    "actionState L action = Inr (rs, ps, au_event_type arow)"
    unfolding resolve_effect_def cc(3) by force
  have "au_aggregate_id arow = pid"
    using a(1) cc(1) uuid_in_of_canonical [OF NormalizeID_canonical [OF pid]] by simp
  moreover have "au_event_type arow = manual_event action"
    using a(5) by (auto simp: actionState_def manual_event_def review_constants split: if_splits)
  ultimately show ?thesis using ok pid a(2-4) cc(2) by metis
qed

text \<open>The review of the sample is resolved when nothing fails.\<close>

lemma sample_resolution:
  "\<exists>it d'. service_resolve sample_lib sample_service (Resolve sample_lib (healthy zero_time)) sample_uuid ''APPROVE''
      \<lparr>rq_expected_version = 1, rq_reason_code = ''OK''\<rparr> \<lparr>pr_reviewer_id = ''ann'', pr_role = ''risk_reviewer''\<rparr>
      sample_review_db = (Inr it, d') \<and> d' \<noteq> sample_review_db"
proof -
  obtain u where u: "new_uuid (se_random sample_service 0) = Inr u" "canonical_uuid u"
    using sample_good_attempt new_uuid_good [of sample_service 0] by (auto simp: sample_service_def new_uuid_def good_attempt_def sample_attempt_def)
  define c where "c = \<lparr>rc_payment_id = sample_uuid, rc_action = ''APPROVE'', rc_expected_version = 1,
     rc_reason_code = ''OK'', rc_principal = \<lparr>pr_reviewer_id = ''ann'', pr_role = ''risk_reviewer''\<rparr>,
     rc_audit_id = u, rc_resolved_at = utc (se_now sample_service)\<rparr>"
  have n: "NormalizeID sample_uuid = Inr sample_uuid"
    using uuid_in_of_canonical [OF sample_uuid_canonical] by (simp add: NormalizeID_eq)
  have t: "trim_space ''OK'' = ''OK''" by (rule trim_space_plain) (simp_all add: plain_byte_def ascii_def is_space_def byte_def)
  have k: "to_upper sample_lib ''OK'' = ''OK''"
    by (simp add: to_upper_ascii ascii_def byte_def ascii_upper_def)
  have v: "validReviewReason ''OK''"
    by (simp add: validReviewReason_def runes_ascii ascii_def byte_def del: runes.simps)
  have p: "prepare_resolve sample_lib sample_service sample_uuid ''APPROVE''
      \<lparr>rq_expected_version = 1, rq_reason_code = ''OK''\<rparr> \<lparr>pr_reviewer_id = ''ann'', pr_role = ''risk_reviewer''\<rparr> = Inr c"
    by (simp add: prepare_resolve_def n t k v u c_def resolve_fields_def review_constants Let_def)
  have s: "storable_resolve c" using sample_resolve_storable u(2) by (simp add: storable_resolve_def sample_resolve_def c_def)
  have "fresh_audit c sample_review_db" by (simp add: fresh_audit_def sample_review_db_def empty_db_def)
  note r = Resolve_answer [OF sample_review_consistent no_fault_healthy [of zero_time] sample_jsonb s this]
  obtain it where it: "resolve_answer c sample_review_db = Inr it"
    by (simp add: resolve_answer_def Let_def c_def sample_review_db_def sample_review_row_def
        fetch_Cons sample_decision_row_ok as_stored_def sample_payment_fields)
  obtain d' where run: "Resolve sample_lib (healthy zero_time) c sample_review_db = (Inr it, d')"
    using r it by (cases "Resolve sample_lib (healthy zero_time) c sample_review_db") simp
  have "canonical_uuid (rc_payment_id c)" using s by (simp add: storable_resolve_def)
  from pg_reviews.resolve_once [OF run this] have "d' \<noteq> sample_review_db" by auto
  with run show ?thesis by (simp add: service_resolve_def p)
qed

end
