(* ===== verification/Decision_Worker.thy ===== *)
theory Decision_Worker
  imports Lifecycle
begin

text \<open>
  decision/worker.go and decision/kafka_consumer.go: the loop that persists risk decisions one
  Kafka record at a time and commits an offset only after PostgreSQL has a receipt.  The Kafka
  client is an argument (what its fetches deliver and whether its commits fail); the theorems
  about offsets are proved for every store that satisfies \<open>decision_store\<close>.
\<close>

section \<open>The Kafka client\<close>

record partition_fetch =
  pf_records :: "source_record list"
  pf_high_watermark :: int

text \<open>One round of \<open>PollRecords\<close>: its partitions, its errors, and the context afterwards.\<close>

record fetch_round =
  fr_partitions :: "partition_fetch list"
  fr_errors :: "go_error list"
  fr_context :: "go_error option"

definition lag_of :: "partition_fetch \<Rightarrow> source_record \<Rightarrow> int" where
  "lag_of pf r = (let lag = pf_high_watermark pf - sr_offset r - 1 in if lag < 0 then 0 else lag)"

definition first_record :: "partition_fetch list \<Rightarrow> source_record option" where
  "first_record pfs =
     (case List.find (\<lambda>pf. pf_records pf \<noteq> []) pfs of
        None \<Rightarrow> None
      | Some pf \<Rightarrow> let r = hd (pf_records pf) in Some (r\<lparr>sr_lag := lag_of pf r\<rparr>))"

text \<open>\<open>Poll\<close> over the rounds the client delivers; \<open>None\<close>: it is still polling after the last one.\<close>

fun Poll :: "fetch_round list \<Rightarrow> source_record result option" where
  "Poll [] = None"
| "Poll (f # fs) =
     (case first_record (fr_partitions f) of
        Some r \<Rightarrow> Some (Inr r)
      | None \<Rightarrow>
          (case fr_errors f of
             e # es \<Rightarrow> Some (Inl (errorf ''fetch Kafka decision'' e))
           | [] \<Rightarrow> (case fr_context f of Some e \<Rightarrow> Some (Inl e) | None \<Rightarrow> Poll fs)))"

text \<open>The record that is committed: its coordinate and leader epoch.\<close>

definition kafkaRecord :: "source_record \<Rightarrow> source_record" where
  "kafkaRecord r =
     \<lparr>sr_topic = sr_topic r, sr_partition = sr_partition r, sr_offset = sr_offset r,
      sr_leader_epoch = sr_leader_epoch r, sr_lag = 0, sr_value = None\<rparr>"

section \<open>Handling one record\<close>

record handle_result =
  hr_disposition :: string
  hr_event_id :: string
  hr_payment_id :: string
  hr_trace_id :: string
  hr_decision_at :: gtime

definition applicationRejectionCode :: "go_error \<Rightarrow> string \<times> bool" where
  "applicationRejectionCode e =
     (if errors_is e ErrDecisionPaymentNotFound then (''payment_not_found'', True)
      else if errors_is e ErrDecisionConflict then (''decision_conflict'', True)
      else if errors_is e ErrPaymentStateConflict then (''payment_state_conflict'', True)
      else ([], False))"

definition event_result :: "string \<Rightarrow> decision_event \<Rightarrow> handle_result" where
  "event_result disposition ev =
     \<lparr>hr_disposition = disposition, hr_event_id = dv_event_id ev,
      hr_payment_id = dp_payment_id (dv_payload ev), hr_trace_id = dv_trace_id ev,
      hr_decision_at = dp_decision_at (dv_payload ev)\<rparr>"

text \<open>\<open>handle\<close>, with the two operations of the store as arguments.\<close>

definition handle ::
    "'a golib_scheme \<Rightarrow> (decision_event \<Rightarrow> source_record \<Rightarrow> 's \<Rightarrow> apply_result result \<times> 's)
     \<Rightarrow> (source_record \<Rightarrow> string \<Rightarrow> go_error \<Rightarrow> 's \<Rightarrow> unit result \<times> 's)
     \<Rightarrow> source_record \<Rightarrow> 's \<Rightarrow> handle_result result \<times> 's" where
  "handle L apply_op reject_op r s =
     (case ParseEvent L (record_value r) of
        Inl err \<Rightarrow>
          (case reject_op r ''invalid_event'' err s of
             (Inl e, s1) \<Rightarrow> (Inl e, s1)
           | (Inr _, s1) \<Rightarrow>
               (Inr \<lparr>hr_disposition = dispositionRejected, hr_event_id = [], hr_payment_id = [],
                     hr_trace_id = [], hr_decision_at = zero_time\<rparr>, s1))
      | Inr ev \<Rightarrow>
          (case apply_op ev r s of
             (Inl err, s1) \<Rightarrow>
               (case applicationRejectionCode err of
                  (code, permanent) \<Rightarrow>
                    if \<not> permanent then (Inl err, s1)
                    else (case reject_op r code err s1 of
                            (Inl e, s2) \<Rightarrow> (Inl e, s2)
                          | (Inr _, s2) \<Rightarrow> (Inr (event_result dispositionRejected ev), s2)))
           | (Inr res, s1) \<Rightarrow>
               (Inr (event_result (if ar_replayed res then dispositionReplayed else dispositionApplied) ev),
                s1)))"

section \<open>The loop\<close>

record decision_worker_config =
  dc_poll_timeout :: duration
  dc_process_timeout :: duration
  dc_retry_backoff :: duration

record ('c, 's, 'm) decision_worker =
  dk_consumer :: 'c
  dk_store :: 's
  dk_config :: decision_worker_config
  dk_metrics :: "'m option"

definition NewDecisionStore :: "'pool option \<Rightarrow> 'pool result" where
  "NewDecisionStore pool = required ''decision PostgreSQL pool is required'' pool Inr"

definition NewDecisionWorker ::
    "'c option \<Rightarrow> 's option \<Rightarrow> decision_worker_config \<Rightarrow> 'm option list \<Rightarrow> ('c, 's, 'm) decision_worker result" where
  "NewDecisionWorker consumer store c metricSets =
     required ''decision consumer is required'' consumer (\<lambda>co.
     required ''decision store is required'' store (\<lambda>st.
       if dc_poll_timeout c \<le>s 0 \<or> dc_process_timeout c \<le>s 0 \<or> dc_retry_backoff c \<le>s 0
       then Inl (Msg ''decision worker timeouts must be positive'')
       else Inr \<lparr>dk_consumer = co, dk_store = st, dk_config = c, dk_metrics = first_metrics metricSets\<rparr>))"

text \<open>
  What an attempt to handle a record meets: the environments of \<open>Apply\<close> and \<open>Reject\<close>, and, after a
  failure, whether the context is cancelled and whether the wait ends before a cancellation.
\<close>

record 'e handling =
  hd_apply :: 'e
  hd_reject :: 'e
  hd_stop :: bool
  hd_waited :: bool

datatype consumer_act =
    PollRetry go_error | PersistRetry go_error | CommitOffset source_record | CommitRetry
  | AllowRebalance | ObserveRecord string duration duration bool source_record

datatype persist_end = Persisted handle_result | Interrupted | Unfinished

text \<open>The inner loop; \<open>Unfinished\<close>: still retrying after the last attempt of the list.\<close>

fun persist ::
    "('e \<Rightarrow> 'e \<Rightarrow> source_record \<Rightarrow> 's \<Rightarrow> handle_result result \<times> 's) \<Rightarrow> 'e handling list
     \<Rightarrow> source_record \<Rightarrow> 's \<Rightarrow> consumer_act list \<times> persist_end \<times> 's" where
  "persist h [] r s = ([], Unfinished, s)"
| "persist h (att # atts) r s =
     (case h (hd_apply att) (hd_reject att) r s of
        (Inr res, s1) \<Rightarrow> ([], Persisted res, s1)
      | (Inl e, s1) \<Rightarrow>
          if hd_stop att then ([AllowRebalance], Interrupted, s1)
          else if \<not> hd_waited att then ([PersistRetry e, AllowRebalance], Interrupted, s1)
          else (case persist h atts r s1 of (acts, out, s2) \<Rightarrow> (PersistRetry e # acts, out, s2)))"

text \<open>
  What one iteration of the outer loop meets: the context at its head, the answer of \<open>Poll\<close>, the
  context after a failed poll, the wait after it, the attempts to handle the record, the answer
  to the offset commit, and the clock before and after.
\<close>

record 'e poll_tick =
  pt_stop :: bool
  pt_poll :: "source_record result"
  pt_stop_poll :: bool
  pt_waited :: bool
  pt_handlings :: "'e handling list"
  pt_commit :: "go_error option"
  pt_started :: gtime
  pt_completed :: gtime

text \<open>\<open>t.Sub(u)\<close> saturates at the ends of the range of a duration.\<close>

definition time_sub :: "gtime \<Rightarrow> gtime \<Rightarrow> duration" where
  "time_sub t u = word_of_int (max (- (2 ^ 63)) (min (2 ^ 63 - 1) (wall t - wall u)))"

definition nonneg :: "duration \<Rightarrow> duration" where
  "nonneg d = (if d <s 0 then 0 else d)"

definition observe :: "source_record \<Rightarrow> handle_result \<Rightarrow> gtime \<Rightarrow> gtime \<Rightarrow> consumer_act" where
  "observe r res started completed =
     (let hasEndToEnd = (\<not> is_zero_time (hr_decision_at res)) in
      ObserveRecord (hr_disposition res) (nonneg (time_sub completed started))
        (if hasEndToEnd then nonneg (time_sub completed (hr_decision_at res)) else 0) hasEndToEnd r)"

text \<open>\<open>Run\<close>: the acts it shows, how it ended (\<open>None\<close>: still running), and the store.\<close>

fun run_consumer ::
    "('e \<Rightarrow> 'e \<Rightarrow> source_record \<Rightarrow> 's \<Rightarrow> handle_result result \<times> 's) \<Rightarrow> 'e poll_tick list \<Rightarrow> 's
     \<Rightarrow> consumer_act list \<times> unit result option \<times> 's" where
  "run_consumer h [] s = ([], None, s)"
| "run_consumer h (pt # pts) s =
     (if pt_stop pt then ([], Some (Inr ()), s)
      else (case pt_poll pt of
        Inl e \<Rightarrow>
          if pt_stop_poll pt then ([], Some (Inr ()), s)
          else if errors_is e DeadlineExceeded then run_consumer h pts s
          else if \<not> pt_waited pt then ([PollRetry e], Some (Inr ()), s)
          else (case run_consumer h pts s of (acts, out, s1) \<Rightarrow> (PollRetry e # acts, out, s1))
      | Inr r \<Rightarrow>
          (case persist h (pt_handlings pt) r s of
             (acts, Unfinished, s1) \<Rightarrow> (acts, None, s1)
           | (acts, Interrupted, s1) \<Rightarrow> (acts, Some (Inr ()), s1)
           | (acts, Persisted res, s1) \<Rightarrow>
               (case pt_commit pt of
                  Some e \<Rightarrow>
                    (acts @ [CommitOffset r, AllowRebalance, CommitRetry],
                     Some (Inl (errorf ''commit risk decision Kafka offset'' e)), s1)
                | None \<Rightarrow>
                    (case run_consumer h pts s1 of
                       (acts', out, s2) \<Rightarrow>
                         (acts @ [CommitOffset r, AllowRebalance,
                                  observe r res (pt_started pt) (pt_completed pt)] @ acts', out, s2))))))"

section \<open>Offsets\<close>

text \<open>
  What the worker relies on: an invariant, and durable records that stay durable, where a record
  is durable once \<open>Apply\<close> or \<open>Reject\<close> has returned without an error for it.
\<close>

locale decision_store =
  fixes apply_op :: "'e \<Rightarrow> decision_event \<Rightarrow> source_record \<Rightarrow> 's \<Rightarrow> apply_result result \<times> 's"
    and reject_op :: "'e \<Rightarrow> source_record \<Rightarrow> string \<Rightarrow> go_error \<Rightarrow> 's \<Rightarrow> unit result \<times> 's"
    and inv :: "'s \<Rightarrow> bool" and durable :: "source_record \<Rightarrow> 's \<Rightarrow> bool"
  assumes apply_keeps: "inv s \<Longrightarrow> apply_op e ev r s = (res, s') \<Longrightarrow> inv s' \<and> (durable q s \<longrightarrow> durable q s')"
    and reject_keeps: "inv s \<Longrightarrow> reject_op e r code err s = (rres, s') \<Longrightarrow> inv s' \<and> (durable q s \<longrightarrow> durable q s')"
    and apply_durable: "inv s \<Longrightarrow> apply_op e ev r s = (Inr x, s') \<Longrightarrow> durable r s'"
    and reject_durable: "inv s \<Longrightarrow> reject_op e r code err s = (Inr u, s') \<Longrightarrow> durable r s'"
begin

abbreviation (input) op_handle :: "'a golib_scheme \<Rightarrow> 'e \<Rightarrow> 'e \<Rightarrow> source_record \<Rightarrow> 's \<Rightarrow> handle_result result \<times> 's" where
  "op_handle L e1 e2 \<equiv> handle L (apply_op e1) (reject_op e2)"

lemma handle_cases:
  assumes "op_handle L e1 e2 r s = (res, s')"
  obtains (reject) code err u where "reject_op e2 r code err s = (u, s')" "(\<exists>x. res = Inr x) \<longleftrightarrow> u = Inr ()"
  | (direct) ev u where "apply_op e1 ev r s = (u, s')" "(\<exists>x. res = Inr x) \<longleftrightarrow> (\<exists>x. u = Inr x)"
  | (both) ev err s1 code u where "apply_op e1 ev r s = (Inl err, s1)" "reject_op e2 r code err s1 = (u, s')"
      "(\<exists>x. res = Inr x) \<longleftrightarrow> u = Inr ()"
proof (cases "ParseEvent L (record_value r)")
  case (Inl err)
  obtain u s1 where "reject_op e2 r ''invalid_event'' err s = (u, s1)"
    by (cases "reject_op e2 r ''invalid_event'' err s")
  with assms Inl show thesis by (intro reject [of "''invalid_event''" err u]) (auto simp: handle_def split: sum.splits)
next
  case (Inr ev)
  obtain a s1 where a: "apply_op e1 ev r s = (a, s1)" by (cases "apply_op e1 ev r s")
  show thesis
  proof (cases a)
    case (Inr x)
    with assms \<open>ParseEvent L _ = _\<close> a show thesis by (intro direct [of ev a]) (auto simp: handle_def)
  next
    case err: (Inl err)
    obtain code permanent where c: "applicationRejectionCode err = (code, permanent)"
      by (cases "applicationRejectionCode err")
    obtain u s2 where u: "reject_op e2 r code err s1 = (u, s2)" by (cases "reject_op e2 r code err s1")
    show thesis
    proof (cases permanent)
      case True
      with assms Inr a err c u show thesis
        by (intro both [of ev err s1 code u]) (auto simp: handle_def split: sum.splits)
    next
      case False
      with assms Inr a err c show thesis by (intro direct [of ev a]) (auto simp: handle_def)
    qed
  qed
qed

lemma handle_keeps:
  assumes "inv s" and "op_handle L e1 e2 r s = (res, s')"
  shows "inv s'" "durable q s \<Longrightarrow> durable q s'"
  using assms(2) by (cases rule: handle_cases; use assms(1) apply_keeps reject_keeps in blast)+

lemma handle_durable:
  assumes "inv s" and "op_handle L e1 e2 r s = (Inr x, s')"
  shows "durable r s'"
  using assms(2)
proof (cases rule: handle_cases)
  case both
  then show ?thesis using assms(1) apply_keeps reject_durable by blast
qed (use assms(1) apply_durable reject_durable in blast)+

lemma persist_keeps:
  "persist (op_handle L) atts r s = (acts, out, s') \<Longrightarrow> inv s \<Longrightarrow>
   inv s' \<and> (durable q s \<longrightarrow> durable q s') \<and> (\<forall>x. out = Persisted x \<longrightarrow> durable r s')
   \<and> (\<forall>p. CommitOffset p \<notin> set acts)"
proof (induction atts arbitrary: s acts out s')
  case (Cons att atts)
  obtain res s1 where h: "op_handle L (hd_apply att) (hd_reject att) r s = (res, s1)"
    by (cases "op_handle L (hd_apply att) (hd_reject att) r s")
  note k = handle_keeps [OF Cons.prems(2) h]
  show ?case
  proof (cases res)
    case (Inr x)
    then have "durable r s1" using handle_durable Cons.prems(2) h by blast
    with Cons.prems(1) h Inr k show ?thesis by auto
  next
    case (Inl e)
    obtain acts2 out2 s2 where rec: "persist (op_handle L) atts r s1 = (acts2, out2, s2)" by (cases "persist (op_handle L) atts r s1")
    note IH = Cons.IH [OF rec k(1)]
    show ?thesis using Cons.prems(1) h Inl rec k IH by (auto split: if_splits)
  qed
qed simp

lemma run_durable:
  "run_consumer (op_handle L) pts s = (acts, out, s') \<Longrightarrow> inv s \<Longrightarrow>
   inv s' \<and> (durable q s \<longrightarrow> durable q s') \<and> (\<forall>r. CommitOffset r \<in> set acts \<longrightarrow> durable r s')"
proof (induction pts arbitrary: s acts out q s')
  case (Cons pt pts)
  show ?case
  proof (cases "pt_stop pt")
    case True
    with Cons.prems show ?thesis by simp
  next
    case go: False
    show ?thesis
    proof (cases "pt_poll pt")
      case (Inl e)
      obtain acts2 out2 s2 where rec: "run_consumer (op_handle L) pts s = (acts2, out2, s2)"
        by (cases "run_consumer (op_handle L) pts s")
      show ?thesis using Cons.prems go Inl rec Cons.IH [OF rec Cons.prems(2)] by (auto split: if_splits)
    next
      case (Inr r)
      obtain acts1 out1 s1 where p: "persist (op_handle L) (pt_handlings pt) r s = (acts1, out1, s1)"
        by (cases "persist (op_handle L) (pt_handlings pt) r s")
      note k = persist_keeps [OF p Cons.prems(2)]
      show ?thesis
      proof (cases out1)
        case (Persisted res)
        obtain acts2 out2 s2 where rec: "run_consumer (op_handle L) pts s1 = (acts2, out2, s2)"
          by (cases "run_consumer (op_handle L) pts s1")
        have inv1: "inv s1" using k by blast
        note IH = Cons.IH [OF rec inv1]
        show ?thesis using Cons.prems(1) go Inr p Persisted rec k IH [of q] IH [of r]
          by (auto simp: observe_def Let_def split: option.splits)
      qed (use Cons.prems go Inr p k in auto)
    qed
  qed
qed simp

end

section \<open>The PostgreSQL store\<close>

text \<open>The coordinate of the record has a receipt that carries the digest of its value.\<close>

definition recorded :: "'a golib_scheme \<Rightarrow> source_record \<Rightarrow> db \<Rightarrow> bool" where
  "recorded L r d \<longleftrightarrow>
     (case fetch coordinate (record_coordinate r) (t_receipts d) of
        None \<Rightarrow> False | Some row \<Rightarrow> ir_record_sha256 row = recordSHA256 L (record_value r))"

definition pg_handle :: "'a pglib_scheme \<Rightarrow> pg_env \<Rightarrow> pg_env \<Rightarrow> source_record \<Rightarrow> db \<Rightarrow> handle_result result \<times> db" where
  "pg_handle L e1 e2 = handle L (Apply L e1) (Reject L e2)"

lemma recorded_extends:
  "t_receipts d' = t_receipts d @ new \<Longrightarrow> recorded L r d \<Longrightarrow> recorded L r d'"
  by (auto simp: recorded_def fetch_append split: option.splits)

lemma Apply_receipts:
  assumes "Apply L env ev r d = (res, d')" shows "\<exists>new. t_receipts d' = t_receipts d @ new"
  using assms by (cases rule: Apply_effect) (auto simp: replay_effect_def decision_effect_def)

lemma Reject_receipts:
  assumes "Reject L env r code e d = (res, d')" shows "\<exists>new. t_receipts d' = t_receipts d @ new"
  using assms
proof (cases rule: Reject_cases)
  case stored
  from insert_receipt_row_state [OF stored(3)] show ?thesis by simp
qed simp

interpretation pg_decisions: decision_store "Apply L" "Reject L" consistent "recorded L"
  for L :: "'a pglib_scheme"
proof
  fix d e ev r res d' q
  assume "consistent d" "Apply L e ev r d = (res, d')"
  with consistent_Apply Apply_receipts recorded_extends
  show "consistent d' \<and> (recorded L q d \<longrightarrow> recorded L q d')" by metis
next
  fix d e r code err res d' q
  assume "consistent d" "Reject L e r code err d = (res, d')"
  with consistent_Reject Reject_receipts recorded_extends
  show "consistent d' \<and> (recorded L q d \<longrightarrow> recorded L q d')" by metis
next
  fix d e ev r x d'
  assume "Apply L e ev r d = (Inr x, d')"
  from Apply_durable [OF this] show "recorded L r d'" by (auto simp: recorded_def)
next
  fix d e r code err d' and u :: unit
  assume "Reject L e r code err d = (Inr u, d')"
  then have "Reject L e r code err d = (Inr (), d')" by simp
  from Reject_durable [OF this] show "recorded L r d'" by (auto simp: recorded_def)
qed

section \<open>Texts of rejections\<close>

lemma valid_utf8_prepend:
  assumes "rune_ok (c # cs)" and "decode_rune (c # cs) = (r, w)" and "valid_utf8 t"
  shows "valid_utf8 (take w (c # cs) @ t)"
proof -
  have w: "1 \<le> w" using decode_rune_width_pos [of c cs] assms(2) by simp
  then obtain k where k: "w = Suc k" by (cases w) auto
  note loc = decode_rune_local [OF assms(1,2), of t]
  have e: "encode_rune r = c # take k cs" using loc k by simp
  have "length (take k cs) = k" using loc e k by simp
  moreover have "decode_rune (c # take k cs @ t) = (r, w)" using loc e by simp
  moreover have "\<not> (r = rune_error \<and> w = 1)" using assms(1,2) by (simp add: rune_ok_def)
  ultimately have "valid_utf8 (c # take k cs @ t)" using assms(3) by (simp add: k)
  then show ?thesis by (simp add: k)
qed

lemma to_valid_utf8_ok: "valid_utf8 (to_valid_utf8 bad s) \<and> (CHR 0x00 \<in> set (to_valid_utf8 bad s) \<longrightarrow> CHR 0x00 \<in> set s)"
proof (induction bad s rule: to_valid_utf8.induct)
  case (2 bad c cs)
  obtain r w where d: "decode_rune (c # cs) = (r, w)" by (cases "decode_rune (c # cs)")
  show ?case
  proof (cases "r = rune_error \<and> w = 1")
    case True
    have "valid_utf8 (CHR ''?'' # t) = valid_utf8 t" for t
      by (simp add: decode_rune_ascii ascii_def byte_def rune_error_def)
    with 2(1) [OF d [symmetric] refl True] True d show ?thesis by auto
  next
    case False
    then have ok: "rune_ok (c # cs)" using d by (simp add: rune_ok_def)
    note IH = 2(2) [OF d [symmetric] refl False]
    have e: "to_valid_utf8 bad (c # cs) = take w (c # cs) @ to_valid_utf8 False (drop (w - 1) cs)"
      by (simp only: to_valid_utf8.simps Let_def d prod.case if_not_P [OF False])
    have "set (take w (c # cs)) \<subseteq> set (c # cs)" "set (drop (w - 1) cs) \<subseteq> set cs"
      by (rule set_take_subset, rule set_drop_subset)
    with IH valid_utf8_prepend [OF ok d] show ?thesis unfolding e by auto
  qed
qed simp

lemma left_chars_ok:
  "valid_utf8 s \<Longrightarrow> valid_utf8 (left_chars n s) \<and> set (left_chars n s) \<subseteq> set s"
proof (induction s arbitrary: n rule: utf8_induct)
  case (Rune c cs r w t)
  show ?case
  proof (cases n)
    case (Suc m)
    have e: "left_chars n (c # cs) = take w (c # cs) @ left_chars m t"
      using Rune(2,5) Suc by simp
    have "set (take w (c # cs)) \<subseteq> set (c # cs)" "set t \<subseteq> set cs"
      by (rule set_take_subset) (simp add: Rune(5) set_drop_subset)
    with Rune(7) [of m] valid_utf8_prepend [OF Rune(3,2)] show ?thesis unfolding e by auto
  qed simp
next
  case Nil
  then show ?case by (cases n) simp_all
qed

text \<open>Whatever the error is, its message is a text the column accepts, unless it holds a NUL.\<close>

lemma rejection_message_text:
  "CHR 0x00 \<notin> set (error_text e) \<Longrightarrow> pg_text (rejection_message e)"
  using to_valid_utf8_ok [of False "error_text e"] left_chars_ok [of "to_valid_utf8 False (error_text e)" 2000]
  by (auto simp: rejection_message_def pg_text_def)

section \<open>Reject when nothing fails\<close>

lemma Reject_ok:
  assumes "valid_db d" and "no_fault env" and "kafka_record r" and "digest_32 L"
    and "validRejectionCode code" and "CHR 0x00 \<notin> set (error_text e)" and "sr_value r \<noteq> None"
    and "case fetch coordinate (record_coordinate r) (t_receipts d) of None \<Rightarrow> True
         | Some row \<Rightarrow> ir_record_sha256 row = recordSHA256 L (record_value r) \<and> ir_disposition row = ''REJECTED''"
  shows "\<exists>d'. Reject L env r code e d = (Inr (), d')"
proof -
  let ?dg = "recordSHA256 L (record_value r)"
  have vs: "validateSourceRecord r = None" using assms(3) by (simp add: kafka_record_def)
  note base = Reject_def Let_def vs assms(5) no_faultD [OF assms(2)] existingReceipt_ok [OF assms(1-3)]
    statement_no_fault [OF assms(2)] commit_no_fault [OF assms(2)]
  show ?thesis
  proof (cases "fetch coordinate (record_coordinate r) (t_receipts d)")
    case (Some row)
    with assms(8) show ?thesis by (simp add: base dispositionRejected_def)
  next
    case None
    have "code \<in> {''invalid_event'', ''payment_not_found'', ''decision_conflict'', ''payment_state_conflict''}"
      using assms(5) by (simp add: validRejectionCode_def)
    then have "varchar 100 code" by (elim insertE emptyE) (simp_all add: plain_varchar plain_text_def byte_def)
    moreover have "sr_value r \<noteq> None" by (rule assms(7))
    ultimately have "holds (receipt_checks d (rejected_row (pg_clock env 1) r ?dg code (rejection_message e)))"
      using assms(3) kafka_recordD [OF assms(3)] recordSHA256_hex [OF assms(4)] rejection_message_text [OF assms(6)]
      by (simp add: receipt_checks_def rejected_row_def receipt_shape_def opt_all_def kafka_record_def)
    with None show ?thesis by (simp add: base insert_receipt_row_def check_all_cases(1))
  qed
qed

text \<open>A record without a value: the receipt that would record its rejection violates a CHECK.\<close>

lemma tombstone_refused:
  "sr_value r = None \<Longrightarrow> insert_receipt_row (rejected_row now r digest code message) d \<noteq> Inr d'"
  by (auto simp: insert_receipt_row_def check_all_holds receipt_checks_def rejected_row_def receipt_shape_def)

lemma Reject_tombstone_fails:
  assumes "sr_value r = None" and "fetch coordinate (record_coordinate r) (t_receipts d) = None"
  shows "\<exists>e. Reject L env r code err d = (Inl e, d)"
proof -
  obtain res d' where r: "Reject L env r code err d = (res, d')" by (cases "Reject L env r code err d")
  then have "d' = d \<and> (\<exists>e. res = Inl e)"
  proof (cases rule: Reject_cases)
    case same
    with assms(2) show ?thesis by (cases res) auto
  next
    case stored
    with tombstone_refused [OF assms(1)] show ?thesis by blast
  qed
  with r show ?thesis by blast
qed

section \<open>Redelivery of a rejected record\<close>

lemma DecisionFingerprint_foreign: "DecisionFingerprint L ev = Inl e \<Longrightarrow> foreign e"
  by (auto simp: DecisionFingerprint_def Let_def split: if_splits)

lemma validateSourceRecord_foreign: "validateSourceRecord r = Some e \<Longrightarrow> foreign e"
  by (auto simp: validateSourceRecord_def Let_def split: if_splits)

text \<open>Errors that the worker retries.\<close>

definition retried :: "go_error \<Rightarrow> bool" where
  "retried e \<longleftrightarrow> applicationRejectionCode e = ([], False)"

lemma retried_iff:
  "retried e \<longleftrightarrow> \<not> errors_is e ErrDecisionPaymentNotFound \<and> \<not> errors_is e ErrDecisionConflict
     \<and> \<not> errors_is e ErrPaymentStateConflict"
  by (simp add: retried_def applicationRejectionCode_def)

lemma retried_foreign: "foreign e \<Longrightarrow> retried e"
  by (simp add: retried_iff foreign_not_is)

lemma existingReceipt_retried:
  "existingReceipt L env k r dg d = Inl e \<Longrightarrow> foreign_env env \<Longrightarrow> retried e"
  by (auto simp: existingReceipt_def statement_def foreign_env_def retried_iff foreign_not_is
      split: option.splits sum.splits if_splits)

lemma Apply_rejected:
  assumes "fetch coordinate (record_coordinate r) (t_receipts d) = Some row"
    and "ir_disposition row = ''REJECTED''" and "foreign_env env"
  shows "\<exists>e. Apply L env ev r d = (Inl e, d) \<and> retried e"
proof (cases "validateSourceRecord r = None \<and> (\<exists>fp. DecisionFingerprint L ev = Inr fp) \<and> pg_begin env = None")
  case False
  show ?thesis
  proof (cases "validateSourceRecord r")
    case (Some e)
    with validateSourceRecord_foreign [OF Some] retried_foreign show ?thesis by (simp add: Apply_def)
  next
    case valid: None
    show ?thesis
    proof (cases "DecisionFingerprint L ev")
      case (Inl e)
      with valid DecisionFingerprint_foreign [OF Inl] retried_foreign show ?thesis by (simp add: Apply_def)
    next
      case (Inr fp)
      with False valid obtain e where "pg_begin env = Some e" by (cases "pg_begin env") auto
      moreover from this have "retried (errorf ''begin decision transaction'' e)"
        using assms(3) by (intro retried_foreign) (simp add: foreign_env_def)
      ultimately show ?thesis using valid Inr by (simp add: Apply_def Let_def)
    qed
  qed
next
  case True
  then obtain fp where v: "validateSourceRecord r = None" "DecisionFingerprint L ev = Inr fp" "pg_begin env = None"
    by blast
  let ?dg = "recordSHA256 L (record_value r)"
  show ?thesis
  proof (cases "existingReceipt L env 0 r ?dg d")
    case (Inl e)
    with v existingReceipt_retried [OF Inl assms(3)] show ?thesis by (simp add: Apply_def Let_def)
  next
    case (Inr o0)
    with assms(1,2) have "o0 = Some ''REJECTED''"
      using existingReceipt_Some [of L env 0 r ?dg d] existingReceipt_None [of L env 0 r ?dg d] by (cases o0) auto
    with Inr v show ?thesis by (simp add: Apply_def Let_def dispositionRejected_def retried_iff)
  qed
qed

text \<open>A call that always fails without changing the store keeps the worker on its record.\<close>

lemma persist_stuck:
  assumes "\<And>att. att \<in> set atts \<Longrightarrow> \<exists>e. h (hd_apply att) (hd_reject att) r s = (Inl e, s)"
    and "persist h atts r s = (acts, out, s')"
  shows "s' = s \<and> out \<in> {Interrupted, Unfinished}"
  using assms
proof (induction atts arbitrary: acts out s')
  case (Cons att atts)
  obtain e where e: "h (hd_apply att) (hd_reject att) r s = (Inl e, s)" using Cons.prems(1) by force
  obtain acts2 out2 s2 where rec: "persist h atts r s = (acts2, out2, s2)" by (cases "persist h atts r s")
  have "s2 = s \<and> out2 \<in> {Interrupted, Unfinished}" by (rule Cons.IH [OF _ rec]) (use Cons.prems(1) in simp)
  with Cons.prems(2) e rec show ?case by (auto split: if_splits)
qed simp

section \<open>Times that JSON cannot write\<close>

lemma DecisionFingerprint_unwritable:
  "\<not> time_marshals (utc (dv_occurred_at ev)) \<Longrightarrow> \<exists>e. DecisionFingerprint L ev = Inl e"
  by (simp add: DecisionFingerprint_def Let_def utcEvent_def)

lemma Apply_unwritable:
  assumes "\<not> time_marshals (utc (dv_occurred_at ev))"
  shows "\<exists>e. Apply L env ev r d = (Inl e, d) \<and> retried e"
proof (cases "validateSourceRecord r")
  case (Some e)
  with validateSourceRecord_foreign [OF Some] retried_foreign show ?thesis by (simp add: Apply_def)
next
  case None
  obtain e where e: "DecisionFingerprint L ev = Inl e" using DecisionFingerprint_unwritable [OF assms] by blast
  with None DecisionFingerprint_foreign [OF e] retried_foreign show ?thesis by (simp add: Apply_def)
qed

text \<open>
  \<open>ParseEvent\<close> bounds the time of an event in no way except that RFC 3339 does so for its local year,
  but \<open>Fingerprint\<close> writes it in UTC: an event of 9999-12-31T23:59:59-01:00, which UTC dates in the
  year 10000, is accepted, and then every attempt to apply it fails with an error that the worker
  retries.
\<close>

theorem unwritable_time_blocks:
  assumes "ParseEvent L (record_value r) = Inr ev" and "\<not> json_year (wall (dv_occurred_at ev))"
    and "persist (pg_handle L) atts r d = (acts, out, d')"
  shows "d' = d \<and> out \<in> {Interrupted, Unfinished}"
proof (rule persist_stuck [OF _ assms(3)])
  fix att
  have "\<not> time_marshals (utc (dv_occurred_at ev))" using assms(2) by (simp add: time_marshals_utc)
  from Apply_unwritable [OF this] obtain e where "Apply L (hd_apply att) ev r d = (Inl e, d)" "retried e" by blast
  then show "\<exists>e. pg_handle L (hd_apply att) (hd_reject att) r d = (Inl e, d)"
    using assms(1) by (simp add: pg_handle_def handle_def retried_def)
qed

text \<open>The validation accepts such an event.\<close>

lemma unwritable_time_accepted:
  fixes L :: "'a golib_scheme"
  defines "t \<equiv> \<lparr>wall = 3652059 * 86400 * 1000000000 + 3599000000000, zone = - 3600\<rparr>"
  defines "ev \<equiv> sample_decision\<lparr>dv_occurred_at := t, dv_payload := (dv_payload sample_decision)
      \<lparr>dp_decision_at := t, dp_features := (dp_features (dv_payload sample_decision))\<lparr>fs_decision_at := t\<rparr>\<rparr>\<rparr>"
  shows "\<exists>ev'. normalizeAndValidate L ev = Inr ev' \<and> time_marshals t \<and> \<not> json_year (wall (dv_occurred_at ev'))"
proof -
  let ?n = "\<lambda>x. normalForm x"
  have s: "?n sample_decision = sample_decision" and c: "event_contract sample_decision"
    using sample_writable sample_contract normalForm_id by (simp_all add: writable_def Let_def)
  have n: "?n ev = (sample_decision\<lparr>dv_occurred_at := utc t, dv_payload := (dv_payload sample_decision)
      \<lparr>dp_decision_at := utc t, dp_features := (dp_features (dv_payload sample_decision))\<lparr>fs_decision_at := utc t\<rparr>\<rparr>\<rparr>)"
    using s unfolding ev_def
    by (simp add: normalForm_def utcEvent_def trimEvent_def Let_def sample_decision_def)
  have "event_contract (?n ev)"
    using c unfolding n by (simp add: event_contract_def Let_def event_uuids_def is_zero_time_def t_def)
  then have "normalizeAndValidate L ev = Inr (?n ev)" by (simp add: normalizeAndValidate_Inr)
  moreover have "time_marshals t" by (simp add: t_def time_marshals_def json_year_def)
  moreover have "\<not> json_year (wall (dv_occurred_at (?n ev)))" by (simp add: n t_def json_year_def)
  ultimately show ?thesis by blast
qed

section \<open>Handling when nothing fails\<close>

text \<open>The records for which one attempt is enough.\<close>

definition settleable :: "'a pglib_scheme \<Rightarrow> source_record \<Rightarrow> db \<Rightarrow> bool" where
  "settleable L r d \<longleftrightarrow>
     digest_32 L \<and> kafka_record r \<and> sr_value r \<noteq> None
     \<and> list_all (\<lambda>row. canonical_uuid (dr_decision_id row)) (t_decisions d)
     \<and> (case ParseEvent L (record_value r) of
          Inl e \<Rightarrow> CHR 0x00 \<notin> set (error_text e)
            \<and> (case fetch coordinate (record_coordinate r) (t_receipts d) of None \<Rightarrow> True
               | Some row \<Rightarrow> ir_record_sha256 row = recordSHA256 L (record_value r)
                   \<and> ir_disposition row = ''REJECTED'')
        | Inr ev \<Rightarrow> acceptable L ev r d
            \<and> (case fetch coordinate (record_coordinate r) (t_receipts d) of None \<Rightarrow> True
               | Some row \<Rightarrow> ir_record_sha256 row = recordSHA256 L (record_value r)
                   \<and> ir_disposition row \<noteq> ''REJECTED''))"

lemma plain_no_nul: "plain_text s \<Longrightarrow> CHR 0x00 \<notin> set s"
  by (auto simp: plain_text_def list_all_iff byte_def)

lemma payment_status_plain: "s \<in> set payment_statuses \<Longrightarrow> CHR 0x00 \<notin> set s"
  by (auto simp: payment_statuses_def)

lemma apply_answer_Inl:
  assumes "valid_db d" and "list_all (\<lambda>row. canonical_uuid (dr_decision_id row)) (t_decisions d)"
    and "fetch coordinate (record_coordinate r) (t_receipts d) = None" and "apply_answer L ev r d = Inl e"
  shows "snd (applicationRejectionCode e) \<and> validRejectionCode (fst (applicationRejectionCode e))
    \<and> CHR 0x00 \<notin> set (error_text e)"
proof -
  let ?p = "dv_payload ev"
  obtain s where "e = Sentinel ErrDecisionPaymentNotFound \<or> e = Sentinel ErrDecisionConflict
      \<or> (e = Wrapf [] (Sentinel ErrDecisionConflict) ('': source event already belongs to decision '' @ s)
          \<and> CHR 0x00 \<notin> set s)
      \<or> (e = Wrapf [] (Sentinel ErrPaymentStateConflict) ('': current status is '' @ s) \<and> CHR 0x00 \<notin> set s)"
  proof (cases "fetch pay_id (dp_payment_id ?p) (t_payments d)")
    case (Some pay)
    then have "pay_status pay \<in> set payment_statuses"
      using fetch_SomeD [OF Some] assms(1)
      by (auto simp: valid_db_def valid_payments_def payment_checks_def)
    note st = payment_status_plain [OF this]
    have di: "CHR 0x00 \<notin> set (dr_decision_id row)"
      if "fetch dr_source_event_id (dp_source_event_id ?p) (t_decisions d) = Some row" for row
      using fetch_SomeD [OF that] assms(2) plain_no_nul canonical_plain by (auto simp: list_all_iff)
    show thesis using assms(3,4) Some st di that
      by (auto simp: apply_answer_def Let_def split: option.splits if_splits)
  qed (use assms(3,4) that in \<open>auto simp: apply_answer_def Let_def\<close>)
  then show ?thesis
    by (elim disjE conjE) (simp_all add: applicationRejectionCode_def validRejectionCode_def)
qed

lemma Apply_failed_unchanged:
  assumes "no_fault env" and "Apply L env ev r d = (Inl e, d')"
  shows "d' = d"
  using assms(2)
  by (auto simp: Apply_def Let_def commit_no_fault [OF assms(1)] split: option.splits sum.splits if_splits)

lemma handle_settles:
  assumes "consistent d" and "no_fault e1" and "no_fault e2" and "settleable L r d"
  shows "\<exists>res d'. pg_handle L e1 e2 r d = (Inr res, d')"
proof -
  have v: "valid_db d" using assms(1) by (rule consistent_valid)
  have s: "digest_32 L" "kafka_record r" "sr_value r \<noteq> None"
    "list_all (\<lambda>row. canonical_uuid (dr_decision_id row)) (t_decisions d)"
    using assms(4) by (simp_all add: settleable_def)
  show ?thesis
  proof (cases "ParseEvent L (record_value r)")
    case (Inl err)
    then have c: "CHR 0x00 \<notin> set (error_text err)"
      "case fetch coordinate (record_coordinate r) (t_receipts d) of None \<Rightarrow> True
         | Some row \<Rightarrow> ir_record_sha256 row = recordSHA256 L (record_value r) \<and> ir_disposition row = ''REJECTED''"
      using assms(4) by (simp_all add: settleable_def)
    have "validRejectionCode ''invalid_event''" by (simp add: validRejectionCode_def)
    from Reject_ok [OF v assms(3) s(2,1) this c(1) s(3) c(2)] Inl show ?thesis
      by (auto simp: pg_handle_def handle_def)
  next
    case (Inr ev)
    then have acc: "acceptable L ev r d"
      and rc: "case fetch coordinate (record_coordinate r) (t_receipts d) of None \<Rightarrow> True
         | Some row \<Rightarrow> ir_record_sha256 row = recordSHA256 L (record_value r) \<and> ir_disposition row \<noteq> ''REJECTED''"
      using assms(4) by (simp_all add: settleable_def)
    obtain a d1 where a: "Apply L e1 ev r d = (a, d1)" by (cases "Apply L e1 ev r d")
    have ans: "a = apply_answer L ev r d" using Apply_answer [OF assms(1,2) acc] a by simp
    show ?thesis
    proof (cases a)
      case ok: (Inr x)
      with a Inr show ?thesis by (simp add: pg_handle_def handle_def)
    next
      case err: (Inl err)
      have d1: "d1 = d" using Apply_failed_unchanged [OF assms(2)] a err by simp
      have free: "fetch coordinate (record_coordinate r) (t_receipts d) = None"
      proof (cases "fetch coordinate (record_coordinate r) (t_receipts d)")
        case (Some row)
        with rc ans err show ?thesis by (simp add: apply_answer_def Let_def)
      qed simp
      obtain code permanent where c: "applicationRejectionCode err = (code, permanent)"
        by (cases "applicationRejectionCode err")
      from apply_answer_Inl [OF v s(4) free, of L ev err] ans err c
      have p: "permanent" "validRejectionCode code" "CHR 0x00 \<notin> set (error_text err)" by auto
      have "\<exists>d'. Reject L e2 r code err d = (Inr (), d')"
        by (rule Reject_ok [OF v assms(3) s(2,1) p(2,3) s(3)]) (simp add: free)
      with a err d1 c p(1) Inr show ?thesis by (auto simp: pg_handle_def handle_def)
    qed
  qed
qed

lemma pg_handle_eq: "pg_handle L = (\<lambda>e1 e2. handle L (Apply L e1) (Reject L e2))"
  by (simp add: pg_handle_def fun_eq_iff)

section \<open>Examples\<close>

definition sample_kafka :: source_record where
  "sample_kafka = sample_record\<lparr>sr_value := Some (wire_event sample_lib sample_decision)\<rparr>"

definition healthy_handling :: "pg_env handling" where
  "healthy_handling =
     \<lparr>hd_apply = healthy zero_time, hd_reject = healthy zero_time, hd_stop = False, hd_waited = True\<rparr>"

definition sample_poll :: "pg_env poll_tick" where
  "sample_poll =
     \<lparr>pt_stop = False, pt_poll = Inr sample_kafka, pt_stop_poll = False, pt_waited = True,
      pt_handlings = [healthy_handling], pt_commit = None, pt_started = zero_time, pt_completed = zero_time\<rparr>"

lemma sample_kafka_fields:
  "kafka_record sample_kafka" "record_coordinate sample_kafka = (''risk.decisions'', 0, 4)"
  "ParseEvent sample_lib (record_value sample_kafka) = Inr sample_decision" "sr_value sample_kafka \<noteq> None"
proof -
  show "kafka_record sample_kafka"
  proof -
    have "validateSourceRecord sample_kafka = validateSourceRecord sample_record"
      unfolding validateSourceRecord_def sample_kafka_def by simp
    with sample_record_kafka show ?thesis unfolding kafka_record_def sample_kafka_def by simp
  qed
  show "record_coordinate sample_kafka = (''risk.decisions'', 0, 4)"
    by (simp add: record_coordinate_def sample_kafka_def sample_record_def)
  show "ParseEvent sample_lib (record_value sample_kafka) = Inr sample_decision"
    by (simp add: sample_kafka_def record_value_def ParseEvent_wire_event [OF sample_writable])
  show "sr_value sample_kafka \<noteq> None" by (simp add: sample_kafka_def)
qed

lemma sample_settleable:
  "settleable sample_lib sample_kafka sample_db" "settleable sample_lib sample_kafka empty_db"
  using sample_kafka_fields sample_environment(2) sample_jsonb sample_decision_storable
  by (simp_all add: settleable_def acceptable_def) (simp_all add: sample_db_def empty_db_def)

section \<open>Properties\<close>

text \<open>
  C15: offsets follow receipts.  Whatever fails in whichever order during a run of the consumer, an
  offset is handed to Kafka only for a record whose receipt, with the digest of its value, is in
  the database; receipts that are there stay there, and the database stays consistent.  (A run
  is a list of happenings of any length, so this holds at every point of a longer run.)
\<close>

theorem offsets_after_receipts:
  assumes "consistent d" and "run_consumer (pg_handle L) pts d = (acts, out, d')"
  shows "consistent d' \<and> (\<forall>r. CommitOffset r \<in> set acts \<longrightarrow> recorded L r d')
    \<and> (\<forall>q. recorded L q d \<longrightarrow> recorded L q d')"
  using pg_decisions.run_durable [OF assms(2) [unfolded pg_handle_eq] assms(1)] by blast

text \<open>
  C20: progress.  In a consistent database and when nothing fails, the first attempt settles every
  record that can be settled: one that \<open>ParseEvent\<close> refuses is quarantined, one whose event the
  schema and \<open>json.Marshal\<close> accept (its UTC year is 0 to 9999) is applied, replayed, or quarantined with its domain error; its receipt is stored
  and the worker moves on without a retry.
\<close>

theorem record_settles:
  assumes "consistent d" and "no_fault (hd_apply att)" and "no_fault (hd_reject att)"
    and "settleable L r d"
  shows "\<exists>res d'. persist (pg_handle L) (att # atts) r d = ([], Persisted res, d')
    \<and> recorded L r d' \<and> consistent d'"
proof -
  obtain res d' where h: "pg_handle L (hd_apply att) (hd_reject att) r d = (Inr res, d')"
    using handle_settles [OF assms] by blast
  have "recorded L r d'" "consistent d'"
    using pg_decisions.handle_durable [OF assms(1) h [unfolded pg_handle_def]]
      pg_decisions.handle_keeps(1) [OF assms(1) h [unfolded pg_handle_def]] by blast+
  with h show ?thesis by simp
qed

text \<open>
  C34: a rejected record is not idempotent.  When a record whose event parses was quarantined with a
  domain error (unknown payment, conflict) and is delivered again, because its offset was not
  committed, \<open>Apply\<close> reports a source record conflict, which \<open>handle\<close> takes for a transient error:
  every attempt fails, the database does not change, and the worker never gets past the record.
\<close>

theorem rejected_redelivery_blocks:
  assumes "ParseEvent L (record_value r) = Inr ev"
    and "fetch coordinate (record_coordinate r) (t_receipts d) = Some row" and "ir_disposition row = ''REJECTED''"
    and "\<forall>att \<in> set atts. foreign_env (hd_apply att)"
    and "persist (pg_handle L) atts r d = (acts, out, d')"
  shows "d' = d \<and> out \<in> {Interrupted, Unfinished}"
proof (rule persist_stuck [OF _ assms(5)])
  fix att assume "att \<in> set atts"
  then have "foreign_env (hd_apply att)" using assms(4) by blast
  from Apply_rejected [OF assms(2,3) this, of L ev] obtain e
    where "Apply L (hd_apply att) ev r d = (Inl e, d)" "retried e" by blast
  then show "\<exists>e. pg_handle L (hd_apply att) (hd_reject att) r d = (Inl e, d)"
    using assms(1) by (simp add: pg_handle_def handle_def retried_def)
qed

text \<open>
  A tombstone cannot be quarantined.  A record without a value is refused by \<open>ParseEvent\<close>, and
  \<open>Reject\<close> stores its nil value as NULL, which the CHECK on rejected receipts refuses: whatever the
  environment, every attempt fails and the worker never gets past the record.
\<close>

theorem tombstone_blocks:
  assumes "sr_value r = None" and "fetch coordinate (record_coordinate r) (t_receipts d) = None"
    and "persist (pg_handle L) atts r d = (acts, out, d')"
  shows "d' = d \<and> out \<in> {Interrupted, Unfinished}"
proof (rule persist_stuck [OF _ assms(3)])
  have "json_parse [] = None" by (simp add: json_parse_def skip_space_def numeral_eq_Suc)
  then obtain err where "ParseEvent L (record_value r) = Inl err"
    using assms(1) by (simp add: ParseEvent_def requireEventFields_def record_value_def)
  then show "\<exists>e. pg_handle L (hd_apply att) (hd_reject att) r d = (Inl e, d)" for att
    using Reject_tombstone_fails [OF assms(1,2), of L "hd_reject att" "''invalid_event''" err]
    by (auto simp: pg_handle_def handle_def)
qed

theorem offsets_after_receipts_witness:
  "\<exists>acts out d'. run_consumer (pg_handle sample_lib) [sample_poll] sample_db = (acts, out, d')
     \<and> CommitOffset sample_kafka \<in> set acts \<and> recorded sample_lib sample_kafka d'"
proof -
  obtain res d1 where h: "pg_handle sample_lib (healthy zero_time) (healthy zero_time) sample_kafka sample_db = (Inr res, d1)"
    using handle_settles [OF sample_consistent no_fault_healthy no_fault_healthy sample_settleable(1)] by blast
  obtain acts out d' where r: "run_consumer (pg_handle sample_lib) [sample_poll] sample_db = (acts, out, d')"
    by (cases "run_consumer (pg_handle sample_lib) [sample_poll] sample_db")
  with h have c: "CommitOffset sample_kafka \<in> set acts" by (auto simp: sample_poll_def healthy_handling_def)
  with offsets_after_receipts [OF sample_consistent r] r show ?thesis by blast
qed

theorem record_settles_witness:
  "\<exists>res d'. persist (pg_handle sample_lib) [healthy_handling] sample_kafka sample_db = ([], Persisted res, d')"
  using record_settles [OF sample_consistent _ _ sample_settleable(1), of healthy_handling "[]"]
  by (simp add: healthy_handling_def del: persist.simps) blast

theorem rejected_redelivery_blocks_witness:
  "\<exists>res d. pg_handle sample_lib (healthy zero_time) (healthy zero_time) sample_kafka empty_db = (Inr res, d)
     \<and> (\<forall>n. snd (snd (persist (pg_handle sample_lib) (replicate n healthy_handling) sample_kafka d)) = d)"
proof -
  let ?e = "healthy zero_time"
  obtain res d where h: "pg_handle sample_lib ?e ?e sample_kafka empty_db = (Inr res, d)"
    using handle_settles [OF consistent_empty no_fault_healthy no_fault_healthy sample_settleable(2)] by blast
  obtain a d0 where a: "Apply sample_lib ?e sample_decision sample_kafka empty_db = (a, d0)"
    by (cases "Apply sample_lib ?e sample_decision sample_kafka empty_db")
  have "acceptable sample_lib sample_decision sample_kafka empty_db"
    using sample_settleable(2) sample_kafka_fields(3) by (simp add: settleable_def)
  from Apply_answer [OF consistent_empty no_fault_healthy this, of zero_time] a
  have "a = Inl (Sentinel ErrDecisionPaymentNotFound)" by (simp add: apply_answer_def empty_db_def)
  with a h sample_kafka_fields(3)
  have "Reject sample_lib ?e sample_kafka ''payment_not_found'' (Sentinel ErrDecisionPaymentNotFound) d0 = (Inr (), d)"
    by (auto simp: pg_handle_def handle_def applicationRejectionCode_def split: sum.splits prod.splits)
  from Reject_durable [OF this] obtain row where
    row: "fetch coordinate (record_coordinate sample_kafka) (t_receipts d) = Some row" "ir_disposition row = ''REJECTED''"
    by blast
  have f: "\<forall>att \<in> set (replicate n healthy_handling). foreign_env (hd_apply att)" for n
    by (simp add: healthy_handling_def foreign_no_fault)
  have "snd (snd (persist (pg_handle sample_lib) (replicate n healthy_handling) sample_kafka d)) = d" for n
    using rejected_redelivery_blocks [OF sample_kafka_fields(3) row f] by (metis prod.collapse)
  with h show ?thesis by blast
qed

theorem tombstone_blocks_witness:
  "\<forall>n. snd (snd (persist (pg_handle sample_lib) (replicate n healthy_handling)
      (sample_record\<lparr>sr_value := None\<rparr>) empty_db)) = empty_db"
proof
  fix n
  have "fetch coordinate (record_coordinate (sample_record\<lparr>sr_value := None\<rparr>)) (t_receipts empty_db) = None"
    by (simp add: empty_db_def)
  from tombstone_blocks [OF _ this, of sample_lib "replicate n healthy_handling"]
  show "snd (snd (persist (pg_handle sample_lib) (replicate n healthy_handling)
      (sample_record\<lparr>sr_value := None\<rparr>) empty_db)) = empty_db"
    by (metis prod.collapse source_record.select_convs(6) source_record.surjective source_record.update_convs(6))
qed

section \<open>Shutting down\<close>

text \<open>
  A cancellation of the context reaches the loop: some iteration finds it at its head, and the
  attempts of every iteration go on until one succeeds or meets the cancellation.
\<close>

definition cancelled :: "'e poll_tick list \<Rightarrow> bool" where
  "cancelled pts \<longleftrightarrow>
     (\<exists>pt \<in> set pts. pt_stop pt)
     \<and> (\<forall>pt \<in> set pts. \<exists>att \<in> set (pt_handlings pt). hd_stop att \<or> \<not> hd_waited att)"

lemma persist_ends:
  "\<exists>att \<in> set atts. hd_stop att \<or> \<not> hd_waited att \<Longrightarrow> fst (snd (persist h atts r s)) \<noteq> Unfinished"
proof (induction atts arbitrary: s)
  case (Cons att atts)
  obtain x s1 where x: "h (hd_apply att) (hd_reject att) r s = (x, s1)"
    by (cases "h (hd_apply att) (hd_reject att) r s")
  show ?case
  proof (cases "(\<exists>res. x = Inr res) \<or> hd_stop att \<or> \<not> hd_waited att")
    case True
    with x show ?thesis by (auto split: sum.splits)
  next
    case False
    with Cons.prems have "\<exists>att \<in> set atts. hd_stop att \<or> \<not> hd_waited att" by auto
    from Cons.IH [OF this, of s1] show ?thesis using x False by (auto split: sum.splits prod.splits)
  qed
qed simp

lemma run_consumer_ends:
  "\<exists>pt \<in> set pts. pt_stop pt \<Longrightarrow>
   \<forall>pt \<in> set pts. \<exists>att \<in> set (pt_handlings pt). hd_stop att \<or> \<not> hd_waited att \<Longrightarrow>
   \<exists>fin. fst (snd (run_consumer h pts s)) = Some fin
     \<and> (fin = Inr () \<or> (\<exists>e. fin = Inl (errorf ''commit risk decision Kafka offset'' e)))"
proof (induction pts arbitrary: s)
  case (Cons pt pts)
  show ?case
  proof (cases "pt_stop pt")
    case False
    then have IH: "\<exists>fin. fst (snd (run_consumer h pts s)) = Some fin
       \<and> (fin = Inr () \<or> (\<exists>e. fin = Inl (errorf ''commit risk decision Kafka offset'' e)))" for s
      using Cons.IH [of s] Cons.prems by auto
    show ?thesis
    proof (cases "pt_poll pt")
      case (Inl e)
      show ?thesis using False Inl IH [of s] by (auto split: prod.splits)
    next
      case (Inr r)
      obtain acts out s1 where p: "persist h (pt_handlings pt) r s = (acts, out, s1)"
        by (cases "persist h (pt_handlings pt) r s")
      have "out \<noteq> Unfinished" using persist_ends [of "pt_handlings pt" h r s] Cons.prems(2) p by simp
      then show ?thesis using False Inr p IH [of s1]
        by (cases out) (auto split: prod.splits option.splits)
    qed
  qed simp
qed simp

text \<open>
  C40: the consumer shuts down.  Whatever the store and the broker do, once the context is cancelled
  \<open>Run\<close> returns: with nil, or with the error of an offset commit; it never hangs in the retry loop
  of a record.
\<close>

theorem consumer_shuts_down:
  assumes "cancelled pts"
  shows "\<exists>fin. fst (snd (run_consumer h pts s)) = Some fin
    \<and> (fin = Inr () \<or> (\<exists>e. fin = Inl (errorf ''commit risk decision Kafka offset'' e)))"
  using run_consumer_ends [of pts h s] assms unfolding cancelled_def by blast

theorem consumer_shuts_down_witness:
  "\<exists>fin. fst (snd (run_consumer (pg_handle sample_lib)
     [sample_poll\<lparr>pt_handlings := [healthy_handling\<lparr>hd_stop := True\<rparr>]\<rparr>,
      sample_poll\<lparr>pt_stop := True, pt_handlings := [healthy_handling\<lparr>hd_stop := True\<rparr>]\<rparr>] sample_db)) = Some fin"
proof -
  have "cancelled [sample_poll\<lparr>pt_handlings := [healthy_handling\<lparr>hd_stop := True\<rparr>]\<rparr>,
      sample_poll\<lparr>pt_stop := True, pt_handlings := [healthy_handling\<lparr>hd_stop := True\<rparr>]\<rparr>]"
    by (simp add: cancelled_def)
  from consumer_shuts_down [OF this, of "pg_handle sample_lib" sample_db] show ?thesis by blast
qed

end
