(* ===== verification/System.thy ===== *)
theory System
  imports Review_Lifecycle Decision_Worker Outbox_Worker
begin

text \<open>
  The services together, as a transition system on the database they share.  One step is one call
  of the payment API, one turn of the outbox worker, one Kafka record handled by the decision
  worker, or one call of the review API, each with an arbitrary driver, clock, random source and
  broker.  \<open>astep\<close> is what the system promises about the status of a payment; the steps refine it.
\<close>

section \<open>Steps and reachable databases\<close>

inductive step :: "'a pglib_scheme \<Rightarrow> db \<Rightarrow> db \<Rightarrow> bool" for L where
  created: "good_attempt a \<Longrightarrow> run_attempt L a d = (r, d') \<Longrightarrow> step L d d'"
| published: "ProcessNext cfg locked env deliver (d, k :: message list) = (x, (d', k')) \<Longrightarrow> step L d d'"
| consumed: "pg_handle L e1 e2 src d = (r, d') \<Longrightarrow> step L d d'"
| resolved: "run_review L (Resolve L) a d = (r, d') \<Longrightarrow> step L d d'"

inductive reachable :: "'a pglib_scheme \<Rightarrow> db \<Rightarrow> bool" for L where
  initially: "reachable L empty_db"
| stepped: "reachable L d \<Longrightarrow> step L d d' \<Longrightarrow> reachable L d'"

text \<open>What a review call does to the database: nothing, or one resolution.\<close>

lemma run_review_effect:
  assumes "run_review ut (Resolve L) a d = (res, d')"
  obtains "d' = d"
  | c env it where "resolve_effect L c d d'" "Resolve L env c d = (res, d')"
proof (cases "prepare_resolve ut (ra_service a) (ra_payment_id a) (ra_action a) (ra_request a) (ra_principal a)")
  case (Inl e)
  with assms that(1) show thesis by (simp add: run_review_def service_resolve_def)
next
  case (Inr c)
  with assms have r: "Resolve L (ra_repository a) c d = (res, d')"
    by (simp add: run_review_def service_resolve_def)
  then show thesis
  proof (cases rule: Resolve_effect)
    case (resolved it)
    from that(2) [OF resolved(1) r] show thesis .
  qed (rule that(1))
qed

text \<open>What handling a record does: at most one effect of \<open>Apply\<close>, then at most one receipt.\<close>

lemma pg_handle_effect:
  assumes "pg_handle L e1 e2 src d = (res, d')"
  obtains ev d1 r1 where "Apply L e1 ev src d = (r1, d1)" "\<exists>new. d' = d1\<lparr>t_receipts := t_receipts d1 @ new\<rparr>"
  | "\<exists>new. d' = d\<lparr>t_receipts := t_receipts d @ new\<rparr>"
proof -
  have rej: "\<exists>new. s' = s\<lparr>t_receipts := t_receipts s @ new\<rparr>" if "Reject L e2 src code err s = (u, s')" for code err s u s'
    using that
  proof (cases rule: Reject_cases)
    case stored
    from insert_receipt_row_state [OF stored(3)] show ?thesis by blast
  next
    case same
    then have "s' = s\<lparr>t_receipts := t_receipts s @ []\<rparr>" by simp
    then show ?thesis by blast
  qed
  from assms have h: "handle L (Apply L e1) (Reject L e2) src d = (res, d')" by (simp add: pg_handle_def)
  show thesis
  proof (rule pg_decisions.handle_cases [OF h])
    fix code err u assume "Reject L e2 src code err d = (u, d')"
    from that(2) [OF rej [OF this]] show thesis .
  next
    fix ev u assume a: "Apply L e1 ev src d = (u, d')"
    have "d' = d'\<lparr>t_receipts := t_receipts d' @ []\<rparr>" by simp
    with that(1) [OF a] show thesis by blast
  next
    fix ev err s1 code u assume "Apply L e1 ev src d = (Inl err, s1)" "Reject L e2 src code err s1 = (u, d')"
    from that(1) [OF this(1) rej [OF this(2)]] show thesis .
  qed
qed

section \<open>Consistency\<close>

lemma step_consistent:
  assumes "step L d d'" and "consistent d"
  shows "consistent d'"
  using assms(1)
proof (cases rule: step.cases)
  case (created a r)
  from consistent_run_attempt [OF assms(2) created] show ?thesis .
next
  case (published cfg locked env deliver k x k')
  with consistent_ProcessNext [OF assms(2), of cfg locked env deliver k] show ?thesis by simp
next
  case (consumed e1 e2 src r)
  then have "handle L (Apply L e1) (Reject L e2) src d = (r, d')" by (simp add: pg_handle_def)
  then show ?thesis
    by (rule pg_decisions.handle_cases) (use consistent_Apply consistent_Reject assms(2) in blast)+
next
  case (resolved a r)
  then show ?thesis
    by (cases rule: run_review_effect) (use assms(2) consistent_Resolve in blast)+
qed

section \<open>The audit trail\<close>

definition audit_keys :: "db \<Rightarrow> (string \<times> string) set" where
  "audit_keys d = audit_key ` set (t_audits d)"

lemma audit_keys_append: "t_audits d' = t_audits d @ [arow] \<Longrightarrow> audit_keys d' = insert (audit_key arow) (audit_keys d)"
  by (simp add: audit_keys_def)

definition audited :: "db \<Rightarrow> bool" where
  "audited d \<longleftrightarrow>
     (\<forall>r \<in> set (t_decisions d). (''RISK_DECISION_RECORDED'', dr_decision_id r) \<in> audit_keys d)
     \<and> (\<forall>q \<in> set (t_reviews d).
          (rv_status q = ''APPROVED'' \<longleftrightarrow> (''MANUAL_REVIEW_APPROVED'', rv_decision_id q) \<in> audit_keys d)
          \<and> (rv_status q = ''REJECTED'' \<longleftrightarrow> (''MANUAL_REVIEW_REJECTED'', rv_decision_id q) \<in> audit_keys d))"

lemma audited_frame:
  "audited d \<Longrightarrow> t_decisions d' = t_decisions d \<Longrightarrow> t_audits d' = t_audits d \<Longrightarrow> t_reviews d' = t_reviews d
   \<Longrightarrow> audited d'"
  by (simp add: audited_def audit_keys_def)

text \<open>In a consistent database no audit event, and no queue entry, precedes its decision.\<close>

lemma audit_key_new:
  assumes "consistent d" and "fetch dr_decision_id did (t_decisions d) = None"
  shows "(x, did) \<notin> audit_keys d"
  using fresh_audit_key [OF consistent_valid [OF assms(1)], of did x] assms(2)
  by (simp add: decision_exists_def fetch_None_iff audit_keys_def)

lemma audited_decision:
  assumes "audited d" and "consistent d" and "decision_effect L env ev src d d'"
  shows "audited d'"
proof -
  from assms(3) obtain drow arow revs where
    new: "fetch dr_decision_id (dr_decision_id drow) (t_decisions d) = None"
    and revs: "map rv_decision_id revs = (if dr_decision drow = ''REVIEW'' then [dr_decision_id drow] else [])"
      "\<forall>q \<in> set revs. rv_status q = ''PENDING''"
    and a: "au_decision_id arow = dr_decision_id drow" "au_event_type arow = ''RISK_DECISION_RECORDED''"
    and d': "t_decisions d' = t_decisions d @ [drow]" "t_audits d' = t_audits d @ [arow]"
      "t_reviews d' = t_reviews d @ revs"
    unfolding decision_effect_def by (elim exE conjE) (rule that, assumption+, simp_all)
  have key: "audit_key arow = (''RISK_DECISION_RECORDED'', dr_decision_id drow)" by (simp add: audit_key_def a)
  have "rv_decision_id q = dr_decision_id drow" if "q \<in> set revs" for q
  proof -
    from that have "rv_decision_id q \<in> set (map rv_decision_id revs)" by simp
    then show ?thesis unfolding revs(1) by (simp split: if_splits)
  qed
  with assms(1) revs(2) audit_key_new [OF assms(2) new] show ?thesis
    by (auto simp: audited_def d'(1,3) audit_keys_append [OF d'(2)] key)
qed

lemma audited_resolve:
  assumes "audited d" and "consistent d" and "resolve_effect L c d d'"
  shows "audited d'"
proof -
  from assms(3) obtain q st pst evt arow where a: "actionState L (rc_action c) = Inr (st, pst, evt)"
    and q: "fetch rv_payment_id (rv_payment_id q) (t_reviews d) = Some q" "rv_status q = ''PENDING''"
    and au: "au_decision_id arow = rv_decision_id q" "au_event_type arow = evt"
    and d': "t_decisions d' = t_decisions d" "t_audits d' = t_audits d @ [arow]"
      "t_reviews d' = update_rows (\<lambda>r. rv_payment_id r = rv_payment_id q) (resolve_row st c) (t_reviews d)"
    unfolding resolve_effect_def by (elim exE conjE) (rule that, assumption+, simp_all)
  have key: "audit_key arow = (evt, rv_decision_id q)" by (simp add: audit_key_def au)
  have e: "(st, evt) = (''APPROVED'', ''MANUAL_REVIEW_APPROVED'') \<or> (st, evt) = (''REJECTED'', ''MANUAL_REVIEW_REJECTED'')"
    using a by (auto simp: actionState_def review_constants split: if_splits)
  have qin: "q \<in> set (t_reviews d)" using q(1) by (auto dest: fetch_SomeD)
  have u: "unique_by rv_payment_id (t_reviews d)" "unique_by rv_decision_id (t_reviews d)"
    using assms(2) by (simp_all add: consistent_def valid_db_def valid_reviews_def)
  have "(rv_status x = ''APPROVED'' \<longleftrightarrow> (''MANUAL_REVIEW_APPROVED'', rv_decision_id x) \<in> audit_keys d')
     \<and> (rv_status x = ''REJECTED'' \<longleftrightarrow> (''MANUAL_REVIEW_REJECTED'', rv_decision_id x) \<in> audit_keys d')"
    if x: "x \<in> set (t_reviews d')" for x
  proof -
    from x obtain x0 where x0: "x0 \<in> set (t_reviews d)"
      and xx: "x = (if rv_payment_id x0 = rv_payment_id q then resolve_row st c x0 else x0)"
      by (auto simp: d' set_update_rows)
    show ?thesis
    proof (cases "rv_payment_id x0 = rv_payment_id q")
      case True
      then have "x0 = q" by (rule unique_byD [OF u(1) x0 qin])
      with assms(1) qin q(2) e show ?thesis by (auto simp: xx audited_def audit_keys_append [OF d'(2)] key)
    next
      case False
      then have "rv_decision_id x0 \<noteq> rv_decision_id q" using unique_byD [OF u(2) x0 qin] by auto
      with assms(1) x0 False show ?thesis by (auto simp: xx audited_def audit_keys_append [OF d'(2)] key)
    qed
  qed
  moreover have "\<forall>r \<in> set (t_decisions d'). (''RISK_DECISION_RECORDED'', dr_decision_id r) \<in> audit_keys d'"
    using assms(1) by (auto simp: audited_def d'(1) audit_keys_append [OF d'(2)])
  ultimately show ?thesis by (simp add: audited_def)
qed

lemma Apply_step:
  assumes "Apply L env ev src d = (res, d')"
  obtains "\<exists>new. d' = d\<lparr>t_receipts := t_receipts d @ new\<rparr>" | "decision_effect L env ev src d d'"
  using assms
proof (cases rule: Apply_effect)
  case (failed e)
  then have "d' = d\<lparr>t_receipts := t_receipts d @ []\<rparr>" by simp
  with that(1) show thesis by blast
next
  case (seen row)
  then have "d' = d\<lparr>t_receipts := t_receipts d @ []\<rparr>" by simp
  with that(1) show thesis by blast
next
  case replay
  then show thesis using that(1) by (auto simp: replay_effect_def)
next
  case new
  then show thesis using that(2) by blast
qed

text \<open>The steps by what they do to the tables of payments, decisions, audit events and reviews.\<close>

lemma step_effect:
  assumes "step L d d'"
  obtains (frame) "t_payments d' = t_payments d" "t_decisions d' = t_decisions d" "t_audits d' = t_audits d"
      "t_reviews d' = t_reviews d"
  | (payment) a p ev row where "prepare_create L (at_service a) (at_context a) (at_key a) (at_request a) = Inr (p, ev)"
      "good_attempt a" "t_payments d' = t_payments d @ [row]" "pay_status row = ''PENDING_RISK''"
      "t_decisions d' = t_decisions d" "t_audits d' = t_audits d" "t_reviews d' = t_reviews d"
  | (decision) env ev src d1 where "decision_effect L env ev src d d1" "t_payments d' = t_payments d1"
      "t_decisions d' = t_decisions d1" "t_audits d' = t_audits d1" "t_reviews d' = t_reviews d1"
  | (review) c where "resolve_effect L c d d'"
  using assms
proof (cases rule: step.cases)
  case (created a r)
  from created(2) show thesis
  proof (cases rule: run_attempt_cases)
    case (2 p ev)
    show thesis
    proof (cases "d' = d")
      case False
      from create_payment_rows [OF 2(2) False] obtain row orow
        where d': "d' = d\<lparr>t_payments := t_payments d @ [row], t_outbox := t_outbox d @ [orow]\<rparr>"
          and row: "as_stored (p\<lparr>pay_id := pay_id row\<rparr>) = row" by blast
      from row have "pay_status row = pay_status p" by (metis as_stored_fields(4) payment.select_convs(10)
            payment.surjective payment.update_convs(1))
      then have "pay_status row = ''PENDING_RISK''"
        using prepare_create_fields(7) [OF 2(1)] created(1) by (simp add: good_attempt_def StatusPendingRisk_def)
      with payment [OF 2(1) created(1), of row] show thesis by (simp add: d')
    qed (use frame in simp)
  qed (use frame in simp)
next
  case (published cfg locked env deliver k x k')
  from ProcessNext_state [OF published] show thesis
    using frame by (auto simp: completed_db_def update_outbox_def)
next
  case (consumed e1 e2 src r)
  then show thesis
  proof (cases rule: pg_handle_effect)
    case (1 ev d1 r1)
    from 1(1) show thesis by (cases rule: Apply_step) (use 1(2) frame decision in auto)
  qed (use frame in auto)
next
  case (resolved a r)
  then show thesis by (cases rule: run_review_effect) (use frame review in auto)
qed

lemma step_audited:
  assumes "step L d d'" and "consistent d" and "audited d"
  shows "audited d'"
  using assms(1)
proof (cases rule: step_effect)
  case (decision env ev src d1)
  from audited_decision [OF assms(3,2) decision(1)] decision(2-5) show ?thesis by (simp add: audited_def audit_keys_def)
next
  case (review c)
  from audited_resolve [OF assms(3,2) review] show ?thesis .
qed (use assms(3) in \<open>simp_all add: audited_def audit_keys_def\<close>)

lemma audited_empty: "audited empty_db"
  by (simp add: audited_def empty_db_def)

lemma reachable_invariant: "reachable L d \<Longrightarrow> consistent d \<and> audited d"
  by (induction rule: reachable.induct) (auto simp: consistent_empty audited_empty step_consistent step_audited)

section \<open>The life of a payment\<close>

definition status_of :: "db \<Rightarrow> string \<Rightarrow> string option" where
  "status_of d k = map_option pay_status (fetch pay_id k (t_payments d))"

text \<open>
  The specification of the payment API's promise: a payment appears as PENDING_RISK, a decision
  allows, blocks or sends it to review, and a reviewer allows or blocks it.
\<close>

inductive astep :: "(string \<Rightarrow> string option) \<Rightarrow> (string \<Rightarrow> string option) \<Rightarrow> bool" where
  stutter: "astep m m"
| create: "m k = None \<Longrightarrow> astep m (m(k \<mapsto> ''PENDING_RISK''))"
| decide: "m k = Some ''PENDING_RISK'' \<Longrightarrow> s \<in> {''ALLOWED'', ''REVIEW'', ''BLOCKED''} \<Longrightarrow> astep m (m(k \<mapsto> s))"
| review: "m k = Some ''REVIEW'' \<Longrightarrow> s \<in> {''ALLOWED'', ''BLOCKED''} \<Longrightarrow> astep m (m(k \<mapsto> s))"

inductive_cases astepE: "astep m m'"

text \<open>One payment at two times: only the status and the time of its last update may differ.\<close>

definition same_order :: "payment \<Rightarrow> payment \<Rightarrow> bool" where
  "same_order p p' \<longleftrightarrow> p' = p\<lparr>pay_status := pay_status p', updated_at := updated_at p'\<rparr>"

definition orders_kept :: "db \<Rightarrow> db \<Rightarrow> bool" where
  "orders_kept d d' \<longleftrightarrow>
     (\<forall>k p. fetch pay_id k (t_payments d) = Some p \<longrightarrow>
        (\<exists>p'. fetch pay_id k (t_payments d') = Some p' \<and> same_order p p'))"

lemma same_order_refl [simp]: "same_order p p"
  by (simp add: same_order_def)

lemma same_order_trans: "same_order p q \<Longrightarrow> same_order q r \<Longrightarrow> same_order p r"
  by (simp add: same_order_def) (metis payment.update_convs(10) payment.update_convs(12) payment.surjective)

lemma status_update:
  assumes "unique_by pay_id (t_payments d)" and "p \<in> set (t_payments d)" and "pay_id p = k" and "hit p"
    and "\<And>q. hit q \<Longrightarrow> pay_id q = k"
    and "t_payments d' = update_rows hit (\<lambda>p. p\<lparr>pay_status := s, updated_at := t\<rparr>) (t_payments d)"
  shows "status_of d k = Some (pay_status p)" and "status_of d' = (status_of d)(k \<mapsto> s)" and "orders_kept d d'"
proof -
  have f: "fetch pay_id k (t_payments d) = Some p" using fetch_unique [OF assms(1,2)] assms(3) by simp
  have g: "fetch pay_id j (t_payments d') =
      map_option (\<lambda>p. if hit p then p\<lparr>pay_status := s, updated_at := t\<rparr> else p) (fetch pay_id j (t_payments d))" for j
    by (simp add: assms(6) fetch_update_rows)
  show "status_of d k = Some (pay_status p)" by (simp add: status_of_def f)
  show "status_of d' = (status_of d)(k \<mapsto> s)"
  proof
    fix j show "status_of d' j = ((status_of d)(k \<mapsto> s)) j"
    proof (cases "j = k")
      case False
      have "\<not> hit x" if "fetch pay_id j (t_payments d) = Some x" for x
        using fetch_SomeD [OF that] assms(5) False by auto
      with False show ?thesis by (cases "fetch pay_id j (t_payments d)") (auto simp: status_of_def g)
    qed (simp add: status_of_def g f assms(4))
  qed
  show "orders_kept d d'" by (auto simp: orders_kept_def g same_order_def)
qed

text \<open>A decision and a review, as steps of the specification.\<close>

lemma decision_refines:
  assumes "decision_effect L env ev src d d1" and u: "unique_by pay_id (t_payments d)"
    and "t_payments d' = t_payments d1"
  shows "astep (status_of d) (status_of d') \<and> orders_kept d d'"
proof -
  from assms(1,3) obtain drow :: decision_row and status
    where aff: "affected (pending_payment (dr_payment_id drow)) (t_payments d) = 1"
    and st: "paymentStatusForDecision L (dr_decision drow) = Inr status"
    and pay: "t_payments d' = update_rows (pending_payment (dr_payment_id drow))
        (\<lambda>p. p\<lparr>pay_status := status, updated_at := timestamptz (pg_clock env 7)\<rparr>) (t_payments d)"
    unfolding decision_effect_def by (elim exE conjE) (rule that, assumption+, simp_all)
  obtain p where p: "p \<in> set (t_payments d)" "pay_id p = dr_payment_id drow" "pay_status p = ''PENDING_RISK''"
    by (rule affected_pending [OF u aff])
  have h: "pending_payment (dr_payment_id drow) p" using p by (simp add: pending_payment_def)
  note su = status_update [OF u p(1,2) h _ pay]
  have k: "status_of d (dr_payment_id drow) = Some ''PENDING_RISK''" using su(1) p(3) by (simp add: pending_payment_def)
  have "status \<in> {''ALLOWED'', ''REVIEW'', ''BLOCKED''}"
    using st by (auto simp: paymentStatusForDecision_def split: if_splits)
  then have "astep (status_of d) ((status_of d)(dr_payment_id drow \<mapsto> status))" by (rule astep.decide [of "status_of d", OF k])
  moreover have "status_of d' = (status_of d)(dr_payment_id drow \<mapsto> status)" "orders_kept d d'"
    by (rule su, simp add: pending_payment_def)+
  ultimately show ?thesis by simp
qed

lemma review_refines:
  assumes "resolve_effect L c d d'" and u: "unique_by pay_id (t_payments d)"
  shows "astep (status_of d) (status_of d') \<and> orders_kept d d'"
proof -
  from assms(1) obtain q :: review_row and st pst evt
    where aff: "affected (reviewed_payment (rv_payment_id q)) (t_payments d) = 1"
    and a: "actionState L (rc_action c) = Inr (st, pst, evt)"
    and pay: "t_payments d' = update_rows (reviewed_payment (rv_payment_id q))
        (\<lambda>p. p\<lparr>pay_status := pst, updated_at := timestamptz (rc_resolved_at c)\<rparr>) (t_payments d)"
    unfolding resolve_effect_def by (elim exE conjE) (rule that, assumption+, simp_all)
  obtain p where p: "p \<in> set (t_payments d)" "pay_id p = rv_payment_id q" "pay_status p = ''REVIEW''"
    by (rule affected_one [OF u aff])
  have h: "reviewed_payment (rv_payment_id q) p" using p by (simp add: reviewed_payment_def)
  note su = status_update [OF u p(1,2) h _ pay]
  have k: "status_of d (rv_payment_id q) = Some ''REVIEW''" using su(1) p(3) by (simp add: reviewed_payment_def)
  have "pst \<in> {''ALLOWED'', ''BLOCKED''}" using actionState_Inr [OF a] by auto
  then have "astep (status_of d) ((status_of d)(rv_payment_id q \<mapsto> pst))" by (rule astep.review [of "status_of d", OF k])
  moreover have "status_of d' = (status_of d)(rv_payment_id q \<mapsto> pst)" "orders_kept d d'"
    by (rule su, simp add: reviewed_payment_def)+
  ultimately show ?thesis by simp
qed

lemma same_payments_refine: "t_payments d' = t_payments d \<Longrightarrow> astep (status_of d) (status_of d') \<and> orders_kept d d'"
  using astep.stutter by (simp add: status_of_def [abs_def] orders_kept_def)

lemma consistent_unique: "consistent d \<Longrightarrow> unique_by pay_id (t_payments d)"
  by (simp add: consistent_def valid_db_def valid_payments_def)

lemma step_refines:
  assumes "step L d d'" and "consistent d"
  shows "astep (status_of d) (status_of d') \<and> orders_kept d d'"
proof -
  note u = consistent_unique [OF assms(2)] and u' = consistent_unique [OF step_consistent [OF assms]]
  from assms(1) show ?thesis
  proof (cases rule: step_effect)
    case (payment a p ev row)
    have new: "fetch pay_id (pay_id row) (t_payments d) = None"
      using u' by (simp add: payment(3) unique_by_append1)
    have "status_of d' = (status_of d)(pay_id row \<mapsto> ''PENDING_RISK'')"
      using new payment(4)
      by (auto simp: status_of_def payment(3) fetch_append fetch_Cons fun_eq_iff split: option.splits)
    moreover have "status_of d (pay_id row) = None" using new by (simp add: status_of_def)
    moreover have "orders_kept d d'" by (simp add: orders_kept_def payment(3) fetch_append)
    ultimately show ?thesis using astep.create by metis
  qed (use same_payments_refine decision_refines review_refines u in blast)+
qed

text \<open>A status that a payment may have after another one.\<close>

definition may_follow :: "string \<Rightarrow> string \<Rightarrow> bool" where
  "may_follow s t \<longleftrightarrow>
     s = t \<or> (s = ''PENDING_RISK'' \<and> t \<in> {''ALLOWED'', ''REVIEW'', ''BLOCKED''})
     \<or> (s = ''REVIEW'' \<and> t \<in> {''ALLOWED'', ''BLOCKED''})"

lemma may_follow_trans: "may_follow r s \<Longrightarrow> may_follow s t \<Longrightarrow> may_follow r t"
  by (auto simp: may_follow_def)

lemma astep_follow: "astep m m' \<Longrightarrow> m k = Some s \<Longrightarrow> \<exists>t. m' k = Some t \<and> may_follow s t"
  by (erule astepE) (auto simp: may_follow_def)

lemma steps_follow:
  assumes "(step L)\<^sup>*\<^sup>* d d'" and "consistent d" and "fetch pay_id k (t_payments d) = Some p"
  shows "consistent d' \<and> (\<exists>p'. fetch pay_id k (t_payments d') = Some p' \<and> same_order p p'
    \<and> may_follow (pay_status p) (pay_status p'))"
  using assms(1)
proof (induction rule: rtranclp_induct)
  case base
  then show ?case using assms(2,3) by (auto simp: may_follow_def)
next
  case (step d1 d2)
  then obtain p1 where c: "consistent d1" and p1: "fetch pay_id k (t_payments d1) = Some p1" "same_order p p1"
    "may_follow (pay_status p) (pay_status p1)" by blast
  note r = step_refines [OF step(2) c]
  from r p1(1) obtain p2 where p2: "fetch pay_id k (t_payments d2) = Some p2" "same_order p1 p2"
    unfolding orders_kept_def by blast
  have "may_follow (pay_status p1) (pay_status p2)"
    using astep_follow [OF conjunct1 [OF r], of k "pay_status p1"] p1(1) p2(1) by (simp add: status_of_def)
  with p1 p2 step_consistent [OF step(2) c] show ?case
    using same_order_trans may_follow_trans by blast
qed

section \<open>Examples\<close>

text \<open>The sample request creates a payment in the empty database.\<close>

lemma sample_created:
  "\<exists>x d. run_attempt sample_lib sample_attempt empty_db = (Inr x, d) \<and> reachable sample_lib d
     \<and> step sample_lib empty_db d"
proof -
  have "valid_db empty_db" "lookup_payment empty_db ''key-1'' = None" by (simp, simp add: lookup_payment_def empty_db_def)
  from sample_run [OF this] obtain x d where r: "run_attempt sample_lib sample_attempt empty_db = (Inr x, d)"
    by (auto simp: empty_db_def)
  have s: "step sample_lib empty_db d" by (rule step.created [OF sample_good_attempt r])
  with r show ?thesis using reachable.stepped [OF reachable.initially] by blast
qed

end
