(* ===== verification/Outbox_Concurrent.thy ===== *)
theory Outbox_Concurrent
  imports System
begin

text \<open>
  Several outbox publishers on one database, as they run in a deployment: the transaction of
  \<open>ProcessNext\<close> (outbox/postgres_store.go) is split at the calls between which other transactions
  commit.  FOR UPDATE SKIP LOCKED keeps two publishers from holding one event; every change they
  make to the database is one that a serial \<open>ProcessNext\<close> makes; and delivery stays at-least-once
  although publishers crash and lose their connections while they publish.
\<close>

section \<open>The parts of a transaction\<close>

text \<open>From BEGIN to the scan of the claimed row.\<close>

definition claim_event ::
    "(string \<Rightarrow> bool) \<Rightarrow> pg_env \<Rightarrow> db \<Rightarrow> (bool \<times> go_error option) + outbox_row" where
  "claim_event locked env d =
     (case pg_begin env of
        Some e \<Rightarrow> Inl (False, Some (errorf ''begin outbox transaction'' e))
      | None \<Rightarrow>
     (case statement env 0 (Inr (next_due (pg_clock env 0) locked d)) of
        Inl e \<Rightarrow> Inl (False, Some (errorf ''claim outbox event'' e))
      | Inr None \<Rightarrow> Inl (False, None)
      | Inr (Some row) \<Rightarrow> Inr row))"

text \<open>From the return of the publish function to COMMIT or ROLLBACK.\<close>

definition finish_event ::
    "retry_config \<Rightarrow> pg_env \<Rightarrow> outbox_row \<Rightarrow> go_error option \<Rightarrow> db
     \<Rightarrow> (bool \<times> go_error option) \<times> db" where
  "finish_event cfg env row outcome d =
     (let event = scanNextEvent row in
      case outcome of
        Some publishErr \<Rightarrow>
          let perr = errorf (''publish outbox event '' @ de_id event) publishErr in
          (case recordFailure cfg env event publishErr d of
             (Inl err, d1) \<Rightarrow> ((True, Some (Joined [perr, err])), d1)
           | (Inr _, d1) \<Rightarrow> ((True, Some perr), d1))
      | None \<Rightarrow>
          let what = ''mark outbox event '' @ de_id event @ '' published'' in
          (case statement env 1 (markEventPublished (de_id event) (pg_clock env 1) (pg_clock env 2) d) of
             Inl e \<Rightarrow> ((True, Some (errorf what e)), d)
           | Inr (n, d1) \<Rightarrow>
               if n \<noteq> 1 then ((True, Some (Msg (what @ '': expected one updated row''))), d)
               else (case commit_tx env (''commit outbox event '' @ de_id event) d d1 () of
                       (Inl e, d2) \<Rightarrow> ((True, Some e), d2)
                     | (Inr _, d2) \<Rightarrow> ((True, None), d2))))"

text \<open>Run without interruption, the parts are \<open>ProcessNext\<close>.\<close>

lemma ProcessNext_parts:
  "ProcessNext cfg locked env deliver (d, k) =
     (case claim_event locked env d of
        Inl x \<Rightarrow> (x, (d, k))
      | Inr row \<Rightarrow>
          let (outcome, k1) = deliver (scanNextEvent row) k;
              (x, d1) = finish_event cfg env row outcome d
          in (x, (d1, k1)))"
  by (auto simp: ProcessNext_def claim_event_def finish_event_def Let_def split_beta
      split: option.splits sum.splits)

lemma claim_event_Inr:
  "claim_event locked env d = Inr row \<Longrightarrow> next_due (pg_clock env 0) locked d = Some row"
  by (auto simp: claim_event_def statement_def split: option.splits sum.splits)

text \<open>A due event that nobody holds is claimed when nothing fails.\<close>

lemma claim_event_all:
  assumes "\<And>r. r \<in> set (t_outbox d) \<Longrightarrow> due (pg_clock env 0) locked r \<Longrightarrow> r = row"
    and "row \<in> set (t_outbox d)" and "due (pg_clock env 0) locked row"
    and "pg_begin env = None" and "pg_fault env 0 = None"
  shows "claim_event locked env d = Inr row"
proof (cases "next_due (pg_clock env 0) locked d")
  case None
  then show ?thesis using assms(2,3) by (simp add: next_due_None)
next
  case (Some r)
  then have "r = row" using next_due_Some(1,2) [OF Some] assms(1) by blast
  with Some assms(4,5) show ?thesis by (simp add: claim_event_def statement_def)
qed

section \<open>Publishers side by side\<close>

text \<open>
  Where a publisher is: between transactions; holding the row lock of an event it publishes; back
  from the publish function; or still publishing an event whose lock the server has released
  because the connection broke.
\<close>

datatype phase = Idle | Holding outbox_row | Delivered outbox_row "go_error option" | Orphan outbox_row

fun held :: "phase \<Rightarrow> outbox_row list" where
  "held (Holding row) = [row]"
| "held (Delivered row outcome) = [row]"
| "held _ = []"

definition held_rows :: "phase list \<Rightarrow> outbox_row list" where
  "held_rows ps = concat (map held ps)"

definition row_locked :: "phase list \<Rightarrow> string \<Rightarrow> bool" where
  "row_locked ps x \<longleftrightarrow> x \<in> set (map ev_id (held_rows ps))"

text \<open>What the other services do meanwhile: each of their transactions is one step.\<close>

inductive service_step :: "'a pglib_scheme \<Rightarrow> db \<Rightarrow> db \<Rightarrow> bool" for L where
  created: "good_attempt a \<Longrightarrow> run_attempt L a d = (r, d') \<Longrightarrow> service_step L d d'"
| consumed: "pg_handle L e1 e2 src d = (r, d') \<Longrightarrow> service_step L d d'"
| resolved: "run_review L (Resolve L) a d = (r, d') \<Longrightarrow> service_step L d d'"

text \<open>
  One step of a publisher or of another service, on the tables, the broker and the phases of the
  publishers.  Retry limits, clocks, driver and producer are free in every step.
\<close>

inductive cluster_step ::
    "'a pglib_scheme \<Rightarrow> string \<Rightarrow> ('k \<Rightarrow> message \<Rightarrow> bool)
     \<Rightarrow> db \<times> 'k \<times> phase list \<Rightarrow> db \<times> 'k \<times> phase list \<Rightarrow> bool" for L topic stored where
  claims: "i < length ps \<Longrightarrow> ps ! i = Idle \<Longrightarrow> claim_event (row_locked ps) env d = Inr row
     \<Longrightarrow> cluster_step L topic stored (d, k, ps) (d, k, ps[i := Holding row])"
| delivers: "i < length ps \<Longrightarrow> ps ! i = Holding row \<Longrightarrow> acknowledging produce stored
     \<Longrightarrow> publish L topic produce (scanNextEvent row) k = (outcome, k')
     \<Longrightarrow> cluster_step L topic stored (d, k, ps) (d, k', ps[i := Delivered row outcome])"
| finishes: "i < length ps \<Longrightarrow> ps ! i = Delivered row outcome
     \<Longrightarrow> finish_event cfg env row outcome d = (x, d')
     \<Longrightarrow> cluster_step L topic stored (d, k, ps) (d', k, ps[i := Idle])"
| disconnects: "i < length ps \<Longrightarrow> ps ! i = Holding row
     \<Longrightarrow> cluster_step L topic stored (d, k, ps) (d, k, ps[i := Orphan row])"
| delivers_late: "i < length ps \<Longrightarrow> ps ! i = Orphan row \<Longrightarrow> acknowledging produce stored
     \<Longrightarrow> publish L topic produce (scanNextEvent row) k = (outcome, k')
     \<Longrightarrow> cluster_step L topic stored (d, k, ps) (d, k', ps[i := Idle])"
| crashes: "i < length ps \<Longrightarrow> cluster_step L topic stored (d, k, ps) (d, k, ps[i := Idle])"
| serves: "service_step L d d' \<Longrightarrow> cluster_step L topic stored (d, k, ps) (d', k, ps)"

inductive cluster_reachable ::
    "'a pglib_scheme \<Rightarrow> string \<Rightarrow> ('k \<Rightarrow> message \<Rightarrow> bool) \<Rightarrow> db \<times> 'k \<times> phase list \<Rightarrow> bool"
  for L topic stored where
  start: "cluster_reachable L topic stored (empty_db, k, replicate n Idle)"
| more: "cluster_reachable L topic stored s \<Longrightarrow> cluster_step L topic stored s s'
     \<Longrightarrow> cluster_reachable L topic stored s'"

section \<open>Held rows\<close>

lemma held_rows_split:
  assumes "i < length ps"
  shows "held_rows ps = held_rows (take i ps) @ held (ps ! i) @ held_rows (drop (Suc i) ps)"
    and "held_rows (ps[i := p]) = held_rows (take i ps) @ held p @ held_rows (drop (Suc i) ps)"
proof -
  have "held_rows (take i ps @ q # drop (Suc i) ps) = held_rows (take i ps) @ held q @ held_rows (drop (Suc i) ps)" for q
    by (simp add: held_rows_def)
  from this [of "ps ! i"] this [of p] assms
  show "held_rows ps = held_rows (take i ps) @ held (ps ! i) @ held_rows (drop (Suc i) ps)"
    and "held_rows (ps[i := p]) = held_rows (take i ps) @ held p @ held_rows (drop (Suc i) ps)"
    by (simp_all only: id_take_nth_drop [symmetric] upd_conv_take_nth_drop)
qed

lemma held_rows_Idle [simp]: "held_rows (replicate n Idle) = []"
  by (simp add: held_rows_def)

definition locks_sound :: "db \<Rightarrow> outbox_row list \<Rightarrow> bool" where
  "locks_sound d rows \<longleftrightarrow>
     distinct (map ev_id rows) \<and> (\<forall>row \<in> set rows. row \<in> set (t_outbox d) \<and> open_event row)"

text \<open>A phase that holds the same row, one row less, or one free row more keeps the locks sound.\<close>

lemma locks_change:
  assumes "locks_sound d (held_rows ps)" and "i < length ps" and "held p = held (ps ! i) \<or> held p = []"
  shows "locks_sound d (held_rows (ps[i := p]))"
proof (cases "held p = []")
  case True
  with assms(1) held_rows_split [OF assms(2)] show ?thesis by (auto simp: locks_sound_def)
next
  case False
  with assms(3) held_rows_split [OF assms(2)] have "held_rows (ps[i := p]) = held_rows ps" by simp
  with assms(1) show ?thesis by simp
qed

lemma locks_claim:
  assumes "locks_sound d (held_rows ps)" and "i < length ps" and "held (ps ! i) = []"
    and "row \<in> set (t_outbox d)" and "due now (row_locked ps) row"
  shows "locks_sound d (held_rows (ps[i := Holding row]))"
  using assms held_rows_split [OF assms(2)]
  by (auto simp: locks_sound_def due_def row_locked_def)

lemma locks_finish:
  assumes "locks_sound d (held_rows ps)" and "i < length ps" and "ps ! i = Delivered row outcome"
  shows "locks_sound (completed_db cfg env outcome row d) (held_rows (ps[i := Idle]))"
proof -
  let ?rest = "held_rows (ps[i := Idle])"
  from assms held_rows_split [OF assms(2)] have d: "distinct (map ev_id ?rest)" "ev_id row \<notin> ev_id ` set ?rest"
    and o: "\<forall>r \<in> set ?rest. r \<in> set (t_outbox d) \<and> open_event r"
    by (auto simp: locks_sound_def)
  have "r \<in> set (t_outbox (completed_db cfg env outcome row d))" if "r \<in> set ?rest" for r
  proof -
    from that d(2) have "\<not> open_row (ev_id row) r" unfolding open_row_def by (metis image_eqI)
    with that o show ?thesis unfolding set_completed by (intro image_eqI [of _ _ r]) simp_all
  qed
  with d(1) o show ?thesis by (simp add: locks_sound_def)
qed

lemma locks_append: "locks_sound d rows \<Longrightarrow> t_outbox d' = t_outbox d @ new \<Longrightarrow> locks_sound d' rows"
  by (auto simp: locks_sound_def)

section \<open>The other services and the outbox\<close>

lemma service_step_step: "service_step L d d' \<Longrightarrow> step L d d'"
  by (induction rule: service_step.induct) (blast intro: step.intros)+

lemma service_step_outbox:
  assumes "service_step L d d'"
  shows "\<exists>new. t_outbox d' = t_outbox d @ new \<and> (\<forall>r \<in> set new. ev_published_at r = None)"
  using assms
proof (cases rule: service_step.cases)
  case (created a r)
  from created(2) show ?thesis
  proof (cases rule: run_attempt_cases)
    case (2 p ev)
    show ?thesis
    proof (cases "d' = d")
      case False
      from create_payment_rows [OF 2(2) False] obtain row orow
        where "d' = d\<lparr>t_payments := t_payments d @ [row], t_outbox := t_outbox d @ [orow]\<rparr>" "event_of ev orow" by blast
      then show ?thesis by (auto simp: event_of_def)
    qed simp
  qed simp
next
  case (consumed e1 e2 src r)
  then show ?thesis
  proof (cases rule: pg_handle_effect)
    case (1 ev d1 r1)
    from 1(1) have "t_outbox d1 = t_outbox d" by (cases rule: Apply_step) (auto simp: decision_effect_def)
    with 1(2) show ?thesis by auto
  qed auto
next
  case (resolved a r)
  then show ?thesis by (cases rule: run_review_effect) (auto simp: resolve_effect_def)
qed

section \<open>Completions are serial\<close>

lemma finish_event_state:
  assumes "finish_event cfg env row outcome d = (x, d')"
  shows "d' = d \<or> d' = completed_db cfg env outcome row d"
proof (cases outcome)
  case None
  have "d1 = completed_db cfg env None row d"
    if "statement env 1 (markEventPublished (ev_id row) (pg_clock env 1) (pg_clock env 2) d) = Inr (n, d1)" for n d1
    using that by (auto simp: statement_Inr markEventPublished_def completed_db_def completion_def split: if_splits)
  with assms None show ?thesis
    by (auto simp: finish_event_def Let_def scanNextEvent_def commit_tx_def
        split: sum.splits if_splits commit_outcome.splits)
next
  case (Some e)
  obtain rf d1 where rf: "recordFailure cfg env (scanNextEvent row) e d = (rf, d1)"
    by (cases "recordFailure cfg env (scanNextEvent row) e d")
  from recordFailure_cases [OF rf] assms rf Some show ?thesis
    by (cases rf) (auto simp: finish_event_def Let_def)
qed

text \<open>
  What a publisher does to the database when it finishes is what one uninterrupted call of
  \<open>ProcessNext\<close> does whose claim finds that row and whose delivery has that outcome.
\<close>

lemma finish_event_serial:
  assumes "unique_by ev_id (t_outbox d)" and "row \<in> set (t_outbox d)" and "open_event row"
    and "finish_event cfg env row outcome d = (x, d')"
  shows "\<exists>locked env' deliver. ProcessNext cfg locked env' deliver (d, k :: 'k) = (x, (d', k))"
proof -
  let ?locked = "\<lambda>y. y \<noteq> ev_id row"
  let ?env = "env\<lparr>pg_begin := None, pg_fault := (pg_fault env)(0 := None),
      pg_clock := (pg_clock env)(0 := ev_next_attempt_at row)\<rparr>"
  have e: "statement ?env 1 = statement env 1" "commit_tx ?env = commit_tx env" "pg_clock ?env 1 = pg_clock env 1"
    "pg_clock ?env 2 = pg_clock env 2" "pg_clock ?env 3 = pg_clock env 3"
    by (simp_all add: fun_eq_iff statement_def commit_tx_def)
  have f: "finish_event cfg ?env row outcome d = finish_event cfg env row outcome d"
    unfolding finish_event_def recordFailure_def e ..
  have "claim_event ?locked ?env d = Inr row"
  proof (rule claim_event_all)
    fix r assume "r \<in> set (t_outbox d)" "due (pg_clock ?env 0) ?locked r"
    then show "r = row" using unique_byD [OF assms(1) _ assms(2)] by (simp add: due_def)
  qed (use assms(2,3) in \<open>simp_all add: due_def\<close>)
  then have "ProcessNext cfg ?locked ?env (\<lambda>_ k. (outcome, k)) (d, k) = (x, (d', k))"
    by (simp add: ProcessNext_parts f assms(4))
  then show ?thesis by blast
qed

lemma finish_event_step:
  assumes "unique_by ev_id (t_outbox d)" and "row \<in> set (t_outbox d)" and "open_event row"
    and "finish_event cfg env row outcome d = (x, d')"
  shows "step L d d'"
  using finish_event_serial [OF assms, of "[] :: message list"] step.published by blast

section \<open>The invariant\<close>

definition sent :: "string \<Rightarrow> ('k \<Rightarrow> message \<Rightarrow> bool) \<Rightarrow> 'k \<Rightarrow> string \<Rightarrow> bool" where
  "sent topic stored k x \<longleftrightarrow> (\<exists>m. stored k m \<and> carries topic x m)"

definition cluster_ok ::
    "'a pglib_scheme \<Rightarrow> string \<Rightarrow> ('k \<Rightarrow> message \<Rightarrow> bool) \<Rightarrow> db \<Rightarrow> 'k \<Rightarrow> phase list \<Rightarrow> bool" where
  "cluster_ok L topic stored d k ps \<longleftrightarrow>
     reachable L d \<and> locks_sound d (held_rows ps)
     \<and> (\<forall>row. Delivered row None \<in> set ps \<longrightarrow> sent topic stored k (ev_id row))
     \<and> (\<forall>x. is_published d x \<longrightarrow> sent topic stored k x)"

lemma sent_kept:
  assumes "acknowledging produce stored" and "publish L topic produce ev k = (outcome, k')"
    and "sent topic stored k x"
  shows "sent topic stored k' x"
proof -
  obtain m where m: "stored k m" "carries topic x m" using assms(3) by (auto simp: sent_def)
  from publish_keeps_stored [OF assms(1) m(1) assms(2)] m(2) show ?thesis by (auto simp: sent_def)
qed

lemma sent_now:
  "acknowledging produce stored \<Longrightarrow> publish L topic produce (scanNextEvent row) k = (None, k') \<Longrightarrow>
   sent topic stored k' (ev_id row)"
  using publish_delivers [of produce stored L topic "scanNextEvent row" k k']
  unfolding sent_def by (auto simp: scanNextEvent_def)

lemma held_in_rows: "p \<in> set ps \<Longrightarrow> row \<in> set (held p) \<Longrightarrow> row \<in> set (held_rows ps)"
  by (auto simp: held_rows_def)

lemma reachable_unique: "reachable L d \<Longrightarrow> unique_by ev_id (t_outbox d)"
  using reachable_invariant [of L d] by (simp add: consistent_def valid_db_def valid_outbox_def)

lemma set_update_other: "x \<in> set (ps[i := p]) \<Longrightarrow> x \<noteq> p \<Longrightarrow> x \<in> set ps"
  using set_update_subset_insert [of ps i p] by blast

text \<open>The broker only gains messages; a phase may change when it holds what it held or nothing.\<close>

lemma cluster_ok_broker:
  assumes "cluster_ok L topic stored d k ps" and "acknowledging produce stored"
    and "publish L topic produce ev k = (outcome, k')"
  shows "cluster_ok L topic stored d k' ps"
  using assms(1) sent_kept [OF assms(2,3)] by (auto simp: cluster_ok_def)

lemma cluster_ok_phase:
  assumes "cluster_ok L topic stored d k ps" and "locks_sound d (held_rows (ps[i := p]))"
    and "\<And>row. p = Delivered row None \<Longrightarrow> sent topic stored k (ev_id row)"
  shows "cluster_ok L topic stored d k (ps[i := p])"
  using assms set_update_other [of _ ps i p] by (fastforce simp: cluster_ok_def)

lemma cluster_ok_same:
  assumes "cluster_ok L topic stored d k ps" and "i < length ps" and "held p = held (ps ! i) \<or> held p = []"
    and "\<And>row. p = Delivered row None \<Longrightarrow> sent topic stored k (ev_id row)"
  shows "cluster_ok L topic stored d k (ps[i := p])"
proof (rule cluster_ok_phase [OF assms(1) _ assms(4)])
  have "locks_sound d (held_rows ps)" using assms(1) by (simp add: cluster_ok_def)
  then show "locks_sound d (held_rows (ps[i := p]))" by (rule locks_change [OF _ assms(2,3)])
qed

lemma cluster_ok_claim:
  assumes "cluster_ok L topic stored d k ps" and "i < length ps" and "ps ! i = Idle"
    and "claim_event (row_locked ps) env d = Inr row"
  shows "cluster_ok L topic stored d k (ps[i := Holding row])"
proof (rule cluster_ok_phase [OF assms(1)])
  have "row \<in> set (t_outbox d)" "due (pg_clock env 0) (row_locked ps) row"
    using next_due_Some(1,2) [OF claim_event_Inr [OF assms(4)]] by simp_all
  moreover have "locks_sound d (held_rows ps)" using assms(1) by (simp add: cluster_ok_def)
  ultimately show "locks_sound d (held_rows (ps[i := Holding row]))"
    using locks_claim [OF _ assms(2), of d row] assms(3) by simp
qed simp

lemma cluster_ok_finish:
  assumes "cluster_ok L topic stored d k ps" and "i < length ps" and "ps ! i = Delivered row outcome"
    and "finish_event cfg env row outcome d = (x, d')"
  shows "cluster_ok L topic stored d' k (ps[i := Idle])"
proof -
  have in_ps: "Delivered row outcome \<in> set ps" using assms(2,3) by (metis nth_mem)
  have r: "reachable L d" and l: "locks_sound d (held_rows ps)" using assms(1) by (simp_all add: cluster_ok_def)
  have h: "row \<in> set (t_outbox d)" "open_event row"
    using l held_in_rows [OF in_ps, of row] by (auto simp: locks_sound_def)
  have "step L d d'" by (rule finish_event_step [OF reachable_unique [OF r] h assms(4)])
  with r have r': "reachable L d'" by (rule reachable.stepped)
  from finish_event_state [OF assms(4)] show ?thesis
  proof
    assume "d' = d"
    with cluster_ok_same [OF assms(1,2), of Idle] show ?thesis by simp
  next
    assume d': "d' = completed_db cfg env outcome row d"
    have "sent topic stored k y" if "is_published d' y" for y
      using that assms(1) in_ps completed_published [OF h] by (auto simp: cluster_ok_def d')
    moreover have "locks_sound d' (held_rows (ps[i := Idle]))" unfolding d' by (rule locks_finish [OF l assms(2,3)])
    moreover have "sent topic stored k (ev_id q)" if "Delivered q None \<in> set (ps[i := Idle])" for q
      using that set_update_other [of _ ps i Idle] assms(1) by (auto simp: cluster_ok_def)
    ultimately show ?thesis using r' by (simp add: cluster_ok_def)
  qed
qed

lemma cluster_ok_serve:
  assumes "cluster_ok L topic stored d k ps" and "service_step L d d'"
  shows "cluster_ok L topic stored d' k ps"
proof -
  obtain new where new: "t_outbox d' = t_outbox d @ new" "\<forall>r \<in> set new. ev_published_at r = None"
    using service_step_outbox [OF assms(2)] by blast
  then have "is_published d' x \<Longrightarrow> is_published d x" for x by (auto simp: is_published_def)
  then show ?thesis
    using reachable.stepped [OF _ service_step_step [OF assms(2)]] locks_append [OF _ new(1)] assms(1)
    by (auto simp: cluster_ok_def)
qed

lemma cluster_step_ok:
  assumes "cluster_step L topic stored (d, k, ps) (d', k', ps')" and "cluster_ok L topic stored d k ps"
  shows "cluster_ok L topic stored d' k' ps'"
  using assms(1)
proof (cases rule: cluster_step.cases)
  case (delivers i row produce outcome)
  note b = cluster_ok_broker [OF assms(2) delivers(5,6)]
  show ?thesis unfolding delivers(1,2)
    by (rule cluster_ok_same [OF b delivers(3)]) (use sent_now [OF delivers(5)] delivers(4,6) in auto)
next
  case (delivers_late i row produce outcome)
  note b = cluster_ok_broker [OF assms(2) delivers_late(5,6)]
  show ?thesis unfolding delivers_late(1,2) by (rule cluster_ok_same [OF b delivers_late(3)]) simp_all
next
  case (claims i env row)
  from cluster_ok_claim [OF assms(2) claims(4,5,6)] show ?thesis by (simp add: claims(1-3))
next
  case (finishes i row outcome cfg env x)
  from cluster_ok_finish [OF assms(2) finishes(3,4,5)] show ?thesis by (simp add: finishes(1,2))
next
  case (disconnects i row)
  from cluster_ok_same [OF assms(2) disconnects(4), of "Orphan row"] show ?thesis by (simp add: disconnects(1-3))
next
  case (crashes i)
  from cluster_ok_same [OF assms(2) crashes(4), of Idle] show ?thesis by (simp add: crashes(1-3))
next
  case serves
  from cluster_ok_serve [OF assms(2) serves(3)] show ?thesis by (simp add: serves(1,2))
qed

lemma cluster_reachable_ok: "cluster_reachable L topic stored s \<Longrightarrow> (case s of (d, k, ps) \<Rightarrow> cluster_ok L topic stored d k ps)"
proof (induction rule: cluster_reachable.induct)
  case (start k n)
  show ?case
    using reachable.initially [of L]
    by (auto simp: cluster_ok_def locks_sound_def is_published_def empty_db_def)
next
  case (more s s')
  then show ?case using cluster_step_ok by (cases s; cases s') fastforce
qed

section \<open>The deployment\<close>

text \<open>
  C3: publishers side by side.  However the steps of any number of publishers and of the other
  services interleave, and whenever publishers crash or lose their connection: the database is
  one that the services reach when every transaction runs alone; no two publishers hold the same
  event, and what they hold is stored and open; and an event is marked published only when a
  message with its ID is stored in the topic.
\<close>

theorem publishers_side_by_side:
  assumes "cluster_reachable L topic stored (d, k, ps)"
  shows "reachable L d \<and> distinct (map ev_id (held_rows ps))
    \<and> (\<forall>row \<in> set (held_rows ps). row \<in> set (t_outbox d) \<and> open_event row)
    \<and> (\<forall>x. is_published d x \<longrightarrow> (\<exists>m. stored k m \<and> carries topic x m))"
  using cluster_reachable_ok [OF assms] by (simp add: cluster_ok_def locks_sound_def sent_def)

text \<open>A created payment whose event the first of two publishers sends.\<close>

lemma sample_created_event:
  obtains d row where "service_step sample_lib empty_db d" "t_outbox d = [row]" "open_event row"
    "deliverable (scanNextEvent row)" "ev_delivery_attempts row = 0" "unique_by ev_id (t_outbox d)"
proof -
  obtain x d where r: "run_attempt sample_lib sample_attempt empty_db = (Inr x, d)" and re: "reachable sample_lib d"
    using sample_created by blast
  have key: "normalizeIdempotencyKey (at_key sample_attempt) = Inr ''key-1''"
    by (simp add: sample_attempt_fields sample_key)
  have "lookup_payment empty_db ''key-1'' = None" by (simp add: empty_lookup)
  from run_attempt_free [OF valid_empty sample_good_attempt key this r] have ne: "t_outbox d \<noteq> []" by auto
  have s: "service_step sample_lib empty_db d" by (rule service_step.created [OF sample_good_attempt r])
  from r obtain p ev where c: "create_payment sample_lib (at_pg sample_attempt) p ev empty_db = (Inr x, d)"
    by (cases rule: run_attempt_cases) auto
  have "d \<noteq> empty_db" using ne by (auto simp: empty_db_def)
  from create_payment_rows [OF c this] obtain row orow
    where d: "d = empty_db\<lparr>t_payments := t_payments empty_db @ [row], t_outbox := t_outbox empty_db @ [orow]\<rparr>"
      and e: "event_of ev orow" by blast
  have o: "t_outbox d = [orow]" by (simp add: d empty_db_def)
  have op: "open_event orow" "ev_delivery_attempts orow = 0" using e by (simp_all add: event_of_def open_event_def)
  have "deliverable (scanNextEvent orow)"
    using created_events_deliverable_witness op(1) by (auto simp: r is_waiting_def o)
  with that s o op reachable_unique [OF re] show thesis by blast
qed

theorem publishers_side_by_side_witness:
  "\<exists>d k (row :: outbox_row) m. cluster_reachable sample_lib ''payments.created'' (\<lambda>k m. m \<in> set k) (d, k, [Idle, Idle])
     \<and> is_published d (ev_id row) \<and> m \<in> set k \<and> carries ''payments.created'' (ev_id row) m"
proof -
  let ?step = "cluster_step sample_lib ''payments.created'' (\<lambda>k m. m \<in> set k)"
  let ?reach = "cluster_reachable sample_lib ''payments.created'' (\<lambda>k m. m \<in> set k)"
  obtain d row where s: "service_step sample_lib empty_db d" and o: "t_outbox d = [row]" and op: "open_event row"
    and dl: "deliverable (scanNextEvent row)" and at: "ev_delivery_attempts row = 0" and u: "unique_by ev_id (t_outbox d)"
    by (rule sample_created_event)
  let ?env = "healthy (ev_next_attempt_at row)"
  let ?m = "event_message ''payments.created'' (scanNextEvent row) (envelope_text sample_lib (scanNextEvent row))"
  let ?d = "completed_db sample_retry ?env None row d"
  have in_d: "row \<in> set (t_outbox d)" by (simp add: o)
  have "?reach (empty_db, [], replicate 2 Idle)" by (rule cluster_reachable.start)
  from cluster_reachable.more [OF this serves [OF s]] have 1: "?reach (d, [], [Idle, Idle])" by (simp add: numeral_2_eq_2)
  have "claim_event (row_locked [Idle, Idle]) ?env d = Inr row"
    by (rule claim_event_all) (simp_all add: o due_def op row_locked_def held_rows_def healthy_def)
  from cluster_reachable.more [OF 1 claims [OF _ _ this, of 0]]
  have 2: "?reach (d, [], [Holding row, Idle])" by simp
  have "publish sample_lib ''payments.created'' (\<lambda>m k. (None, k @ [m])) (scanNextEvent row) [] = (None, [?m])"
    using dl marshalEnvelope_eq(1) [of "scanNextEvent row" sample_lib]
    by (simp add: deliverable_def publish_def paymentsCreatedEventType_def)
  from cluster_reachable.more [OF 2 delivers [OF _ _ sample_acknowledging this, of 0]]
  have 3: "?reach (d, [?m], [Delivered row None, Idle])" by simp
  have "finish_event sample_retry ?env row None d = ((True, None), ?d)"
    using fits_row [OF u in_d] affected_open [OF u in_d op] at
    by (simp add: finish_event_def statement_no_fault Let_def markEventPublished_def scanNextEvent_def
        completed_db_def completion_def commit_no_fault int4_def)
  from cluster_reachable.more [OF 3 finishes [OF _ _ this, of 0]]
  have 4: "?reach (?d, [?m], [Idle, Idle])" by simp
  have p: "is_published ?d (ev_id row)" using completed_published [OF in_d op] by simp
  from publishers_side_by_side [OF 4] p obtain m where "m \<in> set [?m]" "carries ''payments.created'' (ev_id row) m"
    by blast
  with 4 p show ?thesis by (intro exI conjI)
qed

end
