(* ===== verification/Progress.thy ===== *)
theory Progress
  imports System
begin

text \<open>
  No payment is stuck: in every reachable database a payment that waits for its risk decision is
  moved by the next decision that the schema can store, and one that waits for a reviewer has
  exactly one open queue entry, which any reviewer can close.
\<close>

section \<open>What moves a payment\<close>

text \<open>A record with a storable decision for payment \<open>k\<close> whose IDs are not in use yet.\<close>

definition decides :: "'a pglib_scheme \<Rightarrow> string \<Rightarrow> decision_event \<Rightarrow> source_record \<Rightarrow> db \<Rightarrow> bool" where
  "decides L k ev r d \<longleftrightarrow>
     ParseEvent L (record_value r) = Inr ev \<and> dp_payment_id (dv_payload ev) = k \<and> acceptable L ev r d
     \<and> fetch coordinate (record_coordinate r) (t_receipts d) = None
     \<and> fetch dr_decision_id (dp_decision_id (dv_payload ev)) (t_decisions d) = None
     \<and> fetch dr_source_event_id (dp_source_event_id (dv_payload ev)) (t_decisions d) = None"

text \<open>A storable command for the queue entry in its current version, with a new audit ID.\<close>

definition closes :: "review_row \<Rightarrow> resolve_command \<Rightarrow> db \<Rightarrow> bool" where
  "closes q c d \<longleftrightarrow>
     storable_resolve c \<and> rc_payment_id c = rv_payment_id q \<and> rc_expected_version c = rv_version q
     \<and> fetch au_id (rc_audit_id c) (t_audits d) = None"

section \<open>A decision arrives\<close>

lemma pending_decided:
  assumes "consistent d" and "no_fault e1" and "decides L k ev r d"
    and "fetch pay_id k (t_payments d) = Some p" and "pay_status p = ''PENDING_RISK''"
  shows "\<exists>res d1 p1. pg_handle L e1 e2 r d = (Inr res, d1) \<and> hr_disposition res = dispositionApplied
    \<and> fetch pay_id k (t_payments d1) = Some p1
    \<and> paymentStatusForDecision L (dp_decision (dv_payload ev)) = Inr (pay_status p1)"
proof -
  have dec: "ParseEvent L (record_value r) = Inr ev" "dp_payment_id (dv_payload ev) = k" "acceptable L ev r d"
    using assms(3) by (simp_all add: decides_def)
  obtain res d1 where a: "Apply L e1 ev r d = (res, d1)" by (cases "Apply L e1 ev r d")
  have res: "res = Inr applied"
    using Apply_answer [OF assms(1,2) dec(3)] a assms(3-5) dec(2)
    by (simp add: apply_answer_def Let_def decides_def)
  from a have "decision_effect L e1 ev r d d1"
    by (cases rule: Apply_effect) (use res assms(3) in \<open>simp_all add: applied_def replayed_def decides_def\<close>)
  then obtain fp drow status where drow: "decision_row_of (pg_clock e1 6) ev fp = Some drow"
    and st: "paymentStatusForDecision L (dr_decision drow) = Inr status"
    and ps: "t_payments d1 = update_rows (pending_payment (dr_payment_id drow))
          (\<lambda>p. p\<lparr>pay_status := status, updated_at := timestamptz (pg_clock e1 7)\<rparr>) (t_payments d)"
    unfolding decision_effect_def by (elim exE conjE) (rule that, assumption+, simp)
  have "storable_decision ev" using dec(3) by (simp add: acceptable_def)
  then have "uuid_in (dp_payment_id (dv_payload ev)) = Some (dp_payment_id (dv_payload ev))" by (rule storable_uuids)
  then have "dr_payment_id drow = k"
    using drow dec(2) by (auto simp: decision_row_of_def Let_def split: option.splits)
  moreover have "pay_id p = k" using assms(4) by (auto dest: fetch_SomeD)
  ultimately have "fetch pay_id k (t_payments d1)
      = Some (p\<lparr>pay_status := status, updated_at := timestamptz (pg_clock e1 7)\<rparr>)"
    using assms(4,5) by (simp add: ps fetch_update_rows pending_payment_def)
  moreover have "pg_handle L e1 e2 r d = (Inr (event_result dispositionApplied ev), d1)"
    using dec(1) a res by (simp add: pg_handle_def handle_def applied_def)
  moreover have "paymentStatusForDecision L (dp_decision (dv_payload ev)) = Inr status"
    using st decision_row_decision [OF drow] by simp
  ultimately show ?thesis by (force simp: event_result_def)
qed

section \<open>A reviewer decides\<close>

lemma review_pending:
  assumes "consistent d" and "fetch pay_id k (t_payments d) = Some p" and "pay_status p = ''REVIEW''"
  obtains q where "fetch rv_payment_id k (t_reviews d) = Some q" "rv_status q = ''PENDING''"
proof -
  have p: "p \<in> set (t_payments d)" "pay_id p = k" using assms(2) by (auto dest: fetch_SomeD)
  then have "status_agrees d p" using assms(1) by (simp add: consistent_def)
  then obtain r where r: "fetch dr_payment_id k (t_decisions d) = Some r"
    and e: "expected_status (dr_decision r) (review_status d (dr_decision_id r)) = Some ''REVIEW''"
    using assms(3) p(2) by (auto simp: status_agrees_def split: option.splits)
  have rin: "r \<in> set (t_decisions d)" "dr_payment_id r = k" using r by (auto dest: fetch_SomeD)
  have "dr_decision r = ''REVIEW''" using e by (auto simp: expected_status_def split: if_splits)
  then have "review_status d (dr_decision_id r) \<noteq> None"
    using assms(1) rin(1) by (auto simp: consistent_def reviews_agree_def)
  then obtain q where q: "fetch rv_decision_id (dr_decision_id r) (t_reviews d) = Some q"
    by (auto simp: review_status_def)
  have qin: "q \<in> set (t_reviews d)" "rv_decision_id q = dr_decision_id r" using q by (auto dest: fetch_SomeD)
  have "rv_status q \<noteq> ''APPROVED'' \<and> rv_status q \<noteq> ''REJECTED''"
    using e q by (auto simp: expected_status_def review_status_def split: if_splits)
  moreover have "resolution_shape q"
    using assms(1) qin(1) by (auto simp: consistent_def valid_db_def valid_reviews_def review_checks_def)
  ultimately have st: "rv_status q = ''PENDING''" by (auto simp: resolution_shape_def)
  obtain r' where r': "r' \<in> set (t_decisions d)" "dr_decision_id r' = rv_decision_id q" "dr_payment_id r' = rv_payment_id q"
    using assms(1) qin(1) by (auto simp: consistent_def reviews_agree_def)
  have u: "unique_by dr_decision_id (t_decisions d)" "unique_by rv_payment_id (t_reviews d)"
    using assms(1) by (simp_all add: consistent_def valid_db_def valid_decisions_def valid_reviews_def)
  have "r' = r" using unique_byD [OF u(1) r'(1) rin(1)] r'(2) qin(2) by simp
  then have "rv_payment_id q = k" using r'(3) rin(2) by simp
  with fetch_unique [OF u(2) qin(1)] st that show thesis by simp
qed

lemma pending_fresh_audit:
  assumes "audited d" and "fetch rv_payment_id k (t_reviews d) = Some q" and "rv_status q = ''PENDING''"
    and "closes q c d"
  shows "fresh_audit c d"
proof -
  have q: "q \<in> set (t_reviews d)" "rv_payment_id q = k" using assms(2) by (auto dest: fetch_SomeD)
  then have "(manual_event (rc_action c), rv_decision_id q) \<notin> audit_keys d"
    using assms(1,3) by (auto simp: audited_def manual_event_def)
  then have "fetch audit_key (manual_event (rc_action c), rv_decision_id q) (t_audits d) = None"
    by (auto simp: fetch_None_iff audit_keys_def)
  with assms(2,4) q(2) show ?thesis by (auto simp: fresh_audit_def closes_def)
qed

lemma review_closed:
  assumes "consistent d" and "audited d" and "jsonb_accepts L" and "no_fault env"
    and "fetch pay_id k (t_payments d) = Some p" and "pay_status p = ''REVIEW''"
    and "fetch rv_payment_id k (t_reviews d) = Some q" and "rv_status q = ''PENDING''" and "closes q c d"
  shows "\<exists>it d1 p1. Resolve L env c d = (Inr it, d1) \<and> fetch pay_id k (t_payments d1) = Some p1
    \<and> pay_status p1 = (if rc_action c = ActionApprove then ''ALLOWED'' else ''BLOCKED'')"
proof -
  have c: "storable_resolve c" "rc_payment_id c = k" "rv_version q = rc_expected_version c"
    using assms(7,9) by (auto simp: closes_def dest: fetch_SomeD)
  note fresh = pending_fresh_audit [OF assms(2,7,8,9)]
  obtain res d1 where r: "Resolve L env c d = (res, d1)" by (cases "Resolve L env c d")
  obtain p0 r0 where pr: "fetch pay_id (rv_payment_id q) (t_payments d) = Some p0"
    "fetch dr_decision_id (rv_decision_id q) (t_decisions d) = Some r0"
    using pending_review_payment [OF assms(1) _ assms(8)] assms(7) by (metis fetch_SomeD)
  have "res = resolve_answer c d"
    using resolve_success [OF assms(1,4,3) c(1) fresh _ assms(8) c(3)] assms(7) c(2) r by simp
  then obtain it where it: "res = Inr it"
    using assms(7,8) c(2,3) pr by (auto simp: resolve_answer_def Let_def split: if_splits)
  from r have "resolve_effect L c d d1" by (cases rule: Resolve_effect) (use it in simp_all)
  then obtain q' :: review_row and st pst evt where e: "actionState L (rc_action c) = Inr (st, pst, evt)"
    and q': "uuid_in (rc_payment_id c) = Some (rv_payment_id q')"
    and ps: "t_payments d1 = update_rows (reviewed_payment (rv_payment_id q'))
        (\<lambda>p. p\<lparr>pay_status := pst, updated_at := timestamptz (rc_resolved_at c)\<rparr>) (t_payments d)"
    unfolding resolve_effect_def by (elim exE conjE) (rule that, assumption+, simp)
  have "rv_payment_id q' = k"
    using q' c(1,2) by (simp add: storable_resolve_def uuid_in_of_canonical)
  moreover have "pay_id p = k" using assms(5) by (auto dest: fetch_SomeD)
  ultimately have "fetch pay_id k (t_payments d1) = Some (p\<lparr>pay_status := pst, updated_at := timestamptz (rc_resolved_at c)\<rparr>)"
    using assms(5,6) by (simp add: ps fetch_update_rows reviewed_payment_def)
  moreover have "pst = (if rc_action c = ActionApprove then ''ALLOWED'' else ''BLOCKED'')"
    using e by (auto simp: actionState_def review_constants split: if_splits)
  ultimately show ?thesis using r it by auto
qed

lemma reachable_statuses:
  assumes "consistent d" and "fetch pay_id k (t_payments d) = Some p"
  shows "pay_status p \<in> {''PENDING_RISK'', ''REVIEW'', ''ALLOWED'', ''BLOCKED''}"
proof -
  have "status_agrees d p" using assms by (auto simp: consistent_def dest: fetch_SomeD)
  then show ?thesis by (auto simp: status_agrees_def expected_status_def split: option.splits if_splits)
qed

section \<open>An example from the request to the final status\<close>

definition sample_entropy :: "byte8 list" where
  "sample_entropy = [0x0F, 0x8F, 0xAD, 0x5B, 0xD9, 0xCB, 0x46, 0x9F, 0xA1, 0x65, 0x70, 0x86, 0x77, 0x28, 0x95, 0x0E]"

definition flow_service :: service_env where
  "flow_service = \<lparr>se_random = (\<lambda>_. Inr sample_entropy), se_now = \<lparr>wall = 5000000, zone = 0\<rparr>\<rparr>"

definition flow_attempt :: attempt where
  "flow_attempt = sample_attempt\<lparr>at_service := flow_service\<rparr>"

lemma sample_entropy_uuid: "new_uuid (Inr sample_entropy) = Inr sample_uuid"
  by (simp add: new_uuid_def sample_entropy_def stamp_v4_def format_uuid_def sample_uuid_def hex_bytes_def
      hex_encode_def hex_byte_def hex_digit_def char_of_eq_iff byte_def)

lemma flow_random: "all_random flow_service" "good_random flow_service"
  by (simp_all add: all_random_def good_random_def flow_service_def sample_entropy_def)

lemma flow_good: "good_attempt flow_attempt"
  using sample_good_attempt flow_random(2) by (simp add: good_attempt_def flow_attempt_def)

lemma flow_created:
  obtains x p orow d where "run_attempt sample_lib flow_attempt empty_db = (Inr x, d)"
    and "d = empty_db\<lparr>t_payments := [p], t_outbox := [orow]\<rparr>" and "pay_id p = sample_uuid"
    and "pay_status p = ''PENDING_RISK''"
proof -
  obtain p ev where p: "prepare_create sample_lib flow_service \<lparr>request_id = None\<rparr> ''key-1'' sample_request
      = Inr (p, ev)"
    by (rule prepare_create_ok [OF flow_random(1) sample_key, of sample_lib sample_request])
       (simp_all add: sample_normalized sample_request_valid flow_service_def time_marshals_utc json_year_def)
  note f = prepare_create_fields [OF p flow_random(2) sample_environment(3)]
  have k: "idempotency_key p = ''key-1''" using f(4) sample_key by simp
  have "pg_text ''key-1''" by (simp add: plain_pg_text plain_text_def byte_def)
  with prepared_checks [OF p flow_random(2) sample_environment(3,2)] k
  have c: "holds (payment_checks (as_stored p))" by (simp add: sample_normalized sample_request_valid)
  have "event_ok sample_lib ev empty_db"
    using f(1,8-13) created_payload_accepted [OF sample_jsonb sample_time_plain f(1) c] empty_lookup(3)
    by (simp add: event_ok_def plain_varchar plain_text_def PaymentCreated_def byte_def int4_def)
  from create_payment_ok [OF no_fault_healthy _ f(1) c _ this f(8), of zero_time] k empty_lookup(1,2)
  have r: "fst (create_payment sample_lib (healthy zero_time) p ev empty_db)
      = Inr \<lparr>cr_payment = as_stored p, cr_replayed = False\<rparr>" by (simp add: payment_exists_def)
  obtain d where d: "create_payment sample_lib (healthy zero_time) p ev empty_db
      = (Inr \<lparr>cr_payment = as_stored p, cr_replayed = False\<rparr>, d)"
    using r by (cases "create_payment sample_lib (healthy zero_time) p ev empty_db") auto
  have "d \<noteq> empty_db"
    using pg_payments.create_returns [OF valid_empty foreign_no_fault [OF no_fault_healthy] f(1-3) d] by (auto simp: empty_lookup)
  from create_payment_rows [OF d this] obtain row orow where
    rows: "d = empty_db\<lparr>t_payments := [row], t_outbox := [orow]\<rparr>"
      "uuid_in (pay_id p) = Some (pay_id row)" "as_stored (p\<lparr>pay_id := pay_id row\<rparr>) = row"
    by (auto simp: empty_lookup)
  have "pay_id p = sample_uuid"
    using p sample_entropy_uuid by (auto simp: prepare_create_Inr flow_service_def candidate_payment_def)
  then have i: "pay_id row = sample_uuid"
    using rows(2) sample_uuid_canonical by (simp add: uuid_in_of_canonical)
  have "pay_status row = pay_status (as_stored (p\<lparr>pay_id := pay_id row\<rparr>))" by (simp only: rows(3))
  then have "pay_status row = ''PENDING_RISK''" using f(7) by (simp add: as_stored_def StatusPendingRisk_def)
  moreover have "run_attempt sample_lib flow_attempt empty_db
      = (Inr \<lparr>cr_payment = as_stored p, cr_replayed = False\<rparr>, d)"
    using p d by (simp add: run_attempt_def service_create_def flow_attempt_def sample_attempt_def)
  ultimately show thesis using that rows(1) i by blast
qed

text \<open>Its decision is REVIEW: afterwards there is one audit event, and one open entry of version 1.\<close>

lemma flow_entry:
  assumes "pg_handle sample_lib e1 e2 sample_kafka d = (Inr res, d1)" and "hr_disposition res = dispositionApplied"
    and "d = empty_db\<lparr>t_payments := [p], t_outbox := [orow]\<rparr>"
  shows "\<exists>arow. t_audits d1 = [arow] \<and> (\<forall>q \<in> set (t_reviews d1). rv_version q = 1)"
proof -
  obtain a d2 where a: "Apply sample_lib e1 sample_decision sample_kafka d = (a, d2)"
    by (cases "Apply sample_lib e1 sample_decision sample_kafka d")
  have ok: "(\<exists>x. a = Inr x \<and> \<not> ar_replayed x) \<and> d2 = d1"
    using assms(1,2) a sample_kafka_fields(3)
    by (auto simp: pg_handle_def handle_def event_result_def dispositionApplied_def dispositionReplayed_def
        dispositionRejected_def split: sum.splits prod.splits if_splits)
  from a show ?thesis
  proof (cases rule: Apply_cases)
    case (new fp)
    show ?thesis
    proof (rule write_decision_Inr [OF new(3,1)])
      fix drow :: decision_row and arow :: audit_row and rrow :: receipt_row and status and revs :: "review_row list"
      assume w: "revs = (if dp_decision (dv_payload sample_decision) = ''REVIEW''
             then [\<lparr>rv_payment_id = dr_payment_id drow, rv_decision_id = dr_decision_id drow,
                    rv_status = ''PENDING'', rv_version = 1,
                    rv_enqueued_at = dr_decision_at drow, rv_resolved_at = None,
                    rv_reviewer_id = None, rv_resolution_reason = None\<rparr>] else [])"
        "d2 = d\<lparr>t_payments := update_rows (pending_payment (dr_payment_id drow))
               (\<lambda>p. p\<lparr>pay_status := status, updated_at := timestamptz (pg_clock e1 7)\<rparr>) (t_payments d),
            t_decisions := t_decisions d @ [drow], t_receipts := t_receipts d @ [rrow],
            t_audits := t_audits d @ [arow], t_reviews := t_reviews d @ revs\<rparr>"
      have "t_audits d1 = [arow]" "t_reviews d1 = revs"
        using ok w(2) assms(3) by (auto simp: empty_db_def)
      then show ?thesis using w(1) by auto
    qed
  qed (use ok in \<open>auto simp: replayed_def\<close>)
qed

text \<open>
  C11: no payment is stuck.  In every database that the services can reach, a stored payment is
  PENDING_RISK, REVIEW, ALLOWED or BLOCKED.  While it is PENDING_RISK, the first healthy attempt to
  handle a record that carries a storable decision for it (one that the columns and \<open>json.Marshal\<close>
  accept, so of a UTC year 0 to 9999), with IDs that are not in use, applies
  that decision and gives the payment the status of the decision.  While it is REVIEW, there is an
  open entry in the queue, and every storable command for the version it shows is answered with the
  resolved item and makes the payment ALLOWED or BLOCKED as the reviewer chose.
\<close>

theorem payment_never_stuck:
  assumes "reachable L d" and "jsonb_accepts L" and "fetch pay_id k (t_payments d) = Some p"
  shows "pay_status p \<in> {''PENDING_RISK'', ''REVIEW'', ''ALLOWED'', ''BLOCKED''}
    \<and> (pay_status p = ''PENDING_RISK'' \<longrightarrow>
        (\<forall>r ev e1 e2. no_fault e1 \<and> decides L k ev r d \<longrightarrow>
          (\<exists>res d1 p1. pg_handle L e1 e2 r d = (Inr res, d1) \<and> hr_disposition res = dispositionApplied
             \<and> fetch pay_id k (t_payments d1) = Some p1
             \<and> paymentStatusForDecision L (dp_decision (dv_payload ev)) = Inr (pay_status p1))))
    \<and> (pay_status p = ''REVIEW'' \<longrightarrow>
        (\<exists>q. fetch rv_payment_id k (t_reviews d) = Some q \<and> rv_status q = ''PENDING''
          \<and> (\<forall>c env. no_fault env \<and> closes q c d \<longrightarrow>
              (\<exists>it d1 p1. Resolve L env c d = (Inr it, d1) \<and> fetch pay_id k (t_payments d1) = Some p1
                 \<and> pay_status p1 = (if rc_action c = ActionApprove then ''ALLOWED'' else ''BLOCKED'')))))"
proof -
  have inv: "consistent d" "audited d" using reachable_invariant [OF assms(1)] by blast+
  show ?thesis
  proof (intro conjI impI)
    show "pay_status p \<in> {''PENDING_RISK'', ''REVIEW'', ''ALLOWED'', ''BLOCKED''}"
      by (rule reachable_statuses [OF inv(1) assms(3)])
  next
    assume "pay_status p = ''PENDING_RISK''"
    with pending_decided [OF inv(1) _ _ assms(3)]
    show "\<forall>r ev e1 e2. no_fault e1 \<and> decides L k ev r d \<longrightarrow>
        (\<exists>res d1 p1. pg_handle L e1 e2 r d = (Inr res, d1) \<and> hr_disposition res = dispositionApplied
           \<and> fetch pay_id k (t_payments d1) = Some p1
           \<and> paymentStatusForDecision L (dp_decision (dv_payload ev)) = Inr (pay_status p1))" by blast
  next
    assume r: "pay_status p = ''REVIEW''"
    obtain q where q: "fetch rv_payment_id k (t_reviews d) = Some q" "rv_status q = ''PENDING''"
      by (rule review_pending [OF inv(1) assms(3) r])
    with review_closed [OF inv assms(2) _ assms(3) r q]
    show "\<exists>q. fetch rv_payment_id k (t_reviews d) = Some q \<and> rv_status q = ''PENDING''
        \<and> (\<forall>c env. no_fault env \<and> closes q c d \<longrightarrow>
            (\<exists>it d1 p1. Resolve L env c d = (Inr it, d1) \<and> fetch pay_id k (t_payments d1) = Some p1
               \<and> pay_status p1 = (if rc_action c = ActionApprove then ''ALLOWED'' else ''BLOCKED'')))" by blast
  qed
qed

lemma flow_reachable:
  assumes "run_attempt sample_lib flow_attempt empty_db = (Inr x, d)"
  shows "reachable sample_lib d"
  using step.created [OF flow_good assms] reachable.stepped [OF reachable.initially] by blast

lemma flow_decides:
  assumes "d = empty_db\<lparr>t_payments := [p], t_outbox := [orow]\<rparr>"
  shows "decides sample_lib sample_uuid sample_decision sample_kafka d"
  using assms sample_kafka_fields sample_environment(2) sample_jsonb sample_decision_storable
  by (simp add: decides_def acceptable_def) (simp add: empty_db_def sample_decision_def)

text \<open>A reviewer approves; one of two audit IDs is not in use.\<close>

lemma flow_closes:
  assumes "t_audits d = [arow]" and "rv_version q = 1" and "rv_payment_id q = sample_uuid"
  obtains c where "closes q c d" and "rc_action c = ActionApprove"
proof -
  define u where "u = format_uuid [0, 0, 0, 0, 0, 0, 0, 0, 0, 0, 0, 0, 0, 0, 0, 0]"
  have cu: "canonical_uuid u" unfolding u_def by (rule format_uuid_canonical) simp
  have "u = ''00000000-0000-0000-0000-000000000000''"
    by (simp add: u_def format_uuid_def hex_bytes_def hex_encode_def hex_byte_def hex_digit_def char_of_eq_iff byte_def)
  then have ne: "u \<noteq> sample_uuid" by (auto simp: sample_uuid_def)
  define c where "c = sample_resolve\<lparr>rc_audit_id := (if au_id arow = sample_uuid then u else sample_uuid)\<rparr>"
  have "storable_resolve c"
    using sample_resolve_storable cu sample_uuid_canonical by (auto simp: storable_resolve_def c_def)
  moreover have "fetch au_id (rc_audit_id c) (t_audits d) = None"
    using assms(1) ne by (auto simp: fetch_Cons c_def)
  ultimately show thesis
    using that [of c] assms(2,3) by (simp add: closes_def c_def sample_resolve_def ActionApprove_def)
qed

theorem payment_never_stuck_witness:
  "\<exists>x d res d1 c it d2 p.
     run_attempt sample_lib flow_attempt empty_db = (Inr x, d)
     \<and> pg_handle sample_lib (healthy zero_time) (healthy zero_time) sample_kafka d = (Inr res, d1)
     \<and> Resolve sample_lib (healthy zero_time) c d1 = (Inr it, d2)
     \<and> fetch pay_id sample_uuid (t_payments d2) = Some p \<and> pay_status p = ''ALLOWED''"
proof -
  obtain x p orow d where x: "run_attempt sample_lib flow_attempt empty_db = (Inr x, d)"
    and d: "d = empty_db\<lparr>t_payments := [p], t_outbox := [orow]\<rparr>" "pay_id p = sample_uuid" "pay_status p = ''PENDING_RISK''"
    by (rule flow_created)
  have f: "fetch pay_id sample_uuid (t_payments d) = Some p" using d by (simp add: fetch_Cons)
  obtain res d1 p1 where h: "pg_handle sample_lib (healthy zero_time) (healthy zero_time) sample_kafka d = (Inr res, d1)"
    "hr_disposition res = dispositionApplied" "fetch pay_id sample_uuid (t_payments d1) = Some p1"
    "paymentStatusForDecision sample_lib (dp_decision (dv_payload sample_decision)) = Inr (pay_status p1)"
    using payment_never_stuck [OF flow_reachable [OF x] sample_jsonb f] d(3) flow_decides [OF d(1)] no_fault_healthy
    by blast
  have r1: "reachable sample_lib d1"
    using reachable.stepped [OF flow_reachable [OF x] step.consumed [OF h(1)]] .
  have "pay_status p1 = ''REVIEW''"
    using h(4) by (simp add: paymentStatusForDecision_def sample_decision_def DecisionAllow_def DecisionReview_def)
  then obtain q where q: "fetch rv_payment_id sample_uuid (t_reviews d1) = Some q"
    and close: "\<And>c env. no_fault env \<Longrightarrow> closes q c d1 \<Longrightarrow>
        \<exists>it d2 p2. Resolve sample_lib env c d1 = (Inr it, d2) \<and> fetch pay_id sample_uuid (t_payments d2) = Some p2
          \<and> pay_status p2 = (if rc_action c = ActionApprove then ''ALLOWED'' else ''BLOCKED'')"
    using payment_never_stuck [OF r1 sample_jsonb h(3)] by blast
  obtain arow where a: "t_audits d1 = [arow]" "\<forall>q \<in> set (t_reviews d1). rv_version q = 1"
    using flow_entry [OF h(1,2) d(1)] by blast
  have "q \<in> set (t_reviews d1)" "rv_payment_id q = sample_uuid" using q by (auto dest: fetch_SomeD)
  then obtain c where "closes q c d1" "rc_action c = ActionApprove"
    using flow_closes [OF a(1)] a(2) by blast
  with close [OF no_fault_healthy] x h(1) show ?thesis by fastforce
qed

end
