(* ===== verification/History.thy ===== *)
theory History
  imports System "HOL-Library.Sublist"
begin

text \<open>
  The database never forgets.  The migrations put triggers on the tables of decisions, receipts and
  audit events that refuse every UPDATE and DELETE; \<open>immutable_kept\<close> is what they let pass.  No
  statement of the services is refused by them, and the other tables keep their rows in place too:
  only the columns that a service owns change, and never again once an event is finished or a
  queue entry is resolved.
\<close>

section \<open>What stays of a row\<close>

text \<open>The triggers of 000003\<open>_\<close>risk\<open>_\<close>decision\<open>_\<close>persistence.up.sql: rows may only be added.\<close>

definition immutable_kept :: "db \<Rightarrow> db \<Rightarrow> bool" where
  "immutable_kept d d' \<longleftrightarrow>
     prefix (t_decisions d) (t_decisions d') \<and> prefix (t_receipts d) (t_receipts d')
     \<and> prefix (t_audits d) (t_audits d')"

text \<open>A row without the columns that a later statement may set.\<close>

definition order_core :: "payment \<Rightarrow> payment" where
  "order_core p = p\<lparr>pay_status := [], updated_at := zero_time\<rparr>"

definition event_core :: "outbox_row \<Rightarrow> outbox_row" where
  "event_core r = r\<lparr>ev_published_at := None, ev_delivery_attempts := 0, ev_next_attempt_at := zero_time,
     ev_last_attempt_at := None, ev_last_error := None, ev_dead_lettered_at := None\<rparr>"

definition entry_core :: "review_row \<Rightarrow> review_row" where
  "entry_core q = q\<lparr>rv_status := [], rv_version := 0, rv_resolved_at := None, rv_reviewer_id := None,
     rv_resolution_reason := None\<rparr>"

definition history_kept :: "db \<Rightarrow> db \<Rightarrow> bool" where
  "history_kept d d' \<longleftrightarrow>
     immutable_kept d d'
     \<and> prefix (map order_core (t_payments d)) (map order_core (t_payments d'))
     \<and> prefix (map event_core (t_outbox d)) (map event_core (t_outbox d'))
     \<and> prefix (map entry_core (t_reviews d)) (map entry_core (t_reviews d'))
     \<and> (\<forall>r \<in> set (t_outbox d). \<not> open_event r \<longrightarrow> r \<in> set (t_outbox d'))
     \<and> (\<forall>q \<in> set (t_reviews d). rv_status q \<noteq> ''PENDING'' \<longrightarrow> q \<in> set (t_reviews d'))"

lemma history_refl [simp]: "history_kept d d"
  by (simp add: history_kept_def immutable_kept_def)

lemma history_trans: "history_kept d1 d2 \<Longrightarrow> history_kept d2 d3 \<Longrightarrow> history_kept d1 d3"
  unfolding history_kept_def immutable_kept_def by (meson prefix_order.trans)

section \<open>The statements\<close>

lemma history_completed: "history_kept d (completed_db cfg env outcome row d)"
proof -
  have "event_core (completion n a b outcome r) = event_core r" for n a b r
    by (cases outcome) (simp_all add: completion_def published_row_def failed_row_def event_core_def)
  then have "map event_core (t_outbox (completed_db cfg env outcome row d)) = map event_core (t_outbox d)"
    by (simp add: completed_db_def update_outbox_def map_update_rows)
  then show ?thesis using completed_frozen by (auto simp: history_kept_def immutable_kept_def)
qed

lemma history_receipts: "d' = d\<lparr>t_receipts := t_receipts d @ new\<rparr> \<Longrightarrow> history_kept d d'"
  by (simp add: history_kept_def immutable_kept_def)

lemma order_core_status:
  "map order_core (update_rows h (\<lambda>p. p\<lparr>pay_status := s, updated_at := t\<rparr>) ps) = map order_core ps"
  by (rule map_update_rows) (simp add: order_core_def)

lemma history_decision:
  assumes "decision_effect L env ev r d d1"
  shows "history_kept d d1" and "history_kept d (d1\<lparr>t_receipts := t_receipts d @ new\<rparr>)"
proof -
  from assms obtain drow :: decision_row and arow :: audit_row and rrow :: receipt_row and revs status
    where "d1 = d\<lparr>t_payments := update_rows (pending_payment (dr_payment_id drow))
                   (\<lambda>p. p\<lparr>pay_status := status, updated_at := timestamptz (pg_clock env 7)\<rparr>) (t_payments d),
                t_decisions := t_decisions d @ [drow], t_receipts := t_receipts d @ [rrow],
                t_audits := t_audits d @ [arow], t_reviews := t_reviews d @ revs\<rparr>"
    unfolding decision_effect_def by (elim exE conjE) (rule that, assumption)
  then show "history_kept d d1" and "history_kept d (d1\<lparr>t_receipts := t_receipts d @ new\<rparr>)"
    by (simp_all add: history_kept_def immutable_kept_def order_core_status)
qed

lemma history_resolve:
  assumes "resolve_effect L c d d'" and "unique_by rv_payment_id (t_reviews d)"
  shows "history_kept d d'"
proof -
  from assms(1) obtain q :: review_row and st pst and arow :: audit_row
    where q: "fetch rv_payment_id (rv_payment_id q) (t_reviews d) = Some q" "rv_status q = ''PENDING''"
    and d': "d' = d\<lparr>t_payments := update_rows (reviewed_payment (rv_payment_id q))
                   (\<lambda>p. p\<lparr>pay_status := pst, updated_at := timestamptz (rc_resolved_at c)\<rparr>) (t_payments d),
                t_audits := t_audits d @ [arow],
                t_reviews := update_rows (\<lambda>r. rv_payment_id r = rv_payment_id q) (resolve_row st c) (t_reviews d)\<rparr>"
    unfolding resolve_effect_def by (elim exE conjE) (rule that, assumption+)
  have "map entry_core (update_rows h (resolve_row st c) qs) = map entry_core qs" for h qs
    by (rule map_update_rows) (simp add: entry_core_def resolve_row_def)
  moreover have "x \<in> set (t_reviews d')" if x: "x \<in> set (t_reviews d)" "rv_status x \<noteq> ''PENDING''" for x
  proof -
    have "q \<in> set (t_reviews d)" using q(1) by (auto dest: fetch_SomeD)
    then have "rv_payment_id x \<noteq> rv_payment_id q" using unique_byD [OF assms(2) x(1)] x(2) q(2) by auto
    then show ?thesis using x(1) by (auto simp: d' set_update_rows intro: rev_image_eqI)
  qed
  ultimately show ?thesis by (simp add: d' history_kept_def immutable_kept_def order_core_status)
qed

lemma step_history:
  assumes "step L d d'" and "consistent d"
  shows "history_kept d d'"
  using assms(1)
proof (cases rule: step.cases)
  case (created a r)
  from created(2) show ?thesis
  proof (cases rule: run_attempt_cases)
    case (2 p ev)
    show ?thesis
    proof (cases "d' = d")
      case False
      from create_payment_rows [OF 2(2) False] obtain row orow
        where "d' = d\<lparr>t_payments := t_payments d @ [row], t_outbox := t_outbox d @ [orow]\<rparr>" by blast
      then show ?thesis by (simp add: history_kept_def immutable_kept_def)
    qed simp
  qed simp
next
  case (published cfg locked env deliver k x k')
  from ProcessNext_state [OF published] show ?thesis using history_completed by auto
next
  case (consumed e1 e2 src r)
  then show ?thesis
  proof (cases rule: pg_handle_effect)
    case (1 ev d1 r1)
    obtain new where n: "d' = d1\<lparr>t_receipts := t_receipts d1 @ new\<rparr>" using 1(2) by blast
    from 1(1) have "history_kept d d1" by (cases rule: Apply_step) (use history_receipts history_decision(1) in blast)+
    with history_receipts [OF n] show ?thesis by (rule history_trans [rotated])
  qed (use history_receipts in blast)
next
  case (resolved a r)
  have u: "unique_by rv_payment_id (t_reviews d)"
    using assms(2) by (simp add: consistent_def valid_db_def valid_reviews_def)
  from resolved show ?thesis by (cases rule: run_review_effect) (use history_resolve [OF _ u] in auto)
qed

lemma steps_history:
  assumes "(step L)\<^sup>*\<^sup>* d d'" and "consistent d"
  shows "history_kept d d'"
proof -
  from assms have "consistent d' \<and> history_kept d d'"
    by (induction rule: rtranclp_induct) (auto intro: history_trans step_consistent step_history)
  then show ?thesis by simp
qed

section \<open>Properties\<close>

text \<open>
  C7: nothing is ever rewritten.  From any reachable database on, whatever the services do, the
  tables of decisions, receipts and audit events only grow, so the triggers that refuse UPDATE and
  DELETE on them never fire; payments, outbox events and queue entries stay in place with all
  columns that identify them; an event that is published or quarantined and a queue entry that is
  resolved never change again.
\<close>

theorem history_append_only:
  assumes "reachable L d" and "(step L)\<^sup>*\<^sup>* d d'"
  shows "history_kept d d'"
  using steps_history [OF assms(2)] reachable_invariant [OF assms(1)] by blast

theorem history_append_only_witness:
  "\<exists>x d. run_attempt sample_lib sample_attempt empty_db = (Inr x, d) \<and> reachable sample_lib d
     \<and> (\<forall>d'. (step sample_lib)\<^sup>*\<^sup>* d d' \<longrightarrow> prefix (t_audits d) (t_audits d'))"
  using sample_created history_append_only [of sample_lib] unfolding history_kept_def immutable_kept_def by blast

end
