(* ===== verification/Decision_Concurrent.thy ===== *)
theory Decision_Concurrent
  imports Progress History
begin

text \<open>
  Several decision consumers on one database: after a rebalance of the consumer group, or when an
  attempt has timed out, two processes handle the same Kafka record at once.  \<open>Apply\<close> and \<open>Reject\<close>
  (decision/postgres_store.go) look for a receipt first and take the row lock of the payment, or
  insert, afterwards; other transactions commit in between, so the lookup may be out of date.  From
  SELECT ... FOR UPDATE on a transaction is one step: others that touch its payment wait for it, and
  an insert of its own that another transaction has made impossible fails, which the environment
  covers.
\<close>

section \<open>Consumers side by side\<close>

text \<open>
  Where a consumer is: between records; with an event whose record had no receipt, waiting for
  the payment's lock; or about to insert the receipt of a refused record.
\<close>

datatype consumer = Polling | Applying decision_event source_record string | Refusing source_record string go_error

inductive consumer_step :: "'a pglib_scheme \<Rightarrow> db \<times> consumer list \<Rightarrow> db \<times> consumer list \<Rightarrow> bool" for L where
  checks: "i < length cs \<Longrightarrow> cs ! i = Polling \<Longrightarrow> ParseEvent L (record_value r) = Inr ev
     \<Longrightarrow> apply_check L env ev r d = Inr fp \<Longrightarrow> consumer_step L (d, cs) (d, cs[i := Applying ev r fp])"
| applies: "i < length cs \<Longrightarrow> cs ! i = Applying ev r fp \<Longrightarrow> apply_locked L env ev fp r d = (res, d')
     \<Longrightarrow> consumer_step L (d, cs) (d', cs[i := Polling])"
| refuses: "i < length cs \<Longrightarrow> cs ! i = Polling \<Longrightarrow> reject_check L env r code d = None
     \<Longrightarrow> consumer_step L (d, cs) (d, cs[i := Refusing r code err])"
| records: "i < length cs \<Longrightarrow> cs ! i = Refusing r code err \<Longrightarrow> reject_insert L env r code err d = (res, d')
     \<Longrightarrow> consumer_step L (d, cs) (d', cs[i := Polling])"
| crashes: "i < length cs \<Longrightarrow> consumer_step L (d, cs) (d, cs[i := Polling])"
| serves: "step L d d' \<Longrightarrow> consumer_step L (d, cs) (d', cs)"

inductive consumers_reachable :: "'a pglib_scheme \<Rightarrow> db \<times> consumer list \<Rightarrow> bool" for L where
  start: "consumers_reachable L (empty_db, replicate n Polling)"
| more: "consumers_reachable L s \<Longrightarrow> consumer_step L s s' \<Longrightarrow> consumers_reachable L s'"

section \<open>The invariant\<close>

definition consumers_ok :: "'a pglib_scheme \<Rightarrow> db \<Rightarrow> consumer list \<Rightarrow> bool" where
  "consumers_ok L d cs \<longleftrightarrow>
     consistent d \<and> audited d
     \<and> (\<forall>ev r fp. Applying ev r fp \<in> set cs \<longrightarrow> DecisionFingerprint L ev = Inr fp)"

lemma audited_late:
  assumes "audited d" and "consistent d" and "DecisionFingerprint L ev = Inr fp"
    and "apply_locked L env ev fp r d = (res, d')"
  shows "audited d'"
  using assms(4,3)
proof (cases rule: apply_locked_effect)
  case (receipts new)
  then show ?thesis using assms(1) by (simp add: audited_def audit_keys_def)
next
  case (decision d1 new)
  from audited_decision [OF assms(1,2) decision(1)] show ?thesis
    by (simp add: decision(2) audited_def audit_keys_def)
qed

lemma refines_late:
  assumes "consistent d" and "DecisionFingerprint L ev = Inr fp" and "apply_locked L env ev fp r d = (res, d')"
  shows "astep (status_of d) (status_of d') \<and> orders_kept d d'"
  using assms(3,2)
proof (cases rule: apply_locked_effect)
  case (receipts new)
  then show ?thesis by (intro same_payments_refine) simp
next
  case (decision d1 new)
  then show ?thesis by (intro decision_refines [OF decision(1) consistent_unique [OF assms(1)]]) simp
qed

lemma history_late:
  assumes "DecisionFingerprint L ev = Inr fp" and "apply_locked L env ev fp r d = (res, d')"
  shows "history_kept d d'"
  using assms(2,1)
proof (cases rule: apply_locked_effect)
  case (receipts new)
  then show ?thesis by (rule history_receipts)
next
  case (decision d1 new)
  show ?thesis unfolding decision(2) by (rule history_decision(2) [OF decision(1)])
qed

lemma reject_insert_frame:
  assumes "reject_insert L env r code err d = (res, d')"
  shows "\<exists>new. d' = d\<lparr>t_receipts := t_receipts d @ new\<rparr>"
  using assms
proof (cases rule: reject_insert_cases)
  case (failed x)
  then show ?thesis by (auto intro: exI [of _ "[]"])
next
  case stored
  from insert_receipt_row_state [OF stored] show ?thesis by blast
qed

lemma consistent_reject_insert:
  "consistent d \<Longrightarrow> reject_insert L env r code err d = (res, d') \<Longrightarrow> consistent d'"
  by (erule reject_insert_cases) (auto intro: consistent_rejected)

text \<open>One step: the invariant, the specification of the statuses, and what stays of a payment.\<close>

lemma set_list_update: "x \<in> set (xs[i := y]) \<Longrightarrow> x = y \<or> x \<in> set xs"
  using set_update_subset_insert [of xs i y] by blast

lemma apply_check_fingerprint: "apply_check L env ev r d = Inr fp \<Longrightarrow> DecisionFingerprint L ev = Inr fp"
  by (cases rule: apply_check_cases [of L env ev r d]) auto

lemma consumer_step_ok:
  assumes "consumer_step L (d, cs) (d', cs')" and "consumers_ok L d cs"
  shows "consumers_ok L d' cs' \<and> astep (status_of d) (status_of d') \<and> orders_kept d d' \<and> history_kept d d'"
proof -
  have c: "consistent d" and a: "audited d"
    and f: "\<And>ev r fp. Applying ev r fp \<in> set cs \<Longrightarrow> DecisionFingerprint L ev = Inr fp"
    using assms(2) by (auto simp: consumers_ok_def)
  have keep: "\<And>ev r fp. Applying ev r fp \<in> set (cs[i := Polling]) \<Longrightarrow> DecisionFingerprint L ev = Inr fp" for i
    using f by (auto dest: set_list_update)
  note same = same_payments_refine [of d d, OF refl]
  from assms(1) show ?thesis
  proof (cases rule: consumer_step.cases)
    case (checks i r ev env fp)
    from apply_check_fingerprint [OF checks(6)] f c a same show ?thesis
      by (auto simp: consumers_ok_def checks(1,2) dest: set_list_update)
  next
    case (applies i ev r fp env res)
    have fp: "DecisionFingerprint L ev = Inr fp" using f applies(2,3) by (metis nth_mem)
    from consistent_apply_locked [OF c applies(4)] audited_late [OF a c fp applies(4)]
      refines_late [OF c fp applies(4)] history_late [OF fp applies(4)] keep show ?thesis by (auto simp: consumers_ok_def applies(1))
  next
    case (refuses i env r code err)
    from f c a same show ?thesis by (auto simp: consumers_ok_def refuses(1,2) dest: set_list_update)
  next
    case (records i r code err env res)
    obtain new where n: "d' = d\<lparr>t_receipts := t_receipts d @ new\<rparr>" using reject_insert_frame [OF records(4)] by blast
    from consistent_reject_insert [OF c records(4)] a same_payments_refine [of d' d] history_receipts [OF n] keep show ?thesis
      by (auto simp: consumers_ok_def records(1) n audited_def audit_keys_def)
  next
    case (crashes i)
    from c a same keep show ?thesis by (auto simp: consumers_ok_def crashes(1,2))
  next
    case serves
    from step_consistent [OF serves(2) c] step_audited [OF serves(2) c a] step_refines [OF serves(2) c]
      step_history [OF serves(2) c] f
    show ?thesis by (auto simp: consumers_ok_def serves(1))
  qed
qed

lemma consumers_reachable_ok: "consumers_reachable L s \<Longrightarrow> (case s of (d, cs) \<Rightarrow> consumers_ok L d cs)"
proof (induction rule: consumers_reachable.induct)
  case (start n)
  show ?case by (auto simp: consumers_ok_def consistent_empty audited_empty)
next
  case (more s s')
  then show ?case using consumer_step_ok by (cases s; cases s') fastforce
qed

section \<open>What a late transaction leaves behind\<close>

lemma insertReceipt_stored:
  assumes "insertReceipt L env k r digest ev disp d = Inr d'" and "disp \<noteq> ''REJECTED''"
  shows "\<exists>row. fetch coordinate (record_coordinate r) (t_receipts d') = Some row
    \<and> ir_record_sha256 row = digest \<and> ir_disposition row \<noteq> ''REJECTED''"
  using assms(1)
proof (cases rule: insertReceipt_either)
  case fresh
  from insertReceipt_Inr [OF assms(1) fresh] obtain eid pid where
    d': "d' = d\<lparr>t_receipts := t_receipts d @ [receipt_row_of (pg_clock env k) r digest eid pid disp]\<rparr>" by blast
  let ?row = "receipt_row_of (pg_clock env k) r digest eid pid disp"
  have "fetch coordinate (record_coordinate r) (t_receipts d') = Some ?row"
    using fresh by (simp add: d' fetch_append fetch_Cons)
  moreover have "ir_record_sha256 ?row = digest" "ir_disposition ?row \<noteq> ''REJECTED''"
    using assms(2) by (simp_all add: receipt_row_of_def)
  ultimately show ?thesis by blast
next
  case (skipped row)
  then show ?thesis by blast
qed

lemma write_decision_stored:
  assumes "write_decision L env ev fp r digest d = Inr d'"
  shows "\<exists>did stored. uuid_in (dp_decision_id (dv_payload ev)) = Some did \<and> \<not> decision_exists d did
    \<and> fetch dr_decision_id did (t_decisions d') = Some stored \<and> dr_event_fingerprint stored = fp
    \<and> (\<exists>row. fetch coordinate (record_coordinate r) (t_receipts d') = Some row
         \<and> ir_record_sha256 row = digest \<and> ir_disposition row \<noteq> ''REJECTED'')"
proof (rule write_decision_tables [OF assms])
  fix drow :: decision_row and arow :: audit_row and status d4
  assume drow: "decision_row_of (pg_clock env 6) ev fp = Some drow" "\<not> decision_exists d (dr_decision_id drow)"
    and d4: "d4 = d\<lparr>t_payments := update_rows (pending_payment (dr_payment_id drow))
               (\<lambda>p. p\<lparr>pay_status := status, updated_at := timestamptz (pg_clock env 7)\<rparr>) (t_payments d),
            t_decisions := t_decisions d @ [drow], t_audits := t_audits d @ [arow],
            t_reviews := t_reviews d @ queue_rows ev drow\<rparr>"
    and i: "insertReceipt L env 10 r digest ev dispositionApplied d4 = Inr d'"
  obtain new where "d' = d4\<lparr>t_receipts := t_receipts d4 @ new\<rparr>" using insertReceipt_receipts [OF i] by blast
  then have "fetch dr_decision_id (dr_decision_id drow) (t_decisions d') = Some drow"
    using drow(2) by (simp add: d4 fetch_append fetch_Cons decision_exists_def)
  moreover have "dr_event_fingerprint drow = fp"
    using drow(1) by (auto simp: decision_row_of_def Let_def split: option.splits)
  moreover note decision_row_uuids [OF drow(1)] insertReceipt_stored [OF i]
  ultimately show ?thesis using drow(2) by (auto simp: dispositionApplied_def)
qed

text \<open>
  The loser of a race, when nothing fails: the decision and a receipt of the record are stored, so
  ON CONFLICT DO NOTHING skips the insert, the second look finds the winner's receipt, and the
  answer is \<open>Replayed\<close> with nothing changed.
\<close>

lemma late_apply_replays:
  assumes "valid_db d" and "no_fault env" and "digest_32 L" and "storable_decision ev" and "kafka_record r"
    and pay: "fetch pay_id (dp_payment_id (dv_payload ev)) (t_payments d) = Some pay"
    and dec: "fetch dr_decision_id (dp_decision_id (dv_payload ev)) (t_decisions d) = Some stored"
      "dr_event_fingerprint stored = fp"
    and row: "fetch coordinate (record_coordinate r) (t_receipts d) = Some row"
      "ir_record_sha256 row = recordSHA256 L (record_value r)" "ir_disposition row \<noteq> ''REJECTED''"
  shows "apply_locked L env ev fp r d = (Inr replayed, d)"
proof -
  note u = storable_uuids [OF assms(4)]
  have "payment_exists d (dp_payment_id (dv_payload ev))" using pay by (simp add: payment_exists_def)
  from receipt_ok [OF assms(5,3) this, of "''REPLAYED''"]
  have ins: "insert_receipt_or_skip (receipt_row_of (pg_clock env 3) r (recordSHA256 L (record_value r))
      (dv_event_id ev) (dp_payment_id (dv_payload ev)) ''REPLAYED'') d = Inr (0, d)"
    using row(1) by (simp add: insert_receipt_or_skip_def check_all_cases(1))
  have "ir_disposition row = ''APPLIED'' \<or> ir_disposition row = ''REPLAYED''"
    using receipt_disposition [OF assms(1) row(1)] row(3) by auto
  then have ex: "existingReceipt L env 4 r (recordSHA256 L (record_value r)) d = Inr (Some (ir_disposition row))"
    using assms(2) row kafka_recordD [OF assms(5)]
    by (auto simp: existingReceipt_def statement_no_fault dispositionApplied_def dispositionReplayed_def
        dispositionRejected_def)
  have "insertReceipt L env 3 r (recordSHA256 L (record_value r)) ev ''REPLAYED'' d = Inr d"
    using ins ex row(3) assms(2) u
    by (simp add: insertReceipt_def statement_no_fault dispositionRejected_def eval_nat_numeral)
  then show ?thesis
    using pay dec assms(2) u
    by (simp add: apply_locked_def Let_def statement_no_fault dispositionReplayed_def commit_no_fault)
qed

section \<open>Properties\<close>

text \<open>
  C5: consumers side by side.  However the transactions of any number of decision consumers
  interleave between their receipt lookup and their row lock, with each other and with every other
  service, the database satisfies the schema, a payment has at most one decision, its status is the
  one its decision and review entail, and the audit trail is complete; and every step moves
  payments along the allowed statuses only and rewrites no decision, receipt or audit event.
\<close>

theorem consumers_side_by_side:
  assumes "consumers_reachable L (d, cs)" and "consumer_step L (d, cs) (d', cs')"
  shows "consistent d' \<and> audited d' \<and> astep (status_of d) (status_of d') \<and> orders_kept d d' \<and> history_kept d d'"
proof -
  have "consumers_ok L d cs" using consumers_reachable_ok [OF assms(1)] by simp
  from consumer_step_ok [OF assms(2) this] show ?thesis by (simp add: consumers_ok_def)
qed

text \<open>
  C6: the race for one record.  When \<open>Apply\<close> gets the row lock on any database, however
  old its receipt lookup is, and answers without an error, then a receipt of the record with its
  digest is stored that is not REJECTED, so the offset may be committed; the event's decision is
  stored with its fingerprint; and the answer is \<open>Applied\<close> exactly when no other transaction had
  stored that decision before.
\<close>

theorem late_apply_settles:
  assumes "apply_locked L env ev fp r d = (Inr res, d')"
  shows "\<exists>did row stored. uuid_in (dp_decision_id (dv_payload ev)) = Some did
    \<and> fetch coordinate (record_coordinate r) (t_receipts d') = Some row
    \<and> ir_record_sha256 row = recordSHA256 L (record_value r) \<and> ir_disposition row \<noteq> ''REJECTED''
    \<and> fetch dr_decision_id did (t_decisions d') = Some stored \<and> dr_event_fingerprint stored = fp
    \<and> (res = applied \<longleftrightarrow> \<not> decision_exists d did)"
  using assms
proof (cases rule: apply_locked_cases)
  case (replay did stored)
  obtain new where "d' = d\<lparr>t_receipts := t_receipts d @ new\<rparr>" using insertReceipt_receipts [OF replay(4)] by blast
  then have "fetch dr_decision_id did (t_decisions d') = Some stored" using replay(2) by simp
  moreover have "res \<noteq> applied" "decision_exists d did"
    using replay(2,5) by (auto simp: applied_def replayed_def decision_exists_def)
  ultimately show ?thesis using replay(1,3) insertReceipt_stored [OF replay(4)] by auto
next
  case new
  then have "res = applied" by auto
  with write_decision_stored [OF new(1)] show ?thesis by blast
qed simp

section \<open>An example of a race\<close>

text \<open>Two consumers have both found no receipt of one record; the first to get the lock applies it.\<close>

lemma sample_race:
  obtains d d1 fp where
    "consumers_reachable sample_lib
       (d, [Applying sample_decision sample_kafka fp, Applying sample_decision sample_kafka fp])"
    "apply_locked sample_lib (healthy zero_time) sample_decision fp sample_kafka d = (Inr applied, d1)"
    "apply_locked sample_lib (healthy zero_time) sample_decision fp sample_kafka d1 = (Inr replayed, d1)"
proof -
  let ?env = "healthy zero_time" and ?reach = "consumers_reachable sample_lib"
  obtain x p orow d where x: "run_attempt sample_lib flow_attempt empty_db = (Inr x, d)"
    and d: "d = empty_db\<lparr>t_payments := [p], t_outbox := [orow]\<rparr>" "pay_id p = sample_uuid" "pay_status p = ''PENDING_RISK''"
    by (rule flow_created)
  have c: "consistent d" using reachable_invariant [OF flow_reachable [OF x]] by simp
  have f: "fetch pay_id sample_uuid (t_payments d) = Some p" using d by (simp add: fetch_Cons)
  have no: "fetch coordinate (record_coordinate sample_kafka) (t_receipts d) = None" by (simp add: d(1) empty_db_def)
  obtain res d1 where a: "Apply sample_lib ?env sample_decision sample_kafka d = (res, d1)"
    by (cases "Apply sample_lib ?env sample_decision sample_kafka d")
  have dec: "acceptable sample_lib sample_decision sample_kafka d"
    using flow_decides [OF d(1)] by (simp add: decides_def)
  have "apply_answer sample_lib sample_decision sample_kafka d = Inr applied"
    using f d(3) no by (simp add: apply_answer_def Let_def d(1) empty_db_def sample_decision_def)
  then have res: "res = Inr applied" using Apply_answer [OF c no_fault_healthy dec, of zero_time] a by simp
  obtain fp where fp: "apply_check sample_lib ?env sample_decision sample_kafka d = Inr fp"
    by (rule apply_check_cases [of sample_lib ?env sample_decision sample_kafka d])
       (use a res no in \<open>simp_all add: Apply_parts\<close>)
  with a res have first: "apply_locked sample_lib ?env sample_decision fp sample_kafka d = (Inr applied, d1)"
    by (simp add: Apply_parts)
  have parse: "ParseEvent sample_lib (record_value sample_kafka) = Inr sample_decision" by (rule sample_kafka_fields(3))
  have "?reach (empty_db, replicate 2 Polling)" by (rule consumers_reachable.start)
  from consumers_reachable.more [OF this serves [OF step.created [OF flow_good x]]]
  have 1: "?reach (d, [Polling, Polling])" by (simp add: numeral_2_eq_2)
  from consumers_reachable.more [OF 1 checks [OF _ _ parse fp, of 0]]
  have 2: "?reach (d, [Applying sample_decision sample_kafka fp, Polling])" by simp
  from consumers_reachable.more [OF 2 checks [OF _ _ parse fp, of 1]]
  have both: "?reach (d, [Applying sample_decision sample_kafka fp, Applying sample_decision sample_kafka fp])" by simp
  from first have w: "write_decision sample_lib ?env sample_decision fp sample_kafka
      (recordSHA256 sample_lib (record_value sample_kafka)) d = Inr d1"
    by (cases rule: apply_locked_cases) (simp_all add: applied_def replayed_def)
  have v: "valid_db d1" using consistent_valid [OF consistent_apply_locked [OF c first]] .
  have u: "uuid_in (dp_decision_id (dv_payload sample_decision)) = Some (dp_decision_id (dv_payload sample_decision))"
    using storable_uuids(3) [OF sample_decision_storable] .
  from refines_late [OF c apply_check_fingerprint [OF fp] first] f
  obtain p1 where p1: "fetch pay_id sample_uuid (t_payments d1) = Some p1" unfolding orders_kept_def by blast
  have "dp_payment_id (dv_payload sample_decision) = sample_uuid" by (simp add: sample_decision_def)
  with p1 have pay: "fetch pay_id (dp_payment_id (dv_payload sample_decision)) (t_payments d1) = Some p1" by simp
  from write_decision_stored [OF w] u obtain stored row where
    st: "fetch dr_decision_id (dp_decision_id (dv_payload sample_decision)) (t_decisions d1) = Some stored"
      "dr_event_fingerprint stored = fp"
    and ro: "fetch coordinate (record_coordinate sample_kafka) (t_receipts d1) = Some row"
      "ir_record_sha256 row = recordSHA256 sample_lib (record_value sample_kafka)" "ir_disposition row \<noteq> ''REJECTED''"
    by auto
  have "digest_32 sample_lib" using dec by (simp add: acceptable_def)
  from late_apply_replays [OF v no_fault_healthy this sample_decision_storable sample_kafka_fields(1) pay st ro]
  have "apply_locked sample_lib ?env sample_decision fp sample_kafka d1 = (Inr replayed, d1)" .
  from that [OF both first this] show thesis .
qed

theorem consumers_side_by_side_witness:
  "\<exists>d d1 fp. consumers_reachable sample_lib (d1, [Polling, Applying sample_decision sample_kafka fp])
     \<and> apply_locked sample_lib (healthy zero_time) sample_decision fp sample_kafka d = (Inr applied, d1)
     \<and> consistent d1 \<and> audited d1 \<and> astep (status_of d) (status_of d1)"
proof (rule sample_race)
  fix d d1 fp
  assume r: "consumers_reachable sample_lib
      (d, [Applying sample_decision sample_kafka fp, Applying sample_decision sample_kafka fp])"
    and a: "apply_locked sample_lib (healthy zero_time) sample_decision fp sample_kafka d = (Inr applied, d1)"
  have s: "consumer_step sample_lib
      (d, [Applying sample_decision sample_kafka fp, Applying sample_decision sample_kafka fp])
      (d1, [Polling, Applying sample_decision sample_kafka fp])"
    using applies [OF _ _ a, of 0 "[Applying sample_decision sample_kafka fp, Applying sample_decision sample_kafka fp]"]
    by simp
  from consumers_side_by_side [OF r s] consumers_reachable.more [OF r s] a show ?thesis by blast
qed

theorem late_apply_settles_witness:
  "\<exists>d1 fp did row stored. apply_locked sample_lib (healthy zero_time) sample_decision fp sample_kafka d1 = (Inr replayed, d1)
     \<and> fetch coordinate (record_coordinate sample_kafka) (t_receipts d1) = Some row
     \<and> ir_disposition row \<noteq> ''REJECTED''
     \<and> fetch dr_decision_id did (t_decisions d1) = Some stored \<and> dr_event_fingerprint stored = fp"
proof (rule sample_race)
  fix d1 fp
  assume a: "apply_locked sample_lib (healthy zero_time) sample_decision fp sample_kafka d1 = (Inr replayed, d1)"
  from late_apply_settles [OF a] a show ?thesis by blast
qed

end
