(* ===== verification/Reconciliation.thy ===== *)
theory Reconciliation
  imports Lifecycle "HOL-Library.Multiset"
begin

text \<open>
  decision/reconciliation.go: the control report over payments, decisions, receipts and the review
  queue.  Each branch of the UNION ALL is one definition; an answer of the database is the list
  of rows in the order the query asks for.
\<close>

section \<open>The exceptions\<close>

record recon_exception =
  rx_code :: string
  rx_payment_id :: string
  rx_decision_id :: string
  rx_detail :: string

text \<open>An inner join, and a left join on the queue entry of a decision.\<close>

definition decisions_of :: "db \<Rightarrow> payment \<Rightarrow> decision_row list" where
  "decisions_of d p = filter (\<lambda>r. dr_payment_id r = pay_id p) (t_decisions d)"

definition queue_of :: "db \<Rightarrow> string \<Rightarrow> review_row option list" where
  "queue_of d did =
     (case filter (\<lambda>q. rv_decision_id q = did) (t_reviews d) of
        [] \<Rightarrow> [None] | qs \<Rightarrow> map Some qs)"

definition published_event :: "db \<Rightarrow> string \<Rightarrow> bool" where
  "published_event d pid \<longleftrightarrow>
     list_ex (\<lambda>e. ev_aggregate_id e = pid \<and> ev_event_type e = ''payments.created'' \<and> ev_published_at e \<noteq> None)
       (t_outbox d)"

definition missing_decision :: "gtime \<Rightarrow> db \<Rightarrow> recon_exception list" where
  "missing_decision cutoff d =
     map (\<lambda>p. \<lparr>rx_code = ''MISSING_DECISION'', rx_payment_id = pay_id p, rx_decision_id = [],
               rx_detail = ''published payment remains PENDING_RISK beyond the grace period''\<rparr>)
       (filter (\<lambda>p. pay_status p = ''PENDING_RISK'' \<and> wall (created_at p) \<le> wall cutoff
                 \<and> published_event d (pay_id p) \<and> decisions_of d p = []) (t_payments d))"

definition duplicate_decision :: "db \<Rightarrow> recon_exception list" where
  "duplicate_decision d =
     (let ids = map dr_payment_id (t_decisions d) in
      map (\<lambda>pid. \<lparr>rx_code = ''DUPLICATE_DECISION'', rx_payment_id = pid, rx_decision_id = [],
                  rx_detail = show_nat (count_list ids pid)
                     @ '' automated decisions persisted for one payment''\<rparr>)
        (filter (\<lambda>pid. 1 < count_list ids pid) (remdups ids)))"

definition duplicate_delivery :: "db \<Rightarrow> recon_exception list" where
  "duplicate_delivery d =
     (let pairs = concat (map (\<lambda>i. map (\<lambda>r. (dr_payment_id r, dr_decision_id r))
                    (filter (\<lambda>r. ir_event_id i = Some (dr_decision_id r)) (t_decisions d)))
                  (filter (\<lambda>i. ir_disposition i \<in> {''APPLIED'', ''REPLAYED''}) (t_receipts d))) in
      map (\<lambda>(pid, did). \<lparr>rx_code = ''DUPLICATE_DELIVERY'', rx_payment_id = pid, rx_decision_id = did,
                  rx_detail = show_nat (count_list pairs (pid, did))
                     @ '' Kafka records carried the same decision event''\<rparr>)
        (filter (\<lambda>k. 1 < count_list pairs k) (remdups pairs)))"

text \<open>\<open>p.status <> NULL\<close> is unknown: a decision without an expected status is not reported.\<close>

definition status_mismatch :: "db \<Rightarrow> recon_exception list" where
  "status_mismatch d =
     concat (map (\<lambda>p. concat (map (\<lambda>r. concat (map (\<lambda>q.
        case expected_status (dr_decision r) (map_option rv_status q) of
          None \<Rightarrow> []
        | Some st \<Rightarrow>
            if pay_status p \<noteq> st
            then [\<lparr>rx_code = ''PAYMENT_STATUS_MISMATCH'', rx_payment_id = pay_id p,
                   rx_decision_id = dr_decision_id r,
                   rx_detail = ''payment status '' @ pay_status p @ '' does not match decision ''
                     @ dr_decision r\<rparr>]
            else [])
          (queue_of d (dr_decision_id r))))
        (decisions_of d p)))
       (t_payments d))"

definition queue_missing :: "db \<Rightarrow> recon_exception list" where
  "queue_missing d =
     map (\<lambda>r. \<lparr>rx_code = ''REVIEW_QUEUE_MISSING'', rx_payment_id = dr_payment_id r,
               rx_decision_id = dr_decision_id r,
               rx_detail = ''REVIEW decision has no manual-review queue entry''\<rparr>)
       (filter (\<lambda>r. dr_decision r = ''REVIEW'' \<and> queue_of d (dr_decision_id r) = [None]) (t_decisions d))"

definition unexpected_queue :: "db \<Rightarrow> recon_exception list" where
  "unexpected_queue d =
     concat (map (\<lambda>q. map (\<lambda>r. \<lparr>rx_code = ''UNEXPECTED_REVIEW_QUEUE'', rx_payment_id = rv_payment_id q,
                  rx_decision_id = rv_decision_id q,
                  rx_detail = ''manual-review entry points to a '' @ dr_decision r @ '' decision''\<rparr>)
               (filter (\<lambda>r. dr_decision_id r = rv_decision_id q \<and> dr_decision r \<noteq> ''REVIEW'') (t_decisions d)))
       (t_reviews d))"

definition rejected_events :: "db \<Rightarrow> recon_exception list" where
  "rejected_events d =
     map (\<lambda>i. \<lparr>rx_code = ''REJECTED_DECISION_EVENT'', rx_payment_id = [], rx_decision_id = [],
               rx_detail = ir_topic i @ ''['' @ show_int (ir_partition i) @ ''] offset ''
                 @ show_int (ir_offset i) @ '' rejected: ''
                 @ (case ir_error_message i of None \<Rightarrow> [] | Some m \<Rightarrow> m)\<rparr>)
       (filter (\<lambda>i. ir_disposition i = ''REJECTED'') (t_receipts d))"

definition reconciliationExceptions :: "gtime \<Rightarrow> db \<Rightarrow> recon_exception list" where
  "reconciliationExceptions cutoff d =
     missing_decision cutoff d @ duplicate_decision d @ duplicate_delivery d @ status_mismatch d
     @ queue_missing d @ unexpected_queue d @ rejected_events d"

section \<open>The report and the counts\<close>

record recon_report =
  rr_generated_at :: gtime
  rr_grace_period :: string
  rr_exception_count :: int
  rr_exceptions :: "recon_exception list"

record recon_counts =
  rn_generated_at :: gtime
  rn_grace_period :: string
  rn_exception_count :: int
  rn_by_code :: "string \<Rightarrow> int option"

definition NewReconciler :: "'pool option \<Rightarrow> duration \<Rightarrow> ('pool \<times> duration) result" where
  "NewReconciler pool gracePeriod =
     required ''reconciliation PostgreSQL pool is required'' pool (\<lambda>p.
       if gracePeriod \<le>s 0 then Inl (Msg ''reconciliation grace period must be positive'')
       else Inr (p, gracePeriod))"

text \<open>
  \<open>collate\<close> is the sort key of a text under the collation of the database, \<open>durtext\<close> the
  \<open>String\<close> method of a duration.  Statement 0 is the query, 1 the iteration over its rows; the
  process reads its clock at 2.
\<close>

definition reconciliation_rows :: "(string \<Rightarrow> nat list) \<Rightarrow> gtime \<Rightarrow> db \<Rightarrow> recon_exception list" where
  "reconciliation_rows collate cutoff d =
     sort_key (\<lambda>x. (collate (rx_code x), collate (rx_payment_id x), collate (rx_decision_id x),
                    collate (rx_detail x)))
       (reconciliationExceptions cutoff d)"

definition cutoff_of :: "duration \<Rightarrow> gtime \<Rightarrow> gtime" where
  "cutoff_of gracePeriod now = time_add now (- gracePeriod)"

definition Run ::
    "(string \<Rightarrow> nat list) \<Rightarrow> (duration \<Rightarrow> string) \<Rightarrow> duration \<Rightarrow> pg_env \<Rightarrow> db \<Rightarrow> recon_report result" where
  "Run collate durtext gracePeriod env d =
     (let generatedAt = utc (pg_clock env 2); cutoff = cutoff_of gracePeriod generatedAt in
      case statement env 0 (Inr (reconciliation_rows collate cutoff d)) of
        Inl e \<Rightarrow> Inl (errorf ''query decision reconciliation exceptions'' e)
      | Inr rows \<Rightarrow>
          (case pg_fault env 1 of
             Some e \<Rightarrow> Inl (errorf ''iterate decision reconciliation exceptions'' e)
           | None \<Rightarrow>
               Inr \<lparr>rr_generated_at = generatedAt, rr_grace_period = durtext gracePeriod,
                    rr_exception_count = int (length rows), rr_exceptions = rows\<rparr>))"

text \<open>\<open>GROUP BY code ORDER BY code\<close>, and the loop that adds the groups up.\<close>

definition count_rows :: "(string \<Rightarrow> nat list) \<Rightarrow> gtime \<Rightarrow> db \<Rightarrow> (string \<times> int) list" where
  "count_rows collate cutoff d =
     (let codes = map rx_code (reconciliationExceptions cutoff d) in
      map (\<lambda>c. (c, int (count_list codes c))) (sort_key collate (remdups codes)))"

fun add_counts :: "(string \<times> int) list \<Rightarrow> (string \<Rightarrow> int option) \<times> int \<Rightarrow> (string \<Rightarrow> int option) \<times> int" where
  "add_counts [] st = st"
| "add_counts ((code, n) # rows) (byCode, acc) = add_counts rows (byCode(code \<mapsto> n), acc + n)"

definition Count ::
    "(string \<Rightarrow> nat list) \<Rightarrow> (duration \<Rightarrow> string) \<Rightarrow> duration \<Rightarrow> pg_env \<Rightarrow> db \<Rightarrow> recon_counts result" where
  "Count collate durtext gracePeriod env d =
     (let generatedAt = utc (pg_clock env 2); cutoff = cutoff_of gracePeriod generatedAt in
      case statement env 0 (Inr (count_rows collate cutoff d)) of
        Inl e \<Rightarrow> Inl (errorf ''query decision reconciliation counts'' e)
      | Inr rows \<Rightarrow>
          (case pg_fault env 1 of
             Some e \<Rightarrow> Inl (errorf ''iterate decision reconciliation counts'' e)
           | None \<Rightarrow>
               (case add_counts rows (Map.empty, 0) of
                  (byCode, acc) \<Rightarrow>
                    Inr \<lparr>rn_generated_at = generatedAt, rn_grace_period = durtext gracePeriod,
                         rn_exception_count = acc, rn_by_code = byCode\<rparr>)))"

section \<open>Joins on a key\<close>

lemma filter_unique:
  "unique_by key rows \<Longrightarrow>
   filter (\<lambda>r. key r = k) rows = (case fetch key k rows of None \<Rightarrow> [] | Some r \<Rightarrow> [r])"
proof (induction rows)
  case (Cons r rows)
  then have IH: "filter (\<lambda>r. key r = k) rows = (case fetch key k rows of None \<Rightarrow> [] | Some r \<Rightarrow> [r])"
    and new: "key r \<notin> key ` set rows" by (simp_all add: unique_by_def)
  show ?case
  proof (cases "key r = k")
    case True
    have "key x \<noteq> k" if "x \<in> set rows" for x using new True imageI [OF that, of key] by auto
    then have "filter (\<lambda>r. key r = k) rows = []" by (simp add: filter_empty_conv)
    with True show ?thesis by (simp add: fetch_Cons)
  qed (simp add: fetch_Cons IH)
qed simp

lemma queue_of_fetch:
  "valid_db d \<Longrightarrow> queue_of d did = [fetch rv_decision_id did (t_reviews d)]"
  using filter_unique [of rv_decision_id "t_reviews d" did]
  by (auto simp: queue_of_def valid_db_def valid_reviews_def split: option.splits)

lemma decisions_of_fetch:
  "unique_by dr_payment_id (t_decisions d) \<Longrightarrow>
   decisions_of d p = (case fetch dr_payment_id (pay_id p) (t_decisions d) of None \<Rightarrow> [] | Some r \<Rightarrow> [r])"
  by (simp add: decisions_of_def filter_unique)

section \<open>The branches\<close>

lemma distinct_count_le: "distinct xs \<Longrightarrow> count_list xs x \<le> 1"
  by (induction xs) (auto simp: count_list_0_iff)

lemma duplicate_decision_iff:
  "duplicate_decision d = [] \<longleftrightarrow> unique_by dr_payment_id (t_decisions d)"
proof -
  let ?ids = "map dr_payment_id (t_decisions d)"
  have "(\<forall>pid \<in> set ?ids. \<not> 1 < count_list ?ids pid) \<longleftrightarrow> distinct ?ids"
  proof
    assume a: "\<forall>pid \<in> set ?ids. \<not> 1 < count_list ?ids pid"
    show "distinct ?ids"
    proof (rule ccontr)
      assume "\<not> distinct ?ids"
      then obtain xs ys zs y where e: "?ids = xs @ [y] @ ys @ [y] @ zs" using not_distinct_decomp by blast
      have "1 < count_list ?ids y" "y \<in> set ?ids" unfolding e by simp_all
      with a show False by blast
    qed
  next
    assume "distinct ?ids"
    then have "count_list ?ids pid \<le> 1" for pid by (rule distinct_count_le)
    then show "\<forall>pid \<in> set ?ids. \<not> 1 < count_list ?ids pid" unfolding not_less by blast
  qed
  then show ?thesis by (simp add: duplicate_decision_def Let_def filter_empty_conv unique_by_def)
qed

lemma decision_in_schema:
  "valid_db d \<Longrightarrow> r \<in> set (t_decisions d) \<Longrightarrow> dr_decision r \<in> {''ALLOW'', ''REVIEW'', ''BLOCK''}"
  by (auto simp: valid_db_def valid_decisions_def decision_checks_def)

lemma expected_status_defined:
  "dec \<in> {''ALLOW'', ''REVIEW'', ''BLOCK''} \<Longrightarrow> expected_status dec q \<noteq> None"
  by (auto simp: expected_status_def)

lemma status_mismatch_iff:
  assumes "valid_db d" and "unique_by dr_payment_id (t_decisions d)"
  shows "status_mismatch d = [] \<longleftrightarrow>
    (\<forall>p \<in> set (t_payments d). fetch dr_payment_id (pay_id p) (t_decisions d) = None \<or> status_agrees d p)"
proof -
  have "concat (map (\<lambda>r. concat (map (\<lambda>q.
        case expected_status (dr_decision r) (map_option rv_status q) of
          None \<Rightarrow> []
        | Some st \<Rightarrow> if pay_status p \<noteq> st
            then [\<lparr>rx_code = ''PAYMENT_STATUS_MISMATCH'', rx_payment_id = pay_id p,
                   rx_decision_id = dr_decision_id r,
                   rx_detail = ''payment status '' @ pay_status p @ '' does not match decision ''
                     @ dr_decision r\<rparr>] else [])
          (queue_of d (dr_decision_id r)))) (decisions_of d p)) = []
      \<longleftrightarrow> fetch dr_payment_id (pay_id p) (t_decisions d) = None \<or> status_agrees d p" for p
  proof (cases "fetch dr_payment_id (pay_id p) (t_decisions d)")
    case (Some r)
    then have "r \<in> set (t_decisions d)" using fetch_SomeD by fastforce
    from expected_status_defined [OF decision_in_schema [OF assms(1) this]]
    obtain st where "expected_status (dr_decision r) (review_status d (dr_decision_id r)) = Some st" by blast
    then show ?thesis
      using Some by (auto simp: decisions_of_fetch [OF assms(2)] queue_of_fetch [OF assms(1)] status_agrees_def
          review_status_def)
  qed (simp add: decisions_of_fetch [OF assms(2)])
  then show ?thesis by (auto simp: status_mismatch_def)
qed

lemma queue_missing_iff:
  "valid_db d \<Longrightarrow> queue_missing d = [] \<longleftrightarrow>
    (\<forall>r \<in> set (t_decisions d). dr_decision r = ''REVIEW'' \<longrightarrow> review_status d (dr_decision_id r) \<noteq> None)"
  by (auto simp: queue_missing_def filter_empty_conv queue_of_fetch review_status_def)

lemma unexpected_queue_iff:
  assumes "valid_db d"
  shows "unexpected_queue d = [] \<longleftrightarrow>
    (\<forall>r \<in> set (t_decisions d). review_status d (dr_decision_id r) \<noteq> None \<longrightarrow> dr_decision r = ''REVIEW'')"
proof -
  have "unexpected_queue d = [] \<longleftrightarrow> (\<forall>q \<in> set (t_reviews d). \<forall>r \<in> set (t_decisions d).
      dr_decision_id r = rv_decision_id q \<longrightarrow> dr_decision r = ''REVIEW'')"
    by (auto simp: unexpected_queue_def filter_empty_conv)
  moreover have "review_status d did \<noteq> None \<longleftrightarrow> (\<exists>q \<in> set (t_reviews d). rv_decision_id q = did)" for did
    by (auto simp: review_status_def fetch_None_iff image_iff)
  ultimately show ?thesis by metis
qed

text \<open>The codes that report a control break.\<close>

definition break_codes :: "string list" where
  "break_codes = [''DUPLICATE_DECISION'', ''PAYMENT_STATUS_MISMATCH'', ''REVIEW_QUEUE_MISSING'',
     ''UNEXPECTED_REVIEW_QUEUE'']"

lemma codes:
  "x \<in> set (missing_decision c d) \<Longrightarrow> rx_code x = ''MISSING_DECISION''"
  "x \<in> set (duplicate_decision d) \<Longrightarrow> rx_code x = ''DUPLICATE_DECISION''"
  "x \<in> set (duplicate_delivery d) \<Longrightarrow> rx_code x = ''DUPLICATE_DELIVERY''"
  "x \<in> set (status_mismatch d) \<Longrightarrow> rx_code x = ''PAYMENT_STATUS_MISMATCH''"
  "x \<in> set (queue_missing d) \<Longrightarrow> rx_code x = ''REVIEW_QUEUE_MISSING''"
  "x \<in> set (unexpected_queue d) \<Longrightarrow> rx_code x = ''UNEXPECTED_REVIEW_QUEUE''"
  "x \<in> set (rejected_events d) \<Longrightarrow> rx_code x = ''REJECTED_DECISION_EVENT''"
  by (auto simp: missing_decision_def duplicate_decision_def duplicate_delivery_def status_mismatch_def
      queue_missing_def unexpected_queue_def rejected_events_def Let_def split: option.splits if_splits)

lemma no_breaks_iff:
  "(\<forall>x \<in> set (reconciliationExceptions c d). rx_code x \<notin> set break_codes) \<longleftrightarrow>
     duplicate_decision d = [] \<and> status_mismatch d = [] \<and> queue_missing d = [] \<and> unexpected_queue d = []"
proof
  assume a: "\<forall>x \<in> set (reconciliationExceptions c d). rx_code x \<notin> set break_codes"
  have e: "xs = []" if "set xs \<subseteq> set (reconciliationExceptions c d)" "\<And>x. x \<in> set xs \<Longrightarrow> rx_code x \<in> set break_codes"
    for xs using that a by (cases xs) auto
  show "duplicate_decision d = [] \<and> status_mismatch d = [] \<and> queue_missing d = [] \<and> unexpected_queue d = []"
    by (intro conjI e) (auto simp: reconciliationExceptions_def break_codes_def dest: codes)
next
  assume "duplicate_decision d = [] \<and> status_mismatch d = [] \<and> queue_missing d = [] \<and> unexpected_queue d = []"
  then show "\<forall>x \<in> set (reconciliationExceptions c d). rx_code x \<notin> set break_codes"
    by (auto simp: reconciliationExceptions_def break_codes_def dest: codes)
qed

lemma Run_exceptions:
  "Run collate durtext grace env d = Inr rep \<Longrightarrow>
   rr_exceptions rep = reconciliation_rows collate (cutoff_of grace (utc (pg_clock env 2))) d
   \<and> set (rr_exceptions rep) = set (reconciliationExceptions (cutoff_of grace (utc (pg_clock env 2))) d)"
  by (auto simp: Run_def Let_def reconciliation_rows_def statement_Inr split: sum.splits option.splits)

section \<open>Counting\<close>

lemma count_list_eq_count: "count_list (map f (sort_key g xs)) x = count_list (map f xs) x"
proof -
  have "mset (map f (sort_key g xs)) = mset (map f xs)" by simp
  then show ?thesis by (metis count_mset)
qed

lemma add_counts_keys:
  "distinct (map fst rows) \<Longrightarrow>
   add_counts rows (m, t) = (m ++ map_of rows, t + sum_list (map snd rows))"
proof (induction rows arbitrary: m t)
  case (Cons row rows)
  obtain c n where row: "row = (c, n)" by (cases row)
  from Cons row have "c \<notin> dom (map_of rows)" by (auto simp: dom_map_of_conv_image_fst)
  then have "m(c \<mapsto> n) ++ map_of rows = m ++ map_of (row # rows)"
    by (auto simp: row fun_eq_iff map_add_def split: option.splits)
  moreover have "add_counts (row # rows) (m, t) = add_counts rows (m(c \<mapsto> n), t + n)" by (simp add: row)
  moreover have "distinct (map fst rows)" using Cons.prems by simp
  moreover have "snd row = n" by (simp add: row)
  ultimately show ?case by (simp only: Cons.IH list.map sum_list.Cons add.assoc)
qed simp

lemma map_of_tabulate: "map_of (map (\<lambda>c. (c, f c)) ks) k = (if k \<in> set ks then Some (f k) else None)"
  by (induction ks) auto

lemma sum_count_remdups: "sum_list (map (count_list xs) (remdups xs)) = length xs"
proof -
  have "sum_list (map (count_list xs) (remdups xs)) = sum (count_list xs) (set (remdups xs))"
    by (rule sum_list_distinct_conv_sum_set) simp
  also have "\<dots> = length xs" using sum_count_set [of xs "set xs"] by simp
  finally show ?thesis .
qed

lemma count_rows_keys:
  "distinct (map fst (count_rows collate c d))"
  "map_of (count_rows collate c d) k =
     (let n = count_list (map rx_code (reconciliationExceptions c d)) k in if n = 0 then None else Some (int n))"
  "sum_list (map snd (count_rows collate c d)) = int (length (reconciliationExceptions c d))"
proof -
  let ?codes = "map rx_code (reconciliationExceptions c d)"
  let ?ks = "sort_key collate (remdups ?codes)"
  have f: "map fst (count_rows collate c d) = ?ks" by (simp add: count_rows_def Let_def o_def)
  show "distinct (map fst (count_rows collate c d))" unfolding f by simp
  have "map_of (count_rows collate c d) k = (if k \<in> set ?ks then Some (int (count_list ?codes k)) else None)"
    unfolding count_rows_def Let_def by (rule map_of_tabulate)
  then show "map_of (count_rows collate c d) k =
     (let n = count_list ?codes k in if n = 0 then None else Some (int n))"
    by (auto simp: count_list_0_iff)
  have "sum_list (map snd (count_rows collate c d)) = sum_list (map (\<lambda>k. int (count_list ?codes k)) ?ks)"
    by (simp add: count_rows_def Let_def o_def)
  also have "\<dots> = int (sum_list (map (count_list ?codes) (remdups ?codes)))"
    by (simp add: sum_list_distinct_conv_sum_set)
  finally show "sum_list (map snd (count_rows collate c d)) = int (length (reconciliationExceptions c d))"
    by (simp add: sum_count_remdups)
qed

section \<open>Properties\<close>

text \<open>
  C26: the reconciler finds what it is for.  On a database that satisfies the schema, a report is
  free of control breaks exactly when no payment has two decisions, every payment that has a
  decision has the status which that decision and its review entail, and a decision has a queue
  entry exactly when it is a REVIEW decision.
\<close>

theorem reconciliation_exact:
  assumes "valid_db d" and "Run collate durtext grace env d = Inr rep"
  shows "(\<forall>x \<in> set (rr_exceptions rep). rx_code x \<notin> set break_codes) \<longleftrightarrow>
    unique_by dr_payment_id (t_decisions d)
    \<and> (\<forall>p \<in> set (t_payments d). fetch dr_payment_id (pay_id p) (t_decisions d) = None \<or> status_agrees d p)
    \<and> (\<forall>r \<in> set (t_decisions d). dr_decision r = ''REVIEW'' \<longleftrightarrow> review_status d (dr_decision_id r) \<noteq> None)"
proof -
  have "(\<forall>x \<in> set (rr_exceptions rep). rx_code x \<notin> set break_codes) \<longleftrightarrow>
     duplicate_decision d = [] \<and> status_mismatch d = [] \<and> queue_missing d = [] \<and> unexpected_queue d = []"
    using Run_exceptions [OF assms(2)] no_breaks_iff by metis
  also have "\<dots> \<longleftrightarrow> unique_by dr_payment_id (t_decisions d) \<and> status_mismatch d = []
      \<and> queue_missing d = [] \<and> unexpected_queue d = []"
    by (simp only: duplicate_decision_iff)
  finally show ?thesis
    using status_mismatch_iff [OF assms(1)] unfolding queue_missing_iff [OF assms(1)]
      unexpected_queue_iff [OF assms(1)] by blast
qed

text \<open>
  no false alarm.  In a consistent database, hence in every database the services can reach, a
  report holds no control break: only payments that still wait, repeated deliveries and rejected
  records can appear.
\<close>

theorem reconciliation_quiet:
  assumes "consistent d" and "Run collate durtext grace env d = Inr rep"
  shows "\<forall>x \<in> set (rr_exceptions rep).
    rx_code x \<in> {''MISSING_DECISION'', ''DUPLICATE_DELIVERY'', ''REJECTED_DECISION_EVENT''}"
proof -
  have v: "valid_db d" and u: "unique_by dr_payment_id (t_decisions d)"
    using assms(1) by (simp_all add: consistent_def)
  have "duplicate_decision d = []" "status_mismatch d = []" "queue_missing d = []" "unexpected_queue d = []"
    using assms(1) u duplicate_decision_iff status_mismatch_iff [OF v u] queue_missing_iff [OF v]
      unexpected_queue_iff [OF v] by (auto simp: consistent_def reviews_agree_def)
  then show ?thesis
    using Run_exceptions [OF assms(2)] codes(1,3,7) by (auto simp: reconciliationExceptions_def)
qed

text \<open>
  \<open>Count\<close> is a summary of \<open>Run\<close>.  On one snapshot, clock and driver behaviour, both fail or both
  answer; the total is the number of exceptions, and the number under each code is the number of
  exceptions with that code, with no entry for a code that does not occur.
\<close>

theorem Count_summarises_Run:
  "case (Run collate durtext grace env d, Count collate durtext grace env d) of
     (Inr rep, Inr cnt) \<Rightarrow>
       rn_exception_count cnt = rr_exception_count rep \<and> rn_generated_at cnt = rr_generated_at rep
       \<and> rn_grace_period cnt = rr_grace_period rep
       \<and> (\<forall>c. rn_by_code cnt c =
            (let n = count_list (map rx_code (rr_exceptions rep)) c in if n = 0 then None else Some (int n)))
   | (Inl e, Inl f) \<Rightarrow> True
   | _ \<Rightarrow> False"
proof -
  let ?c = "cutoff_of grace (utc (pg_clock env 2))"
  have k: "count_list (map rx_code (reconciliation_rows collate ?c d)) x
      = count_list (map rx_code (reconciliationExceptions ?c d)) x" for x
    by (simp add: reconciliation_rows_def count_list_eq_count)
  show ?thesis
  proof (cases "pg_fault env 0 = None \<and> pg_fault env 1 = None")
    case True
    then show ?thesis
      using k add_counts_keys [OF count_rows_keys(1) [of collate ?c d], of Map.empty 0]
      by (simp add: Run_def Count_def Let_def statement_def count_rows_keys(2,3) reconciliation_rows_def)
  qed (auto simp: Run_def Count_def Let_def statement_def split: option.splits)
qed

lemma Run_healthy:
  obtains rep where "Run collate durtext grace (healthy t) d = Inr rep"
  by (simp add: Run_def Let_def statement_no_fault) (simp add: healthy_def)

theorem reconciliation_exact_witness:
  "\<exists>rep. Run (map byte) (\<lambda>_. ''1m0s'') second (healthy zero_time) sample_db = Inr rep
     \<and> (\<forall>x \<in> set (rr_exceptions rep). rx_code x \<notin> set break_codes)"
proof -
  obtain rep where r: "Run (map byte) (\<lambda>_. ''1m0s'') second (healthy zero_time) sample_db = Inr rep"
    by (rule Run_healthy)
  have "(\<forall>p \<in> set (t_payments sample_db). fetch dr_payment_id (pay_id p) (t_decisions sample_db) = None \<or> status_agrees sample_db p)"
    "unique_by dr_payment_id (t_decisions sample_db)"
    "(\<forall>r \<in> set (t_decisions sample_db). dr_decision r = ''REVIEW'' \<longleftrightarrow> review_status sample_db (dr_decision_id r) \<noteq> None)"
    using sample_consistent by (auto simp: consistent_def reviews_agree_def)
  with reconciliation_exact [OF sample_db_valid r] r show ?thesis by blast
qed

theorem reconciliation_quiet_witness:
  "\<exists>rep. Run (map byte) (\<lambda>_. ''1m0s'') second (healthy zero_time) sample_db = Inr rep
     \<and> (\<forall>x \<in> set (rr_exceptions rep).
          rx_code x \<in> {''MISSING_DECISION'', ''DUPLICATE_DELIVERY'', ''REJECTED_DECISION_EVENT''})"
proof -
  obtain rep where r: "Run (map byte) (\<lambda>_. ''1m0s'') second (healthy zero_time) sample_db = Inr rep"
    by (rule Run_healthy)
  with reconciliation_quiet [OF sample_consistent r] show ?thesis by blast
qed

end
