(* ===== verification/Http_Api.thy ===== *)
theory Http_Api
  imports System
begin

text \<open>
  httpapi/payments.go, httpapi/reviews.go and httpapi/health.go with the request-ID middleware of
  observability/request.go: how a request is decoded, which use case it reaches, and which status
  and body answer it.  The services are arguments of the handlers, as in the code.
\<close>

section \<open>Requests and responses\<close>

text \<open>
  What the handlers read of a request: header values and query values as net/http hands them out,
  the unescaped segments of the cleaned path, the bytes of the body, and the pattern and the path
  value that the router fills in.
\<close>

record http_request =
  hq_method :: string
  hq_path :: "string list"
  hq_pattern :: string
  hq_request_id :: string
  hq_authorization :: string
  hq_idempotency_key :: string
  hq_path_id :: string
  hq_limit :: string
  hq_recent_limit :: string
  hq_body :: string

datatype http_body = JsonBody json | TextBody string

record http_response =
  rs_status :: nat
  rs_headers :: "(string \<times> string) list"
  rs_body :: http_body

record api_error =
  ae_code :: string
  ae_message :: string
  ae_fields :: fields
  ae_details :: "(string \<times> json) list"

text \<open>A map is marshalled with its keys in order.\<close>

definition json_map :: "(string \<times> json) list \<Rightarrow> json" where
  "json_map ms = JObj (sort_key (\<lambda>m. map byte (fst m)) ms)"

definition error_json :: "api_error \<Rightarrow> json" where
  "error_json e =
     JObj [(''error'', JObj ([(''code'', JStr (ae_code e)), (''message'', JStr (ae_message e))]
       @ (if ae_fields e = [] then []
          else [(''fields'', json_map (map (\<lambda>(k, v). (k, JStr v)) (ae_fields e)))])
       @ (if ae_details e = [] then [] else [(''details'', json_map (ae_details e))])))]"

definition writeJSON :: "nat \<Rightarrow> json \<Rightarrow> http_response" where
  "writeJSON status body =
     \<lparr>rs_status = status, rs_headers = [(''Content-Type'', ''application/json'')], rs_body = JsonBody body\<rparr>"

definition api_error :: "string \<Rightarrow> string \<Rightarrow> api_error" where
  "api_error code text = \<lparr>ae_code = code, ae_message = text, ae_fields = [], ae_details = []\<rparr>"

definition writeError :: "nat \<Rightarrow> api_error \<Rightarrow> http_response" where
  "writeError status e = writeJSON status (error_json e)"

section \<open>Bodies\<close>

definition maxRequestBytes :: nat where "maxRequestBytes = 2 ^ 20"

text \<open>
  A strict decoder over a \<open>MaxBytesReader\<close>: one value of the target's type, then the end of the
  body, which a body longer than the limit never reaches.
\<close>

definition decodeRequest ::
    "'a golib_scheme \<Rightarrow> string \<Rightarrow> ((string \<times> json) list \<Rightarrow> 'b option) \<Rightarrow> string \<Rightarrow> 'b result" where
  "decodeRequest L what decode body =
     (let seen = take maxRequestBytes body;
          failed = Inl (Wrapf (''request body must contain one valid '' @ what @ '' JSON object: '')
                         (Msg (json_error L body)) []) in
      case json_value (2 * length seen + 2) 0 seen of
        None \<Rightarrow> failed
      | Some (v, rest) \<Rightarrow>
          (case Option.bind (merge_objects [v]) decode of
             None \<Rightarrow> failed
           | Some x \<Rightarrow>
               if skip_space rest = [] \<and> length body \<le> maxRequestBytes then Inr x
               else Inl (Msg ''request body must contain exactly one JSON object'')))"

definition decode_create_fields :: "(string \<times> json) list \<Rightarrow> create_request option" where
  "decode_create_fields ms =
     (if \<not> known_members ms [''customer_id'', ''merchant_id'', ''device_id'', ''amount_minor'', ''currency'', ''country'']
      then None
      else (case (field as_string [] ms ''customer_id'', field as_string [] ms ''merchant_id'',
                  field as_string [] ms ''device_id'', field as_int 0 ms ''amount_minor'',
                  field as_string [] ms ''currency'', field as_string [] ms ''country'') of
              (Some cu, Some me, Some de, Some am, Some cy, Some co) \<Rightarrow>
                Some \<lparr>req_customer_id = cu, req_merchant_id = me, req_device_id = de,
                      req_amount_minor = am, req_currency = cy, req_country = co\<rparr>
            | _ \<Rightarrow> None))"

definition decodePaymentRequest :: "'a golib_scheme \<Rightarrow> string \<Rightarrow> create_request result" where
  "decodePaymentRequest L = decodeRequest L ''payment'' decode_create_fields"

definition decode_review_fields :: "(string \<times> json) list \<Rightarrow> resolve_request option" where
  "decode_review_fields ms =
     (if \<not> known_members ms [''expected_version'', ''reason_code''] then None
      else (case (field as_int 0 ms ''expected_version'', field as_string [] ms ''reason_code'') of
              (Some ve, Some re) \<Rightarrow> Some \<lparr>rq_expected_version = ve, rq_reason_code = re\<rparr>
            | _ \<Rightarrow> None))"

definition decodeReviewRequest :: "'a golib_scheme \<Rightarrow> string \<Rightarrow> resolve_request result" where
  "decodeReviewRequest L = decodeRequest L ''review action'' decode_review_fields"

section \<open>Payments\<close>

record payment_response =
  ps_id :: string
  ps_customer_id :: string
  ps_merchant_id :: string
  ps_device_id :: string
  ps_amount_minor :: int
  ps_currency :: string
  ps_country :: string
  ps_status :: string
  ps_created_at :: gtime
  ps_updated_at :: gtime

definition newPaymentResponse :: "payment \<Rightarrow> payment_response" where
  "newPaymentResponse stored =
     \<lparr>ps_id = pay_id stored, ps_customer_id = customer_id stored, ps_merchant_id = merchant_id stored,
      ps_device_id = device_id stored, ps_amount_minor = amount_minor stored, ps_currency = currency stored,
      ps_country = country stored, ps_status = pay_status stored,
      ps_created_at = utc (created_at stored), ps_updated_at = utc (updated_at stored)\<rparr>"

text \<open>How the struct is marshalled, by its tags.\<close>

definition payment_response_json :: "'a golib_scheme \<Rightarrow> payment_response \<Rightarrow> json" where
  "payment_response_json L r =
     JObj [(''id'', JStr (ps_id r)), (''customer_id'', JStr (ps_customer_id r)),
       (''merchant_id'', JStr (ps_merchant_id r)), (''device_id'', JStr (ps_device_id r)),
       (''amount_minor'', JNum (show_int (ps_amount_minor r))), (''currency'', JStr (ps_currency r)),
       (''country'', JStr (ps_country r)), (''status'', JStr (ps_status r)),
       (''created_at'', JStr (time_text L (ps_created_at r))),
       (''updated_at'', JStr (time_text L (ps_updated_at r)))]"

definition writeCreatePaymentError :: "go_error \<Rightarrow> http_response" where
  "writeCreatePaymentError err =
     (if errors_is err ErrIdempotencyKeyRequired
      then writeError 400 (api_error ''missing_idempotency_key'' ''Idempotency-Key header is required'')
      else if errors_is err ErrIdempotencyKeyInvalid
      then writeError 400 (api_error ''invalid_idempotency_key''
             ''Idempotency-Key header must be at most 255 characters and contain no control characters'')
      else (case as_payment_validation err of
        Some fs \<Rightarrow> writeError 400 ((api_error ''validation_error'' ''payment request validation failed'')
                      \<lparr>ae_fields := fs\<rparr>)
      | None \<Rightarrow>
          if errors_is err ErrIdempotencyConflict
          then writeError 409 (api_error ''idempotency_conflict''
                 ''Idempotency-Key was already used with a different payment request'')
          else if errors_is err DeadlineExceeded
          then writeError 504 (api_error ''request_timeout''
                 ''payment request timed out and may be safely retried with the same Idempotency-Key'')
          else writeError 500 (api_error ''internal_error'' ''payment could not be created'')))"

definition createPaymentHandler ::
    "'a golib_scheme \<Rightarrow> (string \<Rightarrow> create_request \<Rightarrow> 's \<Rightarrow> create_result result \<times> 's) \<Rightarrow> http_request
     \<Rightarrow> 's \<Rightarrow> http_response \<times> 's" where
  "createPaymentHandler L create hq s =
     (case decodePaymentRequest L (hq_body hq) of
        Inl e \<Rightarrow> (writeError 400 (api_error ''invalid_json'' (error_text e)), s)
      | Inr request \<Rightarrow>
     (case create (hq_idempotency_key hq) request s of
        (Inl err, s1) \<Rightarrow> (writeCreatePaymentError err, s1)
      | (Inr res, s1) \<Rightarrow>
          (writeJSON (if cr_replayed res then 200 else 201) (payment_response_json L (newPaymentResponse (cr_payment res))), s1)))"

definition writeGetPaymentError :: "go_error \<Rightarrow> http_response" where
  "writeGetPaymentError err =
     (if errors_is err ErrPaymentIDInvalid
      then writeError 400 (api_error ''invalid_payment_id'' ''payment ID must be a valid UUID'')
      else if errors_is err ErrPaymentNotFound
      then writeError 404 (api_error ''payment_not_found'' ''payment not found'')
      else if errors_is err DeadlineExceeded
      then writeError 504 (api_error ''request_timeout'' ''payment lookup timed out'')
      else writeError 500 (api_error ''internal_error'' ''payment could not be retrieved''))"

definition getPaymentHandler ::
    "'a golib_scheme \<Rightarrow> (string \<Rightarrow> 's \<Rightarrow> payment result) \<Rightarrow> http_request \<Rightarrow> 's \<Rightarrow> http_response" where
  "getPaymentHandler L get hq s =
     (case get (hq_path_id hq) s of
        Inl err \<Rightarrow> writeGetPaymentError err
      | Inr stored \<Rightarrow> writeJSON 200 (payment_response_json L (newPaymentResponse stored)))"

section \<open>Reviews\<close>

record review_response =
  vr_payment_id :: string
  vr_decision_id :: string
  vr_customer_id :: string
  vr_merchant_id :: string
  vr_amount_minor :: int
  vr_currency :: string
  vr_country :: string
  vr_payment_status :: string
  vr_review_status :: string
  vr_version :: int
  vr_risk_score :: int
  vr_reason_codes :: "string list"
  vr_rule_version :: string
  vr_model_version :: string
  vr_enqueued_at :: gtime
  vr_resolved_at :: "gtime option"
  vr_reviewer_id :: string
  vr_resolution_reason :: string

definition newReviewResponse :: "item \<Rightarrow> review_response" where
  "newReviewResponse it =
     \<lparr>vr_payment_id = it_payment_id it, vr_decision_id = it_decision_id it, vr_customer_id = it_customer_id it,
      vr_merchant_id = it_merchant_id it, vr_amount_minor = it_amount_minor it, vr_currency = it_currency it,
      vr_country = it_country it, vr_payment_status = it_payment_status it, vr_review_status = it_review_status it,
      vr_version = it_version it, vr_risk_score = it_risk_score it, vr_reason_codes = it_reason_codes it,
      vr_rule_version = it_rule_version it, vr_model_version = it_model_version it,
      vr_enqueued_at = utc (it_enqueued_at it), vr_resolved_at = it_resolved_at it,
      vr_reviewer_id = it_reviewer_id it, vr_resolution_reason = it_resolution_reason it\<rparr>"

definition review_response_json :: "'a golib_scheme \<Rightarrow> review_response \<Rightarrow> json" where
  "review_response_json L r =
     JObj ([(''payment_id'', JStr (vr_payment_id r)), (''decision_id'', JStr (vr_decision_id r)),
       (''customer_id'', JStr (vr_customer_id r)), (''merchant_id'', JStr (vr_merchant_id r)),
       (''amount_minor'', JNum (show_int (vr_amount_minor r))), (''currency'', JStr (vr_currency r)),
       (''country'', JStr (vr_country r)), (''payment_status'', JStr (vr_payment_status r)),
       (''review_status'', JStr (vr_review_status r)), (''version'', JNum (show_int (vr_version r))),
       (''risk_score'', JNum (show_int (vr_risk_score r))),
       (''reason_codes'', JArr (map JStr (vr_reason_codes r))),
       (''rule_version'', JStr (vr_rule_version r)), (''model_version'', JStr (vr_model_version r)),
       (''enqueued_at'', JStr (time_text L (vr_enqueued_at r)))]
     @ (case vr_resolved_at r of None \<Rightarrow> [] | Some t \<Rightarrow> [(''resolved_at'', JStr (time_text L t))])
     @ (if vr_reviewer_id r = [] then [] else [(''reviewer_id'', JStr (vr_reviewer_id r))])
     @ (if vr_resolution_reason r = [] then [] else [(''resolution_reason'', JStr (vr_resolution_reason r))]))"

record review_list_response =
  vl_reviews :: "review_response list"
  vl_count :: int

definition review_list_json :: "'a golib_scheme \<Rightarrow> review_list_response \<Rightarrow> json" where
  "review_list_json L r =
     JObj [(''reviews'', JArr (map (review_response_json L) (vl_reviews r))), (''count'', JNum (show_int (vl_count r)))]"

definition conflict_details :: "string \<times> int \<Rightarrow> (string \<times> json) list" where
  "conflict_details c = [(''current_status'', JStr (fst c)), (''current_version'', JNum (show_int (snd c)))]"

definition writeReviewError :: "go_error \<Rightarrow> http_response" where
  "writeReviewError err =
     (if errors_is err ErrReviewIDInvalid
      then writeError 400 (api_error ''invalid_payment_id'' ''payment ID must be a valid UUID'')
      else (case as_review_validation err of
        Some fs \<Rightarrow> writeError 400 ((api_error ''validation_error'' ''review request validation failed'')\<lparr>ae_fields := fs\<rparr>)
      | None \<Rightarrow>
          if errors_is err ErrReviewNotFound
          then writeError 404 (api_error ''review_not_found'' ''manual review not found'')
          else (case as_conflict err of
            Some c \<Rightarrow>
              if errors_is err ErrReviewAlreadyResolved
              then writeError 409 ((api_error ''review_already_resolved'' ''manual review is already resolved'')
                     \<lparr>ae_details := conflict_details c\<rparr>)
              else if errors_is err ErrReviewVersionConflict
              then writeError 409 ((api_error ''review_version_conflict''
                     ''manual review was changed by another reviewer'')\<lparr>ae_details := conflict_details c\<rparr>)
              else if errors_is err ErrReviewStateConflict
              then writeError 409 (api_error ''review_state_conflict'' ''payment is not in a reviewable state'')
              else if errors_is err DeadlineExceeded
              then writeError 504 (api_error ''request_timeout'' ''review request timed out; reload the item before retrying'')
              else writeError 500 (api_error ''internal_error'' ''manual review request failed'')
          | None \<Rightarrow>
              if errors_is err ErrReviewStateConflict
              then writeError 409 (api_error ''review_state_conflict'' ''payment is not in a reviewable state'')
              else if errors_is err DeadlineExceeded
              then writeError 504 (api_error ''request_timeout'' ''review request timed out; reload the item before retrying'')
              else writeError 500 (api_error ''internal_error'' ''manual review request failed''))))"

definition writeForbidden :: http_response where
  "writeForbidden = writeError 403 (api_error ''forbidden'' ''risk_reviewer role is required for this action'')"

definition authenticateReview ::
    "(string \<Rightarrow> principal result) \<Rightarrow> http_request \<Rightarrow> http_response + principal" where
  "authenticateReview authenticate hq =
     (case authenticate (hq_authorization hq) of
        Inl _ \<Rightarrow> Inl ((writeError 401 (api_error ''unauthorized'' ''valid bearer credentials are required''))
                   \<lparr>rs_headers := [(''WWW-Authenticate'', ''Bearer''), (''Content-Type'', ''application/json'')]\<rparr>)
      | Inr who \<Rightarrow> Inr who)"

definition limit_error :: http_response where
  "limit_error =
     writeError 400 ((api_error ''validation_error'' ''review query validation failed'')
       \<lparr>ae_fields := [(''limit'', ''must be an integer between 1 and 100'')]\<rparr>)"

definition listReviewsHandler ::
    "'a golib_scheme \<Rightarrow> (int \<Rightarrow> 's \<Rightarrow> item list result) \<Rightarrow> (string \<Rightarrow> principal result) \<Rightarrow> http_request
     \<Rightarrow> 's \<Rightarrow> http_response" where
  "listReviewsHandler L list_pending authenticate hq s =
     (case authenticateReview authenticate hq of
        Inl r \<Rightarrow> r
      | Inr who \<Rightarrow>
          if pr_role who \<noteq> RoleRiskReviewer \<and> pr_role who \<noteq> RoleRiskAuditor then writeForbidden
          else (case (if hq_limit hq = [] then Some 50 else parse_int64 (hq_limit hq)) of
                  None \<Rightarrow> limit_error
                | Some limit \<Rightarrow>
                    (case list_pending limit s of
                       Inl err \<Rightarrow> writeReviewError err
                     | Inr items \<Rightarrow>
                         writeJSON 200 (review_list_json L
                           \<lparr>vl_reviews = map newReviewResponse items, vl_count = int (length items)\<rparr>))))"

definition resolveReviewHandler ::
    "'a golib_scheme \<Rightarrow> (string \<Rightarrow> string \<Rightarrow> resolve_request \<Rightarrow> principal \<Rightarrow> 's \<Rightarrow> item result \<times> 's)
     \<Rightarrow> (string \<Rightarrow> principal result) \<Rightarrow> string \<Rightarrow> http_request \<Rightarrow> 's \<Rightarrow> http_response \<times> 's" where
  "resolveReviewHandler L resolve authenticate action hq s =
     (case authenticateReview authenticate hq of
        Inl r \<Rightarrow> (r, s)
      | Inr who \<Rightarrow>
          if pr_role who \<noteq> RoleRiskReviewer then (writeForbidden, s)
          else (case decodeReviewRequest L (hq_body hq) of
                  Inl e \<Rightarrow> (writeError 400 (api_error ''invalid_json'' (error_text e)), s)
                | Inr request \<Rightarrow>
                    (case resolve (hq_path_id hq) action request who s of
                       (Inl err, s1) \<Rightarrow> (writeReviewError err, s1)
                     | (Inr it, s1) \<Rightarrow> (writeJSON 200 (review_response_json L (newReviewResponse it)), s1))))"

end
