(* ===== verification/Dashboard.thy ===== *)
theory Dashboard
  imports Reconciliation Review_Lifecycle
begin

text \<open>
  dashboard/model.go, dashboard/postgres_repository.go and dashboard/service.go: the read model of
  the operations view, taken from one snapshot of the database, with the counts of the reconciler.
\<close>

section \<open>The read model\<close>

record payment_summary =
  ps_total :: int
  ps_amount :: int
  ps_pending_risk :: int
  ps_allowed :: int
  ps_review :: int
  ps_blocked :: int
  ps_failed :: int

record decision_summary =
  ds_total :: int
  ds_allow :: int
  ds_review :: int
  ds_block :: int
  ds_average :: float64
  ds_rule_version :: string
  ds_model_version :: string
  ds_latest_at :: "gtime option"

record processing_summary =
  pc_outbox_pending :: int
  pc_outbox_retrying :: int
  pc_outbox_dead_lettered :: int
  pc_events_rejected :: int

record recent_decision =
  rd_decision_id :: string
  rd_payment_id :: string
  rd_customer_id :: string
  rd_merchant_id :: string
  rd_amount_minor :: int
  rd_currency :: string
  rd_country :: string
  rd_payment_status :: string
  rd_decision :: string
  rd_risk_score :: int
  rd_reason_codes :: "string list"
  rd_rule_version :: string
  rd_model_version :: string
  rd_decision_at :: gtime

record reconciliation_summary =
  rcs_grace_period :: string
  rcs_exception_count :: int
  rcs_by_code :: "string \<Rightarrow> int option"

record snapshot =
  sn_generated_at :: gtime
  sn_payments :: payment_summary
  sn_decisions :: decision_summary
  sn_manual_review :: int
  sn_processing :: processing_summary
  sn_reconciliation :: reconciliation_summary
  sn_recent :: "recent_decision list"

section \<open>The queries\<close>

definition count_where :: "('r \<Rightarrow> bool) \<Rightarrow> 'r list \<Rightarrow> int" where
  "count_where p rows = int (length (filter p rows))"

text \<open>A sum of BIGINT is NUMERIC: it is scanned into an \<open>int64\<close> when it fits.\<close>

definition payment_summary_row :: "db \<Rightarrow> int \<times> int \<times> int \<times> int \<times> int \<times> int \<times> int" where
  "payment_summary_row d =
     (let ps = t_payments d; st = (\<lambda>s. count_where (\<lambda>p. pay_status p = s) ps) in
      (int (length ps), sum_list (map amount_minor ps), st ''PENDING_RISK'', st ''ALLOWED'', st ''REVIEW'',
       st ''BLOCKED'', st ''FAILED''))"

fun scanPaymentSummary :: "int \<times> int \<times> int \<times> int \<times> int \<times> int \<times> int \<Rightarrow> payment_summary result" where
  "scanPaymentSummary (n, amount, pending, allowed, review, blocked, failed) =
     (if \<not> in_int64 amount then Inl (Msg ''cannot scan numeric into int64'')
      else Inr \<lparr>ps_total = n, ps_amount = amount, ps_pending_risk = pending, ps_allowed = allowed,
                ps_review = review, ps_blocked = blocked, ps_failed = failed\<rparr>)"

definition paymentSummary :: "db \<Rightarrow> payment_summary result" where
  "paymentSummary d = scanPaymentSummary (payment_summary_row d)"

text \<open>\<open>avg\<close> is \<open>COALESCE(avg(...), 0)::double precision\<close> of the server.\<close>

definition decision_summary_row :: "(int list \<Rightarrow> float64) \<Rightarrow> db \<Rightarrow> int \<times> int \<times> int \<times> int \<times> float64" where
  "decision_summary_row avg d =
     (let rs = t_decisions d; outcome = (\<lambda>x. count_where (\<lambda>r. dr_decision r = x) rs) in
      (int (length rs), outcome ''ALLOW'', outcome ''REVIEW'', outcome ''BLOCK'', avg (map dr_risk_score rs)))"

fun scanDecisionSummary :: "int \<times> int \<times> int \<times> int \<times> float64 \<Rightarrow> decision_summary" where
  "scanDecisionSummary (n, allow, review, block, average) =
     \<lparr>ds_total = n, ds_allow = allow, ds_review = review, ds_block = block, ds_average = average,
      ds_rule_version = [], ds_model_version = [], ds_latest_at = None\<rparr>"

definition decisionSummary :: "(int list \<Rightarrow> float64) \<Rightarrow> db \<Rightarrow> decision_summary" where
  "decisionSummary avg d = scanDecisionSummary (decision_summary_row avg d)"

text \<open>\<open>ORDER BY decision_at DESC, decision_id DESC\<close>\<close>

definition newest_first :: "decision_row list \<Rightarrow> decision_row list" where
  "newest_first rs = rev (sort_key (\<lambda>r. (wall (dr_decision_at r), map byte (dr_decision_id r))) rs)"

definition loadLatestVersion :: "db \<Rightarrow> decision_summary \<Rightarrow> decision_summary" where
  "loadLatestVersion d s =
     (case newest_first (t_decisions d) of
        [] \<Rightarrow> s
      | r # _ \<Rightarrow> s\<lparr>ds_rule_version := dr_rule_version r, ds_model_version := dr_model_version r,
                   ds_latest_at := Some (utc (dr_decision_at r))\<rparr>)"

definition manualReviewSummary :: "db \<Rightarrow> int" where
  "manualReviewSummary d = count_where (\<lambda>q. rv_status q = ''PENDING'') (t_reviews d)"

definition processing_summary_row :: "db \<Rightarrow> int \<times> int \<times> int \<times> int" where
  "processing_summary_row d =
     (let waiting = (\<lambda>r. ev_published_at r = None \<and> ev_dead_lettered_at r = None) in
      (count_where waiting (t_outbox d), count_where (\<lambda>r. waiting r \<and> 0 < ev_delivery_attempts r) (t_outbox d),
       count_where (\<lambda>r. ev_dead_lettered_at r \<noteq> None) (t_outbox d),
       count_where (\<lambda>r. ir_disposition r = ''REJECTED'') (t_receipts d)))"

fun scanProcessingSummary :: "int \<times> int \<times> int \<times> int \<Rightarrow> processing_summary" where
  "scanProcessingSummary (pending, retrying, deadLettered, rejected) =
     \<lparr>pc_outbox_pending = pending, pc_outbox_retrying = retrying, pc_outbox_dead_lettered = deadLettered,
      pc_events_rejected = rejected\<rparr>"

definition processingSummary :: "db \<Rightarrow> processing_summary" where
  "processingSummary d = scanProcessingSummary (processing_summary_row d)"

text \<open>A row of a query and the struct that it is scanned into.\<close>

lemmas summary_defs = paymentSummary_def payment_summary_row_def decisionSummary_def decision_summary_row_def
  processingSummary_def processing_summary_row_def Let_def

definition recentDecision :: "db \<Rightarrow> decision_row \<Rightarrow> recent_decision option" where
  "recentDecision d r =
     map_option (\<lambda>p.
        \<lparr>rd_decision_id = dr_decision_id r, rd_payment_id = dr_payment_id r, rd_customer_id = customer_id p,
         rd_merchant_id = merchant_id p, rd_amount_minor = amount_minor p,
         rd_currency = trim_space (currency p), rd_country = trim_space (country p),
         rd_payment_status = pay_status p, rd_decision = dr_decision r, rd_risk_score = dr_risk_score r,
         rd_reason_codes = dr_reason_codes r, rd_rule_version = dr_rule_version r,
         rd_model_version = dr_model_version r, rd_decision_at = utc (dr_decision_at r)\<rparr>)
       (fetch pay_id (dr_payment_id r) (t_payments d))"

definition recentDecisions :: "nat \<Rightarrow> db \<Rightarrow> recent_decision list" where
  "recentDecisions limit d = take limit (List.map_filter (recentDecision d) (newest_first (t_decisions d)))"

section \<open>Loading\<close>

text \<open>The statements of \<open>Load\<close> are numbered in program order; 6 and 7 are the rows of the last query.\<close>

definition LoadSnapshot :: "(int list \<Rightarrow> float64) \<Rightarrow> pg_env \<Rightarrow> int \<Rightarrow> db \<Rightarrow> snapshot result" where
  "LoadSnapshot avg env limit d =
     (if limit < 1 \<or> 100 < limit then Inl (Msg ''recent decision limit must be between 1 and 100'')
      else (case pg_begin env of
        Some e \<Rightarrow> Inl (errorf ''begin dashboard read transaction'' e)
      | None \<Rightarrow>
     (case statement env 0 (paymentSummary d) of
        Inl e \<Rightarrow> Inl (errorf ''load dashboard payment summary'' e)
      | Inr ps \<Rightarrow>
     (case statement env 1 (Inr (decisionSummary avg d)) of
        Inl e \<Rightarrow> Inl (errorf ''load dashboard decision summary'' e)
      | Inr ds \<Rightarrow>
     (case statement env 2 (Inr (loadLatestVersion d ds)) of
        Inl e \<Rightarrow> Inl (errorf ''load dashboard latest model version'' e)
      | Inr ds1 \<Rightarrow>
     (case statement env 3 (Inr (manualReviewSummary d)) of
        Inl e \<Rightarrow> Inl (errorf ''load dashboard manual-review summary'' e)
      | Inr pending \<Rightarrow>
     (case statement env 4 (Inr (processingSummary d)) of
        Inl e \<Rightarrow> Inl (errorf ''load dashboard processing summary'' e)
      | Inr pc \<Rightarrow>
     (case statement env 5 (Inr (recentDecisions (nat limit) d)) of
        Inl e \<Rightarrow> Inl (errorf ''query recent dashboard decisions'' e)
      | Inr recent \<Rightarrow>
     (case statement env 6 (Inr ()) of
        Inl e \<Rightarrow> Inl (errorf ''scan recent dashboard decision'' e)
      | Inr _ \<Rightarrow>
     (case statement env 7 (Inr ()) of
        Inl e \<Rightarrow> Inl (errorf ''iterate recent dashboard decisions'' e)
      | Inr _ \<Rightarrow>
          fst (commit_tx env ''commit dashboard read transaction'' d d
            \<lparr>sn_generated_at = zero_time, sn_payments = ps, sn_decisions = ds1, sn_manual_review = pending,
             sn_processing = pc,
             sn_reconciliation = \<lparr>rcs_grace_period = [], rcs_exception_count = 0, rcs_by_code = Map.empty\<rparr>,
             sn_recent = recent\<rparr>)))))))))))"

text \<open>\<open>Service.Load\<close>, with its repository and reconciler as arguments.\<close>

text \<open>When the sum of all amounts leaves the range of \<open>int64\<close>, no snapshot can be loaded any more.\<close>

lemma LoadSnapshot_overflow:
  assumes "\<not> in_int64 (sum_list (map amount_minor (t_payments d)))"
  shows "\<exists>e. LoadSnapshot avg env limit d = Inl e"
proof -
  have "\<exists>e. statement env 0 (paymentSummary d) = Inl e"
    using assms by (auto simp: summary_defs statement_def split: option.splits)
  then show ?thesis by (auto simp: LoadSnapshot_def split: option.splits)
qed

definition service_load :: "(int \<Rightarrow> snapshot result) \<Rightarrow> recon_counts result \<Rightarrow> int \<Rightarrow> snapshot result" where
  "service_load load_snapshot counts recentLimit =
     (case load_snapshot recentLimit of
        Inl e \<Rightarrow> Inl (errorf ''load dashboard data'' e)
      | Inr snap \<Rightarrow>
     (case counts of
        Inl e \<Rightarrow> Inl (errorf ''run dashboard reconciliation'' e)
      | Inr report \<Rightarrow>
          Inr (snap\<lparr>sn_generated_at := utc (rn_generated_at report),
                    sn_reconciliation := \<lparr>rcs_grace_period = rn_grace_period report,
                      rcs_exception_count = rn_exception_count report,
                      rcs_by_code = rn_by_code report\<rparr>\<rparr>)))"

section \<open>The totals\<close>

lemma count_where_nonneg [simp]: "0 \<le> count_where p xs"
  by (simp add: count_where_def)

lemma count_where_split:
  "count_where p xs = count_where (\<lambda>x. p x \<and> q x) xs + count_where (\<lambda>x. p x \<and> \<not> q x) xs"
  by (induction xs) (auto simp: count_where_def)

lemma count_where_Nil [simp]: "count_where p [] = 0"
  by (simp add: count_where_def)

lemma count_where_Cons [simp]: "count_where p (x # xs) = (if p x then 1 else 0) + count_where p xs"
  by (simp add: count_where_def)

text \<open>Every payment has one of the statuses of the life cycle.\<close>

lemma expected_status_range:
  "expected_status dec q = Some s \<Longrightarrow> s \<in> {''ALLOWED'', ''REVIEW'', ''BLOCKED''}"
  by (auto simp: expected_status_def split: if_splits)

lemma consistent_status:
  assumes "consistent d" and "p \<in> set (t_payments d)"
  shows "pay_status p \<in> {''PENDING_RISK'', ''ALLOWED'', ''REVIEW'', ''BLOCKED''}"
proof -
  have "status_agrees d p" using assms by (simp add: consistent_def)
  then show ?thesis
    using expected_status_range by (auto simp: status_agrees_def split: option.splits)
qed

lemma decision_outcome:
  "consistent d \<Longrightarrow> r \<in> set (t_decisions d) \<Longrightarrow> dr_decision r \<in> {''ALLOW'', ''REVIEW'', ''BLOCK''}"
  by (auto simp: consistent_def valid_db_def valid_decisions_def decision_checks_def)

lemma statuses_add_up:
  "\<forall>p \<in> set ps. pay_status p \<in> {''PENDING_RISK'', ''ALLOWED'', ''REVIEW'', ''BLOCKED''} \<Longrightarrow>
   int (length ps) = count_where (\<lambda>p. pay_status p = ''PENDING_RISK'') ps
     + count_where (\<lambda>p. pay_status p = ''ALLOWED'') ps + count_where (\<lambda>p. pay_status p = ''REVIEW'') ps
     + count_where (\<lambda>p. pay_status p = ''BLOCKED'') ps
   \<and> count_where (\<lambda>p. pay_status p = ''FAILED'') ps = 0"
  by (induction ps) auto

lemma outcomes_add_up:
  "\<forall>r \<in> set rs. dr_decision r \<in> {''ALLOW'', ''REVIEW'', ''BLOCK''} \<Longrightarrow>
   int (length rs) = count_where (\<lambda>r. dr_decision r = ''ALLOW'') rs
     + count_where (\<lambda>r. dr_decision r = ''REVIEW'') rs + count_where (\<lambda>r. dr_decision r = ''BLOCK'') rs"
  by (induction rs) auto

lemma count_where_bij:
  assumes "distinct (map f (filter p xs))" and "distinct (map g (filter q ys))"
    and "f ` set (filter p xs) = g ` set (filter q ys)"
  shows "count_where p xs = count_where q ys"
proof -
  have "length (filter p xs) = card (set (map f (filter p xs)))" using distinct_card [OF assms(1)] by simp
  also have "\<dots> = card (set (map g (filter q ys)))" using assms(3) by simp
  also have "\<dots> = length (filter q ys)" using distinct_card [OF assms(2)] by simp
  finally show ?thesis by (simp add: count_where_def)
qed

lemma same_keys:
  assumes "\<And>x. x \<in> set xs \<Longrightarrow> p x \<Longrightarrow> \<exists>y \<in> set ys. g y = f x \<and> q y"
    and "\<And>y. y \<in> set ys \<Longrightarrow> q y \<Longrightarrow> \<exists>x \<in> set xs. f x = g y \<and> p x"
  shows "f ` set (filter p xs) = g ` set (filter q ys)"
proof (intro equalityI subsetI)
  fix k assume "k \<in> f ` set (filter p xs)"
  then obtain x where "x \<in> set xs" "p x" "k = f x" by auto
  then show "k \<in> g ` set (filter q ys)" using assms(1) by force
next
  fix k assume "k \<in> g ` set (filter q ys)"
  then obtain y where "y \<in> set ys" "q y" "k = g y" by auto
  then show "k \<in> f ` set (filter p xs)" using assms(2) by force
qed

lemma distinct_map_filter_key: "unique_by key rows \<Longrightarrow> distinct (map key (filter p rows))"
  by (induction rows) (auto simp: unique_by_def)

text \<open>A decided payment is one that is no longer pending, and the other way round.\<close>

lemma decided_payments:
  assumes "consistent d"
  shows "int (length (t_decisions d)) = count_where (\<lambda>p. pay_status p \<noteq> ''PENDING_RISK'') (t_payments d)"
proof -
  have u: "unique_by pay_id (t_payments d)" "unique_by dr_payment_id (t_decisions d)"
    using assms by (simp_all add: consistent_def valid_db_def valid_payments_def)
  have dec: "\<exists>p \<in> set (t_payments d). pay_id p = dr_payment_id r \<and> pay_status p \<noteq> ''PENDING_RISK''"
    if r: "r \<in> set (t_decisions d)" for r
  proof -
    have "payment_exists d (dr_payment_id r)"
      using assms r by (auto simp: consistent_def valid_db_def valid_decisions_def decision_checks_def)
    then obtain p where p: "p \<in> set (t_payments d)" "pay_id p = dr_payment_id r"
      by (auto simp: payment_exists_def dest: fetch_SomeD)
    have "fetch dr_payment_id (pay_id p) (t_decisions d) \<noteq> None"
      using r p(2) by (auto simp: fetch_None_iff)
    with pending_iff [OF assms p(1)] p show ?thesis by auto
  qed
  have pay: "\<exists>r \<in> set (t_decisions d). dr_payment_id r = pay_id p"
    if p: "p \<in> set (t_payments d)" "pay_status p \<noteq> ''PENDING_RISK''" for p
  proof -
    obtain r where "fetch dr_payment_id (pay_id p) (t_decisions d) = Some r"
      using pending_iff [OF assms p(1)] p(2) by auto
    then show ?thesis by (auto dest: fetch_SomeD)
  qed
  have img: "pay_id ` set (filter (\<lambda>p. pay_status p \<noteq> ''PENDING_RISK'') (t_payments d))
      = dr_payment_id ` set (filter (\<lambda>_. True) (t_decisions d))"
    by (rule same_keys) (use pay dec in auto)
  have "count_where (\<lambda>p. pay_status p \<noteq> ''PENDING_RISK'') (t_payments d) = count_where (\<lambda>_. True) (t_decisions d)"
    by (rule count_where_bij [OF distinct_map_filter_key [OF u(1)] distinct_map_filter_key [OF u(2)] img])
  then show ?thesis by (simp add: count_where_def)
qed

lemma waiting_reviews:
  assumes "consistent d"
  shows "count_where (\<lambda>q. rv_status q = ''PENDING'') (t_reviews d) = count_where (\<lambda>p. pay_status p = ''REVIEW'') (t_payments d)"
proof -
  have u: "unique_by pay_id (t_payments d)" "unique_by rv_payment_id (t_reviews d)"
    "unique_by dr_decision_id (t_decisions d)"
    and ra: "reviews_agree d"
    using assms by (simp_all add: consistent_def valid_db_def valid_payments_def valid_reviews_def valid_decisions_def)
  have rev: "\<exists>p \<in> set (t_payments d). pay_id p = rv_payment_id q \<and> pay_status p = ''REVIEW''"
    if q: "q \<in> set (t_reviews d)" "rv_status q = ''PENDING''" for q
    by (rule pending_review_payment [OF assms q]) (auto dest: fetch_SomeD)
  have pay: "\<exists>q \<in> set (t_reviews d). rv_payment_id q = pay_id p \<and> rv_status q = ''PENDING''"
    if p: "p \<in> set (t_payments d)" "pay_status p = ''REVIEW''" for p
  proof -
    obtain r where f: "fetch dr_payment_id (pay_id p) (t_decisions d) = Some r"
      using pending_iff [OF assms p(1)] p(2) by auto
    then have r: "r \<in> set (t_decisions d)" "dr_payment_id r = pay_id p" by (auto dest: fetch_SomeD)
    have "status_agrees d p" using assms p(1) by (simp add: consistent_def)
    with f p(2) have e: "expected_status (dr_decision r) (review_status d (dr_decision_id r)) = Some ''REVIEW''"
      by (simp add: status_agrees_def)
    then have dr: "dr_decision r = ''REVIEW''" and st: "review_status d (dr_decision_id r) \<noteq> Some ''APPROVED''"
      "review_status d (dr_decision_id r) \<noteq> Some ''REJECTED''"
      by (auto simp: expected_status_def split: if_splits)
    have "review_status d (dr_decision_id r) \<noteq> None" using ra r(1) dr unfolding reviews_agree_def by blast
    then obtain q where q: "fetch rv_decision_id (dr_decision_id r) (t_reviews d) = Some q"
      by (auto simp: review_status_def)
    then have qin: "q \<in> set (t_reviews d)" "rv_decision_id q = dr_decision_id r" by (auto dest: fetch_SomeD)
    have "resolution_shape q" using assms qin(1)
      by (auto simp: consistent_def valid_db_def valid_reviews_def review_checks_def)
    then have "rv_status q = ''PENDING''" using st q by (auto simp: resolution_shape_def review_status_def)
    moreover obtain r' where r': "r' \<in> set (t_decisions d)" "dr_decision_id r' = rv_decision_id q"
      "dr_payment_id r' = rv_payment_id q"
      using ra qin(1) unfolding reviews_agree_def by blast
    moreover have "r' = r" using unique_byD [OF u(3) r'(1) r(1)] r'(2) qin(2) by simp
    ultimately show ?thesis using qin(1) r(2) by auto
  qed
  have img: "rv_payment_id ` set (filter (\<lambda>q. rv_status q = ''PENDING'') (t_reviews d))
      = pay_id ` set (filter (\<lambda>p. pay_status p = ''REVIEW'') (t_payments d))"
    by (rule same_keys) (use rev pay in auto)
  show ?thesis
    by (rule count_where_bij [OF distinct_map_filter_key [OF u(2)] distinct_map_filter_key [OF u(1)] img])
qed

lemma LoadSnapshot_Inr:
  assumes "LoadSnapshot avg env limit d = Inr snap"
  shows "1 \<le> limit \<and> limit \<le> 100 \<and> paymentSummary d = Inr (sn_payments snap)
    \<and> sn_decisions snap = loadLatestVersion d (decisionSummary avg d)
    \<and> sn_manual_review snap = manualReviewSummary d \<and> sn_processing snap = processingSummary d
    \<and> sn_recent snap = recentDecisions (nat limit) d"
  using assms
  by (auto simp: LoadSnapshot_def statement_Inr commit_tx_def
      split: sum.splits option.splits if_splits commit_outcome.splits)

lemma loadLatestVersion_counts [simp]:
  "ds_total (loadLatestVersion d s) = ds_total s" "ds_allow (loadLatestVersion d s) = ds_allow s"
  "ds_review (loadLatestVersion d s) = ds_review s" "ds_block (loadLatestVersion d s) = ds_block s"
  by (simp_all add: loadLatestVersion_def split: list.splits)

lemma paymentSummary_Inr:
  "paymentSummary d = Inr ps \<Longrightarrow>
     ps_total ps = int (length (t_payments d)) \<and> ps_amount ps = sum_list (map amount_minor (t_payments d))
     \<and> in_int64 (ps_amount ps)
     \<and> ps_pending_risk ps = count_where (\<lambda>p. pay_status p = ''PENDING_RISK'') (t_payments d)
     \<and> ps_allowed ps = count_where (\<lambda>p. pay_status p = ''ALLOWED'') (t_payments d)
     \<and> ps_review ps = count_where (\<lambda>p. pay_status p = ''REVIEW'') (t_payments d)
     \<and> ps_blocked ps = count_where (\<lambda>p. pay_status p = ''BLOCKED'') (t_payments d)
     \<and> ps_failed ps = count_where (\<lambda>p. pay_status p = ''FAILED'') (t_payments d)"
  by (auto simp: summary_defs split: if_splits)

lemma recentDecisions_length:
  assumes "consistent d"
  shows "length (recentDecisions n d) = min n (length (t_decisions d))"
proof -
  have "recentDecision d r \<noteq> None" if "r \<in> set (newest_first (t_decisions d))" for r
  proof -
    have "payment_exists d (dr_payment_id r)"
      using assms that by (auto simp: newest_first_def consistent_def valid_db_def valid_decisions_def decision_checks_def)
    then show ?thesis by (auto simp: recentDecision_def payment_exists_def)
  qed
  then have "List.map_filter (recentDecision d) (newest_first (t_decisions d))
      = map (\<lambda>r. the (recentDecision d r)) (newest_first (t_decisions d))"
    by (rule map_filter_total)
  then show ?thesis by (simp add: recentDecisions_def newest_first_def min.commute)
qed

lemma count_where_mono: "(\<And>x. p x \<Longrightarrow> q x) \<Longrightarrow> count_where p xs \<le> count_where q xs"
  by (induction xs) auto

text \<open>
  C27:
  The figures of the operations view agree with each other.  In a snapshot of a consistent database
  the payments split exactly into the four statuses of the life cycle, none is FAILED, and the
  decisions split exactly into the three outcomes; the decided payments are as many as the
  decisions, the payments in REVIEW as many as the entries of the review queue, no more events are
  retried than are waiting, and the list of recent decisions is as long as the request's limit and
  the decisions allow.\<close>

theorem dashboard_adds_up:
  assumes "consistent d" and "LoadSnapshot avg env limit d = Inr snap"
  shows "ps_total (sn_payments snap) = ps_pending_risk (sn_payments snap) + ps_allowed (sn_payments snap)
          + ps_review (sn_payments snap) + ps_blocked (sn_payments snap)
    \<and> ps_failed (sn_payments snap) = 0
    \<and> ds_total (sn_decisions snap) = ds_allow (sn_decisions snap) + ds_review (sn_decisions snap)
          + ds_block (sn_decisions snap)
    \<and> ds_total (sn_decisions snap) = ps_total (sn_payments snap) - ps_pending_risk (sn_payments snap)
    \<and> sn_manual_review snap = ps_review (sn_payments snap)
    \<and> pc_outbox_retrying (sn_processing snap) \<le> pc_outbox_pending (sn_processing snap)
    \<and> int (length (sn_recent snap)) = min limit (ds_total (sn_decisions snap)) \<and> 1 \<le> limit \<and> limit \<le> 100"
proof -
  note s = LoadSnapshot_Inr [OF assms(2)]
  note p = paymentSummary_Inr [OF conjunct1 [OF conjunct2 [OF conjunct2 [OF s]]]]
  have pay: "\<forall>p \<in> set (t_payments d). pay_status p \<in> {''PENDING_RISK'', ''ALLOWED'', ''REVIEW'', ''BLOCKED''}"
    using consistent_status [OF assms(1)] by blast
  have dec: "\<forall>r \<in> set (t_decisions d). dr_decision r \<in> {''ALLOW'', ''REVIEW'', ''BLOCK''}"
    using decision_outcome [OF assms(1)] by blast
  have ds: "ds_total (sn_decisions snap) = int (length (t_decisions d))"
    "ds_allow (sn_decisions snap) = count_where (\<lambda>r. dr_decision r = ''ALLOW'') (t_decisions d)"
    "ds_review (sn_decisions snap) = count_where (\<lambda>r. dr_decision r = ''REVIEW'') (t_decisions d)"
    "ds_block (sn_decisions snap) = count_where (\<lambda>r. dr_decision r = ''BLOCK'') (t_decisions d)"
    using s by (simp_all add: summary_defs)
  have split: "int (length (t_payments d)) = count_where (\<lambda>p. pay_status p = ''PENDING_RISK'') (t_payments d)
      + count_where (\<lambda>p. pay_status p \<noteq> ''PENDING_RISK'') (t_payments d)"
    using count_where_split [of "\<lambda>_. True" "t_payments d"] by (simp add: count_where_def)
  have retry: "pc_outbox_retrying (sn_processing snap) \<le> pc_outbox_pending (sn_processing snap)"
    using s by (auto simp: summary_defs intro: count_where_mono)
  have recent: "int (length (sn_recent snap)) = min limit (ds_total (sn_decisions snap))"
    using s ds(1) recentDecisions_length [OF assms(1)] by (simp add: min_def) linarith
  show ?thesis
    using s p ds split retry recent statuses_add_up [OF pay] outcomes_add_up [OF dec]
      decided_payments [OF assms(1)] waiting_reviews [OF assms(1)]
    by (simp add: manualReviewSummary_def)
qed

lemma LoadSnapshot_no_fault:
  assumes "no_fault env" and "1 \<le> limit" and "limit \<le> 100" and "paymentSummary d = Inr ps"
  shows "\<exists>snap. LoadSnapshot avg env limit d = Inr snap"
proof -
  have "pg_begin env = None" using assms(1) by (simp add: no_fault_def)
  with assms show ?thesis by (simp add: LoadSnapshot_def statement_no_fault commit_no_fault)
qed

theorem dashboard_adds_up_witness:
  "\<exists>snap. LoadSnapshot (\<lambda>_. Finite 0) (healthy zero_time) 5 sample_review_db = Inr snap
     \<and> ds_total (sn_decisions snap) = ps_total (sn_payments snap) - ps_pending_risk (sn_payments snap)
     \<and> sn_manual_review snap = ps_review (sn_payments snap)"
proof -
  obtain ps where "paymentSummary sample_review_db = Inr ps"
    by (simp add: summary_defs sample_review_db_def sample_payment_def in_int64_def as_stored_def)
  from LoadSnapshot_no_fault [OF no_fault_healthy _ _ this]
  obtain snap where "LoadSnapshot (\<lambda>_. Finite 0) (healthy zero_time) 5 sample_review_db = Inr snap"
    by fastforce
  with dashboard_adds_up [OF sample_review_consistent this] show ?thesis by blast
qed

end
