(* ===== verification/Http_Router.thy ===== *)
theory Http_Router
  imports Http_Api Dashboard
begin

text \<open>
  httpapi/dashboard.go, the router of httpapi/health.go, and the middleware of
  observability/request.go: from the request as net/http delivers it to the response, the labels
  of its metrics, and the change of the database.
\<close>

section \<open>The operations view\<close>

text \<open>The map of a report is marshalled with its keys in order; these are all codes there are.\<close>

definition reconciliation_codes :: "string list" where
  "reconciliation_codes =
     [''DUPLICATE_DECISION'', ''DUPLICATE_DELIVERY'', ''MISSING_DECISION'', ''PAYMENT_STATUS_MISMATCH'',
      ''REJECTED_DECISION_EVENT'', ''REVIEW_QUEUE_MISSING'', ''UNEXPECTED_REVIEW_QUEUE'']"

definition count_json :: "int \<Rightarrow> json" where
  "count_json n = JNum (show_int n)"

definition text_unless_empty :: "string \<Rightarrow> string \<Rightarrow> (string \<times> json) list" where
  "text_unless_empty k v = (if v = [] then [] else [(k, JStr v)])"

definition payment_summary_json :: "payment_summary \<Rightarrow> json" where
  "payment_summary_json p =
     JObj [(''total'', count_json (ps_total p)), (''amount_minor_total'', count_json (ps_amount p)),
       (''by_status'', JObj [(''pending_risk'', count_json (ps_pending_risk p)),
          (''allowed'', count_json (ps_allowed p)), (''review'', count_json (ps_review p)),
          (''blocked'', count_json (ps_blocked p)), (''failed'', count_json (ps_failed p))])]"

definition decision_summary_json :: "'a golib_scheme \<Rightarrow> decision_summary \<Rightarrow> json" where
  "decision_summary_json L s =
     JObj ([(''total'', count_json (ds_total s)),
       (''by_outcome'', JObj [(''allow'', count_json (ds_allow s)), (''review'', count_json (ds_review s)),
          (''block'', count_json (ds_block s))]),
       (''average_risk_score'', JNum (float_text L (ds_average s)))]
     @ text_unless_empty ''latest_rule_version'' (ds_rule_version s)
     @ text_unless_empty ''latest_model_version'' (ds_model_version s)
     @ (case ds_latest_at s of None \<Rightarrow> [] | Some t \<Rightarrow> [(''latest_decision_at'', JStr (time_text L t))]))"

definition recent_decision_json :: "'a golib_scheme \<Rightarrow> recent_decision \<Rightarrow> json" where
  "recent_decision_json L r =
     JObj [(''decision_id'', JStr (rd_decision_id r)), (''payment_id'', JStr (rd_payment_id r)),
       (''customer_id'', JStr (rd_customer_id r)), (''merchant_id'', JStr (rd_merchant_id r)),
       (''amount_minor'', count_json (rd_amount_minor r)), (''currency'', JStr (rd_currency r)),
       (''country'', JStr (rd_country r)), (''payment_status'', JStr (rd_payment_status r)),
       (''decision'', JStr (rd_decision r)), (''risk_score'', count_json (rd_risk_score r)),
       (''reason_codes'', JArr (map JStr (rd_reason_codes r))), (''rule_version'', JStr (rd_rule_version r)),
       (''model_version'', JStr (rd_model_version r)), (''decision_at'', JStr (time_text L (rd_decision_at r)))]"

definition snapshot_json :: "'a golib_scheme \<Rightarrow> snapshot \<Rightarrow> json" where
  "snapshot_json L s =
     JObj [(''generated_at'', JStr (time_text L (sn_generated_at s))),
       (''payments'', payment_summary_json (sn_payments s)),
       (''decisions'', decision_summary_json L (sn_decisions s)),
       (''manual_review'', JObj [(''pending'', count_json (sn_manual_review s))]),
       (''processing'', JObj [(''outbox_pending'', count_json (pc_outbox_pending (sn_processing s))),
          (''outbox_retrying'', count_json (pc_outbox_retrying (sn_processing s))),
          (''outbox_dead_lettered'', count_json (pc_outbox_dead_lettered (sn_processing s))),
          (''decision_events_rejected'', count_json (pc_events_rejected (sn_processing s)))]),
       (''reconciliation'', JObj [(''grace_period'', JStr (rcs_grace_period (sn_reconciliation s))),
          (''exception_count'', count_json (rcs_exception_count (sn_reconciliation s))),
          (''by_code'', JObj (List.map_filter
             (\<lambda>k. map_option (\<lambda>n. (k, count_json n)) (rcs_by_code (sn_reconciliation s) k)) reconciliation_codes))]),
       (''recent_decisions'', JArr (map (recent_decision_json L) (sn_recent s)))]"

definition parseRecentDecisionLimit :: "http_request \<Rightarrow> int result" where
  "parseRecentDecisionLimit hq =
     (if hq_recent_limit hq = [] then Inr 20
      else (case parse_int64 (hq_recent_limit hq) of
              None \<Rightarrow> Inl (Msg ''must be an integer between 1 and 100'')
            | Some v \<Rightarrow> if v < 1 \<or> 100 < v then Inl (Msg ''must be an integer between 1 and 100'') else Inr v))"

definition dashboardHandler ::
    "'a golib_scheme \<Rightarrow> (int \<Rightarrow> 's \<Rightarrow> snapshot result) \<Rightarrow> (string \<Rightarrow> principal result) \<Rightarrow> http_request
     \<Rightarrow> 's \<Rightarrow> http_response" where
  "dashboardHandler L load authenticate hq s =
     (case authenticateReview authenticate hq of
        Inl r \<Rightarrow> r
      | Inr who \<Rightarrow>
          if pr_role who \<noteq> RoleRiskReviewer \<and> pr_role who \<noteq> RoleRiskAuditor
          then writeError 403 (api_error ''forbidden'' ''risk operations role is required'')
          else (case parseRecentDecisionLimit hq of
                  Inl err \<Rightarrow>
                    writeError 400 ((api_error ''validation_error'' ''dashboard query validation failed'')
                      \<lparr>ae_fields := [(''recent_limit'', error_text err)]\<rparr>)
                | Inr recentLimit \<Rightarrow>
                    (case load recentLimit s of
                       Inl err \<Rightarrow>
                         if errors_is err DeadlineExceeded
                         then writeError 504 (api_error ''request_timeout'' ''dashboard request timed out'')
                         else writeError 500 (api_error ''internal_error'' ''dashboard request failed'')
                     | Inr snap \<Rightarrow>
                         (writeJSON 200 (snapshot_json L snap))
                           \<lparr>rs_headers := [(''Cache-Control'', ''no-store''), (''Content-Type'', ''application/json'')]\<rparr>)))"

section \<open>Routes\<close>

text \<open>
  A pattern of \<open>http.ServeMux\<close>: the method and the segments of the path, of which \<open>None\<close> is
  a wildcard, which matches one segment that is not empty.  GET also matches HEAD.
\<close>

record 's route =
  rt_pattern :: string
  rt_method :: string
  rt_path :: "string option list"
  rt_handler :: "http_request \<Rightarrow> 's \<Rightarrow> http_response \<times> 's"

fun match_path :: "string option list \<Rightarrow> string list \<Rightarrow> string list option" where
  "match_path [] [] = Some []"
| "match_path (Some lit # ps) (seg # segs) = (if seg = lit then match_path ps segs else None)"
| "match_path (None # ps) (seg # segs) = (if seg = [] then None else map_option ((#) seg) (match_path ps segs))"
| "match_path _ _ = None"

definition method_matches :: "'s route \<Rightarrow> string \<Rightarrow> bool" where
  "method_matches rt m \<longleftrightarrow> rt_method rt = m \<or> (rt_method rt = ''GET'' \<and> m = ''HEAD'')"

text \<open>\<open>http.Error\<close>, with the newline that it appends\<close>

definition plain_error :: "nat \<Rightarrow> string \<Rightarrow> http_response" where
  "plain_error status text =
     \<lparr>rs_status = status,
      rs_headers = [(''Content-Type'', ''text/plain; charset=utf-8''), (''X-Content-Type-Options'', ''nosniff'')],
      rs_body = TextBody (text @ [CHR 0x0A])\<rparr>"

fun comma_list :: "string list \<Rightarrow> string" where
  "comma_list [] = []"
| "comma_list [x] = x"
| "comma_list (x # xs) = x @ '', '' @ comma_list xs"

definition allowed_methods :: "'s route list \<Rightarrow> string list \<Rightarrow> string" where
  "allowed_methods rts path =
     (let ms = map rt_method (filter (\<lambda>rt. match_path (rt_path rt) path \<noteq> None) rts) in
      comma_list (filter (\<lambda>m. m \<in> set ms \<or> (m = ''HEAD'' \<and> ''GET'' \<in> set ms)) [''GET'', ''HEAD'', ''POST'']))"

text \<open>
  \<open>ServeHTTP\<close> of the multiplexer: no two patterns of this program match the same request, so the
  first match is the one.  The second component is \<open>r.Pattern\<close>.
\<close>

definition serve_mux :: "'s route list \<Rightarrow> http_request \<Rightarrow> 's \<Rightarrow> (http_response \<times> string) \<times> 's" where
  "serve_mux rts hq s =
     (case filter (\<lambda>rt. method_matches rt (hq_method hq) \<and> match_path (rt_path rt) (hq_path hq) \<noteq> None) rts of
        rt # _ \<Rightarrow>
          (let hq' = hq\<lparr>hq_pattern := rt_pattern rt,
                        hq_path_id := concat (the (match_path (rt_path rt) (hq_path hq)))\<rparr>;
               (r, s1) = rt_handler rt hq' s in ((r, rt_pattern rt), s1))
      | [] \<Rightarrow>
          let allowed = allowed_methods rts (hq_path hq) in
          if allowed \<noteq> []
          then (((plain_error 405 ''Method Not Allowed'')
                  \<lparr>rs_headers := (''Allow'', allowed) # rs_headers (plain_error 405 [])\<rparr>, []), s)
          else ((plain_error 404 ''404 page not found'', []), s))"

text \<open>The dependencies of \<open>NewHandlerWithMetrics\<close>; those that may be nil are optional.\<close>

record 's review_service =
  rs_list :: "int \<Rightarrow> 's \<Rightarrow> item list result"
  rs_resolve :: "string \<Rightarrow> string \<Rightarrow> resolve_request \<Rightarrow> principal \<Rightarrow> 's \<Rightarrow> item result \<times> 's"

record 's api_deps =
  ap_ping :: "go_error option"
  ap_create :: "string \<Rightarrow> create_request \<Rightarrow> 's \<Rightarrow> create_result result \<times> 's"
  ap_get :: "string \<Rightarrow> 's \<Rightarrow> payment result"
  ap_reviews :: "'s review_service option"
  ap_dashboard :: "(int \<Rightarrow> 's \<Rightarrow> snapshot result) option"
  ap_auth :: "(string \<Rightarrow> principal result) option"
  ap_metrics :: "(http_request \<Rightarrow> http_response) option"

definition healthz :: http_response where
  "healthz = writeJSON 200 (JObj [(''status'', JStr ''ok'')])"

definition readyz :: "go_error option \<Rightarrow> http_response" where
  "readyz ping =
     (case ping of
        Some _ \<Rightarrow> writeError 503 (api_error ''database_unavailable'' ''database unavailable'')
      | None \<Rightarrow> writeJSON 200 (JObj [(''status'', JStr ''ready'')]))"

text \<open>A handler that only reads.\<close>

definition reads :: "(http_request \<Rightarrow> 's \<Rightarrow> http_response) \<Rightarrow> http_request \<Rightarrow> 's \<Rightarrow> http_response \<times> 's" where
  "reads h hq s = (h hq s, s)"

definition handle_route ::
    "string \<Rightarrow> string \<Rightarrow> string option list \<Rightarrow> (http_request \<Rightarrow> 's \<Rightarrow> http_response \<times> 's) \<Rightarrow> 's route" where
  "handle_route pattern method path h =
     \<lparr>rt_pattern = pattern, rt_method = method, rt_path = path, rt_handler = h\<rparr>"

definition NewHandlerWithMetrics :: "'a golib_scheme \<Rightarrow> 's api_deps \<Rightarrow> 's route list" where
  "NewHandlerWithMetrics L ap =
     [handle_route ''GET /healthz'' ''GET'' [Some ''healthz''] (reads (\<lambda>hq s. healthz)),
      handle_route ''GET /readyz'' ''GET'' [Some ''readyz''] (reads (\<lambda>hq s. readyz (ap_ping ap))),
      handle_route ''POST /v1/payments'' ''POST'' [Some ''v1'', Some ''payments'']
        (createPaymentHandler L (ap_create ap)),
      handle_route ''GET /v1/payments/{id}'' ''GET'' [Some ''v1'', Some ''payments'', None]
        (reads (getPaymentHandler L (ap_get ap)))]
     @ (case (ap_reviews ap, ap_auth ap) of
          (Some reviews, Some auth) \<Rightarrow>
            [handle_route ''GET /v1/reviews'' ''GET'' [Some ''v1'', Some ''reviews'']
               (reads (listReviewsHandler L (rs_list reviews) auth)),
             handle_route ''POST /v1/reviews/{id}/approve'' ''POST'' [Some ''v1'', Some ''reviews'', None, Some ''approve'']
               (resolveReviewHandler L (rs_resolve reviews) auth ActionApprove),
             handle_route ''POST /v1/reviews/{id}/reject'' ''POST'' [Some ''v1'', Some ''reviews'', None, Some ''reject'']
               (resolveReviewHandler L (rs_resolve reviews) auth ActionReject)]
        | _ \<Rightarrow> [])
     @ (case (ap_dashboard ap, ap_auth ap) of
          (Some dashboard, Some auth) \<Rightarrow>
            [handle_route ''GET /v1/dashboard'' ''GET'' [Some ''v1'', Some ''dashboard'']
               (reads (dashboardHandler L dashboard auth))]
        | _ \<Rightarrow> [])
     @ (case ap_metrics ap of
          Some metrics \<Rightarrow> [handle_route ''GET /metrics'' ''GET'' [Some ''metrics''] (reads (\<lambda>hq s. metrics hq))]
        | None \<Rightarrow> [])"

text \<open>\<open>NewHandler\<close> leaves out the route of the metrics.\<close>

definition NewHandler :: "'a golib_scheme \<Rightarrow> 's api_deps \<Rightarrow> 's route list" where
  "NewHandler L ap = NewHandlerWithMetrics L (ap\<lparr>ap_metrics := None\<rparr>)"

lemma NewHandler_routes:
  "NewHandler L ap = filter (\<lambda>rt. rt_pattern rt \<noteq> ''GET /metrics'') (NewHandlerWithMetrics L ap)"
  by (simp add: NewHandler_def NewHandlerWithMetrics_def handle_route_def split: option.splits)

section \<open>The middleware\<close>

text \<open>
  \<open>newUUID\<close> of observability/request.go: when \<open>rand.Read\<close> fails, the low 48 bits of the clock in
  nanoseconds, as twelve hexadecimal digits, keep the shape of a version 4 UUID.
\<close>

definition hex12 :: "nat \<Rightarrow> string" where
  "hex12 n = map (\<lambda>i. hex_digit (n div 16 ^ i mod 16)) (rev [0..<12])"

definition newRequestUUID :: "byte8 list result \<Rightarrow> 64 word \<Rightarrow> string" where
  "newRequestUUID rnd nanos =
     (case rnd of
        Inl _ \<Rightarrow> ''00000000-0000-4000-8000-'' @ hex12 (unat (nanos AND 0xFFFFFFFFFFFF))
      | Inr bs \<Rightarrow> format_uuid (stamp_v4 bs))"

definition normalizedMethod :: "string \<Rightarrow> string" where
  "normalizedMethod m =
     (if m \<in> set [''GET'', ''POST'', ''PUT'', ''PATCH'', ''DELETE'', ''HEAD'', ''OPTIONS''] then m else ''OTHER'')"

definition normalizedRoute :: "string \<Rightarrow> string" where
  "normalizedRoute pattern =
     (if pattern = [] then ''unmatched''
      else if CHR '' '' \<in> set pattern then tl (dropWhile (\<lambda>c. c \<noteq> CHR '' '') pattern)
      else pattern)"

text \<open>The writer that remembers the status which went out first.\<close>

record status_recorder =
  sr_status :: nat
  sr_wrote :: bool
  sr_sent :: "nat list"

definition new_recorder :: status_recorder where
  "new_recorder = \<lparr>sr_status = 200, sr_wrote = False, sr_sent = []\<rparr>"

definition WriteHeader :: "nat \<Rightarrow> status_recorder \<Rightarrow> status_recorder" where
  "WriteHeader status w =
     (if sr_wrote w then w
      else w\<lparr>sr_status := status, sr_wrote := True, sr_sent := sr_sent w @ [status]\<rparr>)"

definition WriteBody :: "status_recorder \<Rightarrow> status_recorder" where
  "WriteBody w = (if \<not> sr_wrote w then WriteHeader 200 w else w)"

text \<open>The labels of one observation of the request metrics.\<close>

record request_labels =
  rl_method :: string
  rl_route :: string
  rl_status :: string

definition chosen_request_id :: "'a unicode_tables_scheme \<Rightarrow> byte8 list result \<Rightarrow> 64 word \<Rightarrow> string \<Rightarrow> string" where
  "chosen_request_id ut rnd nanos header =
     (let requestID = to_lower ut (trim_space header) in
      if NormalizeRequestID ut requestID = None then newRequestUUID rnd nanos else requestID)"

definition Middleware ::
    "'a unicode_tables_scheme \<Rightarrow> byte8 list result \<Rightarrow> 64 word
     \<Rightarrow> (context_values \<Rightarrow> http_request \<Rightarrow> 's \<Rightarrow> (http_response \<times> string) \<times> 's) \<Rightarrow> http_request
     \<Rightarrow> 's \<Rightarrow> (http_response \<times> request_labels) \<times> 's" where
  "Middleware ut rnd nanos next_handler hq s =
     (let requestID = chosen_request_id ut rnd nanos (hq_request_id hq);
          ctx = WithRequestID ut \<lparr>request_id = None\<rparr> requestID;
          ((r, pattern), s1) = next_handler ctx hq s;
          recorder = WriteBody (WriteHeader (rs_status r) new_recorder)
      in ((r\<lparr>rs_headers := (''X-Request-ID'', requestID) # rs_headers r\<rparr>,
           \<lparr>rl_method = normalizedMethod (hq_method hq), rl_route = normalizedRoute pattern,
            rl_status = show_int (int (sr_status recorder))\<rparr>), s1))"

section \<open>The payment API\<close>

text \<open>
  cmd/api/main.go: the services over PostgreSQL behind the handler and the middleware.  The first
  record holds what is fixed when the process starts, the second what one request meets.
\<close>

record api_conf =
  cf_average :: "int list \<Rightarrow> float64"
  cf_collate :: "string \<Rightarrow> nat list"
  cf_duration_text :: "duration \<Rightarrow> string"
  cf_grace :: duration
  cf_metrics :: "http_request \<Rightarrow> http_response"

record api_env =
  hv_random :: "byte8 list result"
  hv_nanos :: "64 word"
  hv_ping :: "go_error option"
  hv_service :: service_env
  hv_pg :: pg_env
  hv_count :: pg_env

definition payment_api_deps ::
    "'a pglib_scheme \<Rightarrow> api_conf \<Rightarrow> token_credential list \<Rightarrow> api_env \<Rightarrow> context_values \<Rightarrow> db api_deps" where
  "payment_api_deps L conf auth env ctx =
     \<lparr>ap_ping = hv_ping env,
      ap_create = service_create L (hv_service env) (create_payment L (hv_pg env)) ctx,
      ap_get = service_get (get_payment (hv_pg env)),
      ap_reviews = Some \<lparr>rs_list = service_list_pending (ListPending (hv_pg env)),
                         rs_resolve = service_resolve L (hv_service env) (Resolve L (hv_pg env))\<rparr>,
      ap_dashboard = Some (\<lambda>limit d. service_load (\<lambda>n. LoadSnapshot (cf_average conf) (hv_pg env) n d)
          (Count (cf_collate conf) (cf_duration_text conf) (cf_grace conf) (hv_count env) d) limit),
      ap_auth = Some (Authenticate L auth),
      ap_metrics = Some (cf_metrics conf)\<rparr>"

definition serve_api ::
    "'a pglib_scheme \<Rightarrow> api_conf \<Rightarrow> token_credential list \<Rightarrow> api_env \<Rightarrow> http_request \<Rightarrow> db
     \<Rightarrow> (http_response \<times> request_labels) \<times> db" where
  "serve_api L conf auth env =
     Middleware L (hv_random env) (hv_nanos env)
       (\<lambda>ctx. serve_mux (NewHandlerWithMetrics L (payment_api_deps L conf auth env ctx)))"

end
