(* ===== verification/Http_Service.thy ===== *)
theory Http_Service
  imports Http_Router
begin

text \<open>
  What a request can do: which routes change the database, who may use them, what the status of an
  answer tells its caller, and which request ID travels with it.
\<close>

section \<open>Routing\<close>

lemma serve_mux_cases:
  assumes "serve_mux rts hq s = ((r, p), s')"
  obtains "s' = s" and "p = []"
  | rt where "rt \<in> set rts" and "p = rt_pattern rt" and "method_matches rt (hq_method hq)"
      and "match_path (rt_path rt) (hq_path hq) \<noteq> None"
      and "rt_handler rt (hq\<lparr>hq_pattern := rt_pattern rt,
             hq_path_id := concat (the (match_path (rt_path rt) (hq_path hq)))\<rparr>) s = (r, s')"
proof (cases "filter (\<lambda>rt. method_matches rt (hq_method hq) \<and> match_path (rt_path rt) (hq_path hq) \<noteq> None) rts")
  case Nil
  with assms that(1) show thesis by (auto simp: serve_mux_def Let_def split: if_splits)
next
  case (Cons rt rest)
  from arg_cong [OF this, of set] have "rt \<in> set rts" "method_matches rt (hq_method hq)"
    "match_path (rt_path rt) (hq_path hq) \<noteq> None" by auto
  with Cons assms that(2) show thesis by (auto simp: serve_mux_def Let_def split: prod.splits)
qed

text \<open>The routes of the handler: all but three only read.\<close>

lemma route_fields [simp]:
  "rt_pattern (handle_route pat m path h) = pat" "rt_method (handle_route pat m path h) = m"
  "rt_path (handle_route pat m path h) = path" "rt_handler (handle_route pat m path h) = h"
  by (simp_all add: handle_route_def)

definition review_verbs :: "(string \<times> string) set" where
  "review_verbs = {(''approve'', ''APPROVE''), (''reject'', ''REJECT'')}"

definition reading :: "'s route \<Rightarrow> bool" where
  "reading rt \<longleftrightarrow> (\<exists>h. rt_handler rt = reads h)"

lemma reading_route [simp]: "reading (handle_route pat m path (reads h))"
  by (auto simp: reading_def)

definition resolving :: "'a golib_scheme \<Rightarrow> 's api_deps \<Rightarrow> 's route \<Rightarrow> string \<Rightarrow> string \<Rightarrow> bool" where
  "resolving L ap rt verb action \<longleftrightarrow>
     (\<exists>reviews auth. ap_reviews ap = Some reviews \<and> ap_auth ap = Some auth \<and> rt_method rt = ''POST''
        \<and> rt_path rt = [Some ''v1'', Some ''reviews'', None, Some verb]
        \<and> rt_handler rt = resolveReviewHandler L (rs_resolve reviews) auth action)"

lemma resolving_route [simp]:
  "ap_reviews ap = Some reviews \<Longrightarrow> ap_auth ap = Some auth \<Longrightarrow>
   resolving L ap (handle_route pat ''POST'' [Some ''v1'', Some ''reviews'', None, Some verb]
     (resolveReviewHandler L (rs_resolve reviews) auth action)) verb action"
  by (simp add: resolving_def)

lemma api_route_kinds:
  assumes "rt \<in> set (NewHandlerWithMetrics L ap)"
  shows "reading rt \<or> rt = handle_route ''POST /v1/payments'' ''POST'' [Some ''v1'', Some ''payments'']
        (createPaymentHandler L (ap_create ap))
    \<or> resolving L ap rt ''approve'' ''APPROVE'' \<or> resolving L ap rt ''reject'' ''REJECT''"
proof -
  let ?reviews = "case (ap_reviews ap, ap_auth ap) of
          (Some reviews, Some auth) \<Rightarrow>
            [handle_route ''GET /v1/reviews'' ''GET'' [Some ''v1'', Some ''reviews'']
               (reads (listReviewsHandler L (rs_list reviews) auth)),
             handle_route ''POST /v1/reviews/{id}/approve'' ''POST'' [Some ''v1'', Some ''reviews'', None, Some ''approve'']
               (resolveReviewHandler L (rs_resolve reviews) auth ActionApprove),
             handle_route ''POST /v1/reviews/{id}/reject'' ''POST'' [Some ''v1'', Some ''reviews'', None, Some ''reject'']
               (resolveReviewHandler L (rs_resolve reviews) auth ActionReject)]
        | _ \<Rightarrow> []"
  let ?more = "(case (ap_dashboard ap, ap_auth ap) of
          (Some dashboard, Some auth) \<Rightarrow>
            [handle_route ''GET /v1/dashboard'' ''GET'' [Some ''v1'', Some ''dashboard'']
               (reads (dashboardHandler L dashboard auth))]
        | _ \<Rightarrow> [])
     @ (case ap_metrics ap of
          Some metrics \<Rightarrow> [handle_route ''GET /metrics'' ''GET'' [Some ''metrics''] (reads (\<lambda>hq s. metrics hq))]
        | None \<Rightarrow> [])"
  have review: "resolving L ap rt ''approve'' ''APPROVE'' \<or> resolving L ap rt ''reject'' ''REJECT'' \<or> reading rt"
    if "rt \<in> set ?reviews"
  proof (cases "ap_reviews ap")
    case (Some reviews)
    then show ?thesis
    proof (cases "ap_auth ap")
      case auth: (Some auth)
      from that show ?thesis unfolding Some auth option.case prod.case list.set insert_iff empty_iff
        by (elim disjE FalseE) (simp_all only: reading_route resolving_route [OF Some auth] ActionApprove_def
            ActionReject_def simp_thms)
    qed (use that Some in simp)
  qed (use that in simp)
  have more: "reading rt" if "rt \<in> set ?more"
    using that by (auto split: option.splits)
  let ?base = "[handle_route ''GET /healthz'' ''GET'' [Some ''healthz''] (reads (\<lambda>hq s. healthz)),
      handle_route ''GET /readyz'' ''GET'' [Some ''readyz''] (reads (\<lambda>hq s. readyz (ap_ping ap))),
      handle_route ''POST /v1/payments'' ''POST'' [Some ''v1'', Some ''payments'']
        (createPaymentHandler L (ap_create ap)),
      handle_route ''GET /v1/payments/{id}'' ''GET'' [Some ''v1'', Some ''payments'', None]
        (reads (getPaymentHandler L (ap_get ap)))]"
  from assms consider "rt \<in> set ?base" | "rt \<in> set ?reviews" | "rt \<in> set ?more"
    unfolding NewHandlerWithMetrics_def set_append Un_iff by blast
  then show ?thesis
  proof cases
    case 1
    then show ?thesis unfolding list.set insert_iff empty_iff
      by (elim disjE FalseE) (simp_all only: reading_route simp_thms)
  next
    case 2
    from review [OF this] show ?thesis by blast
  next
    case 3
    from more [OF this] show ?thesis by blast
  qed
qed

lemma api_routes:
  assumes "rt \<in> set (NewHandlerWithMetrics L ap)"
  obtains h where "rt_handler rt = reads h"
  | "rt_method rt = ''POST''" and "rt_path rt = [Some ''v1'', Some ''payments'']"
    and "rt_handler rt = createPaymentHandler L (ap_create ap)"
  | reviews auth verb action where "ap_reviews ap = Some reviews" and "ap_auth ap = Some auth"
    and "(verb, action) \<in> review_verbs" and "rt_method rt = ''POST''"
    and "rt_path rt = [Some ''v1'', Some ''reviews'', None, Some verb]"
    and "rt_handler rt = resolveReviewHandler L (rs_resolve reviews) auth action"
proof -
  have verbs: "(''approve'', ''APPROVE'') \<in> review_verbs" "(''reject'', ''REJECT'') \<in> review_verbs"
    by (simp_all add: review_verbs_def)
  from api_route_kinds [OF assms] show thesis
  proof (elim disjE)
    assume "rt = handle_route ''POST /v1/payments'' ''POST'' [Some ''v1'', Some ''payments'']
        (createPaymentHandler L (ap_create ap))"
    then show thesis by (intro that(2)) simp_all
  next
    assume "resolving L ap rt ''approve'' ''APPROVE''"
    with that(3) [OF _ _ verbs(1)] show thesis unfolding resolving_def by blast
  next
    assume "resolving L ap rt ''reject'' ''REJECT''"
    with that(3) [OF _ _ verbs(2)] show thesis unfolding resolving_def by blast
  qed (use that(1) in \<open>auto simp: reading_def\<close>)
qed

lemma createPaymentHandler_change:
  assumes "createPaymentHandler L create hq s = (r, s')" and "s' \<noteq> s"
  shows "\<exists>request res. create (hq_idempotency_key hq) request s = (res, s')"
  using assms by (auto simp: createPaymentHandler_def split: sum.splits prod.splits)

lemma resolveReviewHandler_change:
  assumes "resolveReviewHandler L resolve authenticate action hq s = (r, s')" and "s' \<noteq> s"
  shows "\<exists>who request res. authenticate (hq_authorization hq) = Inr who \<and> pr_role who = ''risk_reviewer''
    \<and> decodeReviewRequest L (hq_body hq) = Inr request
    \<and> resolve (hq_path_id hq) action request who s = (res, s')"
  using assms
  by (auto simp: resolveReviewHandler_def authenticateReview_def RoleRiskReviewer_def
      split: sum.splits prod.splits if_splits)

lemma match_path_cons:
  "match_path (Some lit # ps) path = Some xs \<longleftrightarrow> (\<exists>rest. path = lit # rest \<and> match_path ps rest = Some xs)"
  "match_path (None # ps) path = Some xs \<longleftrightarrow>
     (\<exists>seg rest ys. path = seg # rest \<and> seg \<noteq> [] \<and> match_path ps rest = Some ys \<and> xs = seg # ys)"
  "match_path [] path = Some xs \<longleftrightarrow> path = [] \<and> xs = []"
  by (cases path; auto)+

section \<open>The request ID\<close>

lemma hex12_props: "length (hex12 n) = 12" "list_all lower_hex (hex12 n)"
  by (simp_all add: hex12_def list_all_iff)

lemma fallback_v4: "uuid_v4 (''00000000-0000-4000-8000-'' @ hex12 n)"
proof -
  let ?u = "''00000000'' @ [CHR ''-''] @ ''0000'' @ [CHR ''-''] @ ''4000'' @ [CHR ''-''] @ ''8000'' @ [CHR ''-''] @ hex12 n"
  have h: "hyphens_at ?u" by (rule hyphens_at_append) (simp_all add: hex12_props)
  have x: "uuid_hex ?u = ''00000000'' @ ''0000'' @ ''4000'' @ ''8000'' @ hex12 n"
    by (rule uuid_hex_append) simp_all
  have "lower_hex CHR ''0''" "lower_hex CHR ''4''" "lower_hex CHR ''8''"
    by (simp_all add: lower_hex_def byte_def)
  then have "canonical_uuid ?u"
    unfolding canonical_uuid_def x using h by (simp add: hex12_props)
  then have "uuid_v4 ?u" by (simp add: uuid_v4_def)
  then show ?thesis by simp
qed

lemma newRequestUUID_v4:
  "(\<forall>bs. rnd = Inr bs \<longrightarrow> length bs = 16) \<Longrightarrow> uuid_v4 (newRequestUUID rnd nanos)"
  by (cases rnd) (simp_all add: newRequestUUID_def fallback_v4 stamped_v4 del: append.simps)

lemma NormalizeRequestID_v4: "uuid_v4 u \<Longrightarrow> NormalizeRequestID ut u = Some u"
  by (simp add: NormalizeRequestID_eq uuid_v4_canonical trim_space_canonical to_lower_canonical)

lemma chosen_request_id_valid:
  assumes "\<forall>bs. rnd = Inr bs \<longrightarrow> length bs = 16"
  shows "\<exists>u. NormalizeRequestID ut (chosen_request_id ut rnd nanos h) = Some u \<and> uuid_v4 u
    \<and> (\<forall>v. NormalizeRequestID ut h = Some v \<longrightarrow> u = v)"
proof (cases "NormalizeRequestID ut (to_lower ut (trim_space h))")
  case None
  have "NormalizeRequestID ut h \<noteq> Some v" for v
  proof
    assume "NormalizeRequestID ut h = Some v"
    from NormalizeRequestID_Some [OF this] None show False by (metis option.distinct(1))
  qed
  with None newRequestUUID_v4 [OF assms] show ?thesis
    by (simp add: chosen_request_id_def NormalizeRequestID_v4)
next
  case (Some u)
  have "\<forall>v. NormalizeRequestID ut h = Some v \<longrightarrow> u = v"
    using NormalizeRequestID_Some Some by (metis option.inject)
  moreover have "uuid_v4 u" using NormalizeRequestID_Some [OF Some] by blast
  ultimately show ?thesis using Some by (simp add: chosen_request_id_def)
qed

definition known_methods :: "string list" where
  "known_methods = [''GET'', ''POST'', ''PUT'', ''PATCH'', ''DELETE'', ''HEAD'', ''OPTIONS'', ''OTHER'']"

lemma normalizedMethod_known: "normalizedMethod m \<in> set known_methods"
  by (auto simp: normalizedMethod_def known_methods_def)

lemma Middleware_step:
  assumes "Middleware ut rnd nanos next_handler hq s = ((r, labels), s')"
    and "\<forall>bs. rnd = Inr bs \<longrightarrow> length bs = 16"
  obtains rid header r0 p where "next_handler \<lparr>request_id = Some rid\<rparr> hq s = ((r0, p), s')" and "uuid_v4 rid"
    and "\<forall>v. NormalizeRequestID ut (hq_request_id hq) = Some v \<longrightarrow> rid = v"
    and "NormalizeRequestID ut header = Some rid"
    and "r = r0\<lparr>rs_headers := (''X-Request-ID'', header) # rs_headers r0\<rparr>"
    and "rl_method labels = normalizedMethod (hq_method hq)" and "rl_route labels = normalizedRoute p"
    and "rl_status labels = show_int (int (rs_status r0))"
proof -
  let ?h = "chosen_request_id ut rnd nanos (hq_request_id hq)"
  obtain u where u: "NormalizeRequestID ut ?h = Some u" "uuid_v4 u"
    "\<forall>v. NormalizeRequestID ut (hq_request_id hq) = Some v \<longrightarrow> u = v"
    using chosen_request_id_valid [OF assms(2)] by blast
  have ctx: "WithRequestID ut \<lparr>request_id = None\<rparr> ?h = \<lparr>request_id = Some u\<rparr>" using u(1) by (simp add: WithRequestID_def)
  obtain r0 p s1 where n: "next_handler \<lparr>request_id = Some u\<rparr> hq s = ((r0, p), s1)"
    by (metis prod.exhaust)
  show thesis
    by (rule that [OF _ u(2,3,1)])
       (use assms(1) n in \<open>simp_all add: Middleware_def ctx Let_def WriteBody_def WriteHeader_def new_recorder_def, auto\<close>)
qed

text \<open>The route labels that the process can ever record: its registered paths, and \<open>unmatched\<close>.\<close>

definition route_labels :: "string list" where
  "route_labels =
     [''/healthz'', ''/readyz'', ''/v1/payments'', ''/v1/payments/{id}'', ''/v1/reviews'',
      ''/v1/reviews/{id}/approve'', ''/v1/reviews/{id}/reject'', ''/v1/dashboard'', ''/metrics'', ''unmatched'']"

lemma route_pattern_label:
  assumes "rt \<in> set (NewHandlerWithMetrics L ap)"
  shows "normalizedRoute (rt_pattern rt) \<in> set route_labels"
proof -
  have "rt_pattern rt \<in> set [''GET /healthz'', ''GET /readyz'', ''POST /v1/payments'', ''GET /v1/payments/{id}'',
      ''GET /v1/reviews'', ''POST /v1/reviews/{id}/approve'', ''POST /v1/reviews/{id}/reject'',
      ''GET /v1/dashboard'', ''GET /metrics'']"
    using assms by (auto simp: NewHandlerWithMetrics_def handle_route_def split: option.splits)
  then show ?thesis
    unfolding list.set insert_iff empty_iff by (elim disjE FalseE) (simp_all add: normalizedRoute_def route_labels_def)
qed

lemma serve_mux_label:
  assumes "serve_mux (NewHandlerWithMetrics L ap) hq s = ((r, p), s')"
  shows "normalizedRoute p \<in> set route_labels"
  using assms
proof (cases rule: serve_mux_cases)
  case (2 rt)
  with route_pattern_label show ?thesis by blast
qed (simp_all add: normalizedRoute_def route_labels_def)

text \<open>
  C28:
  Every request travels with one request ID that is a version 4 UUID, whatever the caller sent and
  even when the random source fails: the handler's context holds it and the response header shows
  it; it is the caller's own ID exactly when that one is valid.  The labels of the metrics are
  bounded: one of eight methods, the status that the handler wrote and, behind the middleware of the
  process, one of the nine registered paths or \<open>unmatched\<close>, never the path that the caller sent; a
  request without a matching pattern is always recorded as \<open>unmatched\<close>.\<close>

theorem middleware_request_id:
  assumes "Middleware ut rnd nanos next_handler hq s = ((r, labels), s')"
    and "\<forall>bs. rnd = Inr bs \<longrightarrow> length bs = 16"
  shows "\<exists>rid r0 p. next_handler \<lparr>request_id = Some rid\<rparr> hq s = ((r0, p), s') \<and> uuid_v4 rid
    \<and> (\<exists>header. rs_headers r = (''X-Request-ID'', header) # rs_headers r0 \<and> NormalizeRequestID ut header = Some rid)
    \<and> (\<forall>v. NormalizeRequestID ut (hq_request_id hq) = Some v \<longrightarrow> rid = v)
    \<and> rs_status r = rs_status r0 \<and> rs_body r = rs_body r0
    \<and> rl_method labels \<in> set known_methods \<and> rl_status labels = show_int (int (rs_status r))
    \<and> (p = [] \<longrightarrow> rl_route labels = ''unmatched'')
    \<and> (\<forall>L ap. next_handler = (\<lambda>ctx. serve_mux (NewHandlerWithMetrics L (ap ctx))) \<longrightarrow>
         rl_route labels \<in> set
           [''/healthz'', ''/readyz'', ''/v1/payments'', ''/v1/payments/{id}'', ''/v1/reviews'',
            ''/v1/reviews/{id}/approve'', ''/v1/reviews/{id}/reject'', ''/v1/dashboard'', ''/metrics'', ''unmatched''])"
proof (rule Middleware_step [OF assms])
  fix rid header r0 p
  assume n: "next_handler \<lparr>request_id = Some rid\<rparr> hq s = ((r0, p), s')"
    and v: "uuid_v4 rid" "\<forall>v. NormalizeRequestID ut (hq_request_id hq) = Some v \<longrightarrow> rid = v"
      "NormalizeRequestID ut header = Some rid" "r = r0\<lparr>rs_headers := (''X-Request-ID'', header) # rs_headers r0\<rparr>"
    and l: "rl_method labels = normalizedMethod (hq_method hq)" "rl_route labels = normalizedRoute p"
      "rl_status labels = show_int (int (rs_status r0))"
  have route: "\<forall>L ap. next_handler = (\<lambda>ctx. serve_mux (NewHandlerWithMetrics L (ap ctx))) \<longrightarrow>
      rl_route labels \<in> set route_labels"
    using n serve_mux_label unfolding l(2) by metis
  have "p = [] \<longrightarrow> rl_route labels = ''unmatched''" by (simp add: l(2) normalizedRoute_def)
  with n v l normalizedMethod_known [of "hq_method hq"] route [unfolded route_labels_def]
  show ?thesis by (intro exI [of _ rid] exI [of _ r0] exI [of _ p]) simp
qed

definition sample_body :: json where
  "sample_body = JObj [(''expected_version'', JNum ''1''), (''reason_code'', JStr ''OK'')]"

definition sample_http_request :: http_request where
  "sample_http_request =
     \<lparr>hq_method = ''POST'', hq_path = [''v1'', ''reviews'', sample_uuid, ''approve''], hq_pattern = [],
      hq_request_id = [], hq_authorization = ''bearer '' @ replicate 32 CHR ''a'', hq_idempotency_key = [],
      hq_path_id = [], hq_limit = [], hq_recent_limit = [],
      hq_body = json_text sample_body\<rparr>"

theorem middleware_request_id_witness:
  "\<exists>r labels rid. Middleware sample_lib (Inl (Msg ''no entropy'')) 1
       (\<lambda>ctx hq s. ((healthz, ''GET /healthz''), RequestID ctx)) sample_http_request [] = ((r, labels), rid)
     \<and> uuid_v4 rid \<and> rs_status r = 200 \<and> rl_method labels \<in> set known_methods"
proof -
  let ?next = "\<lambda>ctx (hq :: http_request) (s :: string). ((healthz, ''GET /healthz''), RequestID ctx)"
  obtain r labels rid where m: "Middleware sample_lib (Inl (Msg ''no entropy'')) 1 ?next sample_http_request [] = ((r, labels), rid)"
    by (metis prod.exhaust)
  from middleware_request_id [OF m] show ?thesis using m
    by (fastforce simp: RequestID_def healthz_def writeJSON_def)
qed

section \<open>The changes that a request can make\<close>

definition good_api_env :: "api_env \<Rightarrow> bool" where
  "good_api_env env \<longleftrightarrow>
     good_random (hv_service env) \<and> foreign_env (hv_pg env) \<and> (\<forall>bs. hv_random env = Inr bs \<longrightarrow> length bs = 16)"

lemma serve_api_cases:
  assumes "serve_api L conf auth env hq d = ((r, labels), d')"
    and "\<forall>bs. hv_random env = Inr bs \<longrightarrow> length bs = 16"
  obtains "d' = d"
  | ctx request res where "good_context ctx" and "hq_method hq = ''POST''" and "hq_path hq = [''v1'', ''payments'']"
    and "service_create L (hv_service env) (create_payment L (hv_pg env)) ctx (hq_idempotency_key hq) request d = (res, d')"
  | pid verb action who request res where "hq_method hq = ''POST''" and "hq_path hq = [''v1'', ''reviews'', pid, verb]"
    and "(verb, action) \<in> review_verbs" and "Authenticate L auth (hq_authorization hq) = Inr who"
    and "service_resolve L (hv_service env) (Resolve L (hv_pg env)) pid action request who d = (res, d')"
proof (cases "d' = d")
  case False
  from assms(1) have "Middleware L (hv_random env) (hv_nanos env)
      (\<lambda>ctx. serve_mux (NewHandlerWithMetrics L (payment_api_deps L conf auth env ctx))) hq d = ((r, labels), d')"
    by (simp add: serve_api_def)
  then obtain rid r0 p where rid: "uuid_v4 rid"
    and mux: "serve_mux (NewHandlerWithMetrics L (payment_api_deps L conf auth env \<lparr>request_id = Some rid\<rparr>)) hq d
        = ((r0, p), d')" by (rule Middleware_step [OF _ assms(2)])
  have good: "good_context \<lparr>request_id = Some rid\<rparr>" using rid by (simp add: good_context_def)
  from mux show thesis
  proof (cases rule: serve_mux_cases)
    case (2 rt)
    have post: "rt_method rt = ''POST'' \<Longrightarrow> hq_method hq = ''POST''"
      using 2(3) by (simp add: method_matches_def)
    from 2(1) show thesis
    proof (cases rule: api_routes)
      case (1 h)
      with 2(5) False show thesis by (simp add: reads_def)
    next
      case create: 2
      from 2(4) have "hq_path hq = [''v1'', ''payments'']" by (auto simp: create(2) match_path_cons)
      moreover from createPaymentHandler_change [OF 2(5) [unfolded create(3)] False]
      obtain request res where "service_create L (hv_service env) (create_payment L (hv_pg env))
          \<lparr>request_id = Some rid\<rparr> (hq_idempotency_key hq) request d = (res, d')"
        by (auto simp: payment_api_deps_def)
      ultimately show thesis using that(2) [OF good post [OF create(1)]] by blast
    next
      case resolve: (3 reviews auth' verb action)
      from 2(4) obtain pid where path: "hq_path hq = [''v1'', ''reviews'', pid, verb]"
        "match_path (rt_path rt) (hq_path hq) = Some [pid]" by (auto simp: resolve(5) match_path_cons)
      from resolveReviewHandler_change [OF 2(5) [unfolded resolve(6)] False] path(2) resolve(1,2)
      obtain who request res where "Authenticate L auth (hq_authorization hq) = Inr who"
        "service_resolve L (hv_service env) (Resolve L (hv_pg env)) pid action request who d = (res, d')"
        by (auto simp: payment_api_deps_def)
      with that(3) [OF post [OF resolve(4)] path(1) resolve(3)] show thesis by blast
    qed
  qed (use False in simp)
qed (rule that(1))

text \<open>
  A request is at most one step of the system, and it is none unless its method is POST.  So the
  databases behind the API stay reachable.
\<close>

lemma serve_api_step:
  assumes "serve_api L conf auth env hq d = ((r, labels), d')" and "good_api_env env"
  shows "d' = d \<or> step L d d' \<and> hq_method hq = ''POST''"
proof -
  have g: "good_random (hv_service env)" "foreign_env (hv_pg env)" "\<forall>bs. hv_random env = Inr bs \<longrightarrow> length bs = 16"
    using assms(2) by (simp_all add: good_api_env_def)
  from assms(1) g(3) show ?thesis
  proof (cases rule: serve_api_cases)
    case (2 ctx request res)
    let ?a = "\<lparr>at_service = hv_service env, at_pg = hv_pg env, at_context = ctx, at_key = hq_idempotency_key hq,
      at_request = request\<rparr>"
    have "good_attempt ?a" using g(1,2) 2(1) by (simp add: good_attempt_def)
    moreover have "run_attempt L ?a d = (res, d')" using 2(4) by (simp add: run_attempt_def)
    ultimately show ?thesis using step.created 2(2) by blast
  next
    case (3 pid verb action who request res)
    let ?a = "\<lparr>ra_service = hv_service env, ra_repository = hv_pg env, ra_payment_id = pid, ra_action = action,
      ra_request = request, ra_principal = who\<rparr>"
    have "run_review L (Resolve L) ?a d = (res, d')" using 3(5) by (simp add: run_review_def)
    then show ?thesis using step.resolved 3(1) by blast
  qed simp
qed

section \<open>A request that resolves a review\<close>

lemma decodeRequest_text:
  assumes "json_wf 0 v" and "length (json_text v) \<le> maxRequestBytes"
    and "merge_objects [v] = Some ms" and "decode ms = Some x"
  shows "decodeRequest L what decode (json_text v) = Inr x"
proof -
  have "json_value (2 * length (json_text v) + 2) 0 (json_text v) = Some (v, [])"
    using json_value_text(1) [OF assms(1) delimited_simps(1), of "2 * length (json_text v) + 2"] by simp
  with assms(2-4) show ?thesis by (simp add: decodeRequest_def Let_def skip_space_def del: json_value.simps)
qed

lemma quote_rune_length: "length (quote_rune r) \<le> 6"
  by (simp add: quote_rune_def encode_rune_def hex_byte_def)

lemma quote_body_length: "length (quote_body s) \<le> 6 * length s"
proof (induction s rule: quote_body.induct)
  case (2 c cs)
  obtain r w where d: "decode_rune (c # cs) = (r, w)" by (metis prod.exhaust)
  with 2 have "length (quote_body (drop (w - 1) cs)) \<le> 6 * length (drop (w - 1) cs)" by metis
  then show ?case using quote_rune_length [of r] d by (auto simp: Let_def)
qed simp

lemma sample_body_decodes:
  "decodeReviewRequest L (json_text sample_body) = Inr \<lparr>rq_expected_version = 1, rq_reason_code = ''OK''\<rparr>"
  unfolding decodeReviewRequest_def
proof (rule decodeRequest_text)
  have names: "wire_name ''expected_version''" "wire_name ''reason_code''"
    by (simp_all add: wire_name_def byte_def)
  have "valid_utf8 ''OK''" by (rule valid_utf8_ascii) (simp add: ascii_def byte_def)
  moreover have "number_literal ''1''"
    by (simp add: number_literal_def json_number_def digits_prefix_def is_digit_def byte_def)
  moreover have "quote_body ''OK'' = ''OK''" by (rule quote_body_plain) (simp add: quote_plain_def byte_def)
  ultimately show "json_wf 0 sample_body"
    using names [THEN wire_name_utf8] by (simp add: sample_body_def del: quote_body.simps)
  show "length (json_text sample_body) \<le> maxRequestBytes"
    using quote_body_length [of "''expected_version''"] quote_body_length [of "''reason_code''"]
      quote_body_length [of "''OK''"]
    by (simp add: sample_body_def json_quote_def maxRequestBytes_def del: quote_body.simps)
  show "merge_objects [sample_body] = Some [(''expected_version'', JNum ''1''), (''reason_code'', JStr ''OK'')]"
    by (simp add: sample_body_def)
  let ?ms = "[(''expected_version'', JNum ''1''), (''reason_code'', JStr ''OK'')]"
  have "known_members ?ms [''expected_version'', ''reason_code'']"
    by (rule known_members_wire) (simp_all add: names)
  moreover have "members_for ?ms ''expected_version'' = [JNum ''1'']" "members_for ?ms ''reason_code'' = [JStr ''OK'']"
    by (subst members_for_wire, simp_all add: names)+
  moreover have "parse_int64 ''1'' = Some 1" by code_simp
  ultimately show "decode_review_fields ?ms = Some \<lparr>rq_expected_version = 1, rq_reason_code = ''OK''\<rparr>"
    by (simp add: decode_review_fields_def field_def)
qed

lemma sample_authenticated:
  "Authenticate sample_lib (map (stored_credential sample_lib) [sample_credential])
     (''bearer '' @ replicate 32 CHR ''a'') = Inr \<lparr>pr_reviewer_id = ''ann'', pr_role = ''risk_reviewer''\<rparr>"
  unfolding sample_credential_ok(4) [symmetric] Authenticate_Inr [OF sample_credential_ok(1)]
  using sample_credential_ok(2,3,5) by (metis list.set_intros(1))

definition sample_api_env :: api_env where
  "sample_api_env = \<lparr>hv_random = Inl (Msg ''no entropy''), hv_nanos = 1, hv_ping = None,
     hv_service = sample_service, hv_pg = healthy zero_time, hv_count = healthy zero_time\<rparr>"

definition sample_api_conf :: api_conf where
  "sample_api_conf = \<lparr>cf_average = (\<lambda>_. Finite 0), cf_collate = map byte, cf_duration_text = (\<lambda>_. ''30s''),
     cf_grace = 30000000000, cf_metrics = (\<lambda>hq. healthz)\<rparr>"

lemma sample_api_good: "good_api_env sample_api_env"
  using sample_good_attempt by (simp add: good_attempt_def good_api_env_def sample_api_env_def sample_attempt_def)

lemma sample_http_resolution:
  "\<exists>r labels d'. serve_api sample_lib sample_api_conf (map (stored_credential sample_lib) [sample_credential])
      sample_api_env sample_http_request sample_review_db = ((r, labels), d') \<and> d' \<noteq> sample_review_db"
proof -
  let ?auth = "map (stored_credential sample_lib) [sample_credential]"
  obtain it d' where res: "service_resolve sample_lib sample_service (Resolve sample_lib (healthy zero_time)) sample_uuid
      ''APPROVE'' \<lparr>rq_expected_version = 1, rq_reason_code = ''OK''\<rparr>
      \<lparr>pr_reviewer_id = ''ann'', pr_role = ''risk_reviewer''\<rparr> sample_review_db = (Inr it, d')"
    and ne: "d' \<noteq> sample_review_db" using sample_resolution by blast
  have h: "resolveReviewHandler sample_lib (service_resolve sample_lib sample_service (Resolve sample_lib (healthy zero_time)))
      (Authenticate sample_lib ?auth) ActionApprove (sample_http_request\<lparr>hq_pattern := pat, hq_path_id := sample_uuid\<rparr>)
      sample_review_db = (writeJSON 200 (review_response_json sample_lib (newReviewResponse it)), d')" for pat
    using res sample_authenticated sample_body_decodes [of sample_lib]
    by (simp add: resolveReviewHandler_def authenticateReview_def sample_http_request_def ActionApprove_def
        RoleRiskReviewer_def)
  have u: "sample_uuid \<noteq> []" using canonical_nonempty [OF sample_uuid_canonical] .
  have m: "serve_mux (NewHandlerWithMetrics sample_lib (payment_api_deps sample_lib sample_api_conf ?auth sample_api_env ctx))
      sample_http_request sample_review_db
    = ((writeJSON 200 (review_response_json sample_lib (newReviewResponse it)), ''POST /v1/reviews/{id}/approve''), d')" for ctx
    using h [of "''POST /v1/reviews/{id}/approve''"] u
    by (simp add: serve_mux_def NewHandlerWithMetrics_def payment_api_deps_def method_matches_def Let_def
        sample_http_request_def sample_api_env_def)
  show ?thesis using m ne by (auto simp: serve_api_def Middleware_def Let_def)
qed

text \<open>
  C13:
  The HTTP layer adds no behaviour of its own: whatever a request contains and whatever fails, it
  leaves the database alone or is one step of the system, and then its method was POST.  All
  invariants of the reachable databases hold behind the API.\<close>

theorem http_steps:
  assumes "serve_api L conf auth env hq d = ((r, labels), d')" and "good_api_env env" and "reachable L d"
  shows "(d' = d \<or> step L d d' \<and> hq_method hq = ''POST'') \<and> reachable L d' \<and> consistent d'"
proof -
  from serve_api_step [OF assms(1,2)] have s: "d' = d \<or> step L d d' \<and> hq_method hq = ''POST''" .
  then have "reachable L d'" using assms(3) reachable.stepped by blast
  with s reachable_invariant show ?thesis by blast
qed

theorem http_steps_witness:
  "\<exists>r labels d'. serve_api sample_lib sample_api_conf [] sample_api_env sample_http_request empty_db = ((r, labels), d')
     \<and> reachable sample_lib d' \<and> consistent d'"
proof -
  obtain r labels d' where s: "serve_api sample_lib sample_api_conf [] sample_api_env sample_http_request empty_db
      = ((r, labels), d')" by (metis prod.exhaust)
  from http_steps [OF s sample_api_good reachable.initially] s show ?thesis by blast
qed

text \<open>
  C8:
  End-to-end authorisation.  When a request that is not the creation of a payment changes the
  database, it was a POST to the approve or reject route of a review, its Authorization header
  carried the token of a configured credential with the role risk_reviewer, and the one audit event
  it added names the reviewer of that credential, the payment of the path and the action of the
  route.  Nothing in the request's body or path can forge the reviewer.\<close>

theorem http_review_authorised:
  assumes "NewTokenAuthenticator L credentials = Inr auth"
    and "serve_api L conf auth env hq d = ((r, labels), d')" and "\<forall>bs. hv_random env = Inr bs \<longrightarrow> length bs = 16"
    and "d' \<noteq> d" and "hq_path hq \<noteq> [''v1'', ''payments'']"
  shows "\<exists>c \<in> set credentials. \<exists>scheme token pid verb action arow.
    string_fields (hq_authorization hq) = [scheme, token] \<and> sha256 L token = sha256 L (cd_token c)
    \<and> trim_space (cd_role c) = ''risk_reviewer''
    \<and> hq_method hq = ''POST'' \<and> hq_path hq = [''v1'', ''reviews'', pid, verb] \<and> (verb, action) \<in> review_verbs
    \<and> t_audits d' = t_audits d @ [arow] \<and> au_actor_id arow = trim_space (cd_reviewer_id c)
    \<and> au_event_type arow = manual_event action \<and> NormalizeID pid = Inr (au_aggregate_id arow)"
  using assms(2,3)
proof (cases rule: serve_api_cases)
  case (3 pid verb action who request res)
  from 3(4) obtain scheme token c where c: "string_fields (hq_authorization hq) = [scheme, token]"
    "c \<in> set credentials" "sha256 L (cd_token c) = sha256 L token" "who = principal_of c"
    unfolding Authenticate_Inr [OF assms(1)] by blast
  from service_resolve_caller [OF 3(5) assms(4)] obtain arow where a: "pr_role who = ''risk_reviewer''"
    "t_audits d' = t_audits d @ [arow]" "au_actor_id arow = pr_reviewer_id who"
    "au_event_type arow = manual_event action" "NormalizeID pid = Inr (au_aggregate_id arow)"
    by (auto simp: resolvable_def)
  have "trim_space (cd_role c) = ''risk_reviewer''" "au_actor_id arow = trim_space (cd_reviewer_id c)"
    using a(1,3) c(4) by (simp_all add: principal_of_def)
  with c(1,2) c(3) [symmetric] 3(1-3) a(2,4,5) show ?thesis by blast
qed (use assms(4,5) in simp_all)

theorem http_review_authorised_witness:
  "\<exists>r labels d' arow. serve_api sample_lib sample_api_conf (map (stored_credential sample_lib) [sample_credential])
      sample_api_env sample_http_request sample_review_db = ((r, labels), d')
    \<and> t_audits d' = t_audits sample_review_db @ [arow] \<and> au_actor_id arow = ''ann''"
proof -
  obtain r labels d' where s: "serve_api sample_lib sample_api_conf (map (stored_credential sample_lib) [sample_credential])
      sample_api_env sample_http_request sample_review_db = ((r, labels), d')" and ne: "d' \<noteq> sample_review_db"
    using sample_http_resolution by blast
  have "trim_space (cd_reviewer_id sample_credential) = ''ann''"
    using sample_credential_ok(4) by (simp add: principal_of_def)
  moreover have "hq_path sample_http_request \<noteq> [''v1'', ''payments'']" by (simp add: sample_http_request_def)
  moreover have "\<forall>bs. hv_random sample_api_env = Inr bs \<longrightarrow> length bs = 16" by (simp add: sample_api_env_def)
  ultimately show ?thesis
    using http_review_authorised [OF sample_credential_ok(1) s _ ne] s by fastforce
qed

section \<open>What the answer to a creation means\<close>

text \<open>The five ways in which \<open>Service.Create\<close> can end.\<close>

lemma prepare_create_Inl:
  assumes "prepare_create L senv ctx key request = Inl e" and "good_random senv"
  shows "e = Sentinel ErrIdempotencyKeyRequired \<or> e = Sentinel ErrIdempotencyKeyInvalid
    \<or> (\<exists>fs. e = PaymentValidationError fs) \<or> foreign e"
proof -
  have "foreign x" if "new_uuid (se_random senv k) = Inl x" for k x
    using that assms(2) by (auto simp: new_uuid_def good_random_def split: sum.splits dest: spec [of _ k])
  with assms(1) show ?thesis
    by (auto simp: prepare_create_def normalizeIdempotencyKey_def NormalizeAndValidate_def Let_def errorf_def
        split: sum.splits if_splits)
qed

lemma service_create_cases:
  assumes "service_create L senv (create_payment L env) ctx key request d = (res, d')"
    and "valid_db d" and "good_random senv" and "good_context ctx" and "foreign_env env"
  obtains (refused) e where "res = Inl e" and "d' = d" and "e = Sentinel ErrIdempotencyKeyRequired
        \<or> e = Sentinel ErrIdempotencyKeyInvalid \<or> (\<exists>fs. e = PaymentValidationError fs)"
  | (failed) e where "res = Inl e" and "foreign e"
  | (replayed) k q where "res = Inr \<lparr>cr_payment = q, cr_replayed = True\<rparr>" and "d' = d"
      and "normalizeIdempotencyKey key = Inr k" and "lookup_payment d k = Some q"
  | (conflict) k q where "res = Inl (Sentinel ErrIdempotencyConflict)" and "d' = d"
      and "normalizeIdempotencyKey key = Inr k" and "lookup_payment d k = Some q"
      and "request_fingerprint q \<noteq> Fingerprint L (normalizeRequest L request)"
  | (created) k q where "res = Inr \<lparr>cr_payment = q, cr_replayed = False\<rparr>"
      and "normalizeIdempotencyKey key = Inr k" and "lookup_payment d k = None"
      and "lookup_payment d' = (lookup_payment d)(k \<mapsto> q)"
proof (cases "prepare_create L senv ctx key request")
  case (Inl e)
  then have "res = Inl e" "d' = d" using assms(1) by (simp_all add: service_create_def)
  with prepare_create_Inl [OF Inl assms(3)] refused failed show thesis by blast
next
  case (Inr pe)
  obtain p ev where pe: "pe = (p, ev)" by (cases pe)
  have c: "create_payment L env p ev d = (res, d')" using assms(1) Inr pe by (simp add: service_create_def)
  note f = prepare_create_fields [OF Inr [unfolded pe] assms(3,4)]
  show thesis
  proof (cases "lookup_payment d (idempotency_key p)")
    case None
    from pg_payments.create_free [OF assms(2,5) None f(1-3) c] None f(4) failed created show thesis by blast
  next
    case (Some q)
    from pg_payments.create_taken [OF assms(2,5) Some c] Some f(4,5) failed replayed conflict show thesis
      by metis
  qed
qed

lemma mux_create:
  assumes "hq_method hq = ''POST''" and "hq_path hq = [''v1'', ''payments'']"
    and "serve_mux (NewHandlerWithMetrics L (payment_api_deps L conf auth env ctx)) hq d = ((r, pat), d')"
  shows "createPaymentHandler L (service_create L (hv_service env) (create_payment L (hv_pg env)) ctx)
    (hq\<lparr>hq_pattern := ''POST /v1/payments'', hq_path_id := []\<rparr>) d = (r, d')"
  using assms(3)
  by (simp add: serve_mux_def NewHandlerWithMetrics_def payment_api_deps_def method_matches_def Let_def assms(1,2)
      split: prod.splits)

lemma writeJSON_fields [simp]: "rs_status (writeJSON s b) = s" "rs_body (writeJSON s b) = JsonBody b"
  by (simp_all add: writeJSON_def)

lemma writeError_status [simp]: "rs_status (writeError s e) = s"
  by (simp add: writeError_def)

lemma foreign_create_status:
  "foreign e \<Longrightarrow> rs_status (writeCreatePaymentError e) \<in> {500, 504}"
  by (auto simp: foreign_def writeCreatePaymentError_def)

text \<open>What a status promises to the caller of \<open>POST /v1/payments\<close>.\<close>

definition create_promise ::
    "'a golib_scheme \<Rightarrow> http_request \<Rightarrow> db \<Rightarrow> http_response \<Rightarrow> db \<Rightarrow> bool" where
  "create_promise L hq d r d' \<longleftrightarrow>
     (let key = normalizeIdempotencyKey (hq_idempotency_key hq) in
      if rs_status r = 201 then
        (\<exists>k q. key = Inr k \<and> lookup_payment d k = None \<and> lookup_payment d' = (lookup_payment d)(k \<mapsto> q)
           \<and> rs_body r = JsonBody (payment_response_json L (newPaymentResponse q)))
      else if rs_status r = 200 then
        d' = d \<and> (\<exists>k q. key = Inr k \<and> lookup_payment d k = Some q \<and> rs_body r = JsonBody (payment_response_json L (newPaymentResponse q)))
      else if rs_status r = 409 then
        d' = d \<and> (\<exists>k q request. key = Inr k \<and> lookup_payment d k = Some q \<and> decodePaymentRequest L (hq_body hq) = Inr request
           \<and> request_fingerprint q \<noteq> Fingerprint L (normalizeRequest L request))
      else if rs_status r = 400 then d' = d
      else rs_status r \<in> {500, 504})"

lemma create_promise_frame:
  "hq_body hq = hq_body hq' \<Longrightarrow> hq_idempotency_key hq = hq_idempotency_key hq' \<Longrightarrow>
   rs_status r = rs_status r' \<Longrightarrow> rs_body r = rs_body r' \<Longrightarrow>
   create_promise L hq d r d' \<longleftrightarrow> create_promise L hq' d r' d'"
  by (simp add: create_promise_def)

lemma create_handler_promise:
  assumes "createPaymentHandler L (service_create L senv (create_payment L env) ctx) hq d = (r, d')"
    and "valid_db d" and "good_random senv" and "good_context ctx" and "foreign_env env"
  shows "create_promise L hq d r d'"
proof (cases "decodePaymentRequest L (hq_body hq)")
  case (Inl e)
  then show ?thesis using assms(1) by (auto simp: createPaymentHandler_def create_promise_def)
next
  case (Inr request)
  obtain res d1 where s: "service_create L senv (create_payment L env) ctx (hq_idempotency_key hq) request d = (res, d1)"
    by (metis prod.exhaust)
  from s assms(2-5) show ?thesis
  proof (cases rule: service_create_cases)
    case (failed e)
    then show ?thesis using assms(1) Inr s foreign_create_status [of e]
      by (auto simp: createPaymentHandler_def create_promise_def Let_def)
  qed (use assms(1) Inr s in \<open>auto simp: createPaymentHandler_def create_promise_def writeCreatePaymentError_def\<close>)
qed

text \<open>
  C14:
  The status of the answer to \<open>POST /v1/payments\<close> can be relied on.  201 means that the key was free
  and that exactly this key now leads to the payment in the body; 200 that the key already led to
  the payment in the body; 409 that it leads to a payment whose fingerprint differs from that of
  the request in the body; 200, 400 and 409 leave the database as it was.  Every other answer is
  500 or 504, after which only a retry with the same key can tell what happened.\<close>

theorem create_http_answers:
  assumes "serve_api L conf auth env hq d = ((r, labels), d')" and "valid_db d" and "good_api_env env"
    and "hq_method hq = ''POST''" and "hq_path hq = [''v1'', ''payments'']"
  shows "create_promise L hq d r d'"
proof -
  have g: "good_random (hv_service env)" "foreign_env (hv_pg env)" "\<forall>bs. hv_random env = Inr bs \<longrightarrow> length bs = 16"
    using assms(3) by (simp_all add: good_api_env_def)
  from assms(1) have "Middleware L (hv_random env) (hv_nanos env)
      (\<lambda>ctx. serve_mux (NewHandlerWithMetrics L (payment_api_deps L conf auth env ctx))) hq d = ((r, labels), d')"
    by (simp add: serve_api_def)
  then obtain rid header r0 p where rid: "uuid_v4 rid"
    and mux: "serve_mux (NewHandlerWithMetrics L (payment_api_deps L conf auth env \<lparr>request_id = Some rid\<rparr>)) hq d
        = ((r0, p), d')" and r: "r = r0\<lparr>rs_headers := (''X-Request-ID'', header) # rs_headers r0\<rparr>"
    by (rule Middleware_step [OF _ g(3)])
  have "good_context \<lparr>request_id = Some rid\<rparr>" using rid by (simp add: good_context_def)
  from create_handler_promise [OF mux_create [OF assms(4,5) mux] assms(2) g(1) this g(2)]
  show ?thesis by (rule create_promise_frame [THEN iffD1, rotated 4]) (simp_all add: r)
qed

theorem create_http_answers_witness:
  "\<exists>r labels d'. serve_api sample_lib sample_api_conf [] sample_api_env
      (sample_http_request\<lparr>hq_path := [''v1'', ''payments'']\<rparr>) empty_db = ((r, labels), d')
     \<and> create_promise sample_lib (sample_http_request\<lparr>hq_path := [''v1'', ''payments'']\<rparr>) empty_db r d'"
proof -
  let ?hq = "sample_http_request\<lparr>hq_path := [''v1'', ''payments'']\<rparr>"
  obtain r labels d' where s: "serve_api sample_lib sample_api_conf [] sample_api_env ?hq empty_db = ((r, labels), d')"
    by (metis prod.exhaust)
  have "hq_method ?hq = ''POST''" "hq_path ?hq = [''v1'', ''payments'']" by (simp_all add: sample_http_request_def)
  with create_http_answers [OF s valid_empty sample_api_good] s show ?thesis by blast
qed

end
