(* ===== verification/Go_Settings.thy ===== *)
theory Go_Settings
  imports Go_Errors Go_Time
begin

text \<open>
  The parts of Go's library that read settings: \<open>strings.Split\<close> at commas, \<open>net.SplitHostPort\<close> and
  \<open>time.ParseDuration\<close>.  The rounding of a fraction of a unit in float64 arithmetic and
  \<open>Duration.String\<close> are parameters, in the record \<open>settings_lib\<close>; the text of the error of
  \<open>ParseDuration\<close> is reduced to its constant part.
\<close>

record settings_lib =
  fraction_ns :: "nat \<Rightarrow> nat \<Rightarrow> nat \<Rightarrow> nat"   \<comment> \<open>\<open>uint64(float64(f) * (float64(unit) / scale))\<close>\<close>
  duration_text :: "duration \<Rightarrow> string"

section \<open>Splitting\<close>

fun split_at_char :: "char \<Rightarrow> string \<Rightarrow> string list" where
  "split_at_char c [] = [[]]"
| "split_at_char c (x # xs) =
     (if x = c then [] # split_at_char c xs
      else (case split_at_char c xs of [] \<Rightarrow> [[x]] | w # ws \<Rightarrow> (x # w) # ws))"

text \<open>The part before the last colon and the part after it.\<close>

definition split_last_colon :: "string \<Rightarrow> (string \<times> string) option" where
  "split_last_colon s =
     (if CHR '':'' \<notin> set s then None
      else let port = rev (takeWhile (\<lambda>c. c \<noteq> CHR '':'') (rev s))
           in Some (take (length s - length port - 1) s, port))"

definition address_error :: "string \<Rightarrow> string \<Rightarrow> (string \<times> string) result" where
  "address_error address why =
     Inl (Msg ((if address = [] then [] else ''address '' @ address @ '': '') @ why @ []))"

text \<open>
  \<open>net.SplitHostPort\<close>.  A host in brackets must end just before the last colon; otherwise it
  holds no colon.  No further bracket may occur.
\<close>

definition SplitHostPort :: "string \<Rightarrow> (string \<times> string) result" where
  "SplitHostPort hostport =
     (case split_last_colon hostport of
        None \<Rightarrow> address_error hostport ''missing port in address''
      | Some (before, port) \<Rightarrow>
          if hd hostport = CHR ''['' then
            (let inside = takeWhile (\<lambda>c. c \<noteq> CHR '']'') hostport; after = drop (length inside + 1) hostport in
             if CHR '']'' \<notin> set hostport then address_error hostport ''missing ']' in address''
             else if after = [] then address_error hostport ''missing port in address''
             else if length inside + 1 \<noteq> length before
               then address_error hostport (if hd after = CHR '':'' then ''too many colons in address''
                                            else ''missing port in address'')
             else if CHR ''['' \<in> set (tl hostport) then address_error hostport ''unexpected '[' in address''
             else if CHR '']'' \<in> set after then address_error hostport ''unexpected ']' in address''
             else Inr (tl inside, port))
          else if CHR '':'' \<in> set before then address_error hostport ''too many colons in address''
          else if CHR ''['' \<in> set hostport then address_error hostport ''unexpected '[' in address''
          else if CHR '']'' \<in> set hostport then address_error hostport ''unexpected ']' in address''
          else Inr (before, port))"

section \<open>Durations\<close>

definition max_duration :: nat where "max_duration = 2 ^ 63"

definition duration_unit :: "string \<Rightarrow> nat option" where
  "duration_unit u =
     (if u = ''ns'' then Some 1
      else if u = ''us'' \<or> u = [CHR 0xC2, CHR 0xB5, CHR ''s''] \<or> u = [CHR 0xCE, CHR 0xBC, CHR ''s''] then Some 1000
      else if u = ''ms'' then Some (10 ^ 6)
      else if u = ''s'' then Some (10 ^ 9)
      else if u = ''m'' then Some (60 * 10 ^ 9)
      else if u = ''h'' then Some (3600 * 10 ^ 9) else None)"

text \<open>\<open>leadingInt\<close> fails when the number exceeds \<open>2^63\<close>; \<open>leadingFraction\<close> then ignores the rest.\<close>

definition leading_int :: "string \<Rightarrow> (nat \<times> string) option" where
  "leading_int s =
     (let n = read_nat (takeWhile is_digit s) in
      if max_duration < n then None else Some (n, dropWhile is_digit s))"

fun fraction_digits :: "string \<Rightarrow> nat \<Rightarrow> nat \<Rightarrow> nat \<times> nat" where
  "fraction_digits [] x scale = (x, scale)"
| "fraction_digits (c # cs) x scale =
     (if (max_duration - 1) div 10 < x \<or> max_duration < x * 10 + (byte c - 48) then (x, scale)
      else fraction_digits cs (x * 10 + (byte c - 48)) (scale * 10))"

text \<open>One round of the loop of \<open>ParseDuration\<close>: a number, perhaps with a fraction, and a unit.\<close>

definition duration_part :: "'a settings_lib_scheme \<Rightarrow> string \<Rightarrow> (nat \<times> string) option" where
  "duration_part C s =
     (if s = [] \<or> \<not> (hd s = CHR ''.'' \<or> is_digit (hd s)) then None
      else (case leading_int s of
        None \<Rightarrow> None
      | Some (v, s1) \<Rightarrow>
          (let dot = (s1 \<noteq> [] \<and> hd s1 = CHR ''.''); s2 = (if dot then tl s1 else s1);
               ds = (if dot then takeWhile is_digit s2 else []); s3 = (if dot then dropWhile is_digit s2 else s2);
               (f, scale) = fraction_digits ds 0 1;
               u = takeWhile (\<lambda>c. \<not> (c = CHR ''.'' \<or> is_digit c)) s3; rest = drop (length u) s3
           in if length s1 = length s \<and> ds = [] then None
              else if u = [] then None
              else (case duration_unit u of
                None \<Rightarrow> None
              | Some unit \<Rightarrow>
                  if max_duration div unit < v then None
                  else let w = (if 0 < f then (v * unit + fraction_ns C f unit scale) mod 2 ^ 64 else v * unit) in
                       if max_duration < w then None else Some (w, rest)))))"

lemma duration_part_shorter:
  assumes "duration_part C s = Some (v, rest)"
  shows "length rest < length s"
proof -
  obtain s3 where s3: "length s3 \<le> length s" and u: "takeWhile (\<lambda>c. \<not> (c = CHR ''.'' \<or> is_digit c)) s3 \<noteq> []"
    and rest: "rest = drop (length (takeWhile (\<lambda>c. \<not> (c = CHR ''.'' \<or> is_digit c)) s3)) s3"
  proof -
    let ?s1 = "dropWhile is_digit s"
    let ?s3 = "if ?s1 \<noteq> [] \<and> hd ?s1 = CHR ''.'' then dropWhile is_digit (tl ?s1) else ?s1"
    have "length (dropWhile is_digit (tl ?s1)) \<le> length (tl ?s1)" "length (tl ?s1) \<le> length ?s1"
      "length ?s1 \<le> length s"
      by (rule length_dropWhile_le, simp, rule length_dropWhile_le)
    then have "length ?s3 \<le> length s" by (cases "?s1 \<noteq> [] \<and> hd ?s1 = CHR ''.''") (auto intro: le_trans)
    moreover have "takeWhile (\<lambda>c. \<not> (c = CHR ''.'' \<or> is_digit c)) ?s3 \<noteq> []
        \<and> rest = drop (length (takeWhile (\<lambda>c. \<not> (c = CHR ''.'' \<or> is_digit c)) ?s3)) ?s3"
      using assms unfolding duration_part_def leading_int_def Let_def
      by (auto split: option.splits if_splits prod.splits)
    ultimately show thesis using that by blast
  qed
  have "0 < length (takeWhile (\<lambda>c. \<not> (c = CHR ''.'' \<or> is_digit c)) s3)" using u by simp
  moreover have "length (takeWhile (\<lambda>c. \<not> (c = CHR ''.'' \<or> is_digit c)) s3) \<le> length s3" by (rule length_takeWhile_le)
  ultimately show ?thesis using s3 unfolding rest length_drop by linarith
qed

function duration_parts :: "'a settings_lib_scheme \<Rightarrow> string \<Rightarrow> nat \<Rightarrow> nat option" where
  "duration_parts C s d =
     (if s = [] then Some d
      else (case duration_part C s of
        None \<Rightarrow> None
      | Some (v, rest) \<Rightarrow>
          let d1 = (d + v) mod 2 ^ 64 in if max_duration < d1 then None else duration_parts C rest d1))"
  by pat_completeness auto
termination
  by (relation "measure (\<lambda>(C, s, d). length s)") (auto dest: duration_part_shorter)

declare duration_parts.simps [simp del]

definition ParseDuration :: "'a settings_lib_scheme \<Rightarrow> string \<Rightarrow> duration option" where
  "ParseDuration C text =
     (let signed = (text \<noteq> [] \<and> (hd text = CHR ''-'' \<or> hd text = CHR ''+''));
          neg = (text \<noteq> [] \<and> hd text = CHR ''-''); s = (if signed then tl text else text) in
      if s = ''0'' then Some 0
      else if s = [] then None
      else (case duration_parts C s 0 of
        None \<Rightarrow> None
      | Some d \<Rightarrow>
          if neg then Some (- of_nat d)
          else if max_duration - 1 < d then None else Some (of_nat d)))"

end
