(* ===== verification/Config.thy ===== *)
theory Config
  imports Go_Settings Decision_Worker Reconciliation Review_Auth
begin

text \<open>
  config/config.go, config/publisher.go and config/decision.go: the settings of the four processes,
  read from the environment, and what the constructors of the processes may rely on.
\<close>

section \<open>Single settings\<close>

type_synonym lookup_env = "string \<Rightarrow> string option"

definition env_value :: "lookup_env \<Rightarrow> string \<Rightarrow> string \<Rightarrow> string" where
  "env_value lookup key fallback = (case lookup key of Some raw \<Rightarrow> raw | None \<Rightarrow> fallback)"

definition and_then :: "'a result \<Rightarrow> ('a \<Rightarrow> 'b result) \<Rightarrow> 'b result" where
  "and_then r f = (case r of Inl e \<Rightarrow> Inl e | Inr x \<Rightarrow> f x)"

definition duration_setting ::
    "'a settings_lib_scheme \<Rightarrow> lookup_env \<Rightarrow> string \<Rightarrow> duration \<Rightarrow> duration result" where
  "duration_setting C lookup key fallback =
     (let raw = trim_space (env_value lookup key (duration_text C fallback)) in
      case ParseDuration C raw of
        None \<Rightarrow> Inl (errorf (key @ '' must be a valid duration'') (Msg ''time: invalid duration''))
      | Some parsed \<Rightarrow>
          if parsed \<le>s 0 then Inl (Msg (key @ '' must be greater than zero'')) else Inr parsed)"

definition valid_port :: "string \<Rightarrow> bool" where
  "valid_port port = (case parse_int64 port of None \<Rightarrow> False | Some n \<Rightarrow> 1 \<le> n \<and> n \<le> 65535)"

definition validateHTTPAddr :: "string \<Rightarrow> string result" where
  "validateHTTPAddr addr =
     (case SplitHostPort addr of
        Inl e \<Rightarrow> Inl (errorf ''must be in host:port form'' e)
      | Inr (_, port) \<Rightarrow>
          if \<not> valid_port port then Inl (Msg ''port must be between 1 and 65535'') else Inr addr)"

definition address_setting :: "lookup_env \<Rightarrow> string \<Rightarrow> string \<Rightarrow> string result" where
  "address_setting lookup key fallback =
     (case validateHTTPAddr (trim_space (env_value lookup key fallback)) of
        Inl e \<Rightarrow> Inl (errorf key e)
      | Inr addr \<Rightarrow> Inr addr)"

text \<open>The levels of \<open>log/slog\<close>\<close>

definition parseLogLevel :: "'a unicode_tables_scheme \<Rightarrow> string \<Rightarrow> int result" where
  "parseLogLevel ut raw =
     (let level = to_lower ut (trim_space raw) in
      if level = ''debug'' then Inr (- 4)
      else if level = ''info'' then Inr 0
      else if level = ''warn'' \<or> level = ''warning'' then Inr 4
      else if level = ''error'' then Inr 8
      else Inl (Msg ''LOG_LEVEL must be one of debug, info, warn, or error''))"

definition database_setting :: "lookup_env \<Rightarrow> string result" where
  "database_setting lookup =
     (let url = trim_space (env_value lookup ''DATABASE_URL'' []) in
      if url = [] then Inl (Msg ''DATABASE_URL is required'') else Inr url)"

section \<open>Kafka\<close>

definition broker_entry :: "string \<Rightarrow> string result" where
  "broker_entry broker =
     (case SplitHostPort broker of
        Inl _ \<Rightarrow> Inl (Msg ''KAFKA_BROKERS entries must use host:port form'')
      | Inr (host, port) \<Rightarrow>
          if host = [] then Inl (Msg ''KAFKA_BROKERS entries must use host:port form'')
          else if \<not> valid_port port then Inl (Msg ''KAFKA_BROKERS ports must be between 1 and 65535'')
          else Inr broker)"

fun collect_brokers :: "string list \<Rightarrow> string list \<Rightarrow> string list result" where
  "collect_brokers brokers [] = Inr brokers"
| "collect_brokers brokers (part # parts) =
     (let broker = trim_space part in
      if broker = [] then collect_brokers brokers parts
      else (case broker_entry broker of
              Inl e \<Rightarrow> Inl e
            | Inr b \<Rightarrow> collect_brokers (brokers @ [b]) parts))"

definition parseKafkaBrokers :: "string \<Rightarrow> string list result" where
  "parseKafkaBrokers raw =
     (case collect_brokers [] (split_at_char CHR '','' raw) of
        Inl e \<Rightarrow> Inl e
      | Inr brokers \<Rightarrow> if brokers = [] then Inl (Msg ''KAFKA_BROKERS is required'') else Inr brokers)"

definition topic_rune :: "rune \<Rightarrow> bool" where
  "topic_rune r \<longleftrightarrow> (97 \<le> r \<and> r \<le> 122) \<or> (65 \<le> r \<and> r \<le> 90) \<or> (48 \<le> r \<and> r \<le> 57)
     \<or> r = 46 \<or> r = 95 \<or> r = 45"

definition validKafkaTopic :: "string \<Rightarrow> bool" where
  "validKafkaTopic topic \<longleftrightarrow>
     topic \<noteq> [] \<and> length topic \<le> 249 \<and> topic \<noteq> ''.'' \<and> topic \<noteq> ''..'' \<and> list_all topic_rune (runes topic)"

definition topic_setting :: "lookup_env \<Rightarrow> string \<Rightarrow> string \<Rightarrow> string result" where
  "topic_setting lookup key fallback =
     (let topic = trim_space (env_value lookup key fallback) in
      if \<not> validKafkaTopic topic
      then Inl (Msg (key @ '' must contain 1-249 letters, digits, dots, underscores, or hyphens''))
      else Inr topic)"

section \<open>Credentials\<close>

definition decode_credential :: "json \<Rightarrow> credential option" where
  "decode_credential v =
     (case merge_objects [v] of
        None \<Rightarrow> None
      | Some ms \<Rightarrow>
          if \<not> known_members ms [''reviewer_id'', ''role'', ''token''] then None
          else (case (field as_string [] ms ''reviewer_id'', field as_string [] ms ''role'',
                      field as_string [] ms ''token'') of
                  (Some r, Some ro, Some t) \<Rightarrow> Some \<lparr>cd_reviewer_id = r, cd_role = ro, cd_token = t\<rparr>
                | _ \<Rightarrow> None))"

fun decode_credentials :: "json list \<Rightarrow> credential list option" where
  "decode_credentials [] = Some []"
| "decode_credentials (v # vs) =
     (case (decode_credential v, decode_credentials vs) of
        (Some c, Some cs) \<Rightarrow> Some (c # cs)
      | _ \<Rightarrow> None)"

text \<open>An array, or \<open>null\<close>, which leaves the slice nil\<close>

definition credential_array :: "json \<Rightarrow> credential list option" where
  "credential_array v = (case v of JNull \<Rightarrow> Some [] | JArr vs \<Rightarrow> decode_credentials vs | _ \<Rightarrow> None)"

definition parseReviewCredentials :: "'a golib_scheme \<Rightarrow> string \<Rightarrow> credential list result" where
  "parseReviewCredentials L raw =
     (if trim_space raw = [] then Inl (Msg ''REVIEW_AUTH_CREDENTIALS_JSON is required'')
      else
        let failed = Inl (errorf ''REVIEW_AUTH_CREDENTIALS_JSON must be a valid credential array'' (Msg (json_error L raw)))
        in (case json_value (2 * length raw + 2) 0 raw of
              None \<Rightarrow> failed
            | Some (v, rest) \<Rightarrow>
           (case credential_array v of
              None \<Rightarrow> failed
            | Some credentials \<Rightarrow>
                if skip_space rest \<noteq> []
                then Inl (Msg ''REVIEW_AUTH_CREDENTIALS_JSON must contain exactly one JSON array'')
                else if 100 < length credentials
                then Inl (Msg ''REVIEW_AUTH_CREDENTIALS_JSON supports at most 100 credentials'')
                else (case NewTokenAuthenticator L credentials of
                        Inl e \<Rightarrow> Inl (errorf ''REVIEW_AUTH_CREDENTIALS_JSON'' e)
                      | Inr _ \<Rightarrow> Inr credentials))))"

section \<open>The processes\<close>

record api_settings =
  ai_database_url :: string
  ai_http_addr :: string
  ai_readiness_timeout :: duration
  ai_payment_timeout :: duration
  ai_review_timeout :: duration
  ai_dashboard_timeout :: duration
  ai_metrics_timeout :: duration
  ai_reconciliation_grace :: duration
  ai_shutdown_timeout :: duration
  ai_log_level :: int
  ai_credentials :: "credential list"

definition load_api :: "'a golib_scheme \<Rightarrow> 'b settings_lib_scheme \<Rightarrow> lookup_env \<Rightarrow> api_settings result" where
  "load_api L C lookup =
     and_then (database_setting lookup) (\<lambda>url.
     and_then (address_setting lookup ''HTTP_ADDR'' '':8080'') (\<lambda>addr.
     and_then (duration_setting C lookup ''READINESS_TIMEOUT'' (1000 * millisecond)) (\<lambda>readiness.
     and_then (duration_setting C lookup ''PAYMENT_CREATE_TIMEOUT'' (3000 * millisecond)) (\<lambda>payment.
     and_then (duration_setting C lookup ''REVIEW_REQUEST_TIMEOUT'' (3000 * millisecond)) (\<lambda>review.
     and_then (duration_setting C lookup ''DASHBOARD_REQUEST_TIMEOUT'' (5000 * millisecond)) (\<lambda>dashboard.
     and_then (duration_setting C lookup ''METRICS_COLLECTION_TIMEOUT'' (1000 * millisecond)) (\<lambda>metrics.
     and_then (duration_setting C lookup ''RECONCILIATION_GRACE_PERIOD'' (30000 * millisecond)) (\<lambda>grace.
     and_then (duration_setting C lookup ''SHUTDOWN_TIMEOUT'' (10000 * millisecond)) (\<lambda>shutdown.
     and_then (parseReviewCredentials L (env_value lookup ''REVIEW_AUTH_CREDENTIALS_JSON'' [])) (\<lambda>credentials.
     and_then (parseLogLevel L (env_value lookup ''LOG_LEVEL'' ''info'')) (\<lambda>level.
       Inr \<lparr>ai_database_url = url, ai_http_addr = addr, ai_readiness_timeout = readiness,
            ai_payment_timeout = payment, ai_review_timeout = review, ai_dashboard_timeout = dashboard,
            ai_metrics_timeout = metrics, ai_reconciliation_grace = grace, ai_shutdown_timeout = shutdown,
            ai_log_level = level, ai_credentials = credentials\<rparr>)))))))))))"

record publisher_settings =
  pb_database_url :: string
  pb_brokers :: "string list"
  pb_topic :: string
  pb_poll_interval :: duration
  pb_publish_timeout :: duration
  pb_retry_min :: duration
  pb_retry_max :: duration
  pb_metrics_addr :: string
  pb_metrics_shutdown :: duration
  pb_log_level :: int

definition load_publisher ::
    "'a unicode_tables_scheme \<Rightarrow> 'b settings_lib_scheme \<Rightarrow> lookup_env \<Rightarrow> publisher_settings result" where
  "load_publisher ut C lookup =
     and_then (database_setting lookup) (\<lambda>url.
     and_then (parseKafkaBrokers (env_value lookup ''KAFKA_BROKERS'' [])) (\<lambda>brokers.
     and_then (topic_setting lookup ''KAFKA_TOPIC'' ''payments.created'') (\<lambda>topic.
     and_then (duration_setting C lookup ''OUTBOX_POLL_INTERVAL'' (250 * millisecond)) (\<lambda>poll.
     and_then (duration_setting C lookup ''OUTBOX_PUBLISH_TIMEOUT'' (5000 * millisecond)) (\<lambda>publish_timeout.
     and_then (duration_setting C lookup ''OUTBOX_RETRY_MIN_BACKOFF'' (100 * millisecond)) (\<lambda>retry_min.
     and_then (duration_setting C lookup ''OUTBOX_RETRY_MAX_BACKOFF'' (5000 * millisecond)) (\<lambda>retry_max.
     if retry_max <s retry_min
     then Inl (Msg ''OUTBOX_RETRY_MAX_BACKOFF must be greater than or equal to OUTBOX_RETRY_MIN_BACKOFF'')
     else
     and_then (address_setting lookup ''OUTBOX_METRICS_ADDR'' '':9091'') (\<lambda>addr.
     and_then (duration_setting C lookup ''METRICS_SHUTDOWN_TIMEOUT'' (5000 * millisecond)) (\<lambda>shutdown.
     and_then (parseLogLevel ut (env_value lookup ''LOG_LEVEL'' ''info'')) (\<lambda>level.
       Inr \<lparr>pb_database_url = url, pb_brokers = brokers, pb_topic = topic, pb_poll_interval = poll,
            pb_publish_timeout = publish_timeout, pb_retry_min = retry_min, pb_retry_max = retry_max,
            pb_metrics_addr = addr, pb_metrics_shutdown = shutdown, pb_log_level = level\<rparr>))))))))))"

record consumer_settings =
  cn_database_url :: string
  cn_brokers :: "string list"
  cn_topic :: string
  cn_group :: string
  cn_offset_reset :: string
  cn_poll_timeout :: duration
  cn_process_timeout :: duration
  cn_retry_backoff :: duration
  cn_metrics_addr :: string
  cn_metrics_shutdown :: duration
  cn_log_level :: int

definition offset_reset_setting :: "'a unicode_tables_scheme \<Rightarrow> lookup_env \<Rightarrow> string result" where
  "offset_reset_setting ut lookup =
     (let reset = to_lower ut (trim_space (env_value lookup ''DECISION_AUTO_OFFSET_RESET'' ''earliest'')) in
      if reset \<noteq> ''earliest'' \<and> reset \<noteq> ''latest''
      then Inl (Msg ''DECISION_AUTO_OFFSET_RESET must be earliest or latest'') else Inr reset)"

definition load_consumer ::
    "'a unicode_tables_scheme \<Rightarrow> 'b settings_lib_scheme \<Rightarrow> lookup_env \<Rightarrow> consumer_settings result" where
  "load_consumer ut C lookup =
     and_then (database_setting lookup) (\<lambda>url.
     and_then (parseKafkaBrokers (env_value lookup ''KAFKA_BROKERS'' [])) (\<lambda>brokers.
     and_then (topic_setting lookup ''RISK_DECISIONS_TOPIC'' ''risk.decisions'') (\<lambda>topic.
     and_then (topic_setting lookup ''DECISION_CONSUMER_GROUP'' ''riskflow-decision-persistence-v1'') (\<lambda>group.
     and_then (offset_reset_setting ut lookup) (\<lambda>reset.
     and_then (duration_setting C lookup ''DECISION_POLL_TIMEOUT'' (1000 * millisecond)) (\<lambda>poll.
     and_then (duration_setting C lookup ''DECISION_PROCESS_TIMEOUT'' (5000 * millisecond)) (\<lambda>process.
     and_then (duration_setting C lookup ''DECISION_RETRY_BACKOFF'' (1000 * millisecond)) (\<lambda>backoff.
     and_then (address_setting lookup ''DECISION_METRICS_ADDR'' '':9092'') (\<lambda>addr.
     and_then (duration_setting C lookup ''METRICS_SHUTDOWN_TIMEOUT'' (5000 * millisecond)) (\<lambda>shutdown.
     and_then (parseLogLevel ut (env_value lookup ''LOG_LEVEL'' ''info'')) (\<lambda>level.
       Inr \<lparr>cn_database_url = url, cn_brokers = brokers, cn_topic = topic, cn_group = group,
            cn_offset_reset = reset, cn_poll_timeout = poll, cn_process_timeout = process,
            cn_retry_backoff = backoff, cn_metrics_addr = addr, cn_metrics_shutdown = shutdown,
            cn_log_level = level\<rparr>)))))))))))"

record reconciler_settings =
  rcn_database_url :: string
  rcn_grace :: duration
  rcn_timeout :: duration
  rcn_log_level :: int

definition load_reconciler ::
    "'a unicode_tables_scheme \<Rightarrow> 'b settings_lib_scheme \<Rightarrow> lookup_env \<Rightarrow> reconciler_settings result" where
  "load_reconciler ut C lookup =
     and_then (database_setting lookup) (\<lambda>url.
     and_then (duration_setting C lookup ''RECONCILIATION_GRACE_PERIOD'' (30000 * millisecond)) (\<lambda>grace.
     and_then (duration_setting C lookup ''RECONCILIATION_TIMEOUT'' (10000 * millisecond)) (\<lambda>timeout.
     and_then (parseLogLevel ut (env_value lookup ''LOG_LEVEL'' ''info'')) (\<lambda>level.
       Inr \<lparr>rcn_database_url = url, rcn_grace = grace, rcn_timeout = timeout, rcn_log_level = level\<rparr>))))"

section \<open>What a loaded configuration guarantees\<close>

lemma and_then_Inr: "and_then r f = Inr y \<longleftrightarrow> (\<exists>x. r = Inr x \<and> f x = Inr y)"
  by (auto simp: and_then_def split: sum.splits)

lemma duration_setting_positive: "duration_setting C lookup key fallback = Inr t \<Longrightarrow> 0 < sint t"
  by (auto simp: duration_setting_def Let_def word_sle_eq split: option.splits if_splits)

text \<open>An address that can be listened on: after its last colon stands a port number.\<close>

definition listens :: "string \<Rightarrow> bool" where
  "listens addr \<longleftrightarrow> (\<exists>host port. SplitHostPort addr = Inr (host, port) \<and> valid_port port)"

lemma address_setting_Inr: "address_setting lookup key fallback = Inr addr \<Longrightarrow> listens addr"
  by (auto simp: address_setting_def validateHTTPAddr_def listens_def split: sum.splits if_splits)

lemma topic_setting_Inr: "topic_setting lookup key fallback = Inr t \<Longrightarrow> validKafkaTopic t"
  by (auto simp: topic_setting_def Let_def split: if_splits)

lemma collect_brokers_Inr:
  "collect_brokers acc parts = Inr bs \<Longrightarrow> list_all (\<lambda>b. broker_entry b = Inr b) acc \<Longrightarrow>
   list_all (\<lambda>b. broker_entry b = Inr b) bs"
proof (induction acc parts rule: collect_brokers.induct)
  case (2 brokers part parts)
  show ?case
  proof (cases "trim_space part = []")
    case False
    with 2(3) obtain b where b: "broker_entry (trim_space part) = Inr b"
      "collect_brokers (brokers @ [b]) parts = Inr bs" by (auto simp: Let_def split: sum.splits)
    moreover have "b = trim_space part" using b(1) by (auto simp: broker_entry_def split: sum.splits if_splits)
    ultimately show ?thesis using 2(2) [OF refl False b(1)] 2(4) by simp
  qed (use 2 in simp)
qed simp

lemma broker_entry_host: "broker_entry b = Inr b \<Longrightarrow> listens b"
  by (auto simp: broker_entry_def listens_def split: sum.splits if_splits)

lemma parseKafkaBrokers_Inr: "parseKafkaBrokers raw = Inr bs \<Longrightarrow> bs \<noteq> [] \<and> list_all listens bs"
  using collect_brokers_Inr [of "[]" "split_at_char CHR '','' raw"] broker_entry_host
  by (auto simp: parseKafkaBrokers_def list_all_iff split: sum.splits if_splits)

lemma parseReviewCredentials_Inr:
  "parseReviewCredentials L raw = Inr cs \<Longrightarrow> length cs \<le> 100 \<and> (\<exists>auth. NewTokenAuthenticator L cs = Inr auth)"
  by (auto simp: parseReviewCredentials_def Let_def split: option.splits sum.splits if_splits prod.splits)

text \<open>What cmd/outbox-publisher/main.go passes to its worker\<close>

definition publisher_worker :: "publisher_settings \<Rightarrow> worker_config" where
  "publisher_worker p = \<lparr>wc_topic = pb_topic p, wc_poll_interval = pb_poll_interval p,
     wc_publish_timeout = pb_publish_timeout p, wc_retry_min = pb_retry_min p, wc_retry_max = pb_retry_max p\<rparr>"

lemma load_publisher_starts:
  assumes "load_publisher ut C lookup = Inr p"
  shows "NewOutboxStore (Some pool) (pb_retry_min p) (pb_retry_max p) = Inr (pool, \<lparr>retry_min = pb_retry_min p, retry_max = pb_retry_max p\<rparr>)
    \<and> NewWorker (Some store) (Some producer) (publisher_worker p) metricSets
        = Inr \<lparr>ow_store = store, ow_publisher = producer, ow_config = publisher_worker p,
               ow_metrics = first_metrics metricSets\<rparr>
    \<and> valid_retry \<lparr>retry_min = pb_retry_min p, retry_max = pb_retry_max p\<rparr>
    \<and> pb_brokers p \<noteq> [] \<and> list_all listens (pb_brokers p) \<and> listens (pb_metrics_addr p)
    \<and> validKafkaTopic (pb_topic p)
    \<and> list_all (\<lambda>t. 0 < sint t) [pb_poll_interval p, pb_publish_timeout p, pb_retry_min p, pb_retry_max p,
        pb_metrics_shutdown p]"
proof -
  have m: "0 < sint (pb_retry_max p)" "0 < sint (pb_metrics_shutdown p)"
    using assms unfolding load_publisher_def and_then_Inr
    by (auto simp: and_then_Inr dest: duration_setting_positive split: if_splits)
  have t: "0 < sint (pb_poll_interval p)" "0 < sint (pb_publish_timeout p)" "0 < sint (pb_retry_min p)"
    "\<not> pb_retry_max p <s pb_retry_min p" "validKafkaTopic (pb_topic p)"
    "pb_brokers p \<noteq> [] \<and> list_all listens (pb_brokers p)" "listens (pb_metrics_addr p)"
    using assms unfolding load_publisher_def and_then_Inr
    by (auto simp: and_then_Inr dest: duration_setting_positive topic_setting_Inr parseKafkaBrokers_Inr
        address_setting_Inr split: if_splits)
  have o: "NewOutboxStore (Some pool) (pb_retry_min p) (pb_retry_max p) = Inr (pool, \<lparr>retry_min = pb_retry_min p, retry_max = pb_retry_max p\<rparr>)"
    using t(3,4) by (simp add: NewOutboxStore_def word_sle_eq)
  have "NewWorker (Some store) (Some producer) (publisher_worker p) metricSets
        = Inr \<lparr>ow_store = store, ow_publisher = producer, ow_config = publisher_worker p,
               ow_metrics = first_metrics metricSets\<rparr>"
    using t(1-5) by (simp add: NewWorker_def publisher_worker_def word_sle_eq validKafkaTopic_def)
  with o m t NewOutboxStore_Inr [OF o] show ?thesis by simp
qed

text \<open>What cmd/risk-decision-consumer/main.go passes to its worker\<close>

definition consumer_worker :: "consumer_settings \<Rightarrow> decision_worker_config" where
  "consumer_worker c = \<lparr>dc_poll_timeout = cn_poll_timeout c, dc_process_timeout = cn_process_timeout c,
     dc_retry_backoff = cn_retry_backoff c\<rparr>"

lemma load_consumer_starts:
  assumes "load_consumer ut C lookup = Inr c"
  shows "NewDecisionWorker (Some consumer) (Some store) (consumer_worker c) metricSets
      = Inr \<lparr>dk_consumer = consumer, dk_store = store, dk_config = consumer_worker c,
             dk_metrics = first_metrics metricSets\<rparr>
    \<and> cn_brokers c \<noteq> [] \<and> list_all listens (cn_brokers c) \<and> listens (cn_metrics_addr c)
    \<and> cn_offset_reset c \<in> {''earliest'', ''latest''} \<and> validKafkaTopic (cn_topic c) \<and> validKafkaTopic (cn_group c)
    \<and> list_all (\<lambda>t. 0 < sint t) [cn_poll_timeout c, cn_process_timeout c, cn_retry_backoff c, cn_metrics_shutdown c]"
proof -
  have "offset_reset_setting ut lookup = Inr x \<Longrightarrow> x \<in> {''earliest'', ''latest''}" for x
    by (auto simp: offset_reset_setting_def Let_def split: if_splits)
  then have "0 < sint (cn_poll_timeout c)" "0 < sint (cn_process_timeout c)" "0 < sint (cn_retry_backoff c)"
    "0 < sint (cn_metrics_shutdown c)" "cn_brokers c \<noteq> [] \<and> list_all listens (cn_brokers c)" "listens (cn_metrics_addr c)"
    "cn_offset_reset c \<in> {''earliest'', ''latest''}" "validKafkaTopic (cn_topic c)" "validKafkaTopic (cn_group c)"
    using assms unfolding load_consumer_def and_then_Inr
    by (auto simp: and_then_Inr dest: duration_setting_positive topic_setting_Inr parseKafkaBrokers_Inr address_setting_Inr)
  then show ?thesis by (auto simp: NewDecisionWorker_def consumer_worker_def word_sle_eq)
qed

lemma load_api_starts:
  assumes "load_api L C lookup = Inr a"
  shows "(\<exists>auth. NewTokenAuthenticator L (ai_credentials a) = Inr auth) \<and> length (ai_credentials a) \<le> 100
    \<and> NewReconciler (Some pool) (ai_reconciliation_grace a) = Inr (pool, ai_reconciliation_grace a) \<and> listens (ai_http_addr a)
    \<and> list_all (\<lambda>t. 0 < sint t) [ai_readiness_timeout a, ai_payment_timeout a, ai_review_timeout a,
        ai_dashboard_timeout a, ai_metrics_timeout a, ai_reconciliation_grace a, ai_shutdown_timeout a]"
proof -
  have "list_all (\<lambda>t. 0 < sint t) [ai_readiness_timeout a, ai_payment_timeout a, ai_review_timeout a,
        ai_dashboard_timeout a, ai_metrics_timeout a, ai_reconciliation_grace a, ai_shutdown_timeout a]"
    "listens (ai_http_addr a)" "\<exists>raw. parseReviewCredentials L raw = Inr (ai_credentials a)"
    using assms unfolding load_api_def and_then_Inr
    by (auto simp: and_then_Inr dest: duration_setting_positive address_setting_Inr)
  then show ?thesis
    using parseReviewCredentials_Inr [of L _ "ai_credentials a"] by (auto simp: NewReconciler_def word_sle_eq)
qed

lemma load_reconciler_starts:
  "load_reconciler ut C lookup = Inr r \<Longrightarrow>
   NewReconciler (Some pool) (rcn_grace r) = Inr (pool, rcn_grace r) \<and> 0 < sint (rcn_grace r) \<and> 0 < sint (rcn_timeout r)"
  unfolding load_reconciler_def and_then_Inr
  by (auto simp: and_then_Inr NewReconciler_def word_sle_eq dest: duration_setting_positive)

section \<open>An environment with which all processes load\<close>

definition sample_settings_lib :: settings_lib where
  "sample_settings_lib = \<lparr>fraction_ns = (\<lambda>_ _ _. 0), duration_text = (\<lambda>_. ''1s'')\<rparr>"

definition sample_credentials_json :: json where
  "sample_credentials_json = JArr [JObj [(''reviewer_id'', JStr ''ann''), (''role'', JStr ''risk_reviewer''),
     (''token'', JStr (replicate 32 CHR ''a''))]]"

definition sample_lookup :: lookup_env where
  "sample_lookup = [''DATABASE_URL'' \<mapsto> ''pg'', ''KAFKA_BROKERS'' \<mapsto> ''kafka:9092'',
     ''REVIEW_AUTH_CREDENTIALS_JSON'' \<mapsto> json_text sample_credentials_json]"

lemma sample_unset:
  "sample_lookup ''READINESS_TIMEOUT'' = None"
  "sample_lookup ''PAYMENT_CREATE_TIMEOUT'' = None"
  "sample_lookup ''REVIEW_REQUEST_TIMEOUT'' = None"
  "sample_lookup ''DASHBOARD_REQUEST_TIMEOUT'' = None"
  "sample_lookup ''METRICS_COLLECTION_TIMEOUT'' = None"
  "sample_lookup ''RECONCILIATION_GRACE_PERIOD'' = None"
  "sample_lookup ''SHUTDOWN_TIMEOUT'' = None"
  "sample_lookup ''HTTP_ADDR'' = None"
  "sample_lookup ''KAFKA_TOPIC'' = None"
  "sample_lookup ''OUTBOX_POLL_INTERVAL'' = None"
  "sample_lookup ''OUTBOX_PUBLISH_TIMEOUT'' = None"
  "sample_lookup ''OUTBOX_RETRY_MIN_BACKOFF'' = None"
  "sample_lookup ''OUTBOX_RETRY_MAX_BACKOFF'' = None"
  "sample_lookup ''OUTBOX_METRICS_ADDR'' = None"
  "sample_lookup ''METRICS_SHUTDOWN_TIMEOUT'' = None"
  "sample_lookup ''RISK_DECISIONS_TOPIC'' = None"
  "sample_lookup ''DECISION_CONSUMER_GROUP'' = None"
  "sample_lookup ''DECISION_AUTO_OFFSET_RESET'' = None"
  "sample_lookup ''DECISION_POLL_TIMEOUT'' = None"
  "sample_lookup ''DECISION_PROCESS_TIMEOUT'' = None"
  "sample_lookup ''DECISION_RETRY_BACKOFF'' = None"
  "sample_lookup ''DECISION_METRICS_ADDR'' = None"
  "sample_lookup ''RECONCILIATION_TIMEOUT'' = None"
  "sample_lookup ''LOG_LEVEL'' = None"
  by (simp_all add: sample_lookup_def)

lemma sample_set:
  "env_value sample_lookup ''KAFKA_BROKERS'' [] = ''kafka:9092''"
  "env_value sample_lookup ''REVIEW_AUTH_CREDENTIALS_JSON'' [] = json_text sample_credentials_json"
  "env_value sample_lookup ''LOG_LEVEL'' ''info'' = ''info''"
  by (simp_all add: env_value_def sample_lookup_def)

lemma sample_reset: "offset_reset_setting ut sample_lookup = Inr ''earliest''"
proof -
  have "trim_space ''earliest'' = ''earliest''"
    by (rule trim_all_plain) (simp add: plain_byte_def ascii_def is_space_def byte_def)
  then show ?thesis
    by (simp add: offset_reset_setting_def env_value_def sample_unset to_lower_ascii ascii_def byte_def ascii_lower_def)
qed

lemma second_parses: "ParseDuration sample_settings_lib ''1s'' = Some 1000000000"
  by (simp add: ParseDuration_def duration_parts.simps duration_part_def leading_int_def read_nat_def is_digit_def
      byte_def max_duration_def duration_unit_def Let_def)

lemma sample_duration:
  "sample_lookup key = None \<Longrightarrow> duration_setting sample_settings_lib sample_lookup key t = Inr 1000000000"
proof -
  assume k: "sample_lookup key = None"
  have "trim_space ''1s'' = ''1s''" by (rule trim_all_plain) (simp add: plain_byte_def ascii_def is_space_def byte_def)
  with k show ?thesis
    using second_parses
    by (simp add: duration_setting_def env_value_def sample_settings_lib_def word_sle_eq)
qed

lemma sample_port: "valid_port ''8080''" "valid_port ''9091''" "valid_port ''9092''"
  by (simp_all add: valid_port_def parse_int64_def read_nat_def is_digit_def byte_def in_int64_def Let_def)

lemma sample_addresses:
  "sample_lookup key = None \<Longrightarrow> address_setting sample_lookup key '':8080'' = Inr '':8080''"
  "sample_lookup key = None \<Longrightarrow> address_setting sample_lookup key '':9091'' = Inr '':9091''"
  "sample_lookup key = None \<Longrightarrow> address_setting sample_lookup key '':9092'' = Inr '':9092''"
proof -
  have t: "trim_space '':8080'' = '':8080''" "trim_space '':9091'' = '':9091''" "trim_space '':9092'' = '':9092''"
    by (rule trim_all_plain, simp add: plain_byte_def ascii_def is_space_def byte_def)+
  have "SplitHostPort '':8080'' = Inr ([], ''8080'')" "SplitHostPort '':9091'' = Inr ([], ''9091'')"
    "SplitHostPort '':9092'' = Inr ([], ''9092'')"
    by (simp_all add: SplitHostPort_def split_last_colon_def Let_def)
  with t sample_port show "sample_lookup key = None \<Longrightarrow> address_setting sample_lookup key '':8080'' = Inr '':8080''"
    "sample_lookup key = None \<Longrightarrow> address_setting sample_lookup key '':9091'' = Inr '':9091''"
    "sample_lookup key = None \<Longrightarrow> address_setting sample_lookup key '':9092'' = Inr '':9092''"
    by (simp_all add: address_setting_def validateHTTPAddr_def env_value_def)
qed

lemma sample_topic:
  "sample_lookup key = None \<Longrightarrow> list_all (topic_rune \<circ> byte) t \<Longrightarrow> list_all ascii t \<Longrightarrow> 2 < length t \<Longrightarrow>
   length t \<le> 249 \<Longrightarrow> topic_setting sample_lookup key t = Inr t"
proof -
  assume a: "sample_lookup key = None" "list_all (topic_rune \<circ> byte) t" "list_all ascii t" "2 < length t" "length t \<le> 249"
  have "list_all plain_byte t"
    using a(2,3) by (auto simp: list_all_iff topic_rune_def plain_byte_def ascii_def is_space_def)
  then have "trim_space t = t" by (rule trim_all_plain)
  with a show ?thesis
    by (auto simp: topic_setting_def env_value_def Let_def validKafkaTopic_def runes_ascii list_all_iff)
qed

lemma sample_topics:
  "sample_lookup key = None \<Longrightarrow> topic_setting sample_lookup key ''payments.created'' = Inr ''payments.created''"
  "sample_lookup key = None \<Longrightarrow> topic_setting sample_lookup key ''risk.decisions'' = Inr ''risk.decisions''"
  "sample_lookup key = None \<Longrightarrow> topic_setting sample_lookup key ''riskflow-decision-persistence-v1''
     = Inr ''riskflow-decision-persistence-v1''"
  by (rule sample_topic; simp add: topic_rune_def ascii_def byte_def)+

lemma sample_level: "parseLogLevel ut ''info'' = Inr 0"
proof -
  have "trim_space ''info'' = ''info''" by (rule trim_all_plain) (simp add: plain_byte_def ascii_def is_space_def byte_def)
  then show ?thesis by (simp add: parseLogLevel_def to_lower_ascii ascii_def byte_def ascii_lower_def)
qed

lemma sample_database: "database_setting sample_lookup = Inr ''pg''"
proof -
  have "trim_space ''pg'' = ''pg''" by (rule trim_all_plain) (simp add: plain_byte_def ascii_def is_space_def byte_def)
  then show ?thesis by (simp add: database_setting_def env_value_def sample_lookup_def)
qed

lemma sample_brokers: "parseKafkaBrokers ''kafka:9092'' = Inr [''kafka:9092'']"
proof -
  have "trim_space ''kafka:9092'' = ''kafka:9092''"
    by (rule trim_all_plain) (simp add: plain_byte_def ascii_def is_space_def byte_def)
  moreover have "SplitHostPort ''kafka:9092'' = Inr (''kafka'', ''9092'')"
    by (simp add: SplitHostPort_def split_last_colon_def Let_def)
  ultimately show ?thesis using sample_port(3) by (simp add: parseKafkaBrokers_def broker_entry_def Let_def)
qed

lemma sample_credentials: "parseReviewCredentials sample_lib (json_text sample_credentials_json) = Inr [sample_credential]"
proof -
  let ?raw = "json_text sample_credentials_json"
  let ?ms = "[(''reviewer_id'', JStr ''ann''), (''role'', JStr ''risk_reviewer''), (''token'', JStr (replicate 32 CHR ''a''))]"
  have names: "wire_name ''reviewer_id''" "wire_name ''role''" "wire_name ''token''" "wire_name ''ann''"
    "wire_name ''risk_reviewer''" "wire_name (replicate 32 CHR ''a'')"
    by (simp_all add: wire_name_def byte_def list_all_iff)
  have wf: "json_wf 0 sample_credentials_json"
    using names [THEN wire_name_utf8] names [THEN wire_name_literal] by (simp add: sample_credentials_json_def)
  have v: "json_value (2 * length ?raw + 2) 0 ?raw = Some (sample_credentials_json, [])"
    using json_value_text(1) [OF wf delimited_simps(1), of "2 * length ?raw + 2"] by simp
  have "known_members ?ms [''reviewer_id'', ''role'', ''token'']"
    by (rule known_members_wire) (simp_all add: names)
  moreover have "members_for ?ms ''reviewer_id'' = [JStr ''ann'']" "members_for ?ms ''role'' = [JStr ''risk_reviewer'']"
    "members_for ?ms ''token'' = [JStr (replicate 32 CHR ''a'')]"
    by (subst members_for_wire, simp_all add: names)+
  ultimately have "decode_credential (JObj ?ms) = Some sample_credential"
    by (simp add: decode_credential_def field_def sample_credential_def)
  then have c: "credential_array sample_credentials_json = Some [sample_credential]"
    by (simp add: credential_array_def sample_credentials_json_def)
  have "hd ?raw = CHR ''[''" "last ?raw = CHR '']''"
    by (simp_all add: sample_credentials_json_def del: json_text_items.simps)
  then have "trim_space ?raw = ?raw"
    by (intro trim_space_plain) (simp_all add: plain_byte_def ascii_def is_space_def byte_def)
  then have "trim_space ?raw \<noteq> []" using wf json_text_nonempty [of 0 sample_credentials_json] by auto
  with v c sample_credential_ok(1) show ?thesis
    by (simp add: parseReviewCredentials_def Let_def skip_space_def del: json_value.simps)
qed

lemma sample_loads:
  obtains a p c r where "load_api sample_lib sample_settings_lib sample_lookup = Inr a"
    and "load_publisher sample_lib sample_settings_lib sample_lookup = Inr p"
    and "load_consumer sample_lib sample_settings_lib sample_lookup = Inr c"
    and "load_reconciler sample_lib sample_settings_lib sample_lookup = Inr r"
proof -
  note settings = sample_database sample_duration sample_addresses sample_topics sample_level sample_brokers
    sample_credentials sample_reset sample_unset sample_set and_then_def
  obtain a where a: "load_api sample_lib sample_settings_lib sample_lookup = Inr a"
    by (simp add: load_api_def settings)
  obtain p where p: "load_publisher sample_lib sample_settings_lib sample_lookup = Inr p"
    by (simp add: load_publisher_def settings)
  obtain c where c: "load_consumer sample_lib sample_settings_lib sample_lookup = Inr c"
    by (simp add: load_consumer_def settings)
  obtain r where r: "load_reconciler sample_lib sample_settings_lib sample_lookup = Inr r"
    by (simp add: load_reconciler_def settings)
  show thesis by (rule that [OF a p c r])
qed

end
