(* ===== verification/Metrics.thy ===== *)
theory Metrics
  imports Http_Router Decision_Worker Outbox_Worker
begin

text \<open>
  observability/decision.go, observability/outbox.go, the instruments of observability/request.go
  and observability/postgres_collector.go: the counters of the workers and of the middleware, and
  the gauges that a scrape reads from PostgreSQL.  A vector of counters is a function from its
  labels to a number; a histogram is the list of its observations.
\<close>

section \<open>Counters\<close>

type_synonym counter_vec = "string \<Rightarrow> nat"

definition increment :: "string \<Rightarrow> counter_vec \<Rightarrow> counter_vec" where
  "increment label c = c(label := c label + 1)"

record decision_metrics =
  dm_records :: counter_vec
  dm_processing :: "(string \<times> duration) list"
  dm_end_to_end :: "(string \<times> duration) list"
  dm_retries :: counter_vec
  dm_lag :: "string \<times> int \<Rightarrow> int option"

definition NewDecisionMetrics :: decision_metrics where
  "NewDecisionMetrics = \<lparr>dm_records = (\<lambda>_. 0), dm_processing = [], dm_end_to_end = [],
     dm_retries = (\<lambda>_. 0), dm_lag = Map.empty\<rparr>"

definition normalizedDisposition :: "'a unicode_tables_scheme \<Rightarrow> string \<Rightarrow> string" where
  "normalizedDisposition ut disposition =
     (let d = to_upper ut disposition in
      if d = ''APPLIED'' then ''applied''
      else if d = ''REPLAYED'' then ''replayed''
      else if d = ''REJECTED'' then ''rejected''
      else ''unknown'')"

definition IncrementRetry :: "string \<Rightarrow> decision_metrics \<Rightarrow> decision_metrics" where
  "IncrementRetry stage m = m\<lparr>dm_retries := increment stage (dm_retries m)\<rparr>"

definition ObserveDecision ::
    "'a unicode_tables_scheme \<Rightarrow> string \<Rightarrow> duration \<Rightarrow> duration \<Rightarrow> bool \<Rightarrow> source_record
     \<Rightarrow> decision_metrics \<Rightarrow> decision_metrics" where
  "ObserveDecision ut disposition processing endToEnd hasEndToEnd r m =
     (let d = normalizedDisposition ut disposition in
      m\<lparr>dm_records := increment d (dm_records m),
        dm_processing := dm_processing m @ [(d, processing)],
        dm_end_to_end := (if hasEndToEnd then dm_end_to_end m @ [(d, endToEnd)] else dm_end_to_end m),
        dm_lag := (dm_lag m)((sr_topic r, sr_partition r) \<mapsto> sr_lag r)\<rparr>)"

text \<open>What the worker's loop tells its metrics.\<close>

fun decision_metric :: "'a unicode_tables_scheme \<Rightarrow> consumer_act \<Rightarrow> decision_metrics \<Rightarrow> decision_metrics" where
  "decision_metric ut (PollRetry e) m = IncrementRetry ''poll'' m"
| "decision_metric ut (PersistRetry e) m = IncrementRetry ''persistence'' m"
| "decision_metric ut CommitRetry m = IncrementRetry ''offset_commit'' m"
| "decision_metric ut (ObserveRecord d p e has r) m = ObserveDecision ut d p e has r m"
| "decision_metric ut (CommitOffset r) m = m"
| "decision_metric ut AllowRebalance m = m"

definition decision_metrics_of :: "'a unicode_tables_scheme \<Rightarrow> consumer_act list \<Rightarrow> decision_metrics \<Rightarrow> decision_metrics" where
  "decision_metrics_of ut acts m = fold (decision_metric ut) acts m"

text \<open>observability/outbox.go, and what the deferred function of \<open>Worker.publish\<close> tells it\<close>

record outbox_metrics =
  om_attempts :: counter_vec
  om_duration :: "(string \<times> duration) list"
  om_retries :: counter_vec

definition NewOutboxMetrics :: outbox_metrics where
  "NewOutboxMetrics = \<lparr>om_attempts = (\<lambda>_. 0), om_duration = [], om_retries = (\<lambda>_. 0)\<rparr>"

definition ObservePublish :: "string \<Rightarrow> duration \<Rightarrow> outbox_metrics \<Rightarrow> outbox_metrics" where
  "ObservePublish label elapsed m =
     m\<lparr>om_attempts := increment label (om_attempts m), om_duration := om_duration m @ [(label, elapsed)]\<rparr>"

definition IncrementOutboxRetry :: "string \<Rightarrow> outbox_metrics \<Rightarrow> outbox_metrics" where
  "IncrementOutboxRetry stage m = m\<lparr>om_retries := increment stage (om_retries m)\<rparr>"

definition publish_label :: "go_error option \<Rightarrow> string" where
  "publish_label publishErr =
     (case publishErr of
        None \<Rightarrow> ''success''
      | Some e \<Rightarrow> if is_permanent e then ''quarantined'' else ''retryable_error'')"

text \<open>\<open>publish\<close> with its metrics as part of the state; the clock gives the elapsed time.\<close>

definition observed_publish ::
    "'a golib_scheme \<Rightarrow> string \<Rightarrow> (message \<Rightarrow> 'k \<Rightarrow> go_error option \<times> 'k) \<Rightarrow> duration \<Rightarrow> delivery_event
     \<Rightarrow> 'k \<times> outbox_metrics \<Rightarrow> go_error option \<times> 'k \<times> outbox_metrics" where
  "observed_publish L topic produce elapsed e st =
     (case publish L topic produce e (fst st) of
        (err, k) \<Rightarrow> (err, k, ObservePublish (publish_label err) elapsed (snd st)))"

text \<open>What the loop of the outbox worker tells its metrics.\<close>

fun outbox_metric :: "worker_act \<Rightarrow> outbox_metrics \<Rightarrow> outbox_metrics" where
  "outbox_metric (LogRetry e) m = IncrementOutboxRetry ''delivery'' m"
| "outbox_metric (LogQuarantine e) m = m"
| "outbox_metric (Sleep t) m = m"

definition outbox_metrics_of :: "worker_act list \<Rightarrow> outbox_metrics \<Rightarrow> outbox_metrics" where
  "outbox_metrics_of acts m = fold outbox_metric acts m"

lemma observed_publish_label:
  assumes "observed_publish L topic produce elapsed e (k, m) = (err, k', m')"
  shows "publish L topic produce e k = (err, k')"
    and "om_attempts m' l = om_attempts m l + (if l = publish_label err then 1 else 0)"
    and "publish_label err \<in> set [''success'', ''quarantined'', ''retryable_error'']"
  using assms by (auto simp: observed_publish_def ObservePublish_def increment_def publish_label_def
      split: prod.splits option.splits)

lemma outbox_retries_counted:
  "om_retries (outbox_metrics_of acts m) ''delivery''
     = om_retries m ''delivery'' + length (filter (\<lambda>a. \<exists>e. a = LogRetry e) acts)"
  unfolding outbox_metrics_of_def
proof (induction acts arbitrary: m)
  case (Cons act acts)
  show ?case by (cases act) (simp_all add: Cons.IH IncrementOutboxRetry_def increment_def)
qed simp

text \<open>
  The instruments of the middleware.  Requests run concurrently: a schedule is the order in which
  they enter and leave it, and a request leaves it also when its handler fails.
\<close>

record http_metrics =
  hm_requests :: "request_labels \<Rightarrow> nat"
  hm_duration :: "(string \<times> string \<times> duration) list"
  hm_in_flight :: int

definition NewHTTPMetrics :: http_metrics where
  "NewHTTPMetrics = \<lparr>hm_requests = (\<lambda>_. 0), hm_duration = [], hm_in_flight = 0\<rparr>"

datatype http_metric_event = Entered | Left | Completed request_labels duration

fun http_metric :: "http_metric_event \<Rightarrow> http_metrics \<Rightarrow> http_metrics" where
  "http_metric Entered m = m\<lparr>hm_in_flight := hm_in_flight m + 1\<rparr>"
| "http_metric Left m = m\<lparr>hm_in_flight := hm_in_flight m - 1\<rparr>"
| "http_metric (Completed l elapsed) m =
     m\<lparr>hm_requests := (hm_requests m)(l := hm_requests m l + 1),
       hm_duration := hm_duration m @ [(rl_method l, rl_route l, elapsed)]\<rparr>"

definition http_metrics_of :: "http_metric_event list \<Rightarrow> http_metrics \<Rightarrow> http_metrics" where
  "http_metrics_of evs m = fold http_metric evs m"

lemma in_flight_counts:
  "hm_in_flight (http_metrics_of evs m)
     = hm_in_flight m + int (count_list evs Entered) - int (count_list evs Left)"
  unfolding http_metrics_of_def
proof (induction evs arbitrary: m)
  case (Cons e evs)
  show ?case by (cases e) (simp_all add: Cons.IH)
qed simp

lemma requests_counted:
  "hm_requests (http_metrics_of evs m) l
     = hm_requests m l + length (filter (\<lambda>e. \<exists>t. e = Completed l t) evs)"
  unfolding http_metrics_of_def
proof (induction evs arbitrary: m)
  case (Cons e evs)
  show ?case by (cases e) (simp_all add: Cons.IH)
qed simp

section \<open>The collector\<close>

record operational_snapshot =
  os_outbox_pending :: int
  os_outbox_retrying :: int
  os_outbox_dead_lettered :: int
  os_events_rejected :: int
  os_reviews_pending :: int

definition operationalMetrics :: "db \<Rightarrow> operational_snapshot" where
  "operationalMetrics d =
     (let waiting = (\<lambda>r. ev_published_at r = None \<and> ev_dead_lettered_at r = None) in
      \<lparr>os_outbox_pending = count_where (\<lambda>r. waiting r \<and> ev_delivery_attempts r = 0) (t_outbox d),
       os_outbox_retrying = count_where (\<lambda>r. waiting r \<and> 0 < ev_delivery_attempts r) (t_outbox d),
       os_outbox_dead_lettered = count_where (\<lambda>r. ev_dead_lettered_at r \<noteq> None) (t_outbox d),
       os_events_rejected = count_where (\<lambda>r. ir_disposition r = ''REJECTED'') (t_receipts d),
       os_reviews_pending = count_where (\<lambda>q. rv_status q = ''PENDING'') (t_reviews d)\<rparr>)"

definition load_operational :: "pg_env \<Rightarrow> db \<Rightarrow> operational_snapshot result" where
  "load_operational env d = statement env 0 (Inr (operationalMetrics d))"

text \<open>The metrics that \<open>Collect\<close> sends, in order; the duration of the collection comes from the clock.\<close>

datatype gauge =
    CollectSeconds duration
  | CollectSuccess int
  | OutboxEvents string int
  | RejectedEvents int
  | PendingReviews int

definition Collect :: "duration \<Rightarrow> operational_snapshot result \<Rightarrow> gauge list" where
  "Collect elapsed loaded =
     (case loaded of
        Inl _ \<Rightarrow> [CollectSeconds elapsed, CollectSuccess 0]
      | Inr s \<Rightarrow>
          [CollectSeconds elapsed, CollectSuccess 1, OutboxEvents ''pending'' (os_outbox_pending s),
           OutboxEvents ''retrying'' (os_outbox_retrying s),
           OutboxEvents ''dead_lettered'' (os_outbox_dead_lettered s),
           RejectedEvents (os_events_rejected s), PendingReviews (os_reviews_pending s)])"

section \<open>The counters of a run\<close>

definition disposition_labels :: "string list" where
  "disposition_labels = [''applied'', ''replayed'', ''rejected'']"

definition recorded_total :: "decision_metrics \<Rightarrow> nat" where
  "recorded_total m = (\<Sum>d \<leftarrow> disposition_labels. dm_records m d)"

lemma handle_disposition:
  "handle L apply_op reject_op r s = (Inr res, s') \<Longrightarrow>
   hr_disposition res \<in> {dispositionApplied, dispositionReplayed, dispositionRejected}"
  by (auto simp: handle_def event_result_def split: sum.splits prod.splits if_splits)

lemma pg_handle_disposition:
  "pg_handle L e1 e2 r d = (Inr res, d') \<Longrightarrow>
   hr_disposition res \<in> {dispositionApplied, dispositionReplayed, dispositionRejected}"
  unfolding pg_handle_def by (rule handle_disposition)

lemma disposition_label:
  assumes "d \<in> {dispositionApplied, dispositionReplayed, dispositionRejected}"
  shows "normalizedDisposition ut d \<in> set disposition_labels"
proof -
  have "to_upper ut ''APPLIED'' = ''APPLIED''" "to_upper ut ''REPLAYED'' = ''REPLAYED''"
    "to_upper ut ''REJECTED'' = ''REJECTED''"
    by (simp_all add: to_upper_ascii ascii_def byte_def ascii_upper_def)
  then show ?thesis
    using assms by (auto simp: normalizedDisposition_def disposition_labels_def dispositionApplied_def
        dispositionReplayed_def dispositionRejected_def)
qed

lemma observed_one:
  assumes "normalizedDisposition ut d \<in> set disposition_labels"
  shows "recorded_total (ObserveDecision ut d p e has r m) = Suc (recorded_total m)"
    and "dm_records (ObserveDecision ut d p e has r m) ''unknown'' = dm_records m ''unknown''"
proof -
  have label: "normalizedDisposition ut d = ''applied'' \<or> normalizedDisposition ut d = ''replayed''
      \<or> normalizedDisposition ut d = ''rejected''" using assms by (simp add: disposition_labels_def)
  have rec: "dm_records (ObserveDecision ut d p e has r m) = increment (normalizedDisposition ut d) (dm_records m)"
    by (simp add: ObserveDecision_def Let_def)
  show "recorded_total (ObserveDecision ut d p e has r m) = Suc (recorded_total m)"
    using label by (elim disjE) (simp_all add: recorded_total_def rec increment_def disposition_labels_def)
  show "dm_records (ObserveDecision ut d p e has r m) ''unknown'' = dm_records m ''unknown''"
    using label by (elim disjE) (simp_all add: rec increment_def)
qed

text \<open>What the loop shows, counted.\<close>

fun observes :: "consumer_act \<Rightarrow> bool" where
  "observes (ObserveRecord d p e has r) = True"
| "observes _ = False"

text \<open>A settled record that was handled with the given disposition.\<close>

fun settled_as :: "string \<Rightarrow> consumer_act \<Rightarrow> bool" where
  "settled_as disposition (ObserveRecord d p e has r) \<longleftrightarrow> d = disposition"
| "settled_as disposition _ \<longleftrightarrow> False"

fun commits :: "consumer_act \<Rightarrow> bool" where
  "commits (CommitOffset r) = True"
| "commits _ = False"

fun retry_stage :: "consumer_act \<Rightarrow> string option" where
  "retry_stage (PollRetry e) = Some ''poll''"
| "retry_stage (PersistRetry e) = Some ''persistence''"
| "retry_stage CommitRetry = Some ''offset_commit''"
| "retry_stage _ = None"

definition count_acts :: "(consumer_act \<Rightarrow> bool) \<Rightarrow> consumer_act list \<Rightarrow> nat" where
  "count_acts p acts = length (filter p acts)"

fun settled_dispositions :: "consumer_act \<Rightarrow> bool" where
  "settled_dispositions (ObserveRecord d p e has r) \<longleftrightarrow>
     d \<in> {dispositionApplied, dispositionReplayed, dispositionRejected} \<and> 0 \<le> sint p \<and> 0 \<le> sint e"
| "settled_dispositions _ \<longleftrightarrow> True"

lemma count_acts_simps [simp]:
  "count_acts p [] = 0" "count_acts p (x # xs) = (if p x then 1 else 0) + count_acts p xs"
  "count_acts p (xs @ ys) = count_acts p xs + count_acts p ys"
  by (simp_all add: count_acts_def)

lemma decision_metrics_of_Cons:
  "decision_metrics_of ut (a # as) m = decision_metrics_of ut as (decision_metric ut a m)"
  by (simp add: decision_metrics_of_def)

lemma metrics_count_acts:
  "list_all settled_dispositions acts \<Longrightarrow>
   recorded_total (decision_metrics_of ut acts m) = recorded_total m + count_acts observes acts
   \<and> dm_records (decision_metrics_of ut acts m) ''unknown'' = dm_records m ''unknown''
   \<and> dm_retries (decision_metrics_of ut acts m) st = dm_retries m st + count_acts (\<lambda>a. retry_stage a = Some st) acts
   \<and> length (dm_processing (decision_metrics_of ut acts m)) = length (dm_processing m) + count_acts observes acts"
proof (induction acts arbitrary: m)
  case (Cons act acts)
  have "recorded_total (decision_metric ut act m) = recorded_total m + (if observes act then 1 else 0)
      \<and> dm_records (decision_metric ut act m) ''unknown'' = dm_records m ''unknown''
      \<and> dm_retries (decision_metric ut act m) st = dm_retries m st + (if retry_stage act = Some st then 1 else 0)
      \<and> length (dm_processing (decision_metric ut act m)) = length (dm_processing m) + (if observes act then 1 else 0)"
  proof (cases act)
    case (ObserveRecord d p e has r)
    then have "normalizedDisposition ut d \<in> set disposition_labels"
      using Cons.prems by (intro disposition_label) (simp)
    from observed_one [OF this] ObserveRecord show ?thesis
      by (simp add: ObserveDecision_def Let_def)
  qed (auto simp: IncrementRetry_def increment_def recorded_total_def)
  with Cons.IH [of "decision_metric ut act m"] Cons.prems show ?case
    by (simp add: decision_metrics_of_Cons)
qed (simp add: decision_metrics_of_def)

lemma normalizedDisposition_of:
  "normalizedDisposition ut dispositionApplied = ''applied''"
  "normalizedDisposition ut dispositionReplayed = ''replayed''"
  "normalizedDisposition ut dispositionRejected = ''rejected''"
proof -
  have "to_upper ut ''APPLIED'' = ''APPLIED''" "to_upper ut ''REPLAYED'' = ''REPLAYED''"
    "to_upper ut ''REJECTED'' = ''REJECTED''"
    by (simp_all add: to_upper_ascii ascii_def byte_def ascii_upper_def)
  then show "normalizedDisposition ut dispositionApplied = ''applied''"
    "normalizedDisposition ut dispositionReplayed = ''replayed''"
    "normalizedDisposition ut dispositionRejected = ''rejected''"
    by (simp_all add: normalizedDisposition_def dispositionApplied_def dispositionReplayed_def dispositionRejected_def)
qed

lemma records_by_disposition:
  "list_all settled_dispositions acts \<Longrightarrow>
   dm_records (decision_metrics_of ut acts m) ''applied'' = dm_records m ''applied'' + count_acts (settled_as ''APPLIED'') acts
   \<and> dm_records (decision_metrics_of ut acts m) ''replayed'' = dm_records m ''replayed'' + count_acts (settled_as ''REPLAYED'') acts
   \<and> dm_records (decision_metrics_of ut acts m) ''rejected'' = dm_records m ''rejected'' + count_acts (settled_as ''REJECTED'') acts"
proof (induction acts arbitrary: m)
  case (Cons act acts)
  have "dm_records (decision_metric ut act m) ''applied'' = dm_records m ''applied'' + (if settled_as ''APPLIED'' act then 1 else 0)
      \<and> dm_records (decision_metric ut act m) ''replayed'' = dm_records m ''replayed'' + (if settled_as ''REPLAYED'' act then 1 else 0)
      \<and> dm_records (decision_metric ut act m) ''rejected'' = dm_records m ''rejected'' + (if settled_as ''REJECTED'' act then 1 else 0)"
  proof (cases act)
    case (ObserveRecord d p e has r)
    then have "d = dispositionApplied \<or> d = dispositionReplayed \<or> d = dispositionRejected"
      using Cons.prems by simp
    then show ?thesis unfolding ObserveRecord
      by (elim disjE) (simp_all add: ObserveDecision_def Let_def normalizedDisposition_of increment_def,
          simp_all add: dispositionApplied_def dispositionReplayed_def dispositionRejected_def)
  qed (simp_all add: IncrementRetry_def)
  with Cons.IH [of "decision_metric ut act m"] Cons.prems show ?case
    by (simp add: decision_metrics_of_Cons)
qed (simp add: decision_metrics_of_def)

text \<open>A label has as many observed durations as counted records.\<close>

lemma processing_by_label:
  "(\<And>l. length (filter (\<lambda>x. fst x = l) (dm_processing m)) = dm_records m l) \<Longrightarrow>
   length (filter (\<lambda>x. fst x = l) (dm_processing (decision_metrics_of ut acts m))) = dm_records (decision_metrics_of ut acts m) l"
proof (induction acts arbitrary: m)
  case (Cons act acts)
  have "length (filter (\<lambda>x. fst x = l') (dm_processing (decision_metric ut act m))) = dm_records (decision_metric ut act m) l'" for l'
    using Cons.prems [of l']
    by (cases act) (simp_all add: IncrementRetry_def ObserveDecision_def increment_def Let_def)
  from Cons.IH [OF this] show ?case by (simp add: decision_metrics_of_Cons)
qed (simp add: decision_metrics_of_def)

lemma persist_acts:
  "persist h atts r s = (acts, out, s') \<Longrightarrow>
   list_all settled_dispositions acts \<and> count_acts observes acts = 0 \<and> count_acts commits acts = 0
   \<and> count_acts (\<lambda>a. retry_stage a = Some ''offset_commit'') acts = 0"
proof (induction h atts r s arbitrary: acts out s' rule: persist.induct)
  case (2 h att atts r s)
  then show ?case
    by (auto split: sum.splits prod.splits if_splits)
qed simp

lemma nonneg_sint: "0 \<le> sint (nonneg d)"
  by (simp add: nonneg_def word_sless_alt)

lemma observe_settled:
  "hr_disposition res \<in> {dispositionApplied, dispositionReplayed, dispositionRejected} \<Longrightarrow>
   settled_dispositions (observe r res started completed)"
  by (auto simp: observe_def Let_def nonneg_sint)

lemma persist_disposition:
  assumes "\<And>e1 e2 r s res s'. h e1 e2 r s = (Inr res, s') \<Longrightarrow>
      hr_disposition res \<in> {dispositionApplied, dispositionReplayed, dispositionRejected}"
  shows "persist h atts r s = (acts, Persisted res, s') \<Longrightarrow>
      hr_disposition res \<in> {dispositionApplied, dispositionReplayed, dispositionRejected}"
proof (induction atts arbitrary: s acts)
  case (Cons att atts)
  show ?case
  proof (cases "h (hd_apply att) (hd_reject att) r s")
    case (Pair a s1)
    show ?thesis
    proof (cases a)
      case (Inl e)
      with Cons Pair show ?thesis by (auto split: if_splits prod.splits)
    next
      case (Inr x)
      with Cons.prems Pair assms [of "hd_apply att" "hd_reject att" r s x s1] show ?thesis by simp
    qed
  qed
qed simp

lemma run_consumer_acts:
  assumes "\<And>e1 e2 r s res s'. h e1 e2 r s = (Inr res, s') \<Longrightarrow>
      hr_disposition res \<in> {dispositionApplied, dispositionReplayed, dispositionRejected}"
  shows "run_consumer h pts s = (acts, out, s') \<Longrightarrow>
     list_all settled_dispositions acts
     \<and> count_acts commits acts = count_acts observes acts + count_acts (\<lambda>a. retry_stage a = Some ''offset_commit'') acts"
proof (induction pts arbitrary: s acts out s')
  case (Cons pt pts)
  show ?case
  proof (cases "pt_poll pt")
    case (Inl e)
    with Cons show ?thesis by (auto split: if_splits prod.splits)
  next
    case (Inr r)
    obtain pacts pout s1 where p: "persist h (pt_handlings pt) r s = (pacts, pout, s1)" by (metis prod.exhaust)
    note pa = persist_acts [OF p]
    show ?thesis
    proof (cases "pt_stop pt")
      case False
      show ?thesis
      proof (cases pout)
        case (Persisted res)
        have d: "hr_disposition res \<in> {dispositionApplied, dispositionReplayed, dispositionRejected}"
          by (rule persist_disposition [OF _ p [unfolded Persisted]]) (rule assms)
        have o: "settled_dispositions (observe r res (pt_started pt) (pt_completed pt))"
          "observes (observe r res (pt_started pt) (pt_completed pt))"
          "\<not> commits (observe r res (pt_started pt) (pt_completed pt))"
          "retry_stage (observe r res (pt_started pt) (pt_completed pt)) = None"
          using observe_settled [OF d] by (simp_all add: observe_def Let_def)
        obtain acts2 out2 s2 where r2: "run_consumer h pts s1 = (acts2, out2, s2)" by (metis prod.exhaust)
        show ?thesis
        proof (cases "pt_commit pt")
          case (Some e)
          with Cons.prems False Inr p Persisted pa show ?thesis by auto
        next
          case None
          then have "acts = pacts @ [CommitOffset r, AllowRebalance, observe r res (pt_started pt) (pt_completed pt)] @ acts2"
            using Cons.prems False Inr p Persisted r2 by simp
          with Cons.IH [OF r2] pa o show ?thesis by simp
        qed
      qed (use Cons.prems False Inr p pa in auto)
    qed (use Cons.prems in auto)
  qed
qed simp


lemma processing_acts:
  "list_all settled_dispositions acts \<Longrightarrow>
   list_all (\<lambda>(label, p). label \<in> set disposition_labels \<and> 0 \<le> sint p) (dm_processing m) \<Longrightarrow>
   list_all (\<lambda>(label, p). label \<in> set disposition_labels \<and> 0 \<le> sint p)
     (dm_processing (decision_metrics_of ut acts m))"
proof (induction acts arbitrary: m)
  case (Cons act acts)
  have "list_all (\<lambda>(label, p). label \<in> set disposition_labels \<and> 0 \<le> sint p)
      (dm_processing (decision_metric ut act m))"
    using Cons.prems disposition_label
    by (cases act) (auto simp: IncrementRetry_def ObserveDecision_def Let_def)
  with Cons.IH Cons.prems show ?case by (simp add: decision_metrics_of_Cons)
qed (simp add: decision_metrics_of_def)

lemma commit_failures:
  "run_consumer h pts s = (acts, out, s') \<Longrightarrow>
   count_acts (\<lambda>a. retry_stage a = Some ''offset_commit'') acts \<le> 1"
proof (induction pts arbitrary: s acts out s')
  case (Cons pt pts)
  show ?case
  proof (cases "pt_poll pt")
    case (Inl e)
    with Cons show ?thesis by (auto split: if_splits prod.splits)
  next
    case (Inr r)
    obtain pacts pout s1 where p: "persist h (pt_handlings pt) r s = (pacts, pout, s1)" by (metis prod.exhaust)
    note none = persist_acts [OF p]
    show ?thesis
    proof (cases "pt_stop pt")
      case False
      show ?thesis
      proof (cases pout)
        case (Persisted res)
        obtain acts2 out2 s2 where r2: "run_consumer h pts s1 = (acts2, out2, s2)" by (metis prod.exhaust)
        show ?thesis
          using Cons.prems False Inr p Persisted none r2 Cons.IH [OF r2]
          by (cases "pt_commit pt") (auto simp: observe_def Let_def)
      qed (use Cons.prems False Inr p none in auto)
    qed (use Cons.prems in auto)
  qed
qed simp

lemma fresh_counters:
  "recorded_total NewDecisionMetrics = 0" "dm_records NewDecisionMetrics l = 0"
  "dm_retries NewDecisionMetrics l = 0" "dm_processing NewDecisionMetrics = []"
  by (simp_all add: NewDecisionMetrics_def recorded_total_def disposition_labels_def)

text \<open>
  C33: after a run of the decision consumer the counters say what happened: the records counted as
  applied, as replayed and as rejected are those that were settled with that disposition, so that
  every settled record is counted once, and never as unknown; the records and the
  failed offset commits, of which a run has at most one, add up to the offsets that were submitted;
  the retry counters are the retries of their stage; and every label has one observed
  duration for each of its records, which is not negative, even when the wall clock was set back.
\<close>

theorem decision_metrics_exact:
  "case run_consumer (pg_handle L) pts d of (acts, out, d') \<Rightarrow>
     (let m = decision_metrics_of ut acts NewDecisionMetrics;
          retries = (\<lambda>stage. count_acts (\<lambda>a. retry_stage a = Some stage) acts) in
      dm_records m ''applied'' = count_acts (settled_as ''APPLIED'') acts
      \<and> dm_records m ''replayed'' = count_acts (settled_as ''REPLAYED'') acts
      \<and> dm_records m ''rejected'' = count_acts (settled_as ''REJECTED'') acts
      \<and> recorded_total m = count_acts observes acts
      \<and> recorded_total m + dm_retries m ''offset_commit'' = count_acts commits acts
      \<and> dm_records m ''unknown'' = 0
      \<and> dm_retries m ''offset_commit'' \<le> 1
      \<and> dm_retries m ''poll'' = retries ''poll'' \<and> dm_retries m ''persistence'' = retries ''persistence''
      \<and> length (dm_processing m) = recorded_total m
      \<and> (\<forall>label. length (filter (\<lambda>x. fst x = label) (dm_processing m)) = dm_records m label)
      \<and> list_all (\<lambda>(label, p). label \<in> set disposition_labels \<and> 0 \<le> sint p) (dm_processing m))"
proof -
  obtain acts out d' where r: "run_consumer (pg_handle L) pts d = (acts, out, d')" by (metis prod.exhaust)
  have both: "list_all settled_dispositions acts
      \<and> count_acts commits acts = count_acts observes acts + count_acts (\<lambda>a. retry_stage a = Some ''offset_commit'') acts"
    by (rule run_consumer_acts [OF _ r]) (rule pg_handle_disposition)
  then have acts: "list_all settled_dispositions acts"
    "count_acts commits acts = count_acts observes acts + count_acts (\<lambda>a. retry_stage a = Some ''offset_commit'') acts"
    by blast+
  note counts = metrics_count_acts [OF acts(1), of ut NewDecisionMetrics, unfolded fresh_counters]
  have "list_all (\<lambda>(label, p). label \<in> set disposition_labels \<and> 0 \<le> sint p)
      (dm_processing (decision_metrics_of ut acts NewDecisionMetrics))"
    by (rule processing_acts [OF acts(1)]) (simp add: fresh_counters)
  moreover note records_by_disposition [OF acts(1), of ut NewDecisionMetrics, unfolded fresh_counters]
  moreover have "length (filter (\<lambda>x. fst x = l) (dm_processing (decision_metrics_of ut acts NewDecisionMetrics)))
      = dm_records (decision_metrics_of ut acts NewDecisionMetrics) l" for l
    by (rule processing_by_label) (simp add: fresh_counters)
  ultimately show ?thesis
    using counts acts(2) commit_failures [OF r] by (simp add: r Let_def)
qed

text \<open>
  The dashboard and the collector read the same tables; they differ in one word: the dashboard's
  pending events include those that are being retried.
\<close>

lemma collector_agrees:
  assumes "consistent d"
  shows "pc_outbox_pending (processingSummary d)
      = os_outbox_pending (operationalMetrics d) + os_outbox_retrying (operationalMetrics d)"
    and "pc_outbox_retrying (processingSummary d) = os_outbox_retrying (operationalMetrics d)"
    and "pc_outbox_dead_lettered (processingSummary d) = os_outbox_dead_lettered (operationalMetrics d)"
    and "pc_events_rejected (processingSummary d) = os_events_rejected (operationalMetrics d)"
    and "manualReviewSummary d = os_reviews_pending (operationalMetrics d)"
proof -
  have "0 \<le> ev_delivery_attempts r" if "r \<in> set (t_outbox d)" for r
    using assms that by (auto simp: consistent_def valid_db_def valid_outbox_def)
  then have "length (filter (\<lambda>r. ev_published_at r = None \<and> ev_dead_lettered_at r = None) rs)
      = length (filter (\<lambda>r. (ev_published_at r = None \<and> ev_dead_lettered_at r = None) \<and> ev_delivery_attempts r = 0) rs)
      + length (filter (\<lambda>r. (ev_published_at r = None \<and> ev_dead_lettered_at r = None) \<and> 0 < ev_delivery_attempts r) rs)"
    if "set rs \<subseteq> set (t_outbox d)" for rs
    using that by (induction rs) force+
  from this [OF subset_refl]
  show "pc_outbox_pending (processingSummary d)
      = os_outbox_pending (operationalMetrics d) + os_outbox_retrying (operationalMetrics d)"
    by (simp add: summary_defs operationalMetrics_def count_where_def)
qed (simp_all add: summary_defs operationalMetrics_def manualReviewSummary_def)

end
