(* ===== verification/Processes.thy ===== *)
theory Processes
  imports Config Metrics
begin

text \<open>
  server/server.go, database/postgres.go, the constructors of the Kafka clients, and the four
  binaries under cmd/: what they build from their configuration, in which order, and the code with
  which they exit.  The driver libraries, the network and the standard output are arguments.
\<close>

section \<open>The HTTP server\<close>

definition seconds :: "nat \<Rightarrow> duration" where
  "seconds n = of_nat n * second"

record http_server =
  hs_addr :: string
  hs_read_header_timeout :: duration
  hs_read_timeout :: duration
  hs_write_timeout :: duration
  hs_idle_timeout :: duration
  hs_shutdown_timeout :: duration

definition NewServer :: "string \<Rightarrow> duration \<Rightarrow> http_server" where
  "NewServer addr shutdownTimeout =
     \<lparr>hs_addr = addr, hs_read_header_timeout = seconds 5, hs_read_timeout = seconds 10,
      hs_write_timeout = seconds 10, hs_idle_timeout = seconds 60, hs_shutdown_timeout = shutdownTimeout\<rparr>"

definition normalizeServeError :: "go_error option \<Rightarrow> go_error option" where
  "normalizeServeError err =
     (case err of None \<Rightarrow> None | Some e \<Rightarrow> if errors_is e ErrServerClosed then None else Some e)"

text \<open>\<open>errors.Join\<close> drops the nil errors.\<close>

definition errors_join :: "go_error option list \<Rightarrow> go_error option" where
  "errors_join errs = (let es = List.map_filter id errs in if es = [] then None else Some (Joined es))"

text \<open>
  Which branch of the \<open>select\<close> is taken: the listener's error arrives first, or the context is
  cancelled first, and then \<open>Shutdown\<close> and afterwards the listener answer.
\<close>

datatype serving =
    Stopped "go_error option"
  | Cancelled "go_error option" "go_error option"

datatype server_act = Shutdown duration | CloseServer

fun Serve :: "http_server \<Rightarrow> serving \<Rightarrow> server_act list \<times> go_error option" where
  "Serve srv (Stopped err) = ([], normalizeServeError err)"
| "Serve srv (Cancelled shutdownErr err) =
     (Shutdown (hs_shutdown_timeout srv) # (if shutdownErr = None then [] else [CloseServer]),
      errors_join [shutdownErr, normalizeServeError err])"

definition RunServer :: "http_server \<Rightarrow> serving result \<Rightarrow> server_act list \<times> go_error option" where
  "RunServer srv listen = (case listen of Inl err \<Rightarrow> ([], Some err) | Inr sv \<Rightarrow> Serve srv sv)"

text \<open>observability/worker.go: liveness and metrics of a background process\<close>

definition WorkerHandler :: "(http_request \<Rightarrow> http_response) \<Rightarrow> 's route list" where
  "WorkerHandler metrics =
     [handle_route ''GET /metrics'' ''GET'' [Some ''metrics''] (reads (\<lambda>hq s. metrics hq)),
      handle_route ''GET /healthz'' ''GET'' [Some ''healthz''] (reads (\<lambda>hq s. healthz))]"

section \<open>The drivers\<close>

record 'c pool_config =
  pc_parsed :: 'c
  pc_max_conns :: int
  pc_min_conns :: int
  pc_max_lifetime :: duration
  pc_max_idle_time :: duration
  pc_health_check :: duration
  pc_connect_timeout :: duration

record producer_options =
  po_brokers :: "string list"
  po_client_id :: string
  po_all_isr_acks :: bool

datatype offset_reset = AtStart | AtEnd

record consumer_options =
  co_brokers :: "string list"
  co_client_id :: string
  co_group :: string
  co_topic :: string
  co_auto_commit :: bool
  co_reset :: offset_reset
  co_block_rebalance :: bool

record ('c, 'pool, 'producer, 'consumer) drivers =
  dv_parse :: "string \<Rightarrow> 'c result"
  dv_pool :: "'c pool_config \<Rightarrow> 'pool result"
  dv_producer :: "producer_options \<Rightarrow> 'producer result"
  dv_consumer :: "consumer_options \<Rightarrow> 'consumer result"

definition wrap_result :: "string \<Rightarrow> 'a result \<Rightarrow> 'a result" where
  "wrap_result what r = (case r of Inl e \<Rightarrow> Inl (errorf what e) | Inr x \<Rightarrow> Inr x)"

definition NewPostgresPool :: "('c, 'pool, 'producer, 'consumer) drivers \<Rightarrow> string \<Rightarrow> 'pool result" where
  "NewPostgresPool D databaseURL =
     and_then (wrap_result ''parse DATABASE_URL'' (dv_parse D databaseURL)) (\<lambda>c.
       wrap_result ''create PostgreSQL pool''
         (dv_pool D \<lparr>pc_parsed = c, pc_max_conns = 10, pc_min_conns = 0, pc_max_lifetime = seconds 1800,
                     pc_max_idle_time = seconds 300, pc_health_check = seconds 30,
                     pc_connect_timeout = seconds 3\<rparr>))"

definition producer_options_for :: "string list \<Rightarrow> producer_options" where
  "producer_options_for brokers =
     \<lparr>po_brokers = brokers, po_client_id = ''riskflow-outbox-publisher'', po_all_isr_acks = True\<rparr>"

definition NewKafkaPublisher :: "('c, 'pool, 'producer, 'consumer) drivers \<Rightarrow> string list \<Rightarrow> 'producer result" where
  "NewKafkaPublisher D brokers =
     (if brokers = [] then Inl (Msg ''at least one Kafka broker is required'')
      else wrap_result ''create Kafka producer''
        (dv_producer D (producer_options_for brokers)))"

definition consumer_options_for :: "string list \<Rightarrow> string \<Rightarrow> string \<Rightarrow> string \<Rightarrow> consumer_options" where
  "consumer_options_for brokers topic consumerGroup autoOffsetReset =
     \<lparr>co_brokers = brokers, co_client_id = ''riskflow-risk-decision-consumer'', co_group = consumerGroup, co_topic = topic,
      co_auto_commit = False, co_reset = (if autoOffsetReset = ''latest'' then AtEnd else AtStart),
      co_block_rebalance = True\<rparr>"

definition NewKafkaConsumer ::
    "('c, 'pool, 'producer, 'consumer) drivers \<Rightarrow> string list \<Rightarrow> string \<Rightarrow> string \<Rightarrow> string \<Rightarrow> 'consumer result" where
  "NewKafkaConsumer D brokers topic consumerGroup autoOffsetReset =
     (if brokers = [] then Inl (Msg ''at least one Kafka broker is required'')
      else if topic = [] \<or> consumerGroup = [] then Inl (Msg ''Kafka decision topic and consumer group are required'')
      else if autoOffsetReset \<noteq> ''latest'' \<and> autoOffsetReset \<noteq> ''earliest''
        then Inl (Msg ''Kafka auto offset reset must be earliest or latest'')
      else wrap_result ''create Kafka decision consumer''
        (dv_consumer D (consumer_options_for brokers topic consumerGroup autoOffsetReset)))"

text \<open>\<open>KafkaPublisher.Publish\<close>: the record has no partition and no timestamp of its own.\<close>

record produce_record =
  kr_topic :: string
  kr_key :: string
  kr_value :: string
  kr_headers :: "(string \<times> string) list"

definition kafka_publish ::
    "(produce_record \<Rightarrow> 'k \<Rightarrow> go_error option \<times> 'k) \<Rightarrow> message \<Rightarrow> 'k \<Rightarrow> go_error option \<times> 'k" where
  "kafka_publish produceSync m k =
     (case produceSync \<lparr>kr_topic = msg_topic m, kr_key = msg_key m, kr_value = msg_value m,
                        kr_headers = map (\<lambda>(name, text). (name, text)) (msg_headers m)\<rparr> k of
        (None, k1) \<Rightarrow> (None, k1)
      | (Some err, k1) \<Rightarrow> (Some (errorf ''produce Kafka record'' err), k1))"

section \<open>The binaries\<close>

definition exit_code :: "go_error option \<Rightarrow> int" where
  "exit_code err = (case err of None \<Rightarrow> 0 | Some _ \<Rightarrow> 1)"

text \<open>Every error before the process runs is logged and ends it with 1.\<close>

definition exit_after :: "'a result \<Rightarrow> ('a \<Rightarrow> int) \<Rightarrow> int" where
  "exit_after built f = (case built of Inl _ \<Rightarrow> 1 | Inr x \<Rightarrow> f x)"

text \<open>\<open>errgroup.Wait\<close>: the error of the member that failed first, here given in order of their ends\<close>

definition group_wait :: "go_error option list \<Rightarrow> go_error option" where
  "group_wait errs = first_some errs"

text \<open>dashboard/service.go: \<open>NewService\<close> refuses nil interfaces.\<close>

definition NewDashboardService :: "'r option \<Rightarrow> 'c option \<Rightarrow> ('r \<times> 'c) result" where
  "NewDashboardService repository reconciler =
     (case repository of
        None \<Rightarrow> Inl (Msg ''dashboard repository is required'')
      | Some r \<Rightarrow>
          (case reconciler of
             None \<Rightarrow> Inl (Msg ''dashboard reconciler is required'')
           | Some c \<Rightarrow> Inr (r, c)))"

text \<open>cmd/api/main.go\<close>

record 'pool api_process =
  pr_pool :: 'pool
  pr_server :: http_server
  pr_conf :: api_conf
  pr_auth :: "token_credential list"

definition api_conf_of ::
    "'b settings_lib_scheme \<Rightarrow> (int list \<Rightarrow> float64) \<Rightarrow> (string \<Rightarrow> nat list)
     \<Rightarrow> (http_request \<Rightarrow> http_response) \<Rightarrow> duration \<Rightarrow> api_conf" where
  "api_conf_of C avg collate metrics grace =
     \<lparr>cf_average = avg, cf_collate = collate, cf_duration_text = duration_text C, cf_grace = grace,
      cf_metrics = metrics\<rparr>"

definition build_api ::
    "'a golib_scheme \<Rightarrow> 'b settings_lib_scheme \<Rightarrow> (int list \<Rightarrow> float64) \<Rightarrow> (string \<Rightarrow> nat list)
     \<Rightarrow> (http_request \<Rightarrow> http_response) \<Rightarrow> ('c, 'pool, 'producer, 'consumer) drivers \<Rightarrow> lookup_env
     \<Rightarrow> 'pool api_process result" where
  "build_api L C avg collate metrics D lookup =
     and_then (load_api L C lookup) (\<lambda>cfg.
     and_then (NewPostgresPool D (ai_database_url cfg)) (\<lambda>pool.
     and_then (NewReconciler (Some pool) (ai_reconciliation_grace cfg)) (\<lambda>reconciler.
     and_then (NewDashboardService (Some pool) (Some reconciler)) (\<lambda>dashboard.
     and_then (NewTokenAuthenticator L (ai_credentials cfg)) (\<lambda>auth.
       Inr \<lparr>pr_pool = pool, pr_server = NewServer (ai_http_addr cfg) (ai_shutdown_timeout cfg),
            pr_conf = api_conf_of C avg collate metrics (snd (snd dashboard)),
            pr_auth = auth\<rparr>)))))"

definition api_main ::
    "'a pglib_scheme \<Rightarrow> 'b settings_lib_scheme \<Rightarrow> (int list \<Rightarrow> float64) \<Rightarrow> (string \<Rightarrow> nat list)
     \<Rightarrow> (http_request \<Rightarrow> http_response) \<Rightarrow> ('c, 'pool, 'producer, 'consumer) drivers \<Rightarrow> lookup_env
     \<Rightarrow> (http_server \<Rightarrow> (api_env \<Rightarrow> http_request \<Rightarrow> db \<Rightarrow> (http_response \<times> request_labels) \<times> db) \<Rightarrow> serving result)
     \<Rightarrow> int" where
  "api_main L C avg collate metrics D lookup net =
     exit_after (build_api L C avg collate metrics D lookup) (\<lambda>p.
       exit_code (snd (RunServer (pr_server p)
         (net (pr_server p) (serve_api L (pr_conf p) (pr_auth p))))))"

text \<open>cmd/outbox-publisher/main.go; \<open>Worker.Run\<close> returns nil whenever it returns.\<close>

record ('pool, 'producer) publisher_process =
  pp_worker :: "('pool \<times> retry_config, 'producer, outbox_metrics) outbox_worker"
  pp_server :: http_server

definition build_publisher ::
    "'a unicode_tables_scheme \<Rightarrow> 'b settings_lib_scheme \<Rightarrow> ('c, 'pool, 'producer, 'consumer) drivers \<Rightarrow> lookup_env
     \<Rightarrow> ('pool, 'producer) publisher_process result" where
  "build_publisher ut C D lookup =
     and_then (load_publisher ut C lookup) (\<lambda>cfg.
     and_then (NewPostgresPool D (pb_database_url cfg)) (\<lambda>pool.
     and_then (NewKafkaPublisher D (pb_brokers cfg)) (\<lambda>producer.
     and_then (NewOutboxStore (Some pool) (pb_retry_min cfg) (pb_retry_max cfg)) (\<lambda>store.
     and_then (NewWorker (Some store) (Some producer) (publisher_worker cfg) [Some NewOutboxMetrics]) (\<lambda>worker.
       Inr \<lparr>pp_worker = worker, pp_server = NewServer (pb_metrics_addr cfg) (pb_metrics_shutdown cfg)\<rparr>)))))"

definition publisher_main ::
    "'a unicode_tables_scheme \<Rightarrow> 'b settings_lib_scheme \<Rightarrow> ('c, 'pool, 'producer, 'consumer) drivers \<Rightarrow> lookup_env
     \<Rightarrow> (('pool, 'producer) publisher_process \<Rightarrow> serving result) \<Rightarrow> int" where
  "publisher_main ut C D lookup net =
     exit_after (build_publisher ut C D lookup) (\<lambda>p.
       exit_code (group_wait [None, snd (RunServer (pp_server p) (net p))]))"

text \<open>cmd/risk-decision-consumer/main.go\<close>

record ('pool, 'consumer) consumer_process =
  cp_worker :: "('consumer, 'pool, decision_metrics) decision_worker"
  cp_server :: http_server

definition build_consumer ::
    "'a unicode_tables_scheme \<Rightarrow> 'b settings_lib_scheme \<Rightarrow> ('c, 'pool, 'producer, 'consumer) drivers \<Rightarrow> lookup_env
     \<Rightarrow> ('pool, 'consumer) consumer_process result" where
  "build_consumer ut C D lookup =
     and_then (load_consumer ut C lookup) (\<lambda>cfg.
     and_then (NewPostgresPool D (cn_database_url cfg)) (\<lambda>pool.
     and_then (NewDecisionStore (Some pool)) (\<lambda>store.
     and_then (NewKafkaConsumer D (cn_brokers cfg) (cn_topic cfg) (cn_group cfg) (cn_offset_reset cfg)) (\<lambda>consumer.
     and_then (NewDecisionWorker (Some consumer) (Some store) (consumer_worker cfg) [Some NewDecisionMetrics]) (\<lambda>worker.
       Inr \<lparr>cp_worker = worker, cp_server = NewServer (cn_metrics_addr cfg) (cn_metrics_shutdown cfg)\<rparr>)))))"

text \<open>The worker runs on the schedule that it meets; \<open>None\<close> means that it has not returned.\<close>

definition worker_error :: "unit result option \<Rightarrow> go_error option" where
  "worker_error out = (case out of Some (Inl e) \<Rightarrow> Some e | _ \<Rightarrow> None)"

definition consumer_main ::
    "'a pglib_scheme \<Rightarrow> 'b settings_lib_scheme \<Rightarrow> ('c, 'pool, 'producer, 'consumer) drivers \<Rightarrow> lookup_env
     \<Rightarrow> (('pool, 'consumer) consumer_process \<Rightarrow> pg_env poll_tick list \<times> serving result) \<Rightarrow> db \<Rightarrow> int option \<times> db" where
  "consumer_main L C D lookup world d =
     (case build_consumer L C D lookup of
        Inl _ \<Rightarrow> (Some 1, d)
      | Inr p \<Rightarrow>
          let (ticks, listen) = world p; (acts, out, d1) = run_consumer (pg_handle L) ticks d in
          (if out = None then None
           else Some (exit_code (group_wait [worker_error out, snd (RunServer (cp_server p) listen)])), d1))"

text \<open>cmd/decision-reconciler/main.go: one report, written to the standard output as JSON\<close>

definition exception_json :: "recon_exception \<Rightarrow> json" where
  "exception_json x =
     JObj ([(''code'', JStr (rx_code x))] @ text_unless_empty ''payment_id'' (rx_payment_id x)
       @ text_unless_empty ''decision_id'' (rx_decision_id x) @ [(''detail'', JStr (rx_detail x))])"

definition report_json :: "'a golib_scheme \<Rightarrow> recon_report \<Rightarrow> json" where
  "report_json L r =
     JObj [(''generated_at'', JStr (time_text L (rr_generated_at r))), (''grace_period'', JStr (rr_grace_period r)),
       (''exception_count'', count_json (rr_exception_count r)),
       (''exceptions'', JArr (map exception_json (rr_exceptions r)))]"

definition reconciler_main ::
    "'a golib_scheme \<Rightarrow> 'b settings_lib_scheme \<Rightarrow> (string \<Rightarrow> nat list) \<Rightarrow> ('c, 'pool, 'producer, 'consumer) drivers
     \<Rightarrow> lookup_env \<Rightarrow> pg_env \<Rightarrow> (json \<Rightarrow> go_error option) \<Rightarrow> db \<Rightarrow> int" where
  "reconciler_main L C collate D lookup env write d =
     exit_after
       (and_then (load_reconciler L C lookup) (\<lambda>cfg.
        and_then (NewPostgresPool D (rcn_database_url cfg)) (\<lambda>pool.
        and_then (NewReconciler (Some pool) (rcn_grace cfg)) (\<lambda>reconciler.
          Run collate (duration_text C) (snd reconciler) env d))))
       (\<lambda>report. exit_code (write (report_json L report)))"


section \<open>Shutting down\<close>

lemma errors_join_None: "errors_join errs = None \<longleftrightarrow> list_all (\<lambda>e. e = None) errs"
  by (induction errs) (auto simp: errors_join_def Let_def List.map_filter_def)

text \<open>
  After a cancellation the server is asked to shut down within its timeout; the connections are
  closed only when that fails; and the run is clean exactly when the shutdown succeeded and the
  listener ended for no other reason.
\<close>

lemma Serve_cancelled:
  "snd (Serve srv (Cancelled sd err)) = None \<longleftrightarrow> sd = None \<and> normalizeServeError err = None"
  "CloseServer \<in> set (fst (Serve srv (Cancelled sd err))) \<longleftrightarrow> sd \<noteq> None"
  "hd (fst (Serve srv (Cancelled sd err))) = Shutdown (hs_shutdown_timeout srv)"
  by (auto simp: errors_join_None)

text \<open>The retry loop of the outbox worker sees through the wrapper of the producer.\<close>

lemma kafka_publish_error:
  assumes "kafka_publish produceSync m k = (Some e, k1)"
  shows "\<exists>err. produceSync \<lparr>kr_topic = msg_topic m, kr_key = msg_key m, kr_value = msg_value m,
            kr_headers = msg_headers m\<rparr> k = (Some err, k1) \<and> (foreign err \<longrightarrow> foreign e)"
  using assms by (auto simp: kafka_publish_def errorf_def split: prod.splits option.splits)

section \<open>Exit codes\<close>

lemma exit_code_0 [simp]: "exit_code err = 0 \<longleftrightarrow> err = None"
  by (simp add: exit_code_def split: option.splits)

lemma exit_after_0: "exit_after built f = 0 \<longleftrightarrow> (\<exists>x. built = Inr x \<and> f x = 0)"
  by (auto simp: exit_after_def split: sum.splits)

lemma group_wait_None: "group_wait [a, b] = None \<longleftrightarrow> a = None \<and> b = None"
  by (cases a; cases b) (simp_all add: group_wait_def)

text \<open>Under a loaded configuration the constructors return what they were given.\<close>

lemma loaded_constructors:
  "load_api L C lookup = Inr a \<Longrightarrow>
     NewReconciler (Some pool) (ai_reconciliation_grace a) = Inr g \<longleftrightarrow> g = (pool, ai_reconciliation_grace a)"
  "load_publisher ut C lookup = Inr p \<Longrightarrow>
     NewOutboxStore (Some pool) (pb_retry_min p) (pb_retry_max p) = Inr st
       \<longleftrightarrow> st = (pool, \<lparr>retry_min = pb_retry_min p, retry_max = pb_retry_max p\<rparr>)"
  "load_publisher ut C lookup = Inr p \<Longrightarrow>
     NewWorker (Some store) (Some producer) (publisher_worker p) metricSets = Inr w
       \<longleftrightarrow> w = \<lparr>ow_store = store, ow_publisher = producer, ow_config = publisher_worker p,
                ow_metrics = first_metrics metricSets\<rparr>"
  "load_consumer ut C lookup = Inr c \<Longrightarrow>
     NewDecisionWorker (Some consumer) (Some pool) (consumer_worker c) metricSets' = Inr t
       \<longleftrightarrow> t = \<lparr>dk_consumer = consumer, dk_store = pool, dk_config = consumer_worker c,
                dk_metrics = first_metrics metricSets'\<rparr>"
  "load_reconciler ut C lookup = Inr r \<Longrightarrow>
     NewReconciler (Some pool) (rcn_grace r) = Inr g \<longleftrightarrow> g = (pool, rcn_grace r)"
  by (drule load_api_starts load_publisher_starts load_consumer_starts load_reconciler_starts; auto)+

lemma build_api_Inr:
  "build_api L C avg collate metrics D lookup = Inr p \<longleftrightarrow>
     (\<exists>cfg pool auth. load_api L C lookup = Inr cfg \<and> NewPostgresPool D (ai_database_url cfg) = Inr pool
        \<and> NewTokenAuthenticator L (ai_credentials cfg) = Inr auth
        \<and> p = \<lparr>pr_pool = pool, pr_server = NewServer (ai_http_addr cfg) (ai_shutdown_timeout cfg),
              pr_conf = api_conf_of C avg collate metrics (ai_reconciliation_grace cfg),
              pr_auth = auth\<rparr>)"
  unfolding build_api_def and_then_Inr NewDashboardService_def
  by (auto simp: loaded_constructors)

text \<open>What the workers' binaries have built when they start to run.\<close>

definition publisher_process_for :: "publisher_settings \<Rightarrow> 'pool \<Rightarrow> 'producer \<Rightarrow> ('pool, 'producer) publisher_process" where
  "publisher_process_for cfg pool producer =
     \<lparr>pp_worker = \<lparr>ow_store = (pool, \<lparr>retry_min = pb_retry_min cfg, retry_max = pb_retry_max cfg\<rparr>),
                   ow_publisher = producer, ow_config = publisher_worker cfg, ow_metrics = Some NewOutboxMetrics\<rparr>,
      pp_server = NewServer (pb_metrics_addr cfg) (pb_metrics_shutdown cfg)\<rparr>"

definition consumer_process_for :: "consumer_settings \<Rightarrow> 'pool \<Rightarrow> 'consumer \<Rightarrow> ('pool, 'consumer) consumer_process" where
  "consumer_process_for cfg pool consumer =
     \<lparr>cp_worker = \<lparr>dk_consumer = consumer, dk_store = pool, dk_config = consumer_worker cfg,
                   dk_metrics = Some NewDecisionMetrics\<rparr>,
      cp_server = NewServer (cn_metrics_addr cfg) (cn_metrics_shutdown cfg)\<rparr>"

lemma build_publisher_Inr:
  "build_publisher ut C D lookup = Inr p \<longleftrightarrow>
     (\<exists>cfg pool producer. load_publisher ut C lookup = Inr cfg \<and> NewPostgresPool D (pb_database_url cfg) = Inr pool
        \<and> NewKafkaPublisher D (pb_brokers cfg) = Inr producer
        \<and> p = publisher_process_for cfg pool producer)"
  unfolding build_publisher_def and_then_Inr
  by (auto simp: loaded_constructors publisher_process_for_def first_metrics_def)

lemma build_consumer_Inr:
  "build_consumer ut C D lookup = Inr p \<longleftrightarrow>
     (\<exists>cfg pool consumer. load_consumer ut C lookup = Inr cfg \<and> NewPostgresPool D (cn_database_url cfg) = Inr pool
        \<and> NewKafkaConsumer D (cn_brokers cfg) (cn_topic cfg) (cn_group cfg) (cn_offset_reset cfg) = Inr consumer
        \<and> p = consumer_process_for cfg pool consumer)"
  unfolding build_consumer_def and_then_Inr
  by (auto simp: loaded_constructors consumer_process_for_def first_metrics_def NewDecisionStore_def)

text \<open>The clients are refused by the driver only.\<close>

lemma wrap_result_Inr: "wrap_result what r = Inr x \<longleftrightarrow> r = Inr x"
  by (simp add: wrap_result_def split: sum.splits)

lemma NewKafkaPublisher_loaded:
  "load_publisher ut C lookup = Inr cfg \<Longrightarrow>
   NewKafkaPublisher D (pb_brokers cfg) = Inr producer \<longleftrightarrow> dv_producer D (producer_options_for (pb_brokers cfg)) = Inr producer"
  by (drule load_publisher_starts [where pool = "()" and store = "()" and producer = "()" and metricSets = "[None :: unit option]"])
    (simp add: NewKafkaPublisher_def wrap_result_Inr)

lemma NewKafkaConsumer_loaded:
  "load_consumer ut C lookup = Inr cfg \<Longrightarrow>
   NewKafkaConsumer D (cn_brokers cfg) (cn_topic cfg) (cn_group cfg) (cn_offset_reset cfg) = Inr consumer \<longleftrightarrow>
   dv_consumer D (consumer_options_for (cn_brokers cfg) (cn_topic cfg) (cn_group cfg) (cn_offset_reset cfg)) = Inr consumer"
  by (drule load_consumer_starts [where consumer = "()" and store = "()" and metricSets = "[None :: unit option]"])
    (auto simp: NewKafkaConsumer_def wrap_result_Inr validKafkaTopic_def)

lemma api_exits:
  "api_main L C avg collate metrics D lookup net = 0 \<longleftrightarrow>
     (\<exists>cfg pool auth. load_api L C lookup = Inr cfg \<and> NewPostgresPool D (ai_database_url cfg) = Inr pool
        \<and> NewTokenAuthenticator L (ai_credentials cfg) = Inr auth
        \<and> (let srv = NewServer (ai_http_addr cfg) (ai_shutdown_timeout cfg) in
           snd (RunServer srv (net srv
             (serve_api L (api_conf_of C avg collate metrics (ai_reconciliation_grace cfg)) auth))) = None))"
  by (simp add: api_main_def exit_after_0 build_api_Inr Let_def) auto

lemma publisher_exits:
  "publisher_main ut C D lookup net = 0 \<longleftrightarrow>
     (\<exists>cfg pool producer. load_publisher ut C lookup = Inr cfg \<and> NewPostgresPool D (pb_database_url cfg) = Inr pool
        \<and> dv_producer D (producer_options_for (pb_brokers cfg)) = Inr producer
        \<and> (let p = publisher_process_for cfg pool producer in snd (RunServer (pp_server p) (net p)) = None))"
  by (simp add: publisher_main_def exit_after_0 build_publisher_Inr Let_def group_wait_None)
    (auto simp: NewKafkaPublisher_loaded)

lemma worker_error_None: "out \<noteq> None \<Longrightarrow> worker_error out = None \<longleftrightarrow> out = Some (Inr ())"
  by (auto simp: worker_error_def split: option.splits sum.splits)

lemma consumer_exits:
  "fst (consumer_main L C D lookup world d) = Some 0 \<longleftrightarrow>
     (\<exists>cfg pool consumer. load_consumer L C lookup = Inr cfg \<and> NewPostgresPool D (cn_database_url cfg) = Inr pool
        \<and> dv_consumer D (consumer_options_for (cn_brokers cfg) (cn_topic cfg) (cn_group cfg) (cn_offset_reset cfg)) = Inr consumer
        \<and> (let p = consumer_process_for cfg pool consumer in
           fst (snd (run_consumer (pg_handle L) (fst (world p)) d)) = Some (Inr ())
           \<and> snd (RunServer (cp_server p) (snd (world p))) = None))"
proof -
  have "fst (consumer_main L C D lookup world d) = Some 0 \<longleftrightarrow>
      (\<exists>p. build_consumer L C D lookup = Inr p
         \<and> fst (snd (run_consumer (pg_handle L) (fst (world p)) d)) = Some (Inr ())
         \<and> snd (RunServer (cp_server p) (snd (world p))) = None)"
    by (auto simp: consumer_main_def Let_def split_beta group_wait_None worker_error_None split: sum.splits if_splits)
  also have "\<dots> \<longleftrightarrow> (\<exists>cfg pool consumer. load_consumer L C lookup = Inr cfg \<and> NewPostgresPool D (cn_database_url cfg) = Inr pool
        \<and> NewKafkaConsumer D (cn_brokers cfg) (cn_topic cfg) (cn_group cfg) (cn_offset_reset cfg) = Inr consumer
        \<and> (let p = consumer_process_for cfg pool consumer in
           fst (snd (run_consumer (pg_handle L) (fst (world p)) d)) = Some (Inr ())
           \<and> snd (RunServer (cp_server p) (snd (world p))) = None))"
    unfolding build_consumer_Inr Let_def by auto
  finally show ?thesis by (simp only: NewKafkaConsumer_loaded cong: conj_cong)
qed

lemma reconciler_exits:
  "reconciler_main L C collate D lookup env write d = 0 \<longleftrightarrow>
     (\<exists>cfg pool report. load_reconciler L C lookup = Inr cfg \<and> NewPostgresPool D (rcn_database_url cfg) = Inr pool
        \<and> Run collate (duration_text C) (rcn_grace cfg) env d = Inr report
        \<and> write (report_json L report) = None)"
  unfolding reconciler_main_def exit_after_0 and_then_Inr exit_code_0
  by (auto simp: loaded_constructors)

section \<open>What a process has built and how it ends, written out\<close>

text \<open>A listener that was closed on purpose, and a server that ended without an error.\<close>

definition closed_listener :: "go_error option \<Rightarrow> bool" where
  "closed_listener err \<longleftrightarrow> (\<forall>e. err = Some e \<longrightarrow> errors_is e ErrServerClosed)"

definition ended_cleanly :: "serving result \<Rightarrow> bool" where
  "ended_cleanly listen \<longleftrightarrow>
     (\<exists>err. (listen = Inr (Stopped err) \<or> listen = Inr (Cancelled None err)) \<and> closed_listener err)"

definition server_at :: "string \<Rightarrow> duration \<Rightarrow> http_server" where
  "server_at addr shutdown =
     \<lparr>hs_addr = addr, hs_read_header_timeout = 5000000000, hs_read_timeout = 10000000000,
      hs_write_timeout = 10000000000, hs_idle_timeout = 60000000000, hs_shutdown_timeout = shutdown\<rparr>"

text \<open>The pool of at most 10 connections that the driver opens for the URL.\<close>

definition pool_opened :: "('c, 'pool, 'producer, 'consumer) drivers \<Rightarrow> string \<Rightarrow> 'pool \<Rightarrow> bool" where
  "pool_opened D url pool \<longleftrightarrow>
     (\<exists>c. dv_parse D url = Inr c
        \<and> dv_pool D \<lparr>pc_parsed = c, pc_max_conns = 10, pc_min_conns = 0, pc_max_lifetime = 1800000000000,
            pc_max_idle_time = 300000000000, pc_health_check = 30000000000, pc_connect_timeout = 3000000000\<rparr> = Inr pool)"

lemma normalizeServeError_None: "normalizeServeError err = None \<longleftrightarrow> closed_listener err"
  by (simp add: normalizeServeError_def closed_listener_def split: option.splits)

lemma RunServer_clean: "snd (RunServer srv listen) = None \<longleftrightarrow> ended_cleanly listen"
proof (cases listen)
  case (Inr sv)
  then show ?thesis
    by (cases sv) (auto simp: RunServer_def ended_cleanly_def normalizeServeError_None errors_join_None)
qed (simp add: RunServer_def ended_cleanly_def)

lemma NewServer_at: "NewServer addr t = server_at addr t"
  by (simp add: NewServer_def server_at_def seconds_def second_def)

lemma NewPostgresPool_opened: "NewPostgresPool D url = Inr pool \<longleftrightarrow> pool_opened D url pool"
  by (auto simp: NewPostgresPool_def pool_opened_def and_then_Inr wrap_result_Inr seconds_def second_def)

lemma exit_after_codes: "(\<And>x. f x \<in> {0, 1}) \<Longrightarrow> exit_after built f \<in> {0, 1}"
  by (simp add: exit_after_def split: sum.splits)

lemma exit_code_codes: "exit_code err \<in> {0, 1}"
  by (simp add: exit_code_def split: option.splits)

lemma main_codes:
  "api_main L C avg collate metrics D lookup net \<in> {0, 1}" "publisher_main ut C D lookup pnet \<in> {0, 1}"
  "reconciler_main L C collate D lookup env write d \<in> {0, 1}"
  unfolding api_main_def publisher_main_def reconciler_main_def by (intro exit_after_codes exit_code_codes)+

lemma consumer_codes: "fst (consumer_main L C D lookup world d) \<in> {None, Some 0, Some 1}"
  using exit_code_codes by (auto simp: consumer_main_def Let_def split_beta split: sum.splits)

text \<open>
  C29:
  A configuration that loads is one with which every process starts.  The API's credentials are
  accepted by the authenticator and its reconciliation period by the reconciler and the dashboard; the
  publisher's retry delays satisfy the precondition of the backoff, and its store and worker are built;
  the consumer's store and worker are built; the Kafka clients can be refused by the driver only, which
  gets all the brokers, the topic, the group and the offset reset.  All timeouts are positive, those of
  the metrics servers included, the topics and the group are valid names, the offset reset is
  \<open>earliest\<close> or \<open>latest\<close>, at least one broker is named, and every address ends in a port number.  So the
  errors of these constructors, which the processes check again, are never the reason why one stops.\<close>

theorem configured_processes_start:
  assumes "load_api L C env1 = Inr a" and "load_publisher L C env2 = Inr p"
    and "load_consumer L C env3 = Inr c" and "load_reconciler L C env4 = Inr r"
  shows "(\<exists>auth. NewTokenAuthenticator L (ai_credentials a) = Inr auth)
    \<and> NewReconciler (Some pool) (ai_reconciliation_grace a) = Inr (pool, ai_reconciliation_grace a)
    \<and> NewDashboardService (Some pool) (Some reconciler) = Inr (pool, reconciler)
    \<and> NewOutboxStore (Some pool) (pb_retry_min p) (pb_retry_max p) = Inr (pool, \<lparr>retry_min = pb_retry_min p, retry_max = pb_retry_max p\<rparr>)
    \<and> valid_retry \<lparr>retry_min = pb_retry_min p, retry_max = pb_retry_max p\<rparr>
    \<and> NewWorker (Some store) (Some producer) (publisher_worker p) metricSets
        = Inr \<lparr>ow_store = store, ow_publisher = producer, ow_config = publisher_worker p,
               ow_metrics = first_metrics metricSets\<rparr>
    \<and> NewKafkaPublisher D (pb_brokers p)
        = wrap_result ''create Kafka producer''
            (dv_producer D \<lparr>po_brokers = pb_brokers p, po_client_id = ''riskflow-outbox-publisher'', po_all_isr_acks = True\<rparr>)
    \<and> NewDecisionStore (Some pool) = Inr pool
    \<and> NewDecisionWorker (Some consumer) (Some pool) (consumer_worker c) metricSets'
        = Inr \<lparr>dk_consumer = consumer, dk_store = pool, dk_config = consumer_worker c,
               dk_metrics = first_metrics metricSets'\<rparr>
    \<and> NewKafkaConsumer D (cn_brokers c) (cn_topic c) (cn_group c) (cn_offset_reset c)
        = wrap_result ''create Kafka decision consumer''
            (dv_consumer D \<lparr>co_brokers = cn_brokers c, co_client_id = ''riskflow-risk-decision-consumer'',
              co_group = cn_group c, co_topic = cn_topic c, co_auto_commit = False,
              co_reset = (if cn_offset_reset c = ''latest'' then AtEnd else AtStart), co_block_rebalance = True\<rparr>)
    \<and> NewReconciler (Some pool) (rcn_grace r) = Inr (pool, rcn_grace r)
    \<and> list_all (\<lambda>t. 0 < sint t)
        [ai_readiness_timeout a, ai_payment_timeout a, ai_review_timeout a, ai_dashboard_timeout a,
         ai_metrics_timeout a, ai_reconciliation_grace a, ai_shutdown_timeout a,
         pb_poll_interval p, pb_publish_timeout p, pb_retry_min p, pb_retry_max p, pb_metrics_shutdown p,
         cn_poll_timeout c, cn_process_timeout c, cn_retry_backoff c, cn_metrics_shutdown c,
         rcn_grace r, rcn_timeout r]
    \<and> list_all validKafkaTopic [pb_topic p, cn_topic c, cn_group c]
    \<and> cn_offset_reset c \<in> {''earliest'', ''latest''}
    \<and> pb_brokers p \<noteq> [] \<and> cn_brokers c \<noteq> []
    \<and> list_all listens (ai_http_addr a # pb_metrics_addr p # cn_metrics_addr c # pb_brokers p @ cn_brokers c)"
  using load_api_starts [OF assms(1), of pool]
    load_publisher_starts [OF assms(2), where pool = pool and store = store and producer = producer and metricSets = metricSets]
    load_consumer_starts [OF assms(3), where consumer = consumer and store = pool and metricSets = metricSets']
    load_reconciler_starts [OF assms(4), of pool]
  by (auto simp: NewKafkaPublisher_def NewKafkaConsumer_def producer_options_for_def consumer_options_for_def
      NewDashboardService_def NewDecisionStore_def validKafkaTopic_def)

theorem configured_processes_start_witness:
  "\<exists>a p c r. load_api sample_lib sample_settings_lib sample_lookup = Inr a
     \<and> load_publisher sample_lib sample_settings_lib sample_lookup = Inr p
     \<and> load_consumer sample_lib sample_settings_lib sample_lookup = Inr c
     \<and> load_reconciler sample_lib sample_settings_lib sample_lookup = Inr r
     \<and> NewWorker (Some ()) (Some ()) (publisher_worker p) [None :: unit option]
         = Inr \<lparr>ow_store = (), ow_publisher = (), ow_config = publisher_worker p, ow_metrics = None\<rparr>
     \<and> 0 < sint (cn_metrics_shutdown c)"
proof -
  obtain a p c r where l: "load_api sample_lib sample_settings_lib sample_lookup = Inr a"
    "load_publisher sample_lib sample_settings_lib sample_lookup = Inr p"
    "load_consumer sample_lib sample_settings_lib sample_lookup = Inr c"
    "load_reconciler sample_lib sample_settings_lib sample_lookup = Inr r" by (rule sample_loads)
  from configured_processes_start [OF l, where pool = "()" and store = "()" and producer = "()" and metricSets = "[None]"
      and consumer = "()" and metricSets' = "[None :: unit option]" and D = undefined and reconciler = "()"] l show ?thesis
    by (auto simp: first_metrics_def)
qed

text \<open>Each process alone.\<close>

lemma api_exact:
  "api_main L C avg collate metrics D lookup net = 0 \<longleftrightarrow>
     (\<exists>cfg pool auth. load_api L C lookup = Inr cfg \<and> pool_opened D (ai_database_url cfg) pool
        \<and> NewTokenAuthenticator L (ai_credentials cfg) = Inr auth
        \<and> ended_cleanly (net (server_at (ai_http_addr cfg) (ai_shutdown_timeout cfg))
            (serve_api L \<lparr>cf_average = avg, cf_collate = collate, cf_duration_text = duration_text C,
               cf_grace = ai_reconciliation_grace cfg, cf_metrics = metrics\<rparr> auth)))"
  unfolding api_exits Let_def RunServer_clean NewPostgresPool_opened NewServer_at api_conf_of_def ..

lemma publisher_exact:
  "publisher_main ut C D lookup pnet = 0 \<longleftrightarrow>
     (\<exists>cfg pool producer. load_publisher ut C lookup = Inr cfg \<and> pool_opened D (pb_database_url cfg) pool
        \<and> dv_producer D \<lparr>po_brokers = pb_brokers cfg, po_client_id = ''riskflow-outbox-publisher'',
            po_all_isr_acks = True\<rparr> = Inr producer
        \<and> ended_cleanly (pnet
            \<lparr>pp_worker = \<lparr>ow_store = (pool, \<lparr>retry_min = pb_retry_min cfg, retry_max = pb_retry_max cfg\<rparr>),
               ow_publisher = producer,
               ow_config = \<lparr>wc_topic = pb_topic cfg, wc_poll_interval = pb_poll_interval cfg,
                  wc_publish_timeout = pb_publish_timeout cfg, wc_retry_min = pb_retry_min cfg,
                  wc_retry_max = pb_retry_max cfg\<rparr>,
               ow_metrics = Some NewOutboxMetrics\<rparr>,
             pp_server = server_at (pb_metrics_addr cfg) (pb_metrics_shutdown cfg)\<rparr>))"
  unfolding publisher_exits Let_def RunServer_clean NewPostgresPool_opened publisher_process_for_def NewServer_at
    publisher_worker_def producer_options_for_def publisher_process.simps ..

lemma consumer_exact:
  "fst (consumer_main L C D lookup world d) = Some 0 \<longleftrightarrow>
     (\<exists>cfg pool consumer. load_consumer L C lookup = Inr cfg \<and> pool_opened D (cn_database_url cfg) pool
        \<and> dv_consumer D \<lparr>co_brokers = cn_brokers cfg, co_client_id = ''riskflow-risk-decision-consumer'',
            co_group = cn_group cfg, co_topic = cn_topic cfg, co_auto_commit = False,
            co_reset = (if cn_offset_reset cfg = ''latest'' then AtEnd else AtStart),
            co_block_rebalance = True\<rparr> = Inr consumer
        \<and> (case world
             \<lparr>cp_worker = \<lparr>dk_consumer = consumer, dk_store = pool,
                 dk_config = \<lparr>dc_poll_timeout = cn_poll_timeout cfg, dc_process_timeout = cn_process_timeout cfg,
                    dc_retry_backoff = cn_retry_backoff cfg\<rparr>,
                 dk_metrics = Some NewDecisionMetrics\<rparr>,
              cp_server = server_at (cn_metrics_addr cfg) (cn_metrics_shutdown cfg)\<rparr> of
             (ticks, listen) \<Rightarrow>
               fst (snd (run_consumer (pg_handle L) ticks d)) = Some (Inr ()) \<and> ended_cleanly listen))"
  unfolding consumer_exits Let_def RunServer_clean NewPostgresPool_opened consumer_process_for_def NewServer_at
    consumer_worker_def consumer_options_for_def consumer_process.simps split_beta ..

lemma reconciler_exact:
  "reconciler_main L C collate D lookup env write d = 0 \<longleftrightarrow>
     (\<exists>cfg pool report. load_reconciler L C lookup = Inr cfg \<and> pool_opened D (rcn_database_url cfg) pool
        \<and> Run collate (duration_text C) (rcn_grace cfg) env d = Inr report
        \<and> write (report_json L report) = None)"
  unfolding reconciler_exits NewPostgresPool_opened ..

text \<open>
  C30: what the exit code 0 of each binary means.  Every process exits with 0 or 1 (the consumer only
  when its loop returns), and with 0 exactly when its configuration loads, the drivers accept what it
  asks of them, and what it then runs ends well.  Asked is: a pool of at most 10 connections; a producer
  that waits for all in-sync replicas; a consumer without auto-commit, which blocks rebalances while it
  holds records and starts at the configured end of the topic.  A server ends well when it could
  listen and its listener was closed on purpose, and, after a cancellation, when \<open>Shutdown\<close> succeeded
  as well; the consumer's loop when no commit of an offset failed; the reconciler when its report was
  computed and written.  None of the constructors that check their arguments again can refuse them.
\<close>

theorem processes_exit:
  "(api_main L C avg collate metrics D lookup net = 0 \<longleftrightarrow>
     (\<exists>cfg pool auth. load_api L C lookup = Inr cfg \<and> pool_opened D (ai_database_url cfg) pool
        \<and> NewTokenAuthenticator L (ai_credentials cfg) = Inr auth
        \<and> ended_cleanly (net (server_at (ai_http_addr cfg) (ai_shutdown_timeout cfg))
            (serve_api L \<lparr>cf_average = avg, cf_collate = collate, cf_duration_text = duration_text C,
               cf_grace = ai_reconciliation_grace cfg, cf_metrics = metrics\<rparr> auth))))
   \<and> (publisher_main ut C D lookup pnet = 0 \<longleftrightarrow>
     (\<exists>cfg pool producer. load_publisher ut C lookup = Inr cfg \<and> pool_opened D (pb_database_url cfg) pool
        \<and> dv_producer D \<lparr>po_brokers = pb_brokers cfg, po_client_id = ''riskflow-outbox-publisher'',
            po_all_isr_acks = True\<rparr> = Inr producer
        \<and> ended_cleanly (pnet
            \<lparr>pp_worker = \<lparr>ow_store = (pool, \<lparr>retry_min = pb_retry_min cfg, retry_max = pb_retry_max cfg\<rparr>),
               ow_publisher = producer,
               ow_config = \<lparr>wc_topic = pb_topic cfg, wc_poll_interval = pb_poll_interval cfg,
                  wc_publish_timeout = pb_publish_timeout cfg, wc_retry_min = pb_retry_min cfg,
                  wc_retry_max = pb_retry_max cfg\<rparr>,
               ow_metrics = Some NewOutboxMetrics\<rparr>,
             pp_server = server_at (pb_metrics_addr cfg) (pb_metrics_shutdown cfg)\<rparr>)))
   \<and> (fst (consumer_main L C D lookup world d) = Some 0 \<longleftrightarrow>
     (\<exists>cfg pool consumer. load_consumer L C lookup = Inr cfg \<and> pool_opened D (cn_database_url cfg) pool
        \<and> dv_consumer D \<lparr>co_brokers = cn_brokers cfg, co_client_id = ''riskflow-risk-decision-consumer'',
            co_group = cn_group cfg, co_topic = cn_topic cfg, co_auto_commit = False,
            co_reset = (if cn_offset_reset cfg = ''latest'' then AtEnd else AtStart),
            co_block_rebalance = True\<rparr> = Inr consumer
        \<and> (case world
             \<lparr>cp_worker = \<lparr>dk_consumer = consumer, dk_store = pool,
                 dk_config = \<lparr>dc_poll_timeout = cn_poll_timeout cfg, dc_process_timeout = cn_process_timeout cfg,
                    dc_retry_backoff = cn_retry_backoff cfg\<rparr>,
                 dk_metrics = Some NewDecisionMetrics\<rparr>,
              cp_server = server_at (cn_metrics_addr cfg) (cn_metrics_shutdown cfg)\<rparr> of
             (ticks, listen) \<Rightarrow>
               fst (snd (run_consumer (pg_handle L) ticks d)) = Some (Inr ()) \<and> ended_cleanly listen)))
   \<and> (reconciler_main L C collate D lookup env write d = 0 \<longleftrightarrow>
     (\<exists>cfg pool report. load_reconciler L C lookup = Inr cfg \<and> pool_opened D (rcn_database_url cfg) pool
        \<and> Run collate (duration_text C) (rcn_grace cfg) env d = Inr report
        \<and> write (report_json L report) = None))
   \<and> {api_main L C avg collate metrics D lookup net, publisher_main ut C D lookup pnet,
       reconciler_main L C collate D lookup env write d} \<subseteq> {0, 1}
   \<and> fst (consumer_main L C D lookup world d) \<in> {None, Some 0, Some 1}"
proof (intro conjI)
  show "{api_main L C avg collate metrics D lookup net, publisher_main ut C D lookup pnet,
       reconciler_main L C collate D lookup env write d} \<subseteq> {0, 1}"
    by (simp only: insert_subset empty_subsetI main_codes simp_thms)
qed (fact api_exact publisher_exact consumer_exact reconciler_exact consumer_codes)+

end
