(* ===== verification/Resources.thy ===== *)
theory Resources
  imports Processes
begin

text \<open>
  What the binaries under cmd/ hold and give back: the signal handler or the deadline of the
  context, the PostgreSQL pool and the Kafka clients.  A run of \<open>run\<close> has a frame: what it has acquired
  and released so far, and the calls it has deferred.  A constructor that succeeds acquires; only a
  \<open>defer\<close> or an explicit \<open>Close\<close> gives back, so that a forgotten one leaves the resource open.
\<close>

section \<open>The frame of a function\<close>

datatype resource = SignalContext | DeadlineContext | Pool | Producer | ConsumerClient

datatype life = Acquire resource | Release resource

record frame =
  fr_acts :: "life list"
  fr_defers :: "resource list"

definition new_frame :: frame where
  "new_frame = \<lparr>fr_acts = [], fr_defers = []\<rparr>"

text \<open>The deferred calls run when the function returns, the last deferred first.\<close>

definition return_code :: "int \<Rightarrow> frame \<Rightarrow> life list \<times> int option" where
  "return_code code fr = (fr_acts fr @ map Release (fr_defers fr), Some code)"

text \<open>A function that has not returned has run none of them.\<close>

definition not_returned :: "frame \<Rightarrow> life list \<times> int option" where
  "not_returned fr = (fr_acts fr, None)"

text \<open>A constructor that hands out a resource when it succeeds; its error is logged and returns 1.\<close>

definition opens :: "resource \<Rightarrow> 'a result \<Rightarrow> ('a \<Rightarrow> frame \<Rightarrow> life list \<times> int option) \<Rightarrow> frame \<Rightarrow> life list \<times> int option" where
  "opens r built f fr =
     (case built of
        Inl _ \<Rightarrow> return_code 1 fr
      | Inr x \<Rightarrow> f x (fr\<lparr>fr_acts := fr_acts fr @ [Acquire r]\<rparr>))"

text \<open>A constructor or a call that holds nothing of its own.\<close>

definition checks :: "'a result \<Rightarrow> ('a \<Rightarrow> frame \<Rightarrow> life list \<times> int option) \<Rightarrow> frame \<Rightarrow> life list \<times> int option" where
  "checks built f fr = (case built of Inl _ \<Rightarrow> return_code 1 fr | Inr x \<Rightarrow> f x fr)"

text \<open>\<open>defer r.Close()\<close>, and \<open>r.Close()\<close> at once\<close>

definition defers :: "resource \<Rightarrow> (frame \<Rightarrow> life list \<times> int option) \<Rightarrow> frame \<Rightarrow> life list \<times> int option" where
  "defers r f fr = f (fr\<lparr>fr_defers := r # fr_defers fr\<rparr>)"

definition closes :: "resource \<Rightarrow> (frame \<Rightarrow> life list \<times> int option) \<Rightarrow> frame \<Rightarrow> life list \<times> int option" where
  "closes r f fr = f (fr\<lparr>fr_acts := fr_acts fr @ [Release r]\<rparr>)"

text \<open>\<open>signal.NotifyContext\<close> and \<open>context.WithTimeout\<close> do not fail.\<close>

definition context_with :: "unit result" where
  "context_with = Inr ()"

section \<open>The binaries\<close>

definition api_run ::
    "'a pglib_scheme \<Rightarrow> 'b settings_lib_scheme \<Rightarrow> (int list \<Rightarrow> float64) \<Rightarrow> (string \<Rightarrow> nat list)
     \<Rightarrow> (http_request \<Rightarrow> http_response) \<Rightarrow> ('c, 'pool, 'producer, 'consumer) drivers \<Rightarrow> lookup_env
     \<Rightarrow> (http_server \<Rightarrow> (api_env \<Rightarrow> http_request \<Rightarrow> db \<Rightarrow> (http_response \<times> request_labels) \<times> db) \<Rightarrow> serving result)
     \<Rightarrow> life list \<times> int option" where
  "api_run L C avg collate metrics D lookup net =
     checks (load_api L C lookup) (\<lambda>cfg.
     opens SignalContext context_with (\<lambda>_. defers SignalContext (
     opens Pool (NewPostgresPool D (ai_database_url cfg)) (\<lambda>pool. defers Pool (
     checks (NewReconciler (Some pool) (ai_reconciliation_grace cfg)) (\<lambda>reconciler.
     checks (NewDashboardService (Some pool) (Some reconciler)) (\<lambda>dashboard.
     checks (NewTokenAuthenticator L (ai_credentials cfg)) (\<lambda>auth.
       let srv = NewServer (ai_http_addr cfg) (ai_shutdown_timeout cfg) in
       return_code (exit_code (snd (RunServer srv
         (net srv (serve_api L (api_conf_of C avg collate metrics (snd (snd dashboard))) auth)))))))))))))
     new_frame"

definition publisher_run ::
    "'a unicode_tables_scheme \<Rightarrow> 'b settings_lib_scheme \<Rightarrow> ('c, 'pool, 'producer, 'consumer) drivers \<Rightarrow> lookup_env
     \<Rightarrow> (('pool, 'producer) publisher_process \<Rightarrow> serving result) \<Rightarrow> life list \<times> int option" where
  "publisher_run ut C D lookup net =
     checks (load_publisher ut C lookup) (\<lambda>cfg.
     opens SignalContext context_with (\<lambda>_. defers SignalContext (
     opens Pool (NewPostgresPool D (pb_database_url cfg)) (\<lambda>pool. defers Pool (
     opens Producer (NewKafkaPublisher D (pb_brokers cfg)) (\<lambda>producer. defers Producer (
     checks (NewOutboxStore (Some pool) (pb_retry_min cfg) (pb_retry_max cfg)) (\<lambda>store.
     checks (NewWorker (Some store) (Some producer) (publisher_worker cfg) [Some NewOutboxMetrics]) (\<lambda>worker.
       let srv = NewServer (pb_metrics_addr cfg) (pb_metrics_shutdown cfg) in
       return_code (exit_code (group_wait
         [None, snd (RunServer srv (net \<lparr>pp_worker = worker, pp_server = srv\<rparr>))])))))))))))
     new_frame"

text \<open>
  The consumer's client has no \<open>defer\<close> in \<open>run\<close>: \<open>Worker.Run\<close> closes it when it returns, and \<open>run\<close>
  closes it when there is no worker.
\<close>

definition worker_returns :: "(frame \<Rightarrow> life list \<times> int option) \<Rightarrow> frame \<Rightarrow> life list \<times> int option" where
  "worker_returns = closes ConsumerClient"

definition consumer_run ::
    "'a pglib_scheme \<Rightarrow> 'b settings_lib_scheme \<Rightarrow> ('c, 'pool, 'producer, 'consumer) drivers \<Rightarrow> lookup_env
     \<Rightarrow> (('pool, 'consumer) consumer_process \<Rightarrow> pg_env poll_tick list \<times> serving result) \<Rightarrow> db
     \<Rightarrow> life list \<times> int option" where
  "consumer_run L C D lookup world d =
     checks (load_consumer L C lookup) (\<lambda>cfg.
     opens SignalContext context_with (\<lambda>_. defers SignalContext (
     opens Pool (NewPostgresPool D (cn_database_url cfg)) (\<lambda>pool. defers Pool (
     checks (NewDecisionStore (Some pool)) (\<lambda>store.
     opens ConsumerClient (NewKafkaConsumer D (cn_brokers cfg) (cn_topic cfg) (cn_group cfg) (cn_offset_reset cfg)) (\<lambda>consumer.
       case NewDecisionWorker (Some consumer) (Some store) (consumer_worker cfg) [Some NewDecisionMetrics] of
         Inl _ \<Rightarrow> closes ConsumerClient (return_code 1)
       | Inr worker \<Rightarrow>
           let srv = NewServer (cn_metrics_addr cfg) (cn_metrics_shutdown cfg);
               (ticks, listen) = world \<lparr>cp_worker = worker, cp_server = srv\<rparr>;
               (acts, out, d1) = run_consumer (pg_handle L) ticks d in
           if out = None then not_returned
           else worker_returns
             (return_code (exit_code (group_wait [worker_error out, snd (RunServer srv listen)])))))))))) new_frame"

definition reconciler_run ::
    "'a golib_scheme \<Rightarrow> 'b settings_lib_scheme \<Rightarrow> (string \<Rightarrow> nat list) \<Rightarrow> ('c, 'pool, 'producer, 'consumer) drivers
     \<Rightarrow> lookup_env \<Rightarrow> pg_env \<Rightarrow> (json \<Rightarrow> go_error option) \<Rightarrow> db \<Rightarrow> life list \<times> int option" where
  "reconciler_run L C collate D lookup env write d =
     checks (load_reconciler L C lookup) (\<lambda>cfg.
     opens DeadlineContext context_with (\<lambda>_. defers DeadlineContext (
     opens Pool (NewPostgresPool D (rcn_database_url cfg)) (\<lambda>pool. defers Pool (
     checks (NewReconciler (Some pool) (rcn_grace cfg)) (\<lambda>reconciler.
     checks (Run collate (duration_text C) (snd reconciler) env d) (\<lambda>report.
       return_code (exit_code (write (report_json L report)))))))))) new_frame"

section \<open>What is open\<close>

text \<open>Acquired once, released once, the last acquired first; what is left open at the end.\<close>

fun still_open :: "resource list \<Rightarrow> life list \<Rightarrow> resource list option" where
  "still_open held [] = Some held"
| "still_open held (Acquire r # acts) = (if r \<in> set held then None else still_open (r # held) acts)"
| "still_open held (Release r # acts) =
     (case held of [] \<Rightarrow> None | r' # rest \<Rightarrow> if r = r' then still_open rest acts else None)"

lemma still_open_append:
  "still_open held (as @ bs) = Option.bind (still_open held as) (\<lambda>h. still_open h bs)"
  by (induction held as rule: still_open.induct) (simp_all split: list.splits)

text \<open>
  A frame holds a list of resources, the last acquired first, of which the deferred calls close the
  given tail.  Only a frame that defers the closing of all that it holds gives everything back.
\<close>

definition holds_open :: "resource list \<Rightarrow> resource list \<Rightarrow> frame \<Rightarrow> bool" where
  "holds_open held closing fr \<longleftrightarrow> still_open [] (fr_acts fr) = Some held \<and> fr_defers fr = closing"

definition gives_back :: "resource list \<Rightarrow> life list \<times> int option \<Rightarrow> bool" where
  "gives_back opened run \<longleftrightarrow> still_open [] (fst run) = Some (if snd run = None then opened else [])"

lemma holds_new: "holds_open [] [] new_frame"
  by (simp add: holds_open_def new_frame_def)

lemma close_all: "still_open held (map Release held) = Some []"
  by (induction held) simp_all

lemma gives_back_return: "holds_open held held fr \<Longrightarrow> gives_back opened (return_code code fr)"
  by (simp add: holds_open_def gives_back_def return_code_def still_open_append close_all)

lemma gives_back_not_returned: "holds_open opened closing fr \<Longrightarrow> gives_back opened (not_returned fr)"
  by (simp add: holds_open_def gives_back_def not_returned_def)

lemma gives_back_checks:
  assumes "holds_open held held fr"
    and "\<And>x. built = Inr x \<Longrightarrow> gives_back opened (f x fr)"
  shows "gives_back opened (checks built f fr)"
  using assms gives_back_return [OF assms(1)] by (simp add: checks_def split: sum.splits)

lemma gives_back_opens:
  assumes "holds_open held held fr" and "r \<notin> set held"
    and "\<And>x fr'. built = Inr x \<Longrightarrow> holds_open (r # held) held fr' \<Longrightarrow> gives_back opened (f x fr')"
  shows "gives_back opened (opens r built f fr)"
proof (cases built)
  case (Inl e)
  with gives_back_return [OF assms(1)] show ?thesis by (simp add: opens_def)
next
  case (Inr x)
  have "holds_open (r # held) held (fr\<lparr>fr_acts := fr_acts fr @ [Acquire r]\<rparr>)"
    using assms(1,2) by (simp add: holds_open_def still_open_append)
  from assms(3) [OF Inr this] Inr show ?thesis by (simp add: opens_def)
qed

lemma gives_back_defers:
  assumes "holds_open (r # held) held fr"
    and "\<And>fr'. holds_open (r # held) (r # held) fr' \<Longrightarrow> gives_back opened (f fr')"
  shows "gives_back opened (defers r f fr)"
  unfolding defers_def by (rule assms(2)) (use assms(1) in \<open>simp add: holds_open_def\<close>)

lemma gives_back_closes:
  assumes "holds_open (r # held) held fr"
    and "\<And>fr'. holds_open held held fr' \<Longrightarrow> gives_back opened (f fr')"
  shows "gives_back opened (closes r f fr)"
  unfolding closes_def
  by (rule assms(2)) (use assms(1) in \<open>simp add: holds_open_def still_open_append\<close>)

lemmas gives_back_rules = holds_new gives_back_checks gives_back_opens gives_back_defers gives_back_return

lemma api_gives_back: "gives_back [] (api_run L C avg collate metrics D lookup net)"
  unfolding api_run_def Let_def
  by (rule gives_back_rules | assumption | simp)+

lemma publisher_gives_back: "gives_back [] (publisher_run ut C D lookup net)"
  unfolding publisher_run_def Let_def
  by (rule gives_back_rules | assumption | simp)+

lemma reconciler_gives_back: "gives_back [] (reconciler_run L C collate D lookup env write d)"
  unfolding reconciler_run_def
  by (rule gives_back_rules | assumption | simp)+

lemma consumer_gives_back:
  "gives_back [ConsumerClient, Pool, SignalContext] (consumer_run L C D lookup world d)"
proof -
  have "gives_back [ConsumerClient, Pool, SignalContext] (closes ConsumerClient (return_code c) fr)"
    and "gives_back [ConsumerClient, Pool, SignalContext] (not_returned fr)"
    if h: "holds_open [ConsumerClient, Pool, SignalContext] [Pool, SignalContext] fr" for fr c
    by (rule gives_back_closes [OF h], erule gives_back_return) (rule gives_back_not_returned [OF h])
  note ends = this
  show ?thesis
    unfolding consumer_run_def worker_returns_def
    by (rule holds_new gives_back_checks gives_back_opens gives_back_defers | assumption | simp)+
       (auto simp: Let_def split_beta ends split: sum.splits)
qed

section \<open>The exit codes are those of the processes\<close>

lemma exit_after_and_then:
  "exit_after (and_then r f) g = exit_after r (\<lambda>x. exit_after (f x) g)"
  by (simp add: exit_after_def and_then_def split: sum.splits)

lemma exit_after_Inr [simp]: "exit_after (Inr x) f = f x"
  by (simp add: exit_after_def)

lemma snd_frames:
  "snd (return_code code fr) = Some code"
  "snd (checks built f fr) = (case built of Inl _ \<Rightarrow> Some 1 | Inr x \<Rightarrow> snd (f x fr))"
  "snd (opens r built f fr) =
     (case built of Inl _ \<Rightarrow> Some 1 | Inr x \<Rightarrow> snd (f x (fr\<lparr>fr_acts := fr_acts fr @ [Acquire r]\<rparr>)))"
  "snd (defers r g fr) = snd (g (fr\<lparr>fr_defers := r # fr_defers fr\<rparr>))"
  "snd (closes r g fr) = snd (g (fr\<lparr>fr_acts := fr_acts fr @ [Release r]\<rparr>))"
  "snd (not_returned fr) = None"
  by (simp_all add: return_code_def checks_def opens_def defers_def closes_def not_returned_def split: sum.splits)

lemma code_of: "(case built of Inl _ \<Rightarrow> Some 1 | Inr x \<Rightarrow> Some (f x)) = Some (exit_after built f)"
  by (simp add: exit_after_def split: sum.splits)

lemma run_exit_codes:
  "snd (api_run L C avg collate metrics D lookup net) = Some (api_main L C avg collate metrics D lookup net)"
  "snd (publisher_run ut C D lookup pnet) = Some (publisher_main ut C D lookup pnet)"
  "snd (reconciler_run L C collate D lookup env write d) = Some (reconciler_main L C collate D lookup env write d)"
  by (simp_all only: api_run_def publisher_run_def reconciler_run_def snd_frames context_with_def api_main_def
      publisher_main_def reconciler_main_def build_api_def build_publisher_def exit_after_and_then Let_def
      sum.case exit_after_Inr code_of api_process.simps publisher_process.simps)

lemma consumer_run_exit_code:
  "snd (consumer_run L C D lookup world d) = fst (consumer_main L C D lookup world d)"
  by (simp add: consumer_run_def consumer_main_def build_consumer_def and_then_def snd_frames context_with_def
      worker_returns_def Let_def split_beta split: sum.splits)

section \<open>Everything is given back\<close>

text \<open>
  C32: nothing is leaked.  However the constructors, the drivers, the network and the workers
  answer, every binary releases exactly what it has acquired when \<open>run\<close> returns, the last acquired
  first, so that no client is used after its pool or context is gone; the consumer, whose client
  is closed by its worker, keeps its client, its pool and its context open exactly as long as the
  loop has not returned; and \<open>run\<close> returns the exit code of the process.
\<close>

theorem resources_given_back:
  "(case api_run L C avg collate metrics D lookup net of (acts, code) \<Rightarrow>
       still_open [] acts = Some [] \<and> code = Some (api_main L C avg collate metrics D lookup net))
   \<and> (case publisher_run ut C D lookup pnet of (acts, code) \<Rightarrow>
       still_open [] acts = Some [] \<and> code = Some (publisher_main ut C D lookup pnet))
   \<and> (case reconciler_run L C collate D lookup env write d of (acts, code) \<Rightarrow>
       still_open [] acts = Some [] \<and> code = Some (reconciler_main L C collate D lookup env write d))
   \<and> (case consumer_run L C D lookup world d of (acts, code) \<Rightarrow>
       still_open [] acts = Some (if code = None then [ConsumerClient, Pool, SignalContext] else [])
       \<and> code = fst (consumer_main L C D lookup world d))"
  using api_gives_back [of L C avg collate metrics D lookup net] publisher_gives_back [of ut C D lookup pnet]
    reconciler_gives_back [of L C collate D lookup env "write" d] consumer_gives_back [of L C D lookup world d]
  by (simp add: gives_back_def run_exit_codes split_beta consumer_run_exit_code)

end
