(* ===== verification/Registry.thy ===== *)
theory Registry
  imports Metrics Processes
begin

text \<open>
  observability/registry.go, the constructors of observability/decision.go, outbox.go, request.go
  and postgres_collector.go, and the registries that the binaries build from them.  The Prometheus
  library panics when a collector is registered that clashes with another one, when a vector gets
  the wrong number of label values, and a scrape fails when two of its samples have the same name
  and labels.  The theorems show that no binary can meet any of these.
\<close>

section \<open>The library\<close>

text \<open>A descriptor: the name, the help text, the names of the variable labels and the constant labels.\<close>

record metric_desc =
  md_name :: string
  md_help :: string
  md_labels :: "string list"
  md_consts :: "(string \<times> string) list"

text \<open>
  What the program calls: \<open>BuildFQName\<close>, the descriptors of the two standard collectors, the default
  buckets, and \<open>Registry.Register\<close>, here from the registered descriptors and those of one
  collector to its error.
\<close>

record prom_lib =
  pm_fq_name :: "string \<Rightarrow> string \<Rightarrow> string \<Rightarrow> string"
  pm_go :: "metric_desc list"
  pm_process :: "metric_desc list"
  pm_def_buckets :: "rat list"
  pm_register :: "metric_desc list \<Rightarrow> metric_desc list \<Rightarrow> go_error option"

text \<open>The rules of the exposition format for names.\<close>

definition letter :: "char \<Rightarrow> bool" where
  "letter c \<longleftrightarrow> (97 \<le> byte c \<and> byte c \<le> 122) \<or> (65 \<le> byte c \<and> byte c \<le> 90) \<or> c = CHR ''_''"

definition metric_name :: "string \<Rightarrow> bool" where
  "metric_name s \<longleftrightarrow> s \<noteq> [] \<and> (letter (hd s) \<or> hd s = CHR '':'')
     \<and> list_all (\<lambda>c. letter c \<or> is_digit c \<or> c = CHR '':'') s"

definition label_name :: "string \<Rightarrow> bool" where
  "label_name s \<longleftrightarrow> s \<noteq> [] \<and> letter (hd s) \<and> list_all (\<lambda>c. letter c \<or> is_digit c) s \<and> take 2 s \<noteq> ''__''"

definition valid_desc :: "metric_desc \<Rightarrow> bool" where
  "valid_desc m \<longleftrightarrow> metric_name (md_name m) \<and> md_help m \<noteq> []
     \<and> list_all label_name (md_labels m @ map fst (md_consts m)) \<and> distinct (md_labels m @ map fst (md_consts m))"

definition fresh_names :: "metric_desc list \<Rightarrow> metric_desc list \<Rightarrow> bool" where
  "fresh_names reg new \<longleftrightarrow> list_all valid_desc new \<and> distinct (map md_name new)
     \<and> list_all (\<lambda>m. md_name m \<notin> md_name ` set reg) new"

text \<open>
  The documentation of the library: the parts of a name are joined by underscores; a collector with
  valid descriptors and names of its own is accepted; the standard collectors are such collectors,
  and their names begin with go and process.
\<close>

definition prometheus_docs :: "prom_lib \<Rightarrow> bool" where
  "prometheus_docs P \<longleftrightarrow>
     (\<forall>n ss name. n \<noteq> [] \<and> name \<noteq> [] \<longrightarrow>
        pm_fq_name P n ss name = n @ ''_'' @ (if ss = [] then [] else ss @ ''_'') @ name)
     \<and> (\<forall>reg new. fresh_names reg new \<longrightarrow> pm_register P reg new = None)
     \<and> fresh_names [] (pm_go P) \<and> list_all (\<lambda>m. take 3 (md_name m) = ''go_'') (pm_go P)
     \<and> fresh_names [] (pm_process P) \<and> list_all (\<lambda>m. take 8 (md_name m) = ''process_'') (pm_process P)
     \<and> sorted_wrt (<) (pm_def_buckets P)"

text \<open>\<open>MustRegister\<close> registers one collector after the other; \<open>None\<close> is its panic.\<close>

fun must_register :: "prom_lib \<Rightarrow> metric_desc list list \<Rightarrow> metric_desc list \<Rightarrow> metric_desc list option" where
  "must_register P [] reg = Some reg"
| "must_register P (c # cs) reg =
     (case pm_register P reg c of Some _ \<Rightarrow> None | None \<Rightarrow> must_register P cs (reg @ c))"

section \<open>The instruments\<close>

text \<open>An instrument: its descriptor, and the buckets when it is a histogram.\<close>

record instrument =
  in_desc :: metric_desc
  in_buckets :: "rat list"

definition riskflow :: "prom_lib \<Rightarrow> string \<Rightarrow> string \<Rightarrow> string \<Rightarrow> string list \<Rightarrow> instrument" where
  "riskflow P subsystem name help labels =
     \<lparr>in_desc = \<lparr>md_name = pm_fq_name P ''riskflow'' subsystem name, md_help = help, md_labels = labels, md_consts = []\<rparr>,
      in_buckets = []\<rparr>"

text \<open>observability/registry.go\<close>

definition build_info :: "prom_lib \<Rightarrow> string \<Rightarrow> metric_desc" where
  "build_info P service =
     \<lparr>md_name = pm_fq_name P ''riskflow'' [] ''build_info'', md_help = ''Static build information for a running RiskFlow process.'',
      md_labels = [], md_consts = [(''service'', service), (''version'', ''dev'')]\<rparr>"

definition NewRegistry :: "prom_lib \<Rightarrow> string \<Rightarrow> metric_desc list option" where
  "NewRegistry P service = must_register P [pm_go P, pm_process P, [build_info P service]] []"

text \<open>observability/decision.go\<close>

record decision_instruments =
  di_records :: instrument
  di_processing :: instrument
  di_end_to_end :: instrument
  di_retries :: instrument
  di_lag :: instrument

definition decision_instruments_for :: "prom_lib \<Rightarrow> decision_instruments" where
  "decision_instruments_for P =
     \<lparr>di_records = riskflow P ''decision'' ''records_total''
        ''Committed risk-decision Kafka records by bounded disposition.'' [''disposition''],
      di_processing = (riskflow P ''decision'' ''processing_duration_seconds''
        ''Time from polling a decision record through durable offset commit.'' [''disposition''])
          \<lparr>in_buckets := pm_def_buckets P\<rparr>,
      di_end_to_end = (riskflow P ''decision'' ''end_to_end_latency_seconds''
        ''Time from risk decision creation through durable persistence.'' [''disposition''])
          \<lparr>in_buckets := [5/100, 1/10, 25/100, 5/10, 1, 25/10, 5, 10, 30, 60, 300]\<rparr>,
      di_retries = riskflow P ''decision'' ''retries_total''
        ''Risk-decision retries or restart-required failures by bounded stage.'' [''stage''],
      di_lag = riskflow P ''kafka'' ''consumer_lag_records''
        ''Approximate remaining records after the most recently polled record.'' [''topic'', ''partition'']\<rparr>"

definition decision_list :: "decision_instruments \<Rightarrow> instrument list" where
  "decision_list i = [di_records i, di_processing i, di_end_to_end i, di_retries i, di_lag i]"

text \<open>observability/outbox.go\<close>

record outbox_instruments =
  oi_attempts :: instrument
  oi_duration :: instrument
  oi_retries :: instrument

definition outbox_instruments_for :: "prom_lib \<Rightarrow> outbox_instruments" where
  "outbox_instruments_for P =
     \<lparr>oi_attempts = riskflow P ''outbox'' ''publish_attempts_total''
        ''Outbox publish attempts by bounded result.'' [''result''],
      oi_duration = (riskflow P ''outbox'' ''publish_duration_seconds''
        ''Outbox publish duration by bounded result.'' [''result'']) \<lparr>in_buckets := pm_def_buckets P\<rparr>,
      oi_retries = riskflow P ''outbox'' ''retries_total''
        ''Retryable outbox processing failures by bounded stage.'' [''stage'']\<rparr>"

definition outbox_list :: "outbox_instruments \<Rightarrow> instrument list" where
  "outbox_list i = [oi_attempts i, oi_duration i, oi_retries i]"

text \<open>observability/request.go\<close>

record http_instruments =
  hi_requests :: instrument
  hi_duration :: instrument
  hi_in_flight :: instrument

definition http_instruments_for :: "prom_lib \<Rightarrow> http_instruments" where
  "http_instruments_for P =
     \<lparr>hi_requests = riskflow P ''http'' ''requests_total''
        ''Completed HTTP requests by method, normalized route, and status code.'' [''method'', ''route'', ''status_code''],
      hi_duration = (riskflow P ''http'' ''request_duration_seconds''
        ''HTTP request duration by method and normalized route.'' [''method'', ''route''])
          \<lparr>in_buckets := [5/1000, 1/100, 25/1000, 5/100, 1/10, 25/100, 5/10, 1, 25/10, 5, 10]\<rparr>,
      hi_in_flight = riskflow P ''http'' ''in_flight_requests'' ''Number of HTTP requests currently executing.'' []\<rparr>"

definition http_list :: "http_instruments \<Rightarrow> instrument list" where
  "http_list i = [hi_requests i, hi_duration i, hi_in_flight i]"

text \<open>observability/postgres_collector.go: the descriptors have their full names\<close>

record collector_descs =
  cd_outbox :: metric_desc
  cd_rejected :: metric_desc
  cd_reviews :: metric_desc
  cd_success :: metric_desc
  cd_seconds :: metric_desc

definition newPostgresCollector :: collector_descs where
  "newPostgresCollector =
     \<lparr>cd_outbox = \<lparr>md_name = ''riskflow_outbox_events'', md_help = ''Current outbox rows by bounded delivery state.'',
        md_labels = [''state''], md_consts = []\<rparr>,
      cd_rejected = \<lparr>md_name = ''riskflow_decision_events_rejected'',
        md_help = ''Current rejected risk-decision Kafka records.'', md_labels = [], md_consts = []\<rparr>,
      cd_reviews = \<lparr>md_name = ''riskflow_manual_reviews_pending'',
        md_help = ''Current payments awaiting manual review.'', md_labels = [], md_consts = []\<rparr>,
      cd_success = \<lparr>md_name = ''riskflow_postgres_metrics_collection_success'',
        md_help = ''Whether the most recent PostgreSQL operational metrics collection succeeded.'',
        md_labels = [], md_consts = []\<rparr>,
      cd_seconds = \<lparr>md_name = ''riskflow_postgres_metrics_collection_duration_seconds'',
        md_help = ''Duration of the PostgreSQL operational metrics collection.'', md_labels = [], md_consts = []\<rparr>\<rparr>"

definition Describe :: "collector_descs \<Rightarrow> metric_desc list" where
  "Describe c = [cd_outbox c, cd_rejected c, cd_reviews c, cd_success c, cd_seconds c]"

section \<open>The registries of the binaries\<close>

definition register_all :: "prom_lib \<Rightarrow> instrument list \<Rightarrow> metric_desc list \<Rightarrow> metric_desc list option" where
  "register_all P instruments reg = must_register P (map (\<lambda>i. [in_desc i]) instruments) reg"

definition api_registry :: "prom_lib \<Rightarrow> metric_desc list option" where
  "api_registry P =
     Option.bind (NewRegistry P ''payment-api'') (\<lambda>reg.
     Option.bind (register_all P (http_list (http_instruments_for P)) reg)
       (must_register P [Describe newPostgresCollector]))"

definition publisher_registry :: "prom_lib \<Rightarrow> metric_desc list option" where
  "publisher_registry P =
     Option.bind (NewRegistry P ''outbox-publisher'') (register_all P (outbox_list (outbox_instruments_for P)))"

definition consumer_registry :: "prom_lib \<Rightarrow> metric_desc list option" where
  "consumer_registry P =
     Option.bind (NewRegistry P ''risk-decision-consumer'') (register_all P (decision_list (decision_instruments_for P)))"

section \<open>Samples\<close>

text \<open>What the program hands to an instrument: the descriptor and the values of its labels.\<close>

type_synonym sample = "metric_desc \<times> string list"

definition counted :: "instrument \<Rightarrow> string list \<Rightarrow> sample" where
  "counted i values = (in_desc i, values)"

fun decision_samples ::
    "'a unicode_tables_scheme \<Rightarrow> decision_instruments \<Rightarrow> consumer_act \<Rightarrow> sample list" where
  "decision_samples ut i (PollRetry e) = [counted (di_retries i) [''poll'']]"
| "decision_samples ut i (PersistRetry e) = [counted (di_retries i) [''persistence'']]"
| "decision_samples ut i CommitRetry = [counted (di_retries i) [''offset_commit'']]"
| "decision_samples ut i (ObserveRecord d p e has r) =
     [counted (di_records i) [normalizedDisposition ut d], counted (di_processing i) [normalizedDisposition ut d]]
     @ (if has then [counted (di_end_to_end i) [normalizedDisposition ut d]] else [])
     @ [counted (di_lag i) [sr_topic r, show_int (sr_partition r)]]"
| "decision_samples ut i (CommitOffset r) = []"
| "decision_samples ut i AllowRebalance = []"

definition publish_samples :: "outbox_instruments \<Rightarrow> go_error option \<Rightarrow> sample list" where
  "publish_samples i publishErr =
     [counted (oi_attempts i) [publish_label publishErr], counted (oi_duration i) [publish_label publishErr]]"

fun outbox_samples :: "outbox_instruments \<Rightarrow> worker_act \<Rightarrow> sample list" where
  "outbox_samples i (LogRetry e) = [counted (oi_retries i) [''delivery'']]"
| "outbox_samples i (LogQuarantine e) = []"
| "outbox_samples i (Sleep t) = []"

fun http_samples :: "http_instruments \<Rightarrow> http_metric_event \<Rightarrow> sample list" where
  "http_samples i Entered = [counted (hi_in_flight i) []]"
| "http_samples i Left = [counted (hi_in_flight i) []]"
| "http_samples i (Completed l elapsed) =
     [counted (hi_requests i) [rl_method l, rl_route l, rl_status l], counted (hi_duration i) [rl_method l, rl_route l]]"

fun gauge_sample :: "collector_descs \<Rightarrow> gauge \<Rightarrow> sample" where
  "gauge_sample c (CollectSeconds t) = (cd_seconds c, [])"
| "gauge_sample c (CollectSuccess n) = (cd_success c, [])"
| "gauge_sample c (OutboxEvents st n) = (cd_outbox c, [st])"
| "gauge_sample c (RejectedEvents n) = (cd_rejected c, [])"
| "gauge_sample c (PendingReviews n) = (cd_reviews c, [])"

text \<open>A sample that its instrument takes: registered, and with one value for each label.\<close>

definition well_labelled :: "metric_desc list \<Rightarrow> sample \<Rightarrow> bool" where
  "well_labelled reg s \<longleftrightarrow> fst s \<in> set reg \<and> length (snd s) = length (md_labels (fst s))"

section \<open>Registration\<close>

lemma must_register_append:
  "must_register P (as @ bs) reg = Option.bind (must_register P as reg) (must_register P bs)"
  by (induction as arbitrary: reg) (simp_all split: option.splits)

lemma must_register_fresh:
  assumes "prometheus_docs P"
  shows "list_all valid_desc (concat cs) \<Longrightarrow> distinct (map md_name (reg @ concat cs))
    \<Longrightarrow> must_register P cs reg = Some (reg @ concat cs)"
proof (induction cs arbitrary: reg)
  case (Cons c cs)
  have "fresh_names reg c" using Cons.prems by (auto simp: fresh_names_def list_all_iff)
  then have "pm_register P reg c = None" using assms by (simp add: prometheus_docs_def)
  moreover have "must_register P cs (reg @ c) = Some ((reg @ c) @ concat cs)"
    by (rule Cons.IH) (use Cons.prems in \<open>simp_all only: concat.simps append_assoc list_all_append\<close>)
  ultimately show ?case by simp
qed simp

text \<open>The program's own names begin with riskflow, so they clash with no standard collector.\<close>

definition own_descs :: "metric_desc list \<Rightarrow> bool" where
  "own_descs ms \<longleftrightarrow> list_all valid_desc ms \<and> distinct (map md_name ms)
     \<and> list_all (\<lambda>m. take 9 (md_name m) = ''riskflow_'') ms"

lemma names_apart:
  assumes "\<forall>m \<in> set as. take n (md_name m) = x # s" and "\<forall>m \<in> set bs. take n' (md_name m) = x' # s'" and "x \<noteq> x'"
  shows "md_name ` set as \<inter> md_name ` set bs = {}"
proof -
  have "hd (md_name m) = x" if "m \<in> set as" for m
    using assms(1) that by (cases n; cases "md_name m") fastforce+
  moreover have "hd (md_name m) = x'" if "m \<in> set bs" for m
    using assms(2) that by (cases n'; cases "md_name m") fastforce+
  ultimately show ?thesis using assms(3) by fastforce
qed

lemma service_registry:
  assumes "prometheus_docs P" and "own_descs (build_info P service # concat cs)"
  shows "Option.bind (NewRegistry P service) (must_register P cs)
    = Some (pm_go P @ pm_process P @ build_info P service # concat cs)"
proof -
  let ?own = "build_info P service # concat cs" and ?all = "[pm_go P, pm_process P, [build_info P service]] @ cs"
  have go: "list_all valid_desc (pm_go P)" "distinct (map md_name (pm_go P))" "\<forall>m \<in> set (pm_go P). take 3 (md_name m) = ''go_''"
    and pr: "list_all valid_desc (pm_process P)" "distinct (map md_name (pm_process P))"
      "\<forall>m \<in> set (pm_process P). take 8 (md_name m) = ''process_''"
    using assms(1) by (simp_all add: prometheus_docs_def fresh_names_def list_all_iff)
  have own: "list_all valid_desc ?own" "distinct (map md_name ?own)" "\<forall>m \<in> set ?own. take 9 (md_name m) = ''riskflow_''"
    using assms(2) unfolding own_descs_def list_all_iff by blast+
  have "md_name ` set (pm_go P) \<inter> md_name ` set (pm_process P) = {}"
    "md_name ` set (pm_go P) \<inter> md_name ` set ?own = {}" "md_name ` set (pm_process P) \<inter> md_name ` set ?own = {}"
    by (rule names_apart [OF go(3) pr(3)] names_apart [OF go(3) own(3)] names_apart [OF pr(3) own(3)]; simp)+
  then have "distinct (map md_name (pm_go P @ pm_process P @ ?own))"
    unfolding map_append distinct_append set_append set_map image_Un Int_Un_distrib using go(2) pr(2) own(2) by blast
  then have "distinct (map md_name (concat ?all))" by simp
  moreover have "list_all valid_desc (concat ?all)" using go(1) pr(1) own(1) by simp
  ultimately have "must_register P ?all [] = Some (concat ?all)"
    using must_register_fresh [OF assms(1), of ?all "[]"] by (simp del: must_register.simps)
  then show ?thesis unfolding must_register_append NewRegistry_def by (simp del: must_register.simps)
qed

text \<open>The descriptors of the three binaries.\<close>

lemma fq_name_doc:
  assumes "prometheus_docs P"
  shows "name \<noteq> [] \<Longrightarrow> pm_fq_name P ''riskflow'' ss name = ''riskflow_'' @ (if ss = [] then [] else ss @ ''_'') @ name"
  using assms by (simp add: prometheus_docs_def)

lemmas instrument_defs = riskflow_def build_info_def http_list_def http_instruments_for_def outbox_list_def
  outbox_instruments_for_def decision_list_def decision_instruments_for_def Describe_def newPostgresCollector_def

lemma api_descs:
  assumes "prometheus_docs P"
  shows "own_descs (build_info P ''payment-api'' # map in_desc (http_list (http_instruments_for P)) @ Describe newPostgresCollector)"
  by (simp add: instrument_defs fq_name_doc [OF assms]) code_simp

lemma publisher_descs:
  assumes "prometheus_docs P"
  shows "own_descs (build_info P ''outbox-publisher'' # map in_desc (outbox_list (outbox_instruments_for P)))"
  by (simp add: instrument_defs fq_name_doc [OF assms]) code_simp

lemma consumer_descs:
  assumes "prometheus_docs P"
  shows "own_descs (build_info P ''risk-decision-consumer'' # map in_desc (decision_list (decision_instruments_for P)))"
  by (simp add: instrument_defs fq_name_doc [OF assms]) code_simp

lemma bind_register: "Option.bind (Option.bind r (must_register P as)) (must_register P bs)
    = Option.bind r (must_register P (as @ bs))"
  by (cases r) (simp_all add: must_register_append)

lemma api_registers:
  assumes "prometheus_docs P"
  shows "api_registry P = Some (pm_go P @ pm_process P @ build_info P ''payment-api''
    # map in_desc (http_list (http_instruments_for P)) @ Describe newPostgresCollector)"
  using service_registry [OF assms, of "''payment-api''"
      "map (\<lambda>i. [in_desc i]) (http_list (http_instruments_for P)) @ [Describe newPostgresCollector]"]
    api_descs [OF assms]
  by (simp add: api_registry_def register_all_def bind_register [symmetric] concat_map_singleton)

lemma publisher_registers:
  assumes "prometheus_docs P"
  shows "publisher_registry P = Some (pm_go P @ pm_process P @ build_info P ''outbox-publisher''
    # map in_desc (outbox_list (outbox_instruments_for P)))"
  using service_registry [OF assms, of "''outbox-publisher''" "map (\<lambda>i. [in_desc i]) (outbox_list (outbox_instruments_for P))"]
    publisher_descs [OF assms]
  by (simp add: publisher_registry_def register_all_def [abs_def] concat_map_singleton)

lemma consumer_registers:
  assumes "prometheus_docs P"
  shows "consumer_registry P = Some (pm_go P @ pm_process P @ build_info P ''risk-decision-consumer''
    # map in_desc (decision_list (decision_instruments_for P)))"
  using service_registry [OF assms, of "''risk-decision-consumer''"
      "map (\<lambda>i. [in_desc i]) (decision_list (decision_instruments_for P))"]
    consumer_descs [OF assms]
  by (simp add: consumer_registry_def register_all_def [abs_def] concat_map_singleton)

section \<open>Samples and counters\<close>

text \<open>The samples of an act are what the counters of the model count.\<close>

lemma own_distinct: "own_descs (m # ms) \<Longrightarrow> distinct ms"
  by (simp add: own_descs_def distinct_map)

lemma distinct_instruments:
  assumes "prometheus_docs P"
  shows "distinct (map in_desc (decision_list (decision_instruments_for P)))"
    and "distinct (map in_desc (outbox_list (outbox_instruments_for P)))"
    and "distinct (map in_desc (http_list (http_instruments_for P)))"
  using own_distinct [OF consumer_descs [OF assms]] own_distinct [OF publisher_descs [OF assms]]
    own_distinct [OF api_descs [OF assms]] by simp_all

lemma decision_samples_counted:
  assumes "prometheus_docs P"
  shows "dm_records (decision_metric ut act m) l = dm_records m l
      + count_list (decision_samples ut (decision_instruments_for P) act) (counted (di_records (decision_instruments_for P)) [l])"
    and "dm_retries (decision_metric ut act m) l = dm_retries m l
      + count_list (decision_samples ut (decision_instruments_for P) act) (counted (di_retries (decision_instruments_for P)) [l])"
  using distinct_instruments(1) [OF assms]
  by (cases act; force simp: decision_list_def counted_def IncrementRetry_def ObserveDecision_def increment_def Let_def)+

lemma outbox_samples_counted:
  assumes "prometheus_docs P"
  shows "om_retries (outbox_metric act m) l = om_retries m l
      + count_list (outbox_samples (outbox_instruments_for P) act) (counted (oi_retries (outbox_instruments_for P)) [l])"
    and "om_attempts (ObservePublish (publish_label err) t m) l = om_attempts m l
      + count_list (publish_samples (outbox_instruments_for P) err) (counted (oi_attempts (outbox_instruments_for P)) [l])"
  using distinct_instruments(2) [OF assms]
  by (cases act; force simp: outbox_list_def counted_def IncrementOutboxRetry_def ObservePublish_def increment_def
      publish_samples_def)+

lemma http_samples_counted:
  assumes "prometheus_docs P"
  shows "hm_requests (http_metric ev m) l = hm_requests m l
      + count_list (http_samples (http_instruments_for P) ev)
          (counted (hi_requests (http_instruments_for P)) [rl_method l, rl_route l, rl_status l])"
  using distinct_instruments(3) [OF assms]
  by (cases ev; force simp: http_list_def counted_def)

section \<open>No panic\<close>

lemma samples_labelled:
  assumes "set (map in_desc (http_list (http_instruments_for P))) \<subseteq> set reg"
  shows "list_all (well_labelled reg) (http_samples (http_instruments_for P) ev)"
  using assms by (cases ev) (auto simp: well_labelled_def counted_def http_list_def http_instruments_for_def riskflow_def)

lemma outbox_labelled:
  assumes "set (map in_desc (outbox_list (outbox_instruments_for P))) \<subseteq> set reg"
  shows "list_all (well_labelled reg) (outbox_samples (outbox_instruments_for P) act)"
    and "list_all (well_labelled reg) (publish_samples (outbox_instruments_for P) err)"
  using assms
  by (cases act; auto simp: publish_samples_def well_labelled_def counted_def outbox_list_def outbox_instruments_for_def
      riskflow_def)+

lemma decision_labelled:
  assumes "set (map in_desc (decision_list (decision_instruments_for P))) \<subseteq> set reg"
  shows "list_all (well_labelled reg) (decision_samples ut (decision_instruments_for P) act)"
  using assms
  by (cases act) (auto simp: well_labelled_def counted_def decision_list_def decision_instruments_for_def riskflow_def)

lemma scrape_labelled:
  assumes "set (Describe newPostgresCollector) \<subseteq> set reg"
  shows "list_all (well_labelled reg) (map (gauge_sample newPostgresCollector) (Collect elapsed loaded))"
    and "distinct (map (gauge_sample newPostgresCollector) (Collect elapsed loaded))"
  using assms
  by (cases loaded; simp add: Collect_def well_labelled_def Describe_def newPostgresCollector_def)+

text \<open>
  C31: no binary is stopped by its metrics.  Under the documented rules of the Prometheus library
  every registration of the three binaries is accepted; every sample that the middleware, the
  collector, the publisher and the consumer hand over belongs to a registered descriptor and has one
  value for each of its labels; no scrape holds two samples of the collector with the same name and
  labels; and the buckets of every histogram are strictly increasing.
\<close>

theorem metrics_never_panic:
  assumes "prometheus_docs P"
  shows "(\<exists>reg. api_registry P = Some reg
       \<and> list_all (well_labelled reg) (http_samples (http_instruments_for P) ev)
       \<and> list_all (well_labelled reg) (map (gauge_sample newPostgresCollector) (Collect elapsed loaded)))
     \<and> (\<exists>reg. publisher_registry P = Some reg
       \<and> list_all (well_labelled reg) (outbox_samples (outbox_instruments_for P) wact)
       \<and> list_all (well_labelled reg) (publish_samples (outbox_instruments_for P) err))
     \<and> (\<exists>reg. consumer_registry P = Some reg
       \<and> list_all (well_labelled reg) (decision_samples ut (decision_instruments_for P) act))
     \<and> distinct (map (gauge_sample newPostgresCollector) (Collect elapsed loaded))
     \<and> list_all (\<lambda>i. sorted_wrt (<) (in_buckets i)) (http_list (http_instruments_for P)
         @ outbox_list (outbox_instruments_for P) @ decision_list (decision_instruments_for P))"
proof (intro conjI)
  show "list_all (\<lambda>i. sorted_wrt (<) (in_buckets i)) (http_list (http_instruments_for P)
         @ outbox_list (outbox_instruments_for P) @ decision_list (decision_instruments_for P))"
    using assms by (simp add: instrument_defs prometheus_docs_def)
  show "distinct (map (gauge_sample newPostgresCollector) (Collect elapsed loaded))"
    by (rule scrape_labelled(2)) (rule subset_refl)
qed (auto simp: api_registers [OF assms] publisher_registers [OF assms] consumer_registers [OF assms]
    intro!: samples_labelled outbox_labelled decision_labelled scrape_labelled(1))

text \<open>A library that behaves as documented: it accepts exactly what is valid and new.\<close>

definition sample_desc :: "string \<Rightarrow> metric_desc" where
  "sample_desc name = \<lparr>md_name = name, md_help = ''Help.'', md_labels = [], md_consts = []\<rparr>"

definition sample_prom :: prom_lib where
  "sample_prom =
     \<lparr>pm_fq_name = (\<lambda>n ss name. n @ ''_'' @ (if ss = [] then [] else ss @ ''_'') @ name),
      pm_go = [sample_desc ''go_goroutines'', sample_desc ''go_threads''],
      pm_process = [sample_desc ''process_open_fds''],
      pm_def_buckets = [1/10, 1, 10],
      pm_register = (\<lambda>reg new. if fresh_names reg new then None else Some (Msg ''duplicate or invalid descriptor''))\<rparr>"

lemma sample_prom_docs: "prometheus_docs sample_prom"
proof -
  have "fresh_names [] (pm_go sample_prom)" "fresh_names [] (pm_process sample_prom)" by code_simp+
  then show ?thesis by (simp add: prometheus_docs_def sample_prom_def sample_desc_def)
qed

theorem metrics_never_panic_witness:
  "\<exists>reg. consumer_registry sample_prom = Some reg \<and> length reg = 9
     \<and> list_all (well_labelled reg) (decision_samples sample_lib (decision_instruments_for sample_prom) (PollRetry (Msg ''broker'')))"
  using metrics_never_panic [OF sample_prom_docs, where act = "PollRetry (Msg ''broker'')" and ut = sample_lib]
    consumer_registers [OF sample_prom_docs]
  by (auto simp: sample_prom_def decision_list_def)

end
