(* ===== verification/Spec2Isabelle.thy ===== *)
theory Spec2Isabelle
  imports Json_Fuel Outbox_Concurrent Decision_Concurrent Reconciliation Http_Service Resources Registry
begin

text \<open>
  RiskFlow: the Go services of a payment risk platform (services/payment-api) over one PostgreSQL
  database, modelled from their sources.

  THE PROGRAM.  A client posts a payment to the API (cmd/api).  One transaction stores the payment
  as PENDING_RISK and an event in the table outbox_events; a second POST with the same
  Idempotency-Key finds the stored payment.  The outbox publisher (cmd/outbox-publisher) claims due
  events one by one, sends each to the Kafka topic payments.created and marks it published, with a
  growing delay after failures and a quarantine for events that can never be sent.  A risk service
  that is not part of this model answers on risk.decisions.  The decision consumer
  (cmd/risk-decision-consumer) stores each record in one transaction: the decision, the new status
  of the payment, an audit event, a queue entry when the decision is REVIEW, and a receipt for the
  Kafka coordinate; it quarantines what it cannot apply and commits the offset only afterwards.
  Reviewers list and resolve queue entries through the API, with optimistic locking.  A reconciler
  (cmd/decision-reconciler) compares the tables and reports control breaks; the dashboard reads one
  snapshot of all of it.

  THE MODEL.  A value of \<open>db\<close> is the content of the tables; a transaction is a function from an
  environment and a \<open>db\<close> to a result and a \<open>db\<close>, and a rollback returns the \<open>db\<close> it got.  The
  environment \<open>pg_env\<close> says for every statement of the transaction, numbered in program order,
  whether the driver reports an error, what COMMIT answers (it may fail although the transaction was
  committed), and what clock_timestamp() returns.  Errors are values of \<open>go_error\<close> in the left
  of a sum, with the sentinels, wrappers and structs of the program, and \<open>errors_is\<close> and the \<open>as_\<close>
  functions follow the chain.  Loops are recursive functions over the list of what their iterations
  meet (\<open>run_worker\<close> over \<open>tick\<close>s, \<open>run_consumer\<close> over \<open>poll_tick\<close>s, \<open>persist\<close> over attempts): a
  theorem about all lists is one about all finite parts of a run.  Durations are 64-bit words, other
  Go integers are unbounded with their range checked where it matters, strings are lists of bytes.

  THE THEORIES, in the order in which they build on each other:

  Go_Prelude, Go_Strings, Go_Errors, Go_Time, Go_Json, Go_Settings: what the program uses of Go's
  standard library (UTF-8, trimming, case folding, integer texts, error chains, instants, JSON with
  Go's rules for duplicate, unknown and case-folded names and for timestamps, which are read from
  the literal without decoding its escapes; host and port, durations).
  Json_Roundtrip: parsing a printed value gives it back.  Json_Fuel: the fuel of the JSON parser,
  twice the length of its input plus two, is never what refuses a text.
  Tables, Schema: tables as lists, transactions, the constraints of database/migrations;
  \<open>valid_db\<close> says that they hold, and every statement of the services keeps it.
  Identifiers: payment/id.go, correlation/context.go, the UUIDs of payment/service.go.
  Payment_Domain: payment/model.go, validation.go, fingerprint.go.  Payment_Store:
  payment/postgres_repository.go; its interface is the locale \<open>payment_repository\<close>.
  Payment_Service: payment/service.go, with idempotency proved for every such repository.
  Outbox_Event: outbox/event.go, message.go.  Outbox_Store: outbox/postgres_store.go.
  Outbox_Worker: outbox/worker.go; at-least-once delivery is proved in the locale \<open>outbox_store\<close>.
  Decision_Event, Decision_Codec: decision/event.go, the decoder and its inverse.  Decision_Store:
  decision/postgres_store.go.  Lifecycle: \<open>consistent\<close>, the invariant that ties statuses, decisions
  and queue together, and what \<open>Apply\<close> and \<open>Reject\<close> do to it.  Decision_Worker: decision/worker.go
  and kafka_consumer.go; its store is the locale \<open>decision_store\<close>.
  Reconciliation: decision/reconciliation.go.
  Review_Auth: review/auth.go.  Review, Review_Lifecycle: review/model.go, service.go and
  postgres_repository.go; the single winner is proved in the locale \<open>review_repository\<close>.
  System: the steps of all services on one database, \<open>reachable\<close> databases, and the abstract life
  cycle \<open>astep\<close> of a payment that every step refines.  Progress: no payment is stuck.
  History: no step rewrites what it found; the triggers of the migrations on the tables of
  decisions, receipts and audit events (\<open>immutable_kept\<close>) never refuse a statement of the services.
  Outbox_Concurrent: any number of publishers whose transactions interleave and which crash or lose
  their connections; what they do to the database is serial, so the results about \<open>reachable\<close>
  databases hold for them too.
  Decision_Concurrent: any number of decision consumers that hold an outdated answer of their first
  SELECT when they get the lock of the payment; the database stays consistent, and the second of
  two consumers with one record finds that there is nothing left to do.
  Dashboard: dashboard/.  Http_Api, Http_Router, Http_Service: httpapi/ and
  observability/request.go, from the delivered request to the answer, composed with the services.
  Config: config/.  Metrics: the counters of observability/ and the PostgreSQL collector.
  Processes: server/, database/, the clients' options and the binaries under cmd/ with their exit
  codes.  Resources: the frames of the binaries' functions, in which constructors acquire and only
  \<open>defer\<close> or \<open>Close\<close> give back, and that nothing is left open on any way out.  Registry:
  observability/registry.go and the descriptors of all metrics; no registration, sample or scrape
  of a binary can be refused.
  Each locale is interpreted on the PostgreSQL model of its operations in the same theory.

  THE LEMMAS.  For each store: a valid database stays valid; the effect of an operation as a
  relation between the databases before and after (\<open>Apply_effect\<close>, \<open>Resolve_effect\<close>, ...), from
  which atomicity follows; and the answer for every state.  For each loop: what it keeps, when it
  ends, what it does when nothing fails.  For each codec: exactly what it accepts, and that what it
  prints is accepted.  For the whole: every reachable database is consistent and audited, payments
  move along the allowed statuses only, requests are steps of the system, and a reviewer's token is
  needed for a resolution.

  PARAMETERS. \<open>golib\<close> and \<open>pglib\<close> hold what is not in the sources: Unicode
  tables, SHA-256, RFC 3339 times, decimal and binary floating point, %q, the jsonb type of the
  server; \<open>settings_lib\<close> the fraction and the text of a duration; the average and the
  collation of the server, the drivers' constructors and the network are arguments, and so is the
  Prometheus library (\<open>prom_lib\<close>). Where a property needs a law of them it is a named
  hypothesis: \<open>digest_32\<close> (a digest has 32 bytes), \<open>foreign\<close> (a driver's
  error is none of the program's own), \<open>time_plain\<close> and \<open>time_reads_back\<close>,
  \<open>float_reads_back\<close>, \<open>prometheus_docs\<close>. The records
  \<open>sample_lib\<close>, \<open>sample_settings_lib\<close> and \<open>sample_prom\<close> show
  that they can hold.

  WHAT IS SIMPLIFIED. Transactions are serial, except those of the publishers, where SKIP LOCKED
  appears as the set of events that the others hold, and those of the decision consumers up to the
  first row lock or insert. Clocks are arbitrary except where a property names an order. A path
  reaches the router as net/http has cleaned it, HEAD answers keep their body, and each timeout
  appears as the error of the call that it ends. VARCHAR values with trailing blanks beyond the
  limit are refused instead of cut. The text of a ParseDuration error is reduced to a fixed message.
  json.Marshal refuses a time outside the years 0 to 9999 (\<open>time_marshals\<close>) where the code
  handles its error: in Fingerprint, in the payload of a new payment and in the envelope of an
  outbox event. The answers of the API and the report of the reconciler, whose encoder's error is
  dropped or comes after the first bytes, are taken to show such times only. A request whose path is
  not clean (//v1/payments) is answered by net/http with a redirect before it reaches a handler.

  NOT MODELLED. Logging and tracing have no effect on answers; a signal appears as the
  cancellation that it causes. The text format of Prometheus, the Kafka client, the connection pool and net/http are libraries. Indexes other than
  the unique ones have no effect on answers. The Python risk service and streaming jobs, the
  TypeScript dashboard, scripts and down migrations are other programs.
\<close>

section \<open>Properties of the whole system\<close>

text \<open>
  C9: in every database that the services can reach from the empty one, with arbitrary requests,
  Kafka records, reviewers, clocks and failures, all constraints of the schema hold; a payment has
  at most one decision, and its status is the one that the decision and its review entail; exactly
  the REVIEW decisions have a queue entry; and the audit trail is complete: every decision has its
  RISK_DECISION_RECORDED event, and a review has the event of its resolution exactly when it was
  resolved that way.
\<close>

theorem reachable_consistent:
  assumes "reachable L d"
  shows "consistent d \<and> audited d"
  using reachable_invariant [OF assms] .

theorem reachable_consistent_witness:
  "\<exists>x d. run_attempt sample_lib sample_attempt empty_db = (Inr x, d) \<and> consistent d \<and> audited d"
  using sample_created reachable_consistent by blast

text \<open>
  C12: every step of the system is a step of the specification of a payment's life: it leaves all
  statuses alone, or one new payment appears as PENDING_RISK, or one PENDING_RISK payment is
  decided, or one payment under review is allowed or blocked.
\<close>

theorem steps_refine:
  assumes "reachable L d" and "step L d d'"
  shows "astep (status_of d) (status_of d')"
  using step_refines [OF assms(2)] reachable_invariant [OF assms(1)] by blast

theorem steps_refine_witness:
  "\<exists>x d. run_attempt sample_lib sample_attempt empty_db = (Inr x, d) \<and> astep (status_of empty_db) (status_of d)"
  using sample_created steps_refine [OF reachable.initially] by blast

text \<open>
  C10: the history of a payment.  From any reachable database on, however many steps follow and
  whatever fails in them, a payment stays stored with the same ID, key, customer, merchant, device,
  amount, currency, country and creation time; its status moves only from PENDING_RISK to ALLOWED,
  BLOCKED or REVIEW and from REVIEW to ALLOWED or BLOCKED; so ALLOWED and BLOCKED are final.
\<close>

theorem payment_history:
  assumes "reachable L d" and "(step L)\<^sup>*\<^sup>* d d'" and "fetch pay_id k (t_payments d) = Some p"
  shows "\<exists>p'. fetch pay_id k (t_payments d') = Some p' \<and> same_order p p'
    \<and> may_follow (pay_status p) (pay_status p')
    \<and> (pay_status p \<in> {''ALLOWED'', ''BLOCKED''} \<longrightarrow> pay_status p' = pay_status p)"
proof -
  from steps_follow [OF assms(2) _ assms(3)] reachable_invariant [OF assms(1)]
  obtain p' where p': "fetch pay_id k (t_payments d') = Some p'" "same_order p p'"
    "may_follow (pay_status p) (pay_status p')" by blast
  moreover have "pay_status p \<in> {''ALLOWED'', ''BLOCKED''} \<longrightarrow> pay_status p' = pay_status p"
    using p'(3) by (auto simp: may_follow_def)
  ultimately show ?thesis by blast
qed

theorem payment_history_witness:
  "\<exists>x d p. run_attempt sample_lib sample_attempt empty_db = (Inr x, d)
     \<and> (\<forall>d'. (step sample_lib)\<^sup>*\<^sup>* d d' \<longrightarrow>
          (\<exists>p'. fetch pay_id (pay_id p) (t_payments d') = Some p' \<and> same_order p p'))"
proof -
  obtain x d where r: "run_attempt sample_lib sample_attempt empty_db = (Inr x, d)" "reachable sample_lib d"
    using sample_created by blast
  have ga: "good_attempt sample_attempt" "normalizeIdempotencyKey (at_key sample_attempt) = Inr ''key-1''"
    by (simp_all add: sample_good_attempt sample_attempt_fields sample_key)
  have "lookup_payment empty_db ''key-1'' = None" by (simp add: empty_lookup)
  from run_attempt_free [OF valid_empty ga this r(1)] obtain q where "lookup_payment d ''key-1'' = Some q" by auto
  then obtain p where "p \<in> set (t_payments d)" by (auto simp: lookup_payment_def dest: fetch_SomeD)
  moreover have "unique_by pay_id (t_payments d)"
    using reachable_invariant [OF r(2)] by (simp add: consistent_def valid_db_def valid_payments_def)
  ultimately have "fetch pay_id (pay_id p) (t_payments d) = Some p" by (simp add: fetch_unique)
  with payment_history [OF r(2) _ this] r(1) show ?thesis by blast
qed

end
